(* ===== verification/Prelude.thy ===== *)
theory Prelude
  imports Main "HOL-Library.Word" "HOL-Library.Multiset"
begin

text \<open>
  Shared vocabulary of the development.

  \<^item> Bytes and strings. A Go \<^verbatim>\<open>byte\<close> (and the SDK's \<^verbatim>\<open>types.U8\<close>) is a HOL \<open>char\<close>, which has
    exactly 256 values; a Go \<^verbatim>\<open>string\<close> and a \<^verbatim>\<open>[]byte\<close> are both lists of them, so Go's
    conversions between the two (and its byte-by-byte copying loops between \<^verbatim>\<open>[]byte\<close> and
    \<^verbatim>\<open>[]types.U8\<close>) are the identity.
  \<^item> Errors. A Go \<^verbatim>\<open>error\<close> is a message and a flag that says whether \<^verbatim>\<open>errors.Is\<close> identifies it
    with the SDK's sentinel \<^verbatim>\<open>chain.ERR_RPC_EMPTY_VALUE\<close>. A result \<open>(x, err)\<close> of which the caller uses
    one half only is a sum (\<open>Inl\<close> the error); where Go callers look at both halves it is a pair.
  \<^item> Outcomes. A call may return, panic (index out of range, nil dereference, division by zero)
    or exhaust the fuel given to a loop that waits for an outside event. In each case the state
    changed so far is kept: \<open>('w, 'a) outcome\<close>.
\<close>

subsection \<open>Types\<close>

type_synonym bytes = string
type_synonym u8 = "8 word"
type_synonym u16 = "16 word"
type_synonym u32 = "32 word"
type_synonym u64 = "64 word"

datatype goerr = GoErr (err_msg: string) (is_empty_value: bool)

abbreviation mk_err :: "string \<Rightarrow> goerr" where
  "mk_err s \<equiv> GoErr s False"

type_synonym 'a result = "goerr + 'a"

datatype ('w, 'a) outcome = Ret 'a 'w | Panic 'w | Spin 'w

text \<open>
  Sequential composition of calls that may panic or run out of fuel, and the state reached.
\<close>

definition andThen :: "('w, 'a) outcome \<Rightarrow> ('a \<Rightarrow> 'w \<Rightarrow> ('w, 'b) outcome) \<Rightarrow> ('w, 'b) outcome" where
  "andThen m f = (case m of Ret a w \<Rightarrow> f a w | Panic w \<Rightarrow> Panic w | Spin w \<Rightarrow> Spin w)"

fun outcome_state :: "('w, 'a) outcome \<Rightarrow> 'w" where
  "outcome_state (Ret a w) = w"
| "outcome_state (Panic w) = w"
| "outcome_state (Spin w) = w"

fun returned :: "('w, 'a) outcome \<Rightarrow> 'a option" where
  "returned (Ret a w) = Some a"
| "returned (Panic w) = None"
| "returned (Spin w) = None"

lemma andThen_simps [simp]:
  "andThen (Ret a w) f = f a w"
  "andThen (Panic w) f = Panic w"
  "andThen (Spin w) f = Spin w"
  by (simp_all add: andThen_def)

lemma returned_Some: "returned m = Some a \<Longrightarrow> m = Ret a (outcome_state m)"
  by (cases m) auto

lemma andThen_eq_Ret:
  "andThen m f = Ret b w' \<longleftrightarrow> (\<exists>a w. m = Ret a w \<and> f a w = Ret b w')"
  by (cases m) auto

lemma andThen_assoc: "andThen (andThen m f) g = andThen m (\<lambda>a w. andThen (f a w) g)"
  by (cases m) simp_all

lemma andThen_cong [fundef_cong]:
  "m = m' \<Longrightarrow> (\<And>a w. m' = Ret a w \<Longrightarrow> f a w = f' a w) \<Longrightarrow> andThen m f = andThen m' f'"
  by (cases m') auto

text \<open>A relation on states that is kept by every step is kept by their composition.\<close>

lemma andThen_state:
  assumes "R w (outcome_state m)"
    and "\<And>a w'. m = Ret a w' \<Longrightarrow> R w (outcome_state (f a w'))"
  shows "R w (outcome_state (andThen m f))"
  using assms by (cases m) auto

subsection \<open>Collections of rewrite rules\<close>

named_theorems str_simps \<open>evaluation of the string routines\<close>
named_theorems fs_simps \<open>lookups after file-system operations\<close>
named_theorems frame_simps \<open>fields of the state an operation leaves alone\<close>

subsection \<open>Lists, options and association lists\<close>

lemma map_of_filter_key: "map_of (filter (\<lambda>(k, v). P k) xs) k = (if P k then map_of xs k else None)"
  by (induction xs) auto

lemma distinct_filter_keys: "distinct (map fst xs) \<Longrightarrow> distinct (map fst (filter P xs))"
  by (simp add: distinct_map_filter)

lemma mset_filter_perm: "mset xs = mset ys \<Longrightarrow> mset (filter P xs) = mset (filter P ys)"
  by simp

lemma find_Some_iff_mem:
  "find P xs = Some x \<Longrightarrow> x \<in> set xs \<and> P x"
  by (auto simp: find_Some_iff)

lemma find_None_all: "find P xs = None \<longleftrightarrow> (\<forall>x \<in> set xs. \<not> P x)"
  by (auto simp: find_None_iff)

lemma concat_map_singleton_filter: "concat (map (\<lambda>x. if P x then [f x] else []) xs) = map f (filter P xs)"
  by (induction xs) auto

lemma take_append_drop_slices:
  "i \<le> j \<Longrightarrow> take (j - i) (drop i xs) @ drop j xs = drop i xs"
  by (metis append_take_drop_id drop_drop le_add_diff_inverse2)

subsection \<open>Words\<close>

lemma unat_of_nat_small: "n < 2 ^ LENGTH('a::len) \<Longrightarrow> unat (of_nat n :: 'a word) = n"
  by (simp add: unat_of_nat take_bit_nat_eq_self)

end
