(* ===== verification/GoFiles.thy ===== *)
theory GoFiles
  imports GoStrings "HOL-Library.AList" "HOL-Library.Sublist" "HOL-Library.List_Lexorder"
    "HOL-Library.Char_ord"
begin

text \<open>
  Go's \<^verbatim>\<open>path/filepath\<close> (on Unix) and the file-system calls of package \<^verbatim>\<open>os\<close> that the miner makes.

  A file system is a finite list of nodes keyed by absolute paths, a path being the list of its
  components; \<open>resolve\<close> is how the operating system reads a path string (relative paths start
  at the root, the empty string names no file; there are no symbolic links). The second field says which calls fail for a
  reason outside the model (permissions, a full or broken disk): a call fails on a path when
  \<open>ffault\<close> says so for that kind of call. Every operation reports its error as a value.
\<close>

subsection \<open>filepath.Clean, Join, Base\<close>

type_synonym path = "string list"

definition safe_name :: "string \<Rightarrow> bool" where
  "safe_name n \<longleftrightarrow> n \<noteq> [] \<and> n \<noteq> ''.'' \<and> n \<noteq> ''..'' \<and> CHR ''/'' \<notin> set n"

fun clean_comps :: "bool \<Rightarrow> path \<Rightarrow> string list \<Rightarrow> path" where
  "clean_comps rooted st [] = rev st"
| "clean_comps rooted st (c # cs) =
     (if c = [] \<or> c = ''.'' then clean_comps rooted st cs
      else if c = ''..'' then
        (case st of
           [] \<Rightarrow> clean_comps rooted (if rooted then [] else [''..'']) cs
         | t # ts \<Rightarrow> clean_comps rooted (if t = ''..'' then ''..'' # st else ts) cs)
      else clean_comps rooted (c # st) cs)"

definition resolve :: "string \<Rightarrow> path" where
  "resolve s = clean_comps True [] (Split s (CHR ''/''))"

definition Clean :: "string \<Rightarrow> string" where
  "Clean s = (case s of
      [] \<Rightarrow> ''.''
    | c # _ \<Rightarrow> (if c = CHR ''/'' then CHR ''/'' # join_with (CHR ''/'') (resolve s)
               else (case clean_comps False [] (Split s (CHR ''/'')) of
                       [] \<Rightarrow> ''.'' | cs \<Rightarrow> join_with (CHR ''/'') cs)))"

definition Join :: "string list \<Rightarrow> string" where
  "Join es = (case dropWhile (\<lambda>e. e = []) es of [] \<Rightarrow> [] | es' \<Rightarrow> Clean (join_with (CHR ''/'') es'))"

definition Base :: "string \<Rightarrow> string" where
  "Base s = (if s = [] then ''.''
     else (case rev (dropWhile (\<lambda>c. c = CHR ''/'') (rev s)) of
             [] \<Rightarrow> ''/'' | t \<Rightarrow> last (Split t (CHR ''/''))))"

definition rooted :: "string \<Rightarrow> bool" where
  "rooted s \<longleftrightarrow> s \<noteq> [] \<and> hd s = CHR ''/''"

lemma clean_comps_safe:
  "list_all safe_name st \<Longrightarrow> (\<And>c. c \<in> set cs \<Longrightarrow> CHR ''/'' \<notin> set c) \<Longrightarrow> list_all safe_name (clean_comps True st cs)"
proof (induction cs arbitrary: st)
  case Nil
  then show ?case by (simp add: list.pred_set)
next
  case (Cons c cs)
  have "CHR ''/'' \<notin> set c" and "\<And>c. c \<in> set cs \<Longrightarrow> CHR ''/'' \<notin> set c" using Cons.prems by auto
  then show ?case using Cons.prems Cons.IH
    by (auto simp: safe_name_def split: list.split)
qed

lemma resolve_safe: "list_all safe_name (resolve s)"
  unfolding resolve_def by (rule clean_comps_safe) (auto dest: Split_no_sep)

lemma clean_comps_id: "list_all safe_name cs \<Longrightarrow> clean_comps r st cs = rev st @ cs"
  by (induction cs arbitrary: st) (auto simp: safe_name_def)

lemma clean_comps_append:
  "clean_comps True st (cs @ ds) = clean_comps True (rev (clean_comps True st cs)) ds"
  by (induction cs arbitrary: st) (auto split: list.split)

lemma Split_append: "Split (s @ CHR ''/'' # t) (CHR ''/'') = Split s (CHR ''/'') @ Split t (CHR ''/'')"
proof (induction s)
  case Nil
  then show ?case by simp
next
  case (Cons x s)
  obtain w ws where "Split s (CHR ''/'') = w # ws" by (cases "Split s (CHR ''/'')") auto
  with Cons show ?case by simp
qed

lemma resolve_append:
  "resolve (s @ CHR ''/'' # t) = clean_comps True (rev (resolve s)) (Split t (CHR ''/''))"
  by (simp add: resolve_def Split_append clean_comps_append)

lemma resolve_join: "list_all safe_name cs \<Longrightarrow> resolve (CHR ''/'' # join_with (CHR ''/'') cs) = cs"
proof (cases cs)
  case Nil
  then show ?thesis by (simp add: resolve_def)
next
  case Cons
  assume safe: "list_all safe_name cs"
  then have "\<forall>w \<in> set cs. CHR ''/'' \<notin> set w" by (auto simp: list.pred_set safe_name_def)
  with Cons have "Split (join_with (CHR ''/'') cs) (CHR ''/'') = cs" by (intro Split_join) auto
  with safe show ?thesis by (simp add: resolve_def clean_comps_id)
qed

lemma resolve_Clean: "rooted s \<Longrightarrow> resolve (Clean s) = resolve s"
  by (auto simp: Clean_def rooted_def resolve_join resolve_safe split: list.split)

lemma rooted_Clean: "rooted s \<Longrightarrow> rooted (Clean s)"
  by (auto simp: Clean_def rooted_def split: list.split)

lemma rooted_append: "rooted s \<Longrightarrow> rooted (s @ t)"
  by (auto simp: rooted_def)

lemma rooted_join_with: "rooted s \<Longrightarrow> rooted (join_with c (s # es))"
  by (cases es) (auto simp: rooted_def)

lemma Join_rooted_Cons: "rooted s \<Longrightarrow> Join (s # es) = Clean (join_with (CHR ''/'') (s # es))"
  by (auto simp: Join_def rooted_def)

lemma rooted_Join: "rooted s \<Longrightarrow> rooted (Join (s # es))"
  by (simp add: Join_rooted_Cons rooted_Clean rooted_join_with)

text \<open>Resolving a joined path walks from the resolved directory along the components of the
  second element: this is where \<^verbatim>\<open>..\<close> components of the second element escape the directory.\<close>

lemma resolve_Join2:
  "rooted s \<Longrightarrow> resolve (Join [s, t]) = clean_comps True (rev (resolve s)) (Split t (CHR ''/''))"
  by (simp add: Join_rooted_Cons resolve_Clean rooted_append resolve_append)

lemma resolve_Join3:
  assumes "rooted s"
  shows "resolve (Join [s, t, u])
    = clean_comps True (rev (resolve s)) (Split t (CHR ''/'') @ Split u (CHR ''/''))"
proof -
  have "resolve (s @ CHR ''/'' # t @ CHR ''/'' # u)
      = clean_comps True (rev (resolve s)) (Split (t @ CHR ''/'' # u) (CHR ''/''))"
    by (rule resolve_append)
  then show ?thesis
    using assms by (simp add: Join_rooted_Cons resolve_Clean rooted_append Split_append)
qed

lemma Split_safe: "safe_name n \<Longrightarrow> Split n (CHR ''/'') = [n]"
  by (simp add: safe_name_def Split_single)

lemma resolve_Join2_safe [simp]:
  "rooted s \<Longrightarrow> safe_name n \<Longrightarrow> resolve (Join [s, n]) = resolve s @ [n]"
  by (simp add: resolve_Join2 Split_safe clean_comps_id del: clean_comps.simps)

lemma resolve_Join3_safe [simp]:
  "rooted s \<Longrightarrow> safe_name m \<Longrightarrow> safe_name n \<Longrightarrow> resolve (Join [s, m, n]) = resolve s @ [m, n]"
  by (simp add: resolve_Join3 Split_safe clean_comps_id del: clean_comps.simps)

lemma Clean_idem: "rooted s \<Longrightarrow> Clean (Clean s) = Clean s"
proof -
  assume r: "rooted s"
  then obtain t where s: "s = CHR ''/'' # t" by (cases s) (auto simp: rooted_def)
  have "Clean s = CHR ''/'' # join_with (CHR ''/'') (resolve s)" by (simp add: Clean_def s)
  moreover have "Clean (CHR ''/'' # join_with (CHR ''/'') (resolve s))
      = CHR ''/'' # join_with (CHR ''/'') (resolve (CHR ''/'' # join_with (CHR ''/'') (resolve s)))"
    by (simp add: Clean_def)
  ultimately show ?thesis by (simp add: resolve_join resolve_safe)
qed

subsection \<open>Nodes and errors\<close>

datatype node = DirNode | FileNode (node_data: bytes)

datatype fsop = OpStat | OpOpen | OpRead | OpWrite | OpMkdir | OpRemove | OpRename | OpGlob | OpSync

record fs =
  fnodes :: "(path \<times> node) list"
  ffault :: "fsop \<Rightarrow> path \<Rightarrow> bool"

record fileInfo =
  fi_size :: nat
  fi_isdir :: bool

definition err_noent :: goerr where "err_noent = mk_err ''no such file or directory''"
definition err_io :: goerr where "err_io = mk_err ''input/output error''"
definition err_notdir :: goerr where "err_notdir = mk_err ''not a directory''"
definition err_isdir :: goerr where "err_isdir = mk_err ''is a directory''"
definition err_exist :: goerr where "err_exist = mk_err ''file exists''"
definition err_notempty :: goerr where "err_notempty = mk_err ''directory not empty''"
definition err_pattern :: goerr where "err_pattern = mk_err ''syntax error in pattern''"

definition node_at :: "fs \<Rightarrow> path \<Rightarrow> node option" where
  "node_at fs p = map_of (fnodes fs) p"

definition put_node :: "fs \<Rightarrow> path \<Rightarrow> node \<Rightarrow> fs" where
  "put_node fs p nd = fs\<lparr>fnodes := AList.update p nd (fnodes fs)\<rparr>"

definition del_nodes :: "fs \<Rightarrow> (path \<Rightarrow> bool) \<Rightarrow> fs" where
  "del_nodes fs P = fs\<lparr>fnodes := filter (\<lambda>(q, nd). \<not> P q) (fnodes fs)\<rparr>"

definition is_dir :: "fs \<Rightarrow> path \<Rightarrow> bool" where
  "is_dir fs p \<longleftrightarrow> node_at fs p = Some DirNode"

definition file_at :: "fs \<Rightarrow> path \<Rightarrow> bytes option" where
  "file_at fs p = (case node_at fs p of Some (FileNode d) \<Rightarrow> Some d | _ \<Rightarrow> None)"

lemma node_at_put [fs_simps]: "node_at (put_node fs p nd) q = (if q = p then Some nd else node_at fs q)"
  by (simp add: node_at_def put_node_def update_conv')

lemma node_at_del [fs_simps]: "node_at (del_nodes fs P) q = (if P q then None else node_at fs q)"
  by (simp add: node_at_def del_nodes_def map_of_filter_key [of "\<lambda>q. \<not> P q"])

lemma fault_put [simp]: "ffault (put_node fs p nd) = ffault fs"
  by (simp add: put_node_def)

lemma fault_del [simp]: "ffault (del_nodes fs P) = ffault fs"
  by (simp add: del_nodes_def)

subsection \<open>Package os\<close>

definition os_Stat :: "fs \<Rightarrow> string \<Rightarrow> fileInfo result" where
  "os_Stat fs s = (let p = resolve s in
     if s = [] then Inl err_noent
     else if ffault fs OpStat p then Inl err_io
     else (case node_at fs p of
             None \<Rightarrow> Inl err_noent
           | Some DirNode \<Rightarrow> Inr \<lparr>fi_size = 0, fi_isdir = True\<rparr>
           | Some (FileNode d) \<Rightarrow> Inr \<lparr>fi_size = length d, fi_isdir = False\<rparr>))"

definition os_Open :: "fs \<Rightarrow> string \<Rightarrow> goerr option" where
  "os_Open fs s = (let p = resolve s in
     if ffault fs OpOpen p then Some err_io
     else if s = [] \<or> node_at fs p = None then Some err_noent else None)"

definition os_ReadFile :: "fs \<Rightarrow> string \<Rightarrow> bytes result" where
  "os_ReadFile fs s = (let p = resolve s in
     if s = [] then Inl err_noent
     else if ffault fs OpOpen p \<or> ffault fs OpRead p then Inl err_io
     else (case node_at fs p of
             None \<Rightarrow> Inl err_noent
           | Some DirNode \<Rightarrow> Inl err_isdir
           | Some (FileNode d) \<Rightarrow> Inr d))"

text \<open>Opening with \<^verbatim>\<open>O_CREATE|O_TRUNC|O_WRONLY\<close>: the file exists and is empty afterwards.\<close>

definition os_OpenTrunc :: "fs \<Rightarrow> string \<Rightarrow> fs \<times> goerr option" where
  "os_OpenTrunc fs s = (let p = resolve s in
     if ffault fs OpOpen p then (fs, Some err_io)
     else if is_dir fs p then (fs, Some err_isdir)
     else if p = [] \<or> node_at fs (butlast p) = None then (fs, Some err_noent)
     else if \<not> is_dir fs (butlast p) then (fs, Some err_notdir)
     else (put_node fs p (FileNode []), None))"

text \<open>Open, write everything, close; a failing write leaves the truncated file behind.\<close>

definition os_WriteFile :: "fs \<Rightarrow> string \<Rightarrow> bytes \<Rightarrow> fs \<times> goerr option" where
  "os_WriteFile fs s d = (case os_OpenTrunc fs s of
      (fs1, Some e) \<Rightarrow> (fs1, Some e)
    | (fs1, None) \<Rightarrow>
        (if ffault fs1 OpWrite (resolve s) then (fs1, Some err_io)
         else (put_node fs1 (resolve s) (FileNode d), None)))"

definition os_Mkdir :: "fs \<Rightarrow> string \<Rightarrow> fs \<times> goerr option" where
  "os_Mkdir fs s = (let p = resolve s in
     if ffault fs OpMkdir p then (fs, Some err_io)
     else if node_at fs p \<noteq> None then (fs, Some err_exist)
     else if p = [] \<or> node_at fs (butlast p) = None then (fs, Some err_noent)
     else if \<not> is_dir fs (butlast p) then (fs, Some err_notdir)
     else (put_node fs p DirNode, None))"

fun mkdirs :: "fs \<Rightarrow> path list \<Rightarrow> fs \<times> goerr option" where
  "mkdirs fs [] = (fs, None)"
| "mkdirs fs (p # ps) =
     (case node_at fs p of
        Some DirNode \<Rightarrow> mkdirs fs ps
      | Some (FileNode _) \<Rightarrow> (fs, Some err_notdir)
      | None \<Rightarrow> if ffault fs OpMkdir p then (fs, Some err_io) else mkdirs (put_node fs p DirNode) ps)"

definition os_MkdirAll :: "fs \<Rightarrow> string \<Rightarrow> fs \<times> goerr option" where
  "os_MkdirAll fs s = (if s = [] then (fs, Some err_noent) else mkdirs fs (prefixes (resolve s)))"

definition os_Remove :: "fs \<Rightarrow> string \<Rightarrow> fs \<times> goerr option" where
  "os_Remove fs s = (let p = resolve s in
     if s = [] then (fs, Some err_noent)
     else if ffault fs OpRemove p then (fs, Some err_io)
     else (case node_at fs p of
             None \<Rightarrow> (fs, Some err_noent)
           | Some (FileNode d) \<Rightarrow> (del_nodes fs (\<lambda>q. q = p), None)
           | Some DirNode \<Rightarrow>
               (if list_ex (\<lambda>(q, nd). strict_prefix p q) (fnodes fs) then (fs, Some err_notempty)
                else (del_nodes fs (\<lambda>q. q = p), None))))"

definition os_RemoveAll :: "fs \<Rightarrow> string \<Rightarrow> fs \<times> goerr option" where
  "os_RemoveAll fs s = (let p = resolve s in
     if s = [] \<or> node_at fs p = None then (fs, None)
     else if ffault fs OpRemove p then (fs, Some err_io)
     else (del_nodes fs (prefix p), None))"

definition move_node :: "fs \<Rightarrow> path \<Rightarrow> path \<Rightarrow> fs" where
  "move_node fs p q = fs\<lparr>fnodes :=
     map (\<lambda>(r, nd). (if prefix p r then q @ drop (length p) r else r, nd))
       (filter (\<lambda>(r, nd). r \<noteq> q) (fnodes fs))\<rparr>"

definition os_Rename :: "fs \<Rightarrow> string \<Rightarrow> string \<Rightarrow> fs \<times> goerr option" where
  "os_Rename fs s t = (let p = resolve s; q = resolve t in
     if ffault fs OpRename p \<or> ffault fs OpRename q then (fs, Some err_io)
     else if node_at fs p = None \<or> q = [] \<or> node_at fs (butlast q) = None then (fs, Some err_noent)
     else if \<not> is_dir fs (butlast q) then (fs, Some err_notdir)
     else if p = q then (fs, None)
     else if is_dir fs p then
       (if strict_prefix p q then (fs, Some (mk_err ''invalid argument''))
        else if file_at fs q \<noteq> None then (fs, Some err_notdir)
        else if list_ex (\<lambda>(r, nd). strict_prefix q r) (fnodes fs) then (fs, Some err_notempty)
        else (move_node fs p q, None))
     else if is_dir fs q then (fs, Some err_exist)
     else (put_node (del_nodes fs (\<lambda>r. r = p)) q (FileNode (the (file_at fs p))), None))"

text \<open>\<^verbatim>\<open>filepath.Glob(filepath.Join(dir, "*"))\<close> for a directory whose name has no pattern
  metacharacters: the entries of the directory in byte order. Glob ignores I/O errors; its only
  error, a malformed pattern, is the fault \<open>OpGlob\<close>.\<close>

definition entries :: "fs \<Rightarrow> path \<Rightarrow> string list" where
  "entries fs p = sort (map (\<lambda>(q, nd). last q) (filter (\<lambda>(q, nd). q \<noteq> [] \<and> butlast q = p) (fnodes fs)))"

definition glob_star :: "fs \<Rightarrow> string \<Rightarrow> string list result" where
  "glob_star fs s =
     (if ffault fs OpGlob (resolve s) then Inl err_pattern
      else Inr (map (\<lambda>n. Join [s, n]) (entries fs (resolve s))))"

subsection \<open>What each call does\<close>

definition wf_fs :: "fs \<Rightarrow> bool" where
  "wf_fs fs \<longleftrightarrow> distinct (map fst (fnodes fs)) \<and> is_dir fs []
     \<and> list_all (\<lambda>(p, nd). p \<noteq> [] \<longrightarrow> is_dir fs (butlast p)) (fnodes fs)"

lemma node_at_mem: "node_at fs p = Some nd \<Longrightarrow> (p, nd) \<in> set (fnodes fs)"
  by (simp add: node_at_def map_of_SomeD)

lemma wf_fs_parent: "wf_fs fs \<Longrightarrow> node_at fs p \<noteq> None \<Longrightarrow> p \<noteq> [] \<Longrightarrow> is_dir fs (butlast p)"
  by (force simp: wf_fs_def list.pred_set dest: node_at_mem)

lemma wf_fsI:
  assumes "distinct (map fst (fnodes fs))" and "is_dir fs []"
    and "\<And>p. node_at fs p \<noteq> None \<Longrightarrow> p \<noteq> [] \<Longrightarrow> is_dir fs (butlast p)"
  shows "wf_fs fs"
proof -
  have "node_at fs p \<noteq> None" if "(p, nd) \<in> set (fnodes fs)" for p nd
    using that assms(1) by (simp add: node_at_def)
  with assms show ?thesis by (auto simp: wf_fs_def list.pred_set)
qed

lemma wf_fs_ancestor:
  assumes "wf_fs fs" and "node_at fs q \<noteq> None"
  shows "strict_prefix p q \<Longrightarrow> is_dir fs p"
  using assms(2)
proof (induction q rule: rev_induct)
  case Nil
  then show ?case by simp
next
  case (snoc x q)
  then have "is_dir fs q" using wf_fs_parent [OF assms(1) snoc.prems(2)] by simp
  moreover from snoc.prems(1) have "p = q \<or> strict_prefix p q"
    by (auto simp: strict_prefix_def)
  ultimately show ?case using snoc.IH by (auto simp: is_dir_def)
qed

lemma wf_fs_below_missing:
  assumes "wf_fs fs" and "node_at fs p = None" and "prefix p q"
  shows "node_at fs q = None"
proof (rule ccontr)
  assume q: "node_at fs q \<noteq> None"
  with assms have "strict_prefix p q" by (auto simp: strict_prefix_def)
  with assms q have "is_dir fs p" using wf_fs_ancestor by blast
  with assms show False by (simp add: is_dir_def)
qed

lemma wf_fs_below_file:
  assumes "wf_fs fs" and "node_at fs p = Some (FileNode d)" and "strict_prefix p q"
  shows "node_at fs q = None"
proof (rule ccontr)
  assume "node_at fs q \<noteq> None"
  with assms have "is_dir fs p" using wf_fs_ancestor by blast
  with assms show False by (simp add: is_dir_def)
qed

lemma file_at_Some: "file_at fs p = Some d \<longleftrightarrow> node_at fs p = Some (FileNode d)"
  by (auto simp: file_at_def split: option.splits node.splits)

lemma file_at_put [fs_simps]:
  "file_at (put_node fs p (FileNode d)) q = (if q = p then Some d else file_at fs q)"
  "file_at (put_node fs p DirNode) q = (if q = p then None else file_at fs q)"
  by (simp_all add: file_at_def node_at_put)

lemma os_Stat_Inr:
  "os_Stat fs s = Inr i \<Longrightarrow> node_at fs (resolve s) \<noteq> None"
  by (auto simp: os_Stat_def Let_def split: if_splits option.splits)

lemma os_Stat_file:
  "os_Stat fs s = Inr i \<Longrightarrow> \<not> fi_isdir i \<Longrightarrow> \<exists>d. file_at fs (resolve s) = Some d \<and> fi_size i = length d"
  by (auto simp: os_Stat_def file_at_Some Let_def split: if_splits option.splits node.splits)

lemma os_Stat_dir: "os_Stat fs s = Inr i \<Longrightarrow> fi_isdir i \<longleftrightarrow> is_dir fs (resolve s)"
  by (auto simp: os_Stat_def is_dir_def Let_def split: if_splits option.splits node.splits)

lemma os_ReadFile_Inr: "os_ReadFile fs s = Inr d \<Longrightarrow> file_at fs (resolve s) = Some d"
  by (auto simp: os_ReadFile_def file_at_Some Let_def split: if_splits option.splits node.splits)

subsubsection \<open>Opening and writing\<close>

lemma os_OpenTrunc_ok:
  "os_OpenTrunc fs s = (fs', None) \<Longrightarrow> fs' = put_node fs (resolve s) (FileNode []) \<and> resolve s \<noteq> []
     \<and> is_dir fs (butlast (resolve s)) \<and> \<not> is_dir fs (resolve s)"
  by (auto simp: os_OpenTrunc_def Let_def split: if_splits)

lemma os_OpenTrunc_fail: "os_OpenTrunc fs s = (fs', Some e) \<Longrightarrow> fs' = fs"
  by (auto simp: os_OpenTrunc_def Let_def split: if_splits)

lemma put_node_twice: "node_at (put_node (put_node fs p x) p y) q = node_at (put_node fs p y) q"
  by (simp add: node_at_put)

lemma os_WriteFile_ok:
  "os_WriteFile fs s d = (fs', None) \<Longrightarrow> file_at fs' (resolve s) = Some d"
  by (auto simp: os_WriteFile_def fs_simps split: prod.splits option.splits if_splits)

lemma os_WriteFile_other:
  "os_WriteFile fs s d = (fs', e) \<Longrightarrow> q \<noteq> resolve s \<Longrightarrow> node_at fs' q = node_at fs q"
  by (auto simp: os_WriteFile_def fs_simps dest!: os_OpenTrunc_ok os_OpenTrunc_fail
      split: prod.splits option.splits if_splits)

lemma os_WriteFile_fault: "os_WriteFile fs s d = (fs', e) \<Longrightarrow> ffault fs' = ffault fs"
  by (auto simp: os_WriteFile_def dest!: os_OpenTrunc_ok os_OpenTrunc_fail
      split: prod.splits option.splits if_splits)

subsubsection \<open>Directories\<close>

lemma mkdirs_keeps: "mkdirs fs ps = (fs', e) \<Longrightarrow> node_at fs q \<noteq> None \<Longrightarrow> node_at fs' q = node_at fs q"
  by (induction fs ps rule: mkdirs.induct)
    (auto simp: node_at_put split: option.splits node.splits if_splits)

lemma mkdirs_other: "mkdirs fs ps = (fs', e) \<Longrightarrow> q \<notin> set ps \<Longrightarrow> node_at fs' q = node_at fs q"
  by (induction fs ps rule: mkdirs.induct)
    (auto simp: node_at_put split: option.splits node.splits if_splits)

lemma mkdirs_fault: "mkdirs fs ps = (fs', e) \<Longrightarrow> ffault fs' = ffault fs"
  by (induction fs ps rule: mkdirs.induct) (auto split: option.splits node.splits if_splits)

lemma mkdirs_ok: "mkdirs fs ps = (fs', None) \<Longrightarrow> p \<in> set ps \<Longrightarrow> is_dir fs' p"
proof (induction fs ps rule: mkdirs.induct)
  case (1 fs)
  then show ?case by simp
next
  case (2 fs p' ps)
  show ?case
  proof (cases "node_at fs p'")
    case None
    with 2 have rec: "mkdirs (put_node fs p' DirNode) ps = (fs', None)" by (auto split: if_splits)
    then have "node_at fs' p' = Some DirNode"
      using mkdirs_keeps [OF rec, of p'] by (simp add: node_at_put)
    with 2 None rec show ?thesis by (auto simp: is_dir_def split: if_splits)
  next
    case (Some nd)
    then have nd: "nd = DirNode" and rec: "mkdirs fs ps = (fs', None)"
      using 2(3) by (auto split: node.splits)
    with Some have "node_at fs' p' = Some DirNode"
      using mkdirs_keeps [OF rec, of p'] by simp
    with 2 Some nd rec show ?thesis by (auto simp: is_dir_def)
  qed
qed

lemma mkdirs_new: "mkdirs fs ps = (fs', e) \<Longrightarrow> node_at fs' q = node_at fs q \<or> node_at fs' q = Some DirNode"
  by (induction fs ps rule: mkdirs.induct)
    (auto simp: node_at_put split: option.splits node.splits if_splits)

lemma os_MkdirAll_cases:
  assumes "os_MkdirAll fs s = (fs', e)"
  obtains "s = []" "fs' = fs" "e = Some err_noent" | "mkdirs fs (prefixes (resolve s)) = (fs', e)"
  using assms by (cases "s = []") (simp_all add: os_MkdirAll_def)

lemma os_MkdirAll_ok: "os_MkdirAll fs s = (fs', None) \<Longrightarrow> is_dir fs' (resolve s)"
  by (erule os_MkdirAll_cases) (auto intro: mkdirs_ok)

lemma os_MkdirAll_keeps:
  "os_MkdirAll fs s = (fs', e) \<Longrightarrow> node_at fs q \<noteq> None \<Longrightarrow> node_at fs' q = node_at fs q"
  by (erule os_MkdirAll_cases) (auto dest: mkdirs_keeps)

lemma os_MkdirAll_other:
  "os_MkdirAll fs s = (fs', e) \<Longrightarrow> \<not> prefix q (resolve s) \<Longrightarrow> node_at fs' q = node_at fs q"
  by (erule os_MkdirAll_cases) (auto dest: mkdirs_other [where q = q])

lemma os_MkdirAll_file: "os_MkdirAll fs s = (fs', e) \<Longrightarrow> file_at fs' q = file_at fs q"
proof (erule os_MkdirAll_cases)
  assume m: "mkdirs fs (prefixes (resolve s)) = (fs', e)"
  then show ?thesis
    using mkdirs_new [OF m, of q] mkdirs_keeps [OF m, of q]
    by (cases "node_at fs q") (auto simp: file_at_def)
qed simp

lemma os_MkdirAll_dir: "os_MkdirAll fs s = (fs', e) \<Longrightarrow> is_dir fs q \<Longrightarrow> is_dir fs' q"
  using os_MkdirAll_keeps [of fs s fs' e q] by (simp add: is_dir_def)

lemma os_MkdirAll_fault: "os_MkdirAll fs s = (fs', e) \<Longrightarrow> ffault fs' = ffault fs"
  by (erule os_MkdirAll_cases) (auto dest: mkdirs_fault)

lemma os_Mkdir_ok: "os_Mkdir fs s = (fs', None) \<Longrightarrow> fs' = put_node fs (resolve s) DirNode
    \<and> resolve s \<noteq> [] \<and> is_dir fs (butlast (resolve s)) \<and> node_at fs (resolve s) = None"
  by (auto simp: os_Mkdir_def Let_def split: if_splits)

lemma os_Mkdir_fail: "os_Mkdir fs s = (fs', Some e) \<Longrightarrow> fs' = fs"
  by (auto simp: os_Mkdir_def Let_def split: if_splits)

subsubsection \<open>Removing and renaming\<close>

lemma os_Remove_node:
  "node_at (fst (os_Remove fs s)) q = node_at fs q \<or> (q = resolve s \<and> node_at (fst (os_Remove fs s)) q = None)"
  by (auto simp: os_Remove_def fs_simps Let_def split: option.splits node.splits)

lemma os_Remove_other: "q \<noteq> resolve s \<Longrightarrow> node_at (fst (os_Remove fs s)) q = node_at fs q"
  using os_Remove_node [of fs s q] by auto

lemma os_Remove_fault [simp]: "ffault (fst (os_Remove fs s)) = ffault fs"
  by (auto simp: os_Remove_def Let_def split: option.splits node.splits)

lemma os_RemoveAll_ok:
  "wf_fs fs \<Longrightarrow> s \<noteq> [] \<Longrightarrow> os_RemoveAll fs s = (fs', None) \<Longrightarrow> prefix (resolve s) q \<Longrightarrow> node_at fs' q = None"
  by (auto simp: os_RemoveAll_def fs_simps wf_fs_below_missing Let_def split: if_splits)

lemma os_RemoveAll_other:
  "os_RemoveAll fs s = (fs', e) \<Longrightarrow> \<not> prefix (resolve s) q \<Longrightarrow> node_at fs' q = node_at fs q"
  by (auto simp: os_RemoveAll_def fs_simps Let_def split: if_splits)

lemma os_RemoveAll_fault: "os_RemoveAll fs s = (fs', e) \<Longrightarrow> ffault fs' = ffault fs"
  by (auto simp: os_RemoveAll_def Let_def split: if_splits)

lemma os_RemoveAll_cases:
  "node_at (fst (os_RemoveAll fs s)) q = node_at fs q
     \<or> (prefix (resolve s) q \<and> node_at (fst (os_RemoveAll fs s)) q = None)"
  by (auto simp: os_RemoveAll_def fs_simps Let_def)

lemma os_Rename_file:
  assumes "os_Rename fs s t = (fs', None)" and "file_at fs (resolve s) = Some d"
  shows "file_at fs' (resolve t) = Some d"
proof -
  have "\<not> is_dir fs (resolve s)" using assms(2) by (auto simp: file_at_Some is_dir_def)
  with assms show ?thesis by (auto simp: os_Rename_def fs_simps Let_def split: if_splits)
qed

lemma os_Rename_fail: "os_Rename fs s t = (fs', Some e) \<Longrightarrow> fs' = fs"
  by (auto simp: os_Rename_def Let_def split: if_splits)

lemma os_Rename_file_other:
  assumes "os_Rename fs s t = (fs', e)" and "\<not> is_dir fs (resolve s)"
    and "q \<noteq> resolve s" and "q \<noteq> resolve t"
  shows "node_at fs' q = node_at fs q"
  using assms by (auto simp: os_Rename_def fs_simps Let_def split: if_splits)

lemma os_Rename_ok_dir: "os_Rename fs s t = (fs', None) \<Longrightarrow> is_dir fs (butlast (resolve t)) \<and> resolve t \<noteq> []"
  by (auto simp: os_Rename_def is_dir_def Let_def split: if_splits)

subsubsection \<open>Well-formedness is kept\<close>

lemma butlast_neq: "p \<noteq> [] \<Longrightarrow> p \<noteq> butlast p"
  using arg_cong [of p "butlast p" length] by (cases p) auto

lemma wf_fs_put:
  assumes "wf_fs fs" and "p \<noteq> []" and "is_dir fs (butlast p)"
    and "nd = DirNode \<or> \<not> is_dir fs p"
  shows "wf_fs (put_node fs p nd)"
proof (rule wf_fsI)
  show "distinct (map fst (fnodes (put_node fs p nd)))"
    using assms(1) by (simp add: put_node_def wf_fs_def distinct_update)
  show "is_dir (put_node fs p nd) []"
    using assms by (simp add: is_dir_def node_at_put wf_fs_def)
  fix q assume q: "node_at (put_node fs p nd) q \<noteq> None" "q \<noteq> []"
  show "is_dir (put_node fs p nd) (butlast q)"
  proof (cases "butlast q = p")
    case False
    then show ?thesis using q assms wf_fs_parent [OF assms(1), of q]
      by (auto simp: is_dir_def node_at_put split: if_splits)
  next
    case True
    then have "q \<noteq> p" using q(2) butlast_neq [of q] by auto
    with q have "is_dir fs p" using wf_fs_parent [OF assms(1), of q] True by (auto simp: node_at_put)
    with True assms(4) show ?thesis by (auto simp: is_dir_def node_at_put)
  qed
qed

lemma wf_fs_del:
  assumes "wf_fs fs" and "\<not> P []"
    and "\<And>q. P (butlast q) \<Longrightarrow> q \<noteq> [] \<Longrightarrow> node_at fs q \<noteq> None \<Longrightarrow> P q"
  shows "wf_fs (del_nodes fs P)"
proof (rule wf_fsI)
  show "distinct (map fst (fnodes (del_nodes fs P)))"
    using assms(1) by (simp add: del_nodes_def wf_fs_def distinct_filter_keys)
  show "is_dir (del_nodes fs P) []"
    using assms by (simp add: is_dir_def node_at_del wf_fs_def)
  fix q assume "node_at (del_nodes fs P) q \<noteq> None" "q \<noteq> []"
  then show "is_dir (del_nodes fs P) (butlast q)"
    using assms(3) [of q] wf_fs_parent [OF assms(1), of q]
    by (auto simp: is_dir_def node_at_del split: if_splits)
qed

lemma wf_os_OpenTrunc: "wf_fs fs \<Longrightarrow> os_OpenTrunc fs s = (fs', e) \<Longrightarrow> wf_fs fs'"
  by (cases e) (auto dest!: os_OpenTrunc_ok os_OpenTrunc_fail intro: wf_fs_put)

lemma is_dir_put_file: "p \<noteq> q \<Longrightarrow> is_dir (put_node fs p (FileNode d)) q = is_dir fs q"
  by (simp add: is_dir_def node_at_put)

lemma not_dir_put_file [simp]: "\<not> is_dir (put_node fs p (FileNode d)) p"
  by (simp add: is_dir_def node_at_put)

lemma wf_os_WriteFile: "wf_fs fs \<Longrightarrow> os_WriteFile fs s d = (fs', e) \<Longrightarrow> wf_fs fs'"
  by (auto simp: os_WriteFile_def is_dir_put_file butlast_neq intro!: wf_fs_put
      dest: wf_os_OpenTrunc dest!: os_OpenTrunc_ok os_OpenTrunc_fail
      split: prod.splits option.splits if_splits)

lemma wf_mkdirs:
  assumes "wf_fs fs" and "mkdirs fs ps = (fs', e)"
    and "\<And>p. p \<in> set ps \<Longrightarrow> p = [] \<or> is_dir fs (butlast p) \<or> butlast p \<in> set (takeWhile (\<lambda>q. q \<noteq> p) ps)"
  shows "wf_fs fs'"
  using assms
proof (induction fs ps rule: mkdirs.induct)
  case (1 fs)
  then show ?case by simp
next
  case (2 fs p ps)
  have pre: "p = [] \<or> is_dir fs (butlast p)" using 2(5) [of p] by auto
  have weak: "q = [] \<or> is_dir fs2 (butlast q) \<or> butlast q \<in> set (takeWhile (\<lambda>r. r \<noteq> q) ps)"
    if "q \<in> set ps" and "is_dir fs2 p" and "\<And>r. is_dir fs r \<Longrightarrow> is_dir fs2 r" for q fs2
    using 2(5) [of q] that pre by (cases "p = q") auto
  show ?case
  proof (cases "node_at fs p")
    case None
    then have "p \<noteq> []" using 2(3) by (auto simp: wf_fs_def is_dir_def)
    with None 2(3) pre have wf: "wf_fs (put_node fs p DirNode)" by (auto intro: wf_fs_put)
    show ?thesis
    proof (cases "ffault fs OpMkdir p")
      case True
      with None 2(3,4) show ?thesis by simp
    next
      case False
      show ?thesis
        by (rule 2(1) [OF None False wf])
          (use None False 2(4) in simp, rule weak, auto simp: is_dir_def node_at_put)
    qed
  next
    case (Some nd)
    show ?thesis
    proof (cases nd)
      case DirNode
      show ?thesis
        by (rule 2(2) [OF Some DirNode 2(3)])
          (use Some DirNode 2(4) in simp, rule weak, use Some DirNode in \<open>auto simp: is_dir_def\<close>)
    qed (use 2(3,4) Some in auto)
  qed
qed

lemma takeWhile_prefixes: "p \<in> set (prefixes xs) \<Longrightarrow> p \<noteq> [] \<Longrightarrow> butlast p \<in> set (takeWhile (\<lambda>q. q \<noteq> p) (prefixes xs))"
proof (induction xs rule: rev_induct)
  case Nil
  then show ?case by simp
next
  case (snoc x xs)
  show ?case
  proof (cases "p \<in> set (prefixes xs)")
    case True
    with snoc show ?thesis by (simp add: prefixes_snoc)
  next
    case False
    with snoc.prems have p: "p = xs @ [x]" by (simp add: prefixes_snoc)
    with False have "takeWhile (\<lambda>q. q \<noteq> p) (prefixes xs @ [p]) = prefixes xs"
      by (subst takeWhile_append2) auto
    with p show ?thesis by (simp add: prefixes_snoc)
  qed
qed

lemma wf_os_MkdirAll: "wf_fs fs \<Longrightarrow> os_MkdirAll fs s = (fs', e) \<Longrightarrow> wf_fs fs'"
proof (erule os_MkdirAll_cases)
  assume "wf_fs fs" and "mkdirs fs (prefixes (resolve s)) = (fs', e)"
  then show "wf_fs fs'" by (rule wf_mkdirs) (use takeWhile_prefixes in blast)
qed simp

lemma wf_os_Mkdir: "wf_fs fs \<Longrightarrow> os_Mkdir fs s = (fs', e) \<Longrightarrow> wf_fs fs'"
  by (cases e) (auto dest!: os_Mkdir_ok os_Mkdir_fail intro: wf_fs_put)

lemma wf_os_RemoveAll:
  "wf_fs fs \<Longrightarrow> resolve s \<noteq> [] \<Longrightarrow> os_RemoveAll fs s = (fs', e) \<Longrightarrow> wf_fs fs'"
  by (auto simp: os_RemoveAll_def Let_def split: if_splits intro!: wf_fs_del)
    (metis prefix_order.trans prefixeq_butlast)

lemma wf_os_Remove:
  assumes "wf_fs fs" and "resolve s \<noteq> []"
  shows "wf_fs (fst (os_Remove fs s))"
proof (cases "node_at fs (resolve s)")
  case None
  with assms show ?thesis by (simp add: os_Remove_def Let_def)
next
  case (Some nd)
  have child: "strict_prefix (butlast q) q" if "q \<noteq> []" for q :: path
    using that by (simp add: prefixeq_butlast prefix_order.less_le butlast_neq [symmetric])
  have "wf_fs (del_nodes fs (\<lambda>q. q = resolve s))"
    if "\<And>q. strict_prefix (resolve s) q \<Longrightarrow> node_at fs q = None"
    using assms(1)
  proof (rule wf_fs_del)
    show "[] \<noteq> resolve s" using assms(2) by simp
    show "q = resolve s" if q: "butlast q = resolve s" "q \<noteq> []" "node_at fs q \<noteq> None" for q
      using child [OF q(2)] q that \<open>\<And>q. strict_prefix (resolve s) q \<Longrightarrow> node_at fs q = None\<close> by simp
  qed
  then show ?thesis
    using assms Some
    by (auto simp: os_Remove_def Let_def list_ex_iff wf_fs_below_file split: node.splits)
      (metis (mono_tags, lifting) case_prodI node_at_mem not_Some_eq)
qed

end
