(* ===== verification/Literals.thy ===== *)
theory Literals
  imports GoStrings
begin

text \<open>
  Texts in Go's \<^verbatim>\<open>encoding/json\<close> (Go 1.22, \<^verbatim>\<open>src/go.mod\<close>), with what they need of \<^verbatim>\<open>unicode/utf8\<close>: how a string is written as a
  literal, how a literal is read, and that reading gives back what was written, with invalid bytes replaced.
\<close>

subsection \<open>UTF-8\<close>

abbreviation byte_val :: "char \<Rightarrow> int" where
  "byte_val c \<equiv> of_char c"

definition between :: "int \<Rightarrow> int \<Rightarrow> char \<Rightarrow> bool" where
  "between a b c \<longleftrightarrow> a \<le> byte_val c \<and> byte_val c \<le> b"

text \<open>The second byte of a sequence of three or four bytes, whose range depends on the first.\<close>

definition second_ok :: "char \<Rightarrow> char \<Rightarrow> bool" where
  "second_ok c d \<longleftrightarrow> between (if c = CHR 0xE0 then 0xA0 else if c = CHR 0xF0 then 0x90 else 0x80)
     (if c = CHR 0xED then 0x9F else if c = CHR 0xF4 then 0x8F else 0xBF) d"

text \<open>The number of bytes of the first rune of a text, as \<^verbatim>\<open>utf8.DecodeRune\<close> has it; 0 when it is invalid.\<close>

definition rune_len :: "string \<Rightarrow> nat" where
  "rune_len s = (case s of [] \<Rightarrow> 0 | c # t \<Rightarrow>
     (if byte_val c < 0x80 then 1
      else if between 0xC2 0xDF c then (case t of d # _ \<Rightarrow> if between 0x80 0xBF d then 2 else 0 | _ \<Rightarrow> 0)
      else if between 0xE0 0xEF c then
        (case t of d # e # _ \<Rightarrow> if second_ok c d \<and> between 0x80 0xBF e then 3 else 0 | _ \<Rightarrow> 0)
      else if between 0xF0 0xF4 c then
        (case t of d # e # f # _ \<Rightarrow> if second_ok c d \<and> between 0x80 0xBF e \<and> between 0x80 0xBF f then 4 else 0 | _ \<Rightarrow> 0)
      else 0))"

definition rune_error :: string where
  "rune_error = [CHR 0xEF, CHR 0xBF, CHR 0xBD]"

definition EncodeRune :: "int \<Rightarrow> string" where
  "EncodeRune n =
     (if n < 0x80 then [char_of n]
      else if n < 0x800 then [char_of (0xC0 + n div 64), char_of (0x80 + n mod 64)]
      else if 0xD800 \<le> n \<and> n \<le> 0xDFFF \<or> n > 0x10FFFF then rune_error
      else if n < 0x10000 then [char_of (0xE0 + n div 4096), char_of (0x80 + n div 64 mod 64), char_of (0x80 + n mod 64)]
      else [char_of (0xF0 + n div 262144), char_of (0x80 + n div 4096 mod 64), char_of (0x80 + n div 64 mod 64),
        char_of (0x80 + n mod 64)])"

lemma rune_len_shape:
  assumes "rune_len (c # s) = n" and "0 < n"
  shows "\<exists>u v. s = u @ v \<and> n = Suc (length u) \<and> (\<forall>t. rune_len (c # u @ t) = n)"
proof -
  consider "n = 1" "byte_val c < 0x80"
    | d v where "s = d # v" "n = 2" "\<not> byte_val c < 0x80" "between 0xC2 0xDF c" "between 0x80 0xBF d"
    | d e v where "s = d # e # v" "n = 3" "\<not> byte_val c < 0x80" "\<not> between 0xC2 0xDF c" "between 0xE0 0xEF c" "second_ok c d"
        "between 0x80 0xBF e"
    | d e f v where "s = d # e # f # v" "n = 4" "\<not> byte_val c < 0x80" "\<not> between 0xC2 0xDF c" "\<not> between 0xE0 0xEF c"
        "between 0xF0 0xF4 c" "second_ok c d" "between 0x80 0xBF e" "between 0x80 0xBF f"
    using assms by (fastforce simp: rune_len_def split: if_splits list.splits)
  then show ?thesis
  proof cases
    case 1
    then show ?thesis by (intro exI [of _ "[]"] exI [of _ s]) (simp add: rune_len_def)
  next
    case (2 d v)
    then show ?thesis by (intro exI [of _ "[d]"] exI [of _ v]) (simp add: rune_len_def)
  next
    case (3 d e v)
    then show ?thesis by (intro exI [of _ "[d, e]"] exI [of _ v]) (simp add: rune_len_def)
  next
    case (4 d e f v)
    then show ?thesis by (intro exI [of _ "[d, e, f]"] exI [of _ v]) (simp add: rune_len_def)
  qed
qed

lemma rune_len_take:
  assumes "rune_len (c # s) = n" and "0 < n"
  shows "rune_len (take n (c # s) @ t) = n \<and> n \<le> length (c # s)"
  using rune_len_shape [OF assms] by auto

lemma rune_len_ascii: "byte_val c < 0x80 \<Longrightarrow> rune_len (c # s) = 1"
  by (simp add: rune_len_def)

lemma rune_len_one: "rune_len (c # s) = Suc 0 \<Longrightarrow> byte_val c < 0x80"
  by (auto simp: rune_len_def split: if_splits list.splits)

lemma rune_len_high: "rune_len (c # s) \<noteq> Suc 0 \<Longrightarrow> \<not> byte_val c < 0x80"
  by (auto simp: rune_len_def)

text \<open>Every byte that is not part of a rune is replaced.\<close>

function coerce_utf8 :: "string \<Rightarrow> string" where
  "coerce_utf8 [] = []"
| "coerce_utf8 (c # s) =
     (let n = rune_len (c # s) in (if n = 0 then rune_error else take n (c # s)) @ coerce_utf8 (drop (n - 1) s))"
  by pat_completeness auto
termination by (relation "measure length") auto

definition utf8_Valid :: "string \<Rightarrow> bool" where
  "utf8_Valid s \<longleftrightarrow> coerce_utf8 s = s"

lemma utf8_Valid_ascii: "\<forall>c \<in> set s. byte_val c < 0x80 \<Longrightarrow> utf8_Valid s"
proof (induction s)
  case (Cons c s)
  then show ?case by (simp add: utf8_Valid_def rune_len_ascii Let_def)
qed (simp add: utf8_Valid_def)

subsection \<open>String literals\<close>

definition hex2 :: "char \<Rightarrow> string" where
  "hex2 c = [hex_char (of_char c div 16), hex_char (of_char c mod 16)]"

text \<open>\<^verbatim>\<open>appendString\<close> with the escapes for HTML.\<close>

definition esc_byte :: "char \<Rightarrow> string" where
  "esc_byte c =
     (if c = CHR 0x22 \<or> c = CHR 0x5C then [CHR 0x5C, c]
      else if c = CHR 0x08 then CHR 0x5C # ''b''
      else if c = CHR 0x0C then CHR 0x5C # ''f''
      else if c = CHR 0x0A then CHR 0x5C # ''n''
      else if c = CHR 0x0D then CHR 0x5C # ''r''
      else if c = CHR 0x09 then CHR 0x5C # ''t''
      else if byte_val c < 32 \<or> c = CHR ''<'' \<or> c = CHR ''>'' \<or> c = CHR ''&'' then CHR 0x5C # ''u00'' @ hex2 c
      else [c])"

definition esc_rune :: "string \<Rightarrow> string" where
  "esc_rune r =
     (case r of
        [] \<Rightarrow> CHR 0x5C # ''ufffd''
      | [c] \<Rightarrow> esc_byte c
      | _ \<Rightarrow> if r = [CHR 0xE2, CHR 0x80, CHR 0xA8] then CHR 0x5C # ''u2028''
             else if r = [CHR 0xE2, CHR 0x80, CHR 0xA9] then CHR 0x5C # ''u2029'' else r)"

function escape :: "string \<Rightarrow> string" where
  "escape [] = []"
| "escape (c # s) = (let n = rune_len (c # s) in esc_rune (take n (c # s)) @ escape (drop (n - 1) s))"
  by pat_completeness auto
termination by (relation "measure length") auto

definition quote :: "string \<Rightarrow> string" where
  "quote s = CHR 0x22 # escape s @ [CHR 0x22]"

text \<open>Reading a literal. The four digits of an escaped code unit; a pair of surrogates is one rune, a lone one is replaced.\<close>

fun hex4 :: "string \<Rightarrow> (int \<times> string) option" where
  "hex4 (a # b # c # d # s) =
     (case (hex_val a, hex_val b, hex_val c, hex_val d) of
        (Some w, Some x, Some y, Some z) \<Rightarrow> Some (4096 * int w + 256 * int x + 16 * int y + int z, s)
      | _ \<Rightarrow> None)"
| "hex4 _ = None"

definition low_surrogate :: "string \<Rightarrow> (int \<times> string) option" where
  "low_surrogate s =
     (case s of
        a # b # t \<Rightarrow>
          (if a = CHR 0x5C \<and> b = CHR ''u'' then
             (case hex4 t of Some (m, t') \<Rightarrow> if 0xDC00 \<le> m \<and> m \<le> 0xDFFF then Some (m, t') else None | None \<Rightarrow> None)
           else None)
      | _ \<Rightarrow> None)"

definition unescape_u :: "string \<Rightarrow> (string \<times> string) option" where
  "unescape_u s =
     (case hex4 s of
        None \<Rightarrow> None
      | Some (n, t) \<Rightarrow>
          (if 0xD800 \<le> n \<and> n < 0xDC00 then
             (case low_surrogate t of
                Some (m, t') \<Rightarrow> Some (EncodeRune (0x10000 + (n - 0xD800) * 1024 + (m - 0xDC00)), t')
              | None \<Rightarrow> Some (rune_error, t))
           else Some (EncodeRune n, t)))"

definition unescape :: "string \<Rightarrow> (string \<times> string) option" where
  "unescape s =
     (case s of [] \<Rightarrow> None | c # t \<Rightarrow>
       (if c = CHR 0x22 \<or> c = CHR 0x5C \<or> c = CHR ''/'' then Some ([c], t)
        else if c = CHR ''b'' then Some ([CHR 0x08], t)
        else if c = CHR ''f'' then Some ([CHR 0x0C], t)
        else if c = CHR ''n'' then Some ([CHR 0x0A], t)
        else if c = CHR ''r'' then Some ([CHR 0x0D], t)
        else if c = CHR ''t'' then Some ([CHR 0x09], t)
        else if c = CHR ''u'' then unescape_u t else None))"

lemma hex4_shorter: "hex4 s = Some (n, t) \<Longrightarrow> length t < length s"
  by (induction s rule: hex4.induct) (auto split: option.splits)

lemma unescape_shorter: "unescape s = Some (r, t) \<Longrightarrow> length t < length s"
  by (auto simp: unescape_def unescape_u_def low_surrogate_def dest!: hex4_shorter
      split: list.splits if_splits option.splits)

text \<open>What stands between the quotes, after the first one, with the rest of the text.\<close>

function unquote :: "string \<Rightarrow> (string \<times> string) option" where
  "unquote [] = None"
| "unquote (c # s) =
     (if c = CHR 0x22 then Some ([], s)
      else if c = CHR 0x5C then
        (case unescape s of None \<Rightarrow> None | Some (r, t) \<Rightarrow> map_option (apfst (append r)) (unquote t))
      else if byte_val c < 32 then None
      else let n = rune_len (c # s) in
        map_option (apfst (append (if n = 0 then rune_error else take n (c # s)))) (unquote (drop (n - 1) s)))"
  by pat_completeness auto
termination by (relation "measure length") (auto dest: unescape_shorter)

declare coerce_utf8.simps(2) [simp del] escape.simps(2) [simp del] unquote.simps(2) [simp del]

lemma hex_val_zero: "hex_val (CHR ''0'') = Some 0"
  by (simp add: hex_val_def)

text \<open>Reading what was written gives the text back, with invalid bytes replaced.\<close>

lemma unquote_esc_byte:
  assumes "byte_val c < 0x80"
  shows "unquote (esc_byte c @ t) = map_option (apfst (append [c])) (unquote t)"
proof -
  let ?short = "c = CHR 0x22 \<or> c = CHR 0x5C \<or> c \<in> {CHR 0x08, CHR 0x0C, CHR 0x0A, CHR 0x0D, CHR 0x09}"
  let ?u = "byte_val c < 32 \<or> c = CHR ''<'' \<or> c = CHR ''>'' \<or> c = CHR ''&''"
  show ?thesis
  proof (cases ?short)
    case True
    then show ?thesis by (auto simp: esc_byte_def unquote.simps(2) unescape_def)
  next
    case short: False
    show ?thesis
    proof (cases ?u)
      case u: True
      have "of_char c div 16 < (16::nat)" using of_char_nat_bound [of c] by (simp add: less_mult_imp_div_less)
      then have "hex4 (''00'' @ hex2 c @ t) = Some (16 * int (of_char c div 16) + int (of_char c mod 16), t)"
        by (simp add: hex2_def hex_val_zero)
      also have "16 * int (of_char c div 16) + int (of_char c mod 16) = byte_val c"
        by (metis mult_div_mod_eq of_nat_add of_nat_mult of_nat_numeral of_nat_of_char)
      finally have "unescape_u (''00'' @ hex2 c @ t) = Some ([c], t)"
        using assms by (simp add: unescape_u_def EncodeRune_def)
      moreover have "esc_byte c = CHR 0x5C # ''u00'' @ hex2 c" using short u by (simp add: esc_byte_def)
      ultimately show ?thesis by (simp add: unquote.simps(2) unescape_def)
    next
      case False
      then have "esc_byte c = [c]" using short by (simp add: esc_byte_def)
      then show ?thesis using assms short False by (simp add: unquote.simps(2) rune_len_ascii)
    qed
  qed
qed

lemma unquote_raw:
  assumes "rune_len (c # s) = n" and "Suc 0 < n"
  shows "unquote (take n (c # s) @ t) = map_option (apfst (append (take n (c # s)))) (unquote t)"
proof -
  have len: "rune_len (take n (c # s) @ t) = n" "n \<le> length (c # s)"
    using rune_len_take [OF assms(1)] assms(2) by auto
  have c: "\<not> byte_val c < 0x80" using rune_len_high [of c s] assms by simp
  then have other: "c \<noteq> CHR 0x22" "c \<noteq> CHR 0x5C" "\<not> byte_val c < 32" by auto
  obtain m where m: "n = Suc m" using assms(2) by (cases n) auto
  have "rune_len (c # take m s @ t) = Suc m" "m \<le> length s" using len by (simp_all add: m)
  then show ?thesis using other by (simp add: unquote.simps(2) m)
qed

lemma unquote_special:
  "unquote (CHR 0x5C # ''ufffd'' @ t) = map_option (apfst (append rune_error)) (unquote t)"
  "unquote (CHR 0x5C # ''u2028'' @ t) = map_option (apfst (append [CHR 0xE2, CHR 0x80, CHR 0xA8])) (unquote t)"
  "unquote (CHR 0x5C # ''u2029'' @ t) = map_option (apfst (append [CHR 0xE2, CHR 0x80, CHR 0xA9])) (unquote t)"
proof -
  have "unescape (''ufffd'' @ t) = Some (rune_error, t)"
    "unescape (''u2028'' @ t) = Some ([CHR 0xE2, CHR 0x80, CHR 0xA8], t)"
    "unescape (''u2029'' @ t) = Some ([CHR 0xE2, CHR 0x80, CHR 0xA9], t)"
    by (simp_all add: unescape_def unescape_u_def hex_val_def EncodeRune_def rune_error_def char_of_def)
  then show "unquote (CHR 0x5C # ''ufffd'' @ t) = map_option (apfst (append rune_error)) (unquote t)"
    "unquote (CHR 0x5C # ''u2028'' @ t) = map_option (apfst (append [CHR 0xE2, CHR 0x80, CHR 0xA8])) (unquote t)"
    "unquote (CHR 0x5C # ''u2029'' @ t) = map_option (apfst (append [CHR 0xE2, CHR 0x80, CHR 0xA9])) (unquote t)"
    by (simp_all add: unquote.simps(2))
qed

lemma unquote_esc_rune:
  assumes "rune_len (c # s) = n"
  shows "unquote (esc_rune (take n (c # s)) @ t)
    = map_option (apfst (append (if n = 0 then rune_error else take n (c # s)))) (unquote t)"
proof -
  consider "n = 0" | "n = Suc 0" | "Suc 0 < n" by linarith
  then show ?thesis
  proof cases
    case 1
    then show ?thesis using unquote_special(1) by (simp add: esc_rune_def)
  next
    case 2
    then show ?thesis using unquote_esc_byte rune_len_one assms by (simp add: esc_rune_def)
  next
    case 3
    have "2 \<le> length (take n (c # s))" using rune_len_take [OF assms] 3 by auto
    then have "esc_rune (take n (c # s)) = (if take n (c # s) = [CHR 0xE2, CHR 0x80, CHR 0xA8] then CHR 0x5C # ''u2028''
        else if take n (c # s) = [CHR 0xE2, CHR 0x80, CHR 0xA9] then CHR 0x5C # ''u2029'' else take n (c # s))"
      unfolding esc_rune_def by (cases "take n (c # s)" rule: remdups_adj.cases) auto
    then show ?thesis using 3 unquote_raw [OF assms 3] unquote_special(2,3) [of t] by (simp split del: if_split) auto
  qed
qed

lemma unquote_escape: "unquote (escape s @ CHR 0x22 # r) = Some (coerce_utf8 s, r)"
proof (induction s rule: escape.induct)
  case 1
  then show ?case by (simp add: unquote.simps(2))
next
  case (2 c s)
  then show ?case
    by (simp add: escape.simps(2) coerce_utf8.simps(2) Let_def unquote_esc_rune [OF refl])
qed

end
