(* ===== verification/Json.thy ===== *)
theory Json
  imports Literals
begin

text \<open>
  JSON values, as the miner stores its records: how \<^verbatim>\<open>encoding/json\<close> prints a value and parses a text, that a printed value is
  read back, and that the length of a text bounds the parser's recursion. How Go values are decoded from and encoded to these
  values is in \<open>Codec\<close>.
\<close>

subsection \<open>Values and their texts\<close>

text \<open>A number is kept as its literal; an object keeps the order and the duplicates of its members.\<close>

datatype json =
    JNull
  | JBool bool
  | JNum string
  | JStr string
  | JArr "json list"
  | JObj "(string \<times> json) list"

lemma size_member [termination_simp]: "(k, v) \<in> set kvs \<Longrightarrow> size v < Suc (size_list (size_prod (\<lambda>_. 0) size) kvs)"
  by (induction kvs) auto

fun print :: "json \<Rightarrow> string" where
  "print JNull = ''null''"
| "print (JBool b) = (if b then ''true'' else ''false'')"
| "print (JNum lit) = lit"
| "print (JStr s) = quote s"
| "print (JArr js) = CHR ''['' # join_with (CHR '','') (map print js) @ '']''"
| "print (JObj kvs) = CHR ''{'' # join_with (CHR '','') (map (\<lambda>(k, v). quote k @ CHR '':'' # print v) kvs) @ ''}''"

text \<open>What reading back a printed value gives, and how deep a value is nested.\<close>

fun coerce_json :: "json \<Rightarrow> json" where
  "coerce_json (JStr s) = JStr (coerce_utf8 s)"
| "coerce_json (JArr js) = JArr (map coerce_json js)"
| "coerce_json (JObj kvs) = JObj (map (\<lambda>(k, v). (coerce_utf8 k, coerce_json v)) kvs)"
| "coerce_json j = j"

fun nesting :: "json \<Rightarrow> int" where
  "nesting (JArr js) = 1 + foldr max (map nesting js) 0"
| "nesting (JObj kvs) = 1 + foldr max (map (\<lambda>(k, v). nesting v) kvs) 0"
| "nesting _ = 0"

subsection \<open>Parsing\<close>

definition is_space :: "char \<Rightarrow> bool" where
  "is_space c \<longleftrightarrow> c = CHR '' '' \<or> c = CHR 0x09 \<or> c = CHR 0x0D \<or> c = CHR 0x0A"

definition skip_ws :: "string \<Rightarrow> string" where
  "skip_ws s = dropWhile is_space s"

definition is_digit10 :: "char \<Rightarrow> bool" where
  "is_digit10 c \<longleftrightarrow> between 48 57 c"

text \<open>The parts of a number: the digits of the integer part, of the fraction and of the exponent.\<close>

definition scan_int :: "string \<Rightarrow> (string \<times> string) option" where
  "scan_int s =
     (case s of
        [] \<Rightarrow> None
      | c # t \<Rightarrow>
          (if c = CHR ''0'' then Some ([c], t)
           else if is_digit10 c then Some (takeWhile is_digit10 s, dropWhile is_digit10 s) else None))"

definition scan_digits :: "string \<Rightarrow> string \<Rightarrow> (string \<times> string) option" where
  "scan_digits pre s =
     (case takeWhile is_digit10 s of [] \<Rightarrow> None | ds \<Rightarrow> Some (pre @ ds, dropWhile is_digit10 s))"

definition scan_frac :: "string \<Rightarrow> (string \<times> string) option" where
  "scan_frac s = (case s of c # t \<Rightarrow> if c = CHR ''.'' then scan_digits [c] t else Some ([], s) | [] \<Rightarrow> Some ([], s))"

definition scan_exp :: "string \<Rightarrow> (string \<times> string) option" where
  "scan_exp s =
     (case s of
        c # t \<Rightarrow>
          (if c = CHR ''e'' \<or> c = CHR ''E'' then
             (case t of
                d # u \<Rightarrow> if d = CHR ''+'' \<or> d = CHR ''-'' then scan_digits [c, d] u else scan_digits [c] t
              | [] \<Rightarrow> None)
           else Some ([], s))
      | [] \<Rightarrow> Some ([], s))"

definition scan_number :: "string \<Rightarrow> (json \<times> string) option" where
  "scan_number s =
     (let neg = (case s of c # _ \<Rightarrow> c = CHR ''-'' | [] \<Rightarrow> False) in
      case scan_int (if neg then tl s else s) of
        None \<Rightarrow> None
      | Some (i, t) \<Rightarrow>
          (case scan_frac t of
             None \<Rightarrow> None
           | Some (f, u) \<Rightarrow>
               (case scan_exp u of
                  None \<Rightarrow> None
                | Some (e, v) \<Rightarrow> Some (JNum ((if neg then ''-'' else []) @ i @ f @ e), v))))"

definition scan_word :: "string \<Rightarrow> json \<Rightarrow> string \<Rightarrow> (json \<times> string) option" where
  "scan_word w j s = (if HasPrefix s w then Some (j, drop (length w) s) else None)"

definition scan_string :: "string \<Rightarrow> (string \<times> string) option" where
  "scan_string s = (case s of c # t \<Rightarrow> if c = CHR 0x22 then unquote t else None | [] \<Rightarrow> None)"

definition scan_char :: "char \<Rightarrow> string \<Rightarrow> string option" where
  "scan_char c s = (case skip_ws s of d # t \<Rightarrow> if d = c then Some t else None | [] \<Rightarrow> None)"

text \<open>\<^verbatim>\<open>maxNestingDepth\<close> of the scanner.\<close>

definition max_depth :: int where
  "max_depth = 10000"

text \<open>The first number bounds the length of the text that is left, the second is the depth reached.\<close>

function parse_value :: "nat \<Rightarrow> int \<Rightarrow> string \<Rightarrow> (json \<times> string) option"
  and parse_elems :: "nat \<Rightarrow> int \<Rightarrow> string \<Rightarrow> (json list \<times> string) option"
  and parse_members :: "nat \<Rightarrow> int \<Rightarrow> string \<Rightarrow> ((string \<times> json) list \<times> string) option" where
  "parse_value 0 d s = None"
| "parse_value (Suc n) d s =
     (case skip_ws s of
        [] \<Rightarrow> None
      | c # t \<Rightarrow>
          (if c = CHR 0x22 then map_option (apfst JStr) (unquote t)
           else if c = CHR ''['' then
             (if d \<ge> max_depth then None
              else case scan_char (CHR '']'') t of
                Some u \<Rightarrow> Some (JArr [], u) | None \<Rightarrow> map_option (apfst JArr) (parse_elems n (d + 1) t))
           else if c = CHR ''{'' then
             (if d \<ge> max_depth then None
              else case scan_char (CHR ''}'') t of
                Some u \<Rightarrow> Some (JObj [], u) | None \<Rightarrow> map_option (apfst JObj) (parse_members n (d + 1) t))
           else if c = CHR ''t'' then scan_word ''true'' (JBool True) (c # t)
           else if c = CHR ''f'' then scan_word ''false'' (JBool False) (c # t)
           else if c = CHR ''n'' then scan_word ''null'' JNull (c # t)
           else scan_number (c # t)))"
| "parse_elems 0 d s = None"
| "parse_elems (Suc n) d s =
     (case parse_value (Suc n) d s of
        None \<Rightarrow> None
      | Some (v, t) \<Rightarrow>
          (case scan_char (CHR '','') t of
             Some u \<Rightarrow> map_option (apfst (Cons v)) (parse_elems n d u)
           | None \<Rightarrow> map_option (Pair [v]) (scan_char (CHR '']'') t)))"
| "parse_members 0 d s = None"
| "parse_members (Suc n) d s =
     (case scan_string (skip_ws s) of
        None \<Rightarrow> None
      | Some (k, t) \<Rightarrow>
          (case scan_char (CHR '':'') t of
             None \<Rightarrow> None
           | Some u \<Rightarrow>
               (case parse_value (Suc n) d u of
                  None \<Rightarrow> None
                | Some (v, x) \<Rightarrow>
                    (case scan_char (CHR '','') x of
                       Some y \<Rightarrow> map_option (apfst (Cons (k, v))) (parse_members n d y)
                     | None \<Rightarrow> map_option (Pair [(k, v)]) (scan_char (CHR ''}'') x)))))"
  by pat_completeness auto
termination
  by (relation "measures [case_sum (\<lambda>(n, _). n) (case_sum (\<lambda>(n, _). n) (\<lambda>(n, _). n)), case_sum (\<lambda>_. 0) (case_sum (\<lambda>_. 1) (\<lambda>_. 1))]") auto

definition parse :: "string \<Rightarrow> json option" where
  "parse s =
     (case parse_value (length s) 0 s of
        Some (j, t) \<Rightarrow> if skip_ws t = [] then Some j else None
      | None \<Rightarrow> None)"

subsection \<open>A printed value is read back\<close>

lemma is_digit10_iff: "is_digit10 c \<longleftrightarrow> is_digit c"
proof -
  have "byte_val c = int (of_char c :: nat)" by (rule of_nat_of_char [symmetric])
  then show ?thesis unfolding is_digit10_def between_def is_digit_def by linarith
qed

lemma digit_char_zero: "digit_char 0 = CHR ''0''"
  by code_simp

lemma show_nat_hd: "n \<noteq> 0 \<Longrightarrow> hd (show_nat n) \<noteq> CHR ''0''"
proof (induction n rule: show_nat.induct)
  case (1 n)
  show ?case
  proof (cases "n < 10")
    case True
    have "digit_char n \<noteq> digit_char 0" using digit_char_inj True 1(2) by force
    then show ?thesis using True by (simp add: show_nat.simps [of n] digit_char_zero)
  next
    case False
    then show ?thesis using 1 by (subst show_nat.simps) simp
  qed
qed

lemma show_nat_zero: "show_nat 0 = ''0''"
  by (simp add: show_nat.simps [of 0] digit_char_zero)

definition delimited :: "string \<Rightarrow> bool" where
  "delimited r \<longleftrightarrow> (case r of [] \<Rightarrow> True | c # _ \<Rightarrow> \<not> is_digit c \<and> c \<notin> {CHR ''.'', CHR ''e'', CHR ''E''})"

lemma delimited_simps [simp]:
  "delimited []"
  "delimited (CHR '','' # r)" "delimited (CHR '']'' # r)" "delimited (CHR ''}'' # r)"
  by (simp_all add: delimited_def is_digit_def)

lemma scan_int_show:
  assumes "delimited r"
  shows "scan_int (show_nat n @ r) = Some (show_nat n, r)"
proof (cases "n = 0")
  case True
  then show ?thesis by (simp add: scan_int_def show_nat_zero)
next
  case False
  have all: "\<forall>c \<in> set (show_nat n). is_digit10 c" using show_nat_digits by (auto simp: is_digit10_iff)
  have "takeWhile is_digit10 r = [] \<and> dropWhile is_digit10 r = r"
    using assms by (cases r) (simp_all add: delimited_def is_digit10_iff)
  with all have "takeWhile is_digit10 (show_nat n @ r) = show_nat n" "dropWhile is_digit10 (show_nat n @ r) = r"
    by (simp_all add: takeWhile_append dropWhile_append)
  moreover obtain c s where "show_nat n = c # s" by (cases "show_nat n") auto
  moreover have "c \<noteq> CHR ''0''" using show_nat_hd [OF False] calculation(3) by simp
  ultimately show ?thesis using all by (simp add: scan_int_def)
qed

lemma scan_tail: "delimited r \<Longrightarrow> scan_frac r = Some ([], r) \<and> scan_exp r = Some ([], r)"
  by (cases r) (auto simp: scan_frac_def scan_exp_def delimited_def)

lemma scan_number_show:
  assumes "delimited r"
  shows "scan_number (show_int i @ r) = Some (JNum (show_int i), r)"
proof (cases "i < 0")
  case True
  then show ?thesis using scan_int_show [OF assms] scan_tail [OF assms] by (simp add: scan_number_def show_int_def)
next
  case False
  obtain c s where c: "show_nat (nat i) = c # s" by (cases "show_nat (nat i)") auto
  then have "c \<noteq> CHR ''-''" using show_nat_no_sign by blast
  then show ?thesis using False scan_int_show [OF assms, of "nat i"] scan_tail [OF assms]
    by (simp add: scan_number_def show_int_def c)
qed

text \<open>The numbers the encoder writes are integers.\<close>

fun int_json :: "json \<Rightarrow> bool" where
  "int_json (JNum lit) \<longleftrightarrow> (\<exists>i. lit = show_int i)"
| "int_json (JArr js) \<longleftrightarrow> (\<forall>j \<in> set js. int_json j)"
| "int_json (JObj kvs) \<longleftrightarrow> (\<forall>(k, v) \<in> set kvs. int_json v)"
| "int_json _ \<longleftrightarrow> True"

definition plain_start :: "char \<Rightarrow> bool" where
  "plain_start c \<longleftrightarrow> \<not> is_space c \<and> c \<noteq> CHR '']'' \<and> c \<noteq> CHR ''}''"

lemma show_int_start: "\<exists>c s. show_int i = c # s \<and> plain_start c \<and> (is_digit c \<or> c = CHR ''-'')"
proof (cases "i < 0")
  case True
  then show ?thesis by (simp add: show_int_def plain_start_def is_space_def)
next
  case False
  obtain c s where c: "show_nat (nat i) = c # s" by (cases "show_nat (nat i)") auto
  then have "is_digit c" using show_nat_digits [of c "nat i"] by simp
  then show ?thesis using False c by (auto simp: show_int_def plain_start_def is_space_def is_digit_def)
qed

lemma print_start: "int_json j \<Longrightarrow> \<exists>c s. print j = c # s \<and> plain_start c"
proof (cases j)
  case (JNum lit)
  assume "int_json j"
  then obtain i where "print j = show_int i" using JNum by auto
  then show ?thesis using show_int_start [of i] by auto
qed (auto simp: plain_start_def is_space_def quote_def)

lemma skip_ws_start: "plain_start c \<Longrightarrow> skip_ws (c # s) = c # s"
  by (simp add: skip_ws_def plain_start_def)

lemma skip_ws_simps [simp]:
  "skip_ws [] = []" "skip_ws (CHR '','' # s) = CHR '','' # s" "skip_ws (CHR '']'' # s) = CHR '']'' # s"
  "skip_ws (CHR ''}'' # s) = CHR ''}'' # s" "skip_ws (CHR '':'' # s) = CHR '':'' # s" "skip_ws (CHR 0x22 # s) = CHR 0x22 # s"
  by (simp_all add: skip_ws_def is_space_def)

lemma scan_char_simps [simp]:
  "scan_char (CHR '','') (CHR '','' # s) = Some s" "scan_char (CHR '','') (CHR '']'' # s) = None"
  "scan_char (CHR '','') (CHR ''}'' # s) = None" "scan_char (CHR '']'') (CHR '']'' # s) = Some s"
  "scan_char (CHR ''}'') (CHR ''}'' # s) = Some s" "scan_char (CHR '':'') (CHR '':'' # s) = Some s"
  by (simp_all add: scan_char_def)

lemma scan_char_start: "plain_start c \<Longrightarrow> scan_char (CHR '']'') (c # s) = None \<and> scan_char (CHR ''}'') (c # s) = None"
  by (simp add: scan_char_def skip_ws_start) (simp add: plain_start_def)

lemma foldr_max_le: "foldr max xs (0 :: int) \<le> b \<longleftrightarrow> 0 \<le> b \<and> (\<forall>x \<in> set xs. x \<le> b)"
  by (induction xs) auto

text \<open>What is to be shown of a value: it is read back from any text that starts with it, if the bound on the length is kept.\<close>

definition reads_back :: "json \<Rightarrow> bool" where
  "reads_back j \<longleftrightarrow> (\<forall>n d r. length (print j) \<le> n \<longrightarrow> d + nesting j \<le> max_depth \<longrightarrow> delimited r \<longrightarrow>
     parse_value n d (print j @ r) = Some (coerce_json j, r))"

lemma reads_backD:
  "reads_back j \<Longrightarrow> length (print j) \<le> n \<Longrightarrow> d + nesting j \<le> max_depth \<Longrightarrow> delimited r \<Longrightarrow>
     parse_value n d (print j @ r) = Some (coerce_json j, r)"
  by (simp add: reads_back_def)

lemma parse_elems_print:
  assumes "js \<noteq> []" and "\<forall>j \<in> set js. reads_back j \<and> d + nesting j \<le> max_depth"
    and "length (join_with (CHR '','') (map print js)) < n"
  shows "parse_elems n d (join_with (CHR '','') (map print js) @ CHR '']'' # r) = Some (map coerce_json js, r)"
  using assms
proof (induction js arbitrary: n)
  case (Cons j js)
  from Cons.prems(3) obtain m where n: "n = Suc m" by (cases n) auto
  have j: "reads_back j" "d + nesting j \<le> max_depth" using Cons.prems(2) by auto
  show ?case
  proof (cases "js = []")
    case True
    then show ?thesis using reads_backD [OF j(1) _ j(2)] Cons.prems(3) by (simp add: n del: parse_value.simps)
  next
    case False
    then have cat: "join_with (CHR '','') (map print (j # js)) = print j @ CHR '','' # join_with (CHR '','') (map print js)"
      by (simp add: join_with_Cons)
    have "parse_elems m d (join_with (CHR '','') (map print js) @ CHR '']'' # r) = Some (map coerce_json js, r)"
      using Cons.prems(2,3) cat by (intro Cons.IH [OF False]) (simp_all add: n)
    moreover have "length (print j) \<le> n" using Cons.prems(3) cat by simp
    ultimately show ?thesis unfolding cat using reads_backD [OF j(1) _ j(2)] by (simp add: n del: parse_value.simps)
  qed
qed simp

abbreviation print_member :: "string \<times> json \<Rightarrow> string" where
  "print_member \<equiv> \<lambda>(k, v). quote k @ CHR '':'' # print v"

lemma scan_string_quote: "scan_string (quote k @ t) = Some (coerce_utf8 k, t)"
  by (simp add: scan_string_def quote_def unquote_escape)

lemma skip_ws_quote: "skip_ws (quote k @ t) = quote k @ t"
  by (simp add: quote_def)

lemma parse_members_print:
  assumes "kvs \<noteq> []" and "\<forall>(k, v) \<in> set kvs. reads_back v \<and> d + nesting v \<le> max_depth"
    and "length (join_with (CHR '','') (map print_member kvs)) < n"
  shows "parse_members n d (join_with (CHR '','') (map print_member kvs) @ CHR ''}'' # r)
    = Some (map (\<lambda>(k, v). (coerce_utf8 k, coerce_json v)) kvs, r)"
  using assms
proof (induction kvs arbitrary: n)
  case (Cons m kvs)
  obtain k v where m: "m = (k, v)" by force
  from Cons.prems(3) obtain l where n: "n = Suc l" by (cases n) auto
  have v: "reads_back v" "d + nesting v \<le> max_depth" using Cons.prems(2) by (auto simp: m)
  show ?case
  proof (cases "kvs = []")
    case True
    then show ?thesis using reads_backD [OF v(1) _ v(2)] Cons.prems(3)
      by (simp add: n m scan_string_quote skip_ws_quote del: parse_value.simps)
  next
    case False
    then have cat: "join_with (CHR '','') (map print_member (m # kvs))
        = quote k @ CHR '':'' # print v @ CHR '','' # join_with (CHR '','') (map print_member kvs)"
      by (simp add: join_with_Cons m)
    have "parse_members l d (join_with (CHR '','') (map print_member kvs) @ CHR ''}'' # r)
        = Some (map (\<lambda>(k, v). (coerce_utf8 k, coerce_json v)) kvs, r)"
      using Cons.prems(2,3) cat by (intro Cons.IH [OF False]) (simp_all add: n)
    moreover have "length (print v) \<le> n" using Cons.prems(3) cat by simp
    ultimately show ?thesis unfolding cat using reads_backD [OF v(1) _ v(2)]
      by (simp add: n m scan_string_quote skip_ws_quote del: parse_value.simps)
  qed
qed simp

lemma print_reads_back: "int_json j \<Longrightarrow> reads_back j"
proof (induction j)
  case (JNum lit)
  then obtain i where lit: "lit = show_int i" by auto
  obtain c s where c: "show_int i = c # s" "plain_start c" "is_digit c \<or> c = CHR ''-''" using show_int_start by blast
  then have "c \<notin> {CHR 0x22, CHR ''['', CHR ''{'', CHR ''t'', CHR ''f'', CHR ''n''}" by (auto simp: is_digit_def)
  moreover have "scan_number (c # s @ r) = Some (JNum (c # s), r)" if "delimited r" for r
    using scan_number_show [OF that, of i] by (simp add: c(1))
  ultimately show ?case unfolding reads_back_def lit
    by (auto simp: c(1) skip_ws_start [OF c(2)] dest!: Suc_le_D)
next
  case (JArr js)
  show ?case unfolding reads_back_def
  proof (intro allI impI)
    fix n d r
    assume n: "length (print (JArr js)) \<le> n" and d: "d + nesting (JArr js) \<le> max_depth"
    from n obtain m where m: "n = Suc m" by (auto dest: Suc_le_D)
    have depth: "\<forall>j \<in> set js. d + 1 + nesting j \<le> max_depth" "d < max_depth"
      using d foldr_max_le [of "map nesting js" "max_depth - d - 1"] by auto
    show "parse_value n d (print (JArr js) @ r) = Some (coerce_json (JArr js), r)"
    proof (cases js)
      case Nil
      then show ?thesis using depth(2) by (simp add: m skip_ws_start plain_start_def is_space_def)
    next
      case (Cons j js')
      then obtain c s where c: "join_with (CHR '','') (map print js) @ CHR '']'' # r = c # s" "plain_start c"
        using print_start [of j] JArr.prems by (cases js') auto
      have "parse_elems m (d + 1) (join_with (CHR '','') (map print js) @ CHR '']'' # r) = Some (map coerce_json js, r)"
        using JArr depth(1) n by (intro parse_elems_print) (auto simp: Cons m)
      then show ?thesis using depth(2) scan_char_start [OF c(2)] c(1)
        by (simp add: m skip_ws_start plain_start_def is_space_def)
    qed
  qed
next
  case (JObj kvs)
  show ?case unfolding reads_back_def
  proof (intro allI impI)
    fix n d r
    assume n: "length (print (JObj kvs)) \<le> n" and d: "d + nesting (JObj kvs) \<le> max_depth"
    from n obtain m where m: "n = Suc m" by (auto dest: Suc_le_D)
    have depth: "\<forall>(k, v) \<in> set kvs. d + 1 + nesting v \<le> max_depth" "d < max_depth"
      using d foldr_max_le [of "map (\<lambda>(k, v). nesting v) kvs" "max_depth - d - 1"] by auto
    show "parse_value n d (print (JObj kvs) @ r) = Some (coerce_json (JObj kvs), r)"
    proof (cases kvs)
      case Nil
      then show ?thesis using depth(2) by (simp add: m skip_ws_start plain_start_def is_space_def)
    next
      case (Cons kv kvs')
      obtain k v where kv: "kv = (k, v)" by force
      obtain c s where c: "join_with (CHR '','') (map print_member kvs) @ CHR ''}'' # r = c # s" "plain_start c"
        unfolding Cons kv by (cases kvs') (auto simp: quote_def plain_start_def is_space_def)
      have "parse_members m (d + 1) (join_with (CHR '','') (map print_member kvs) @ CHR ''}'' # r)
          = Some (map (\<lambda>(k, v). (coerce_utf8 k, coerce_json v)) kvs, r)"
        using JObj depth(1) n by (intro parse_members_print) (fastforce simp: Cons m)+
      then show ?thesis using depth(2) scan_char_start [OF c(2)] c(1)
        by (simp add: m skip_ws_start plain_start_def is_space_def)
    qed
  qed
next
  case JNull
  then show ?case
    by (auto simp: reads_back_def skip_ws_def is_space_def scan_word_def dest!: Suc_le_D)
next
  case (JBool b)
  then show ?case
    by (cases b) (auto simp: reads_back_def skip_ws_def is_space_def scan_word_def dest!: Suc_le_D)
next
  case (JStr s)
  then show ?case
    by (auto simp: reads_back_def quote_def unquote_escape dest!: Suc_le_D)
qed

theorem parse_print:
  assumes "int_json j" and "nesting j \<le> max_depth"
  shows "parse (print j) = Some (coerce_json j)"
  using reads_backD [OF print_reads_back [OF assms(1)], of "length (print j)" 0 "[]"] assms(2)
  by (simp add: parse_def)

subsection \<open>The length bounds the parser for every text\<close>

lemma length_skip_ws: "length (skip_ws s) \<le> length s"
  by (simp add: skip_ws_def length_dropWhile_le)

lemma skip_ws_Cons: "skip_ws s = c # t \<Longrightarrow> length t < length s"
  using length_skip_ws [of s] by simp

lemma scan_char_shorter: "scan_char c s = Some t \<Longrightarrow> length t < length s"
  by (auto simp: scan_char_def dest: skip_ws_Cons split: list.splits if_splits)

lemma unquote_shorter: "unquote s = Some (r, t) \<Longrightarrow> length t < length s"
proof (induction s arbitrary: r rule: unquote.induct)
  case (2 c s)
  from 2(3) consider "t = s" | x u r' where "unescape s = Some (x, u)" "unquote u = Some (r', t)" "c \<noteq> CHR 0x22" "c = CHR 0x5C"
    | r' where "unquote (drop (rune_len (c # s) - 1) s) = Some (r', t)" "c \<noteq> CHR 0x22" "c \<noteq> CHR 0x5C" "\<not> byte_val c < 32"
    by (auto simp: unquote.simps(2) Let_def split: if_splits option.splits)
  then show ?case
  proof cases
    case 2: 2
    with "2.IH"(1) [OF _ _ 2(1) refl] unescape_shorter [OF 2(1)] show ?thesis by auto
  next
    case 3
    with "2.IH"(2) [OF _ _ _ refl] show ?thesis by fastforce
  qed simp
qed simp

lemma scan_digits_shorter: "scan_digits p s = Some (r, t) \<Longrightarrow> length t < length s"
proof -
  assume "scan_digits p s = Some (r, t)"
  then have "takeWhile is_digit10 s \<noteq> []" and t: "t = dropWhile is_digit10 s"
    by (auto simp: scan_digits_def split: list.splits)
  moreover have "length (takeWhile is_digit10 s) + length (dropWhile is_digit10 s) = length s"
    by (metis length_append takeWhile_dropWhile_id)
  ultimately show ?thesis by (cases "takeWhile is_digit10 s") auto
qed

lemma scan_int_shorter: "scan_int s = Some (r, t) \<Longrightarrow> length t < length s"
  by (cases s) (auto simp: scan_int_def less_Suc_eq_le length_dropWhile_le split: if_splits)

lemma scan_tail_le:
  "scan_frac s = Some (r, t) \<Longrightarrow> length t \<le> length s" "scan_exp s = Some (r, t) \<Longrightarrow> length t \<le> length s"
  by (auto simp: scan_frac_def scan_exp_def dest!: scan_digits_shorter split: list.splits if_splits)

lemma scan_number_shorter: "scan_number s = Some (j, t) \<Longrightarrow> length t < length s"
  by (cases s) (auto simp: scan_number_def Let_def dest!: scan_int_shorter scan_tail_le split: option.splits if_splits)

lemma scan_word_shorter: "scan_word w j s = Some (j', t) \<Longrightarrow> w \<noteq> [] \<Longrightarrow> length t < length s"
  by (auto simp: scan_word_def HasPrefix_iff split: if_splits)

lemma scan_string_shorter: "scan_string s = Some (k, t) \<Longrightarrow> length t < length s"
  by (auto simp: scan_string_def dest!: unquote_shorter split: list.splits if_splits)

lemma parse_shorter:
  "parse_value n d s = Some (j, t) \<Longrightarrow> length t < length s"
  "parse_elems n d s = Some (js, t) \<Longrightarrow> length t < length s"
  "parse_members n d s = Some (kvs, t) \<Longrightarrow> length t < length s"
proof (induction n d s and n d s and n d s arbitrary: j t and js t and kvs t rule: parse_value_parse_elems_parse_members.induct)
  case (2 n d s)
  obtain c u where c: "skip_ws s = c # u" using "2.prems" by (cases "skip_ws s") auto
  then have "length (c # u) \<le> length s" using length_skip_ws [of s] by simp
  moreover have "length t < length (c # u)"
    using "2.prems" "2.IH" c
    by (auto dest!: unquote_shorter scan_char_shorter scan_word_shorter scan_number_shorter intro: less_SucI
        split: if_splits option.splits)
  ultimately show ?case by simp
next
  case (4 n d s)
  then show ?case by (fastforce dest: scan_char_shorter split: option.splits)
next
  case (6 n d s)
  from "6.prems" obtain k u x v y where k: "scan_string (skip_ws s) = Some (k, u)" "scan_char (CHR '':'') u = Some x"
    and v: "parse_value (Suc n) d x = Some (v, y)"
    by (auto simp del: parse_value.simps split: option.splits)
  have rest: "\<And>z. scan_char (CHR '','') y = Some z \<Longrightarrow> \<exists>kvs'. parse_members n d z = Some (kvs', t)"
      "scan_char (CHR '','') y = None \<Longrightarrow> scan_char (CHR ''}'') y = Some t"
    using "6.prems" k v by (auto simp del: parse_value.simps split: option.splits)
  have "length y < length s"
    using scan_string_shorter [OF k(1)] scan_char_shorter [OF k(2)] "6.IH"(1) [OF k(1) refl k(2) v] length_skip_ws [of s] by simp
  moreover have "length t < length y"
  proof (cases "scan_char (CHR '','') y")
    case None
    then show ?thesis using rest(2) scan_char_shorter by blast
  next
    case (Some z)
    with rest(1) obtain kvs' where "parse_members n d z = Some (kvs', t)" by blast
    from "6.IH"(2) [OF k(1) refl k(2) v refl Some this] show ?thesis using scan_char_shorter [OF Some] by simp
  qed
  ultimately show ?case by simp
qed simp_all

lemma parse_fuel:
  "length s \<le> n \<Longrightarrow> length s \<le> m \<Longrightarrow> parse_value n d s = parse_value m d s"
  "length s \<le> n \<Longrightarrow> length s \<le> m \<Longrightarrow> parse_elems n d s = parse_elems m d s"
  "length s \<le> n \<Longrightarrow> length s \<le> m \<Longrightarrow> parse_members n d s = parse_members m d s"
proof (induction n arbitrary: m d s)
  case 0
  {
    case 1
    then show ?case by (cases m) simp_all
  next
    case 2
    then show ?case by (cases m) simp_all
  next
    case 3
    then show ?case by (cases m) (simp_all add: scan_string_def)
  }
next
  case (Suc n)
  have val: "parse_value (Suc n) d s = parse_value m d s" if s: "length s \<le> Suc n" "length s \<le> m" for m d s
  proof (cases m)
    case 0
    then show ?thesis using s by simp
  next
    case m: (Suc k)
    have u: "parse_elems n d u = parse_elems k d u" "parse_members n d u = parse_members k d u"
      if "skip_ws s = c # u" for c u d
      using skip_ws_Cons [OF that] s m by (auto intro!: Suc.IH)
    show ?thesis
    proof (cases "skip_ws s")
      case (Cons c w)
      then show ?thesis using u [OF Cons] by (simp add: m split: option.split)
    qed (simp add: m)
  qed
  {
    case 1
    then show ?case by (rule val)
  next
    case 2
    show ?case
    proof (cases m)
      case 0
      then show ?thesis using 2 by simp
    next
      case m: (Suc k)
      have "parse_elems n d u = parse_elems k d u"
        if "parse_value (Suc n) d s = Some (v, t)" "scan_char (CHR '','') t = Some u" for v t u
        using parse_shorter(1) [OF that(1)] scan_char_shorter [OF that(2)] 2 m by (intro Suc.IH) auto
      then show ?thesis using val [OF 2] unfolding m by (auto simp del: parse_value.simps split: option.splits)
    qed
  next
    case 3
    show ?case
    proof (cases m)
      case 0
      then show ?thesis using 3 by (simp add: scan_string_def)
    next
      case m: (Suc k)
      have shorter: "length u < length s" if "scan_string (skip_ws s) = Some (l, t)" "scan_char (CHR '':'') t = Some u" for l t u
        using scan_string_shorter [OF that(1)] scan_char_shorter [OF that(2)] length_skip_ws [of s] by simp
      have v: "parse_value (Suc n) d u = parse_value (Suc k) d u"
        if "scan_string (skip_ws s) = Some (l, t)" "scan_char (CHR '':'') t = Some u" for l t u
        using shorter [OF that] 3 m by (intro val) auto
      have "parse_members n d y = parse_members k d y"
        if "scan_string (skip_ws s) = Some (l, t)" "scan_char (CHR '':'') t = Some u"
          "parse_value (Suc k) d u = Some (w, x)" "scan_char (CHR '','') x = Some y" for l t u w x y
        using shorter [OF that(1,2)] parse_shorter(1) [OF that(3)] scan_char_shorter [OF that(4)] 3 m by (intro Suc.IH) auto
      then show ?thesis using v unfolding m by (auto simp del: parse_value.simps split: option.splits)
    qed
  }
qed

end
