(* ===== verification/Codec.thy ===== *)
theory Codec
  imports Json "HOL-Library.Word"
begin

text \<open>
  How Go values are encoded to JSON values and decoded from them: \<^verbatim>\<open>encoding/base64\<close> for byte slices, the decoders of
  \<^verbatim>\<open>encoding/json\<close> for the kinds of fields the miner stores, structures with their tags, and the interface of a codec that gives back
  what it was given.
\<close>

subsection \<open>Base64\<close>

definition b64_char :: "int \<Rightarrow> char" where
  "b64_char n = (if n < 26 then char_of (65 + n) else if n < 52 then char_of (71 + n) else if n < 62 then char_of (n - 4)
     else if n = 62 then CHR ''+'' else CHR ''/'')"

definition b64_val :: "char \<Rightarrow> int option" where
  "b64_val c =
     (if between 65 90 c then Some (byte_val c - 65)
      else if between 97 122 c then Some (byte_val c - 71)
      else if between 48 57 c then Some (byte_val c + 4)
      else if c = CHR ''+'' then Some 62
      else if c = CHR ''/'' then Some 63 else None)"

fun b64_enc :: "bytes \<Rightarrow> string" where
  "b64_enc [] = []"
| "b64_enc [x] = [b64_char (byte_val x div 4), b64_char (byte_val x mod 4 * 16), CHR ''='', CHR ''='']"
| "b64_enc [x, y] =
     [b64_char (byte_val x div 4), b64_char (byte_val x mod 4 * 16 + byte_val y div 16), b64_char (byte_val y mod 16 * 4),
      CHR ''='']"
| "b64_enc (x # y # z # s) =
     b64_char (byte_val x div 4) # b64_char (byte_val x mod 4 * 16 + byte_val y div 16)
       # b64_char (byte_val y mod 16 * 4 + byte_val z div 64) # b64_char (byte_val z mod 64) # b64_enc s"

text \<open>Padding ends the text; bits that are left over are ignored.\<close>

fun b64_quanta :: "string \<Rightarrow> bytes option" where
  "b64_quanta [] = Some []"
| "b64_quanta (a # b # c # d # s) =
     (case (b64_val a, b64_val b) of
        (Some v, Some w) \<Rightarrow>
          (if c = CHR ''='' then if d = CHR ''='' \<and> s = [] then Some [char_of (4 * v + w div 16)] else None
           else (case b64_val c of
              None \<Rightarrow> None
            | Some x \<Rightarrow>
                (if d = CHR ''='' then
                   if s = [] then Some [char_of (4 * v + w div 16), char_of (w mod 16 * 16 + x div 4)] else None
                 else (case b64_val d of
                    None \<Rightarrow> None
                  | Some y \<Rightarrow>
                      map_option (\<lambda>r. char_of (4 * v + w div 16) # char_of (w mod 16 * 16 + x div 4) # char_of (x mod 4 * 64 + y) # r)
                        (b64_quanta s)))))
      | _ \<Rightarrow> None)"
| "b64_quanta _ = None"

definition b64_dec :: "string \<Rightarrow> bytes option" where
  "b64_dec s = b64_quanta (filter (\<lambda>c. c \<noteq> CHR 0x0A \<and> c \<noteq> CHR 0x0D) s)"

lemma b64_char_props:
  assumes "0 \<le> n" and "n < 64"
  shows "b64_val (b64_char n) = Some n" and "b64_char n \<noteq> CHR ''=''"
    and "b64_char n \<noteq> CHR 0x0A" and "b64_char n \<noteq> CHR 0x0D" and "byte_val (b64_char n) < 0x80"
proof -
  consider "n < 26" | "26 \<le> n" "n < 52" | "52 \<le> n" "n < 62" | "n = 62" | "n = 63" using assms by linarith
  then have v: "b64_val (b64_char n) = Some n \<and> byte_val (b64_char n) \<in> {65..90} \<union> {97..122} \<union> {48..57} \<union> {43, 47}"
    using assms by cases (simp_all add: b64_val_def b64_char_def between_def)
  then show "b64_val (b64_char n) = Some n" "byte_val (b64_char n) < 0x80" by auto
  from v show "b64_char n \<noteq> CHR ''=''" "b64_char n \<noteq> CHR 0x0A" "b64_char n \<noteq> CHR 0x0D" by auto
qed

lemma byte_range: "0 \<le> byte_val c \<and> byte_val c < 256"
  using of_char_nonneg of_char_bound by auto

lemma byte_div: "n < 256 \<Longrightarrow> n div 4 < (64 :: int)" "n < 256 \<Longrightarrow> n div 16 < (16 :: int)" "n < 256 \<Longrightarrow> n div 64 < (4 :: int)"
  by presburger+

lemma byte_parts [simp]:
  "0 \<le> byte_val x div 4" "byte_val x div 4 < 64" "0 \<le> byte_val x div 16" "byte_val x div 16 < 16"
  "0 \<le> byte_val x div 64" "byte_val x div 64 < 4"
  using byte_range [of x] by (simp_all add: pos_imp_zdiv_nonneg_iff byte_div)

lemma pack_div: "0 \<le> b \<Longrightarrow> b < m \<Longrightarrow> (a * m + b) div m = (a :: int)"
  by simp

lemma pack_mod: "0 \<le> b \<Longrightarrow> b < m \<Longrightarrow> (a * m + b) mod m = (b :: int)"
  by simp

lemma pack_range:
  "0 \<le> a \<Longrightarrow> a < 4 \<Longrightarrow> 0 \<le> b \<Longrightarrow> b < 16 \<Longrightarrow> 0 \<le> a * 16 + b \<and> a * 16 + b < (64 :: int)"
  "0 \<le> a \<Longrightarrow> a < 16 \<Longrightarrow> 0 \<le> b \<Longrightarrow> b < 4 \<Longrightarrow> 0 \<le> a * 4 + b \<and> a * 4 + b < (64 :: int)"
  by linarith+

text \<open>The six bits of each digit, and the bytes they make.\<close>

lemma b64_digits:
  "0 \<le> byte_val x div 4 \<and> byte_val x div 4 < 64"
  "0 \<le> byte_val x mod 4 * 16 \<and> byte_val x mod 4 * 16 < 64"
  "0 \<le> byte_val x mod 4 * 16 + byte_val y div 16 \<and> byte_val x mod 4 * 16 + byte_val y div 16 < 64"
  "0 \<le> byte_val x mod 16 * 4 \<and> byte_val x mod 16 * 4 < 64"
  "0 \<le> byte_val x mod 16 * 4 + byte_val y div 64 \<and> byte_val x mod 16 * 4 + byte_val y div 64 < 64"
  "0 \<le> byte_val x mod 64 \<and> byte_val x mod 64 < 64"
  using pack_range(1) [of "byte_val x mod 4" 0] pack_range(2) [of "byte_val x mod 16" 0]
    pack_range(1) [of "byte_val x mod 4" "byte_val y div 16"] pack_range(2) [of "byte_val x mod 16" "byte_val y div 64"]
  by simp_all

lemma b64_bytes:
  "4 * (byte_val x div 4) + (byte_val x mod 4 * 16 + byte_val y div 16) div 16 = byte_val x"
  "4 * (byte_val x div 4) + byte_val x mod 4 * 16 div 16 = byte_val x"
  "(byte_val x mod 4 * 16 + byte_val y div 16) mod 16 * 16 + (byte_val y mod 16 * 4 + byte_val z div 64) div 4 = byte_val y"
  "(byte_val x mod 4 * 16 + byte_val y div 16) mod 16 * 16 + byte_val y mod 16 * 4 div 4 = byte_val y"
  "(byte_val x mod 16 * 4 + byte_val y div 64) mod 4 * 64 + byte_val y mod 64 = byte_val y"
  by (simp_all add: pack_div pack_mod)

lemma b64_char_ok:
  assumes "0 \<le> n \<and> n < 64"
  shows "b64_val (b64_char n) = Some n \<and> b64_char n \<noteq> CHR ''='' \<and> b64_char n \<noteq> CHR 0x0A \<and> b64_char n \<noteq> CHR 0x0D
    \<and> byte_val (b64_char n) < 0x80"
  using b64_char_props [of n] assms by simp

lemmas b64_digit_ok = b64_digits [THEN b64_char_ok]

lemma b64_quanta_enc: "b64_quanta (b64_enc bs) = Some bs"
  by (induction bs rule: b64_enc.induct) (simp_all add: b64_digit_ok b64_bytes)

lemma b64_enc_chars: "c \<in> set (b64_enc bs) \<Longrightarrow> c \<noteq> CHR 0x0A \<and> c \<noteq> CHR 0x0D \<and> byte_val c < 0x80"
  by (induction bs rule: b64_enc.induct) (auto simp: b64_digit_ok)

lemma b64_dec_enc: "b64_dec (b64_enc bs) = Some bs"
proof -
  have "filter (\<lambda>c. c \<noteq> CHR 0x0A \<and> c \<noteq> CHR 0x0D) (b64_enc bs) = b64_enc bs"
    using b64_enc_chars by (simp add: filter_id_conv)
  then show ?thesis by (simp add: b64_dec_def b64_quanta_enc)
qed

lemma b64_enc_utf8: "utf8_Valid (b64_enc bs)"
  using b64_enc_chars by (intro utf8_Valid_ascii) blast

lemma b64_enc_Nil_iff: "b64_enc bs = [] \<longleftrightarrow> bs = []"
  by (cases bs rule: b64_enc.cases) simp_all

subsection \<open>Decoding\<close>

text \<open>
  A value that is decoded goes into the place of an old one. A value of the wrong kind leaves the old one, and the first such
  error is reported in the end while the rest is decoded (\<open>Saved\<close>); an error of a type that decodes itself stops the decoder
  (\<open>Abort\<close>).
\<close>

datatype 'a decoded = Done 'a | Saved 'a goerr | Abort 'a goerr

definition type_error :: goerr where
  "type_error = mk_err ''json: cannot unmarshal''"

fun note_error :: "goerr \<Rightarrow> 'a decoded \<Rightarrow> 'a decoded" where
  "note_error e (Done x) = Saved x e"
| "note_error e (Saved x _) = Saved x e"
| "note_error e (Abort x e') = Abort x e'"

definition dec_string :: "string \<Rightarrow> json \<Rightarrow> string decoded" where
  "dec_string old j = (case j of JStr s \<Rightarrow> Done s | JNull \<Rightarrow> Done old | _ \<Rightarrow> Saved old type_error)"

definition dec_bool :: "bool \<Rightarrow> json \<Rightarrow> bool decoded" where
  "dec_bool old j = (case j of JBool b \<Rightarrow> Done b | JNull \<Rightarrow> Done old | _ \<Rightarrow> Saved old type_error)"

text \<open>\<^verbatim>\<open>strconv.ParseUint\<close> on the literal, and the test of the width.\<close>

definition dec_uint :: "('w :: len) word \<Rightarrow> json \<Rightarrow> 'w word decoded" where
  "dec_uint old j =
     (case j of
        JNum lit \<Rightarrow>
          (case parse_nat lit of
             Some n \<Rightarrow> if int n < 2 ^ LENGTH('w) then Done (of_nat n) else Saved old type_error
           | None \<Rightarrow> Saved old type_error)
      | JNull \<Rightarrow> Done old
      | _ \<Rightarrow> Saved old type_error)"

text \<open>The elements of an array go into the places of the elements there were, the others into zero values.\<close>

fun dec_elems :: "('a \<Rightarrow> json \<Rightarrow> 'a decoded) \<Rightarrow> 'a \<Rightarrow> 'a list \<Rightarrow> json list \<Rightarrow> 'a list decoded" where
  "dec_elems d zero old [] = Done []"
| "dec_elems d zero old (j # js) =
     (case d (case old of x # _ \<Rightarrow> x | [] \<Rightarrow> zero) j of
        Done x \<Rightarrow> map_decoded (Cons x) (dec_elems d zero (tl old) js)
      | Saved x e \<Rightarrow> note_error e (map_decoded (Cons x) (dec_elems d zero (tl old) js))
      | Abort x e \<Rightarrow> Abort (x # tl old) e)"

definition dec_list :: "('a \<Rightarrow> json \<Rightarrow> 'a decoded) \<Rightarrow> 'a \<Rightarrow> 'a list \<Rightarrow> json \<Rightarrow> 'a list decoded" where
  "dec_list d zero old j =
     (case j of JArr js \<Rightarrow> dec_elems d zero old js | JNull \<Rightarrow> Done [] | _ \<Rightarrow> Saved old type_error)"

definition dec_byte :: "char \<Rightarrow> json \<Rightarrow> char decoded" where
  "dec_byte old j = map_decoded (\<lambda>w. char_of (uint w)) (dec_uint (word_of_int (byte_val old) :: 8 word) j)"

text \<open>A slice of bytes is a text in base64, or an array of numbers.\<close>

definition dec_bytes :: "bytes \<Rightarrow> json \<Rightarrow> bytes decoded" where
  "dec_bytes old j =
     (case j of
        JStr s \<Rightarrow> (case b64_dec s of Some bs \<Rightarrow> Done bs | None \<Rightarrow> Saved old (mk_err ''illegal base64 data''))
      | _ \<Rightarrow> dec_list dec_byte (CHR 0x00) old j)"

definition dec_ptr :: "('a \<Rightarrow> json \<Rightarrow> 'a decoded) \<Rightarrow> 'a \<Rightarrow> 'a option \<Rightarrow> json \<Rightarrow> 'a option decoded" where
  "dec_ptr d zero old j =
     (if j = JNull then Done None else map_decoded Some (d (case old of Some x \<Rightarrow> x | None \<Rightarrow> zero) j))"

subsection \<open>Structures\<close>

text \<open>
  The fields of a structure with their names and decoders. A key that is no name is compared without regard to case; two runes
  beyond ASCII fold to letters, the sign of Kelvin and the long s.
\<close>

type_synonym 'r fields = "(string \<times> ('r \<Rightarrow> json \<Rightarrow> 'r decoded)) list"

definition field :: "('r \<Rightarrow> 'v) \<Rightarrow> (('v \<Rightarrow> 'v) \<Rightarrow> 'r \<Rightarrow> 'r) \<Rightarrow> ('v \<Rightarrow> json \<Rightarrow> 'v decoded) \<Rightarrow> 'r \<Rightarrow> json \<Rightarrow> 'r decoded" where
  "field get upd d r j = map_decoded (\<lambda>v. upd (\<lambda>_. v) r) (d (get r) j)"

definition fold_byte :: "char \<Rightarrow> char" where
  "fold_byte c = (if between 97 122 c then char_of (byte_val c - 32) else c)"

function fold_name :: "string \<Rightarrow> string" where
  "fold_name [] = []"
| "fold_name (c # s) =
     (if HasPrefix (c # s) [CHR 0xE2, CHR 0x84, CHR 0xAA] then CHR ''K'' # fold_name (drop 2 s)
      else if HasPrefix (c # s) [CHR 0xC5, CHR 0xBF] then CHR ''S'' # fold_name (drop 1 s)
      else fold_byte c # fold_name s)"
  by pat_completeness auto
termination by (relation "measure length") auto

definition find_field :: "'r fields \<Rightarrow> string \<Rightarrow> ('r \<Rightarrow> json \<Rightarrow> 'r decoded) option" where
  "find_field fs k =
     (case map_of fs k of
        Some d \<Rightarrow> Some d
      | None \<Rightarrow> map_of (map (apfst fold_name) fs) (fold_name k))"

fun dec_members :: "'r fields \<Rightarrow> 'r \<Rightarrow> (string \<times> json) list \<Rightarrow> 'r decoded" where
  "dec_members fs r [] = Done r"
| "dec_members fs r ((k, j) # kvs) =
     (case find_field fs k of
        None \<Rightarrow> dec_members fs r kvs
      | Some d \<Rightarrow>
          (case d r j of
             Done r' \<Rightarrow> dec_members fs r' kvs
           | Saved r' e \<Rightarrow> note_error e (dec_members fs r' kvs)
           | Abort r' e \<Rightarrow> Abort r' e))"

definition dec_struct :: "'r fields \<Rightarrow> 'r \<Rightarrow> json \<Rightarrow> 'r decoded" where
  "dec_struct fs old j =
     (case j of JObj kvs \<Rightarrow> dec_members fs old kvs | JNull \<Rightarrow> Done old | _ \<Rightarrow> Saved old type_error)"

subsection \<open>Encoding\<close>

definition enc_uint :: "('w :: len) word \<Rightarrow> json" where
  "enc_uint w = JNum (show_int (uint w))"

definition enc_bytes :: "bytes \<Rightarrow> json" where
  "enc_bytes bs = JStr (b64_enc bs)"

text \<open>\<^verbatim>\<open>omitempty\<close>.\<close>

definition omit_if :: "bool \<Rightarrow> string \<Rightarrow> json \<Rightarrow> (string \<times> json) list" where
  "omit_if none k j = (if none then [] else [(k, j)])"

text \<open>The codec of a type that is not of this program: its \<^verbatim>\<open>MarshalJSON\<close> and \<^verbatim>\<open>UnmarshalJSON\<close>.\<close>

record 'a codec =
  c_enc :: "'a \<Rightarrow> json result"
  c_dec :: "'a \<Rightarrow> json \<Rightarrow> 'a decoded"

subsection \<open>Texts\<close>

definition Marshal :: "('a \<Rightarrow> json result) \<Rightarrow> 'a \<Rightarrow> bytes result" where
  "Marshal enc x = (case enc x of Inl e \<Rightarrow> Inl e | Inr j \<Rightarrow> Inr (print j))"

text \<open>A text that is no JSON leaves the value as it is.\<close>

definition Unmarshal :: "('a \<Rightarrow> json \<Rightarrow> 'a decoded) \<Rightarrow> 'a \<Rightarrow> bytes \<Rightarrow> 'a \<times> goerr option" where
  "Unmarshal dec old buf =
     (case parse buf of
        None \<Rightarrow> (old, Some (mk_err ''invalid JSON''))
      | Some j \<Rightarrow> (case dec old j of Done x \<Rightarrow> (x, None) | Saved x e \<Rightarrow> (x, Some e) | Abort x e \<Rightarrow> (x, Some e)))"

subsection \<open>Codecs\<close>

text \<open>A value that printing and parsing gives back as it is.\<close>

definition plain_json :: "int \<Rightarrow> json \<Rightarrow> bool" where
  "plain_json n j \<longleftrightarrow> int_json j \<and> nesting j \<le> n \<and> coerce_json j = j"

text \<open>What is expected of an encoder and a decoder: a valid value is decoded, in the place of a zero value, from what it is encoded
  to.\<close>

locale json_codec =
  fixes enc :: "'a \<Rightarrow> json result" and dec :: "'a \<Rightarrow> json \<Rightarrow> 'a decoded" and zero :: 'a
    and valid :: "'a \<Rightarrow> bool" and depth :: int
  assumes codec: "valid x \<Longrightarrow> \<exists>j. enc x = Inr j \<and> plain_json depth j \<and> dec zero j = Done x"
    and depth: "depth \<le> max_depth"
begin

lemma Marshal_Unmarshal: "valid x \<Longrightarrow> \<exists>buf. Marshal enc x = Inr buf \<and> Unmarshal dec zero buf = (x, None)"
proof -
  assume "valid x"
  then obtain j where j: "enc x = Inr j" "plain_json depth j" "dec zero j = Done x" using codec by blast
  then have "parse (print j) = Some j" using parse_print [of j] depth by (simp add: plain_json_def)
  then show ?thesis using j by (simp add: Marshal_def Unmarshal_def)
qed

lemma Unmarshal_Marshal: "valid x \<Longrightarrow> Marshal enc x = Inr buf \<Longrightarrow> Unmarshal dec zero buf = (x, None)"
  using Marshal_Unmarshal by fastforce

end

lemma plain_JStr: "plain_json n (JStr s) \<longleftrightarrow> 0 \<le> n \<and> utf8_Valid s"
  by (auto simp: plain_json_def utf8_Valid_def)

lemma plain_enc_uint: "plain_json n (enc_uint w) \<longleftrightarrow> 0 \<le> n"
  by (auto simp: plain_json_def enc_uint_def)

lemma plain_enc_bytes: "plain_json n (enc_bytes bs) \<longleftrightarrow> 0 \<le> n"
  by (simp add: enc_bytes_def plain_JStr b64_enc_utf8)

lemma plain_JBool: "plain_json n (JBool b) \<longleftrightarrow> 0 \<le> n"
  by (auto simp: plain_json_def)

lemma map_fix_iff: "map f xs = xs \<longleftrightarrow> (\<forall>x \<in> set xs. f x = x)"
  by (induction xs) auto

lemma plain_JArr: "plain_json n (JArr js) \<longleftrightarrow> 1 \<le> n \<and> (\<forall>j \<in> set js. plain_json (n - 1) j)"
  using foldr_max_le [of "map nesting js" "n - 1"] by (auto simp: plain_json_def map_fix_iff)

lemma plain_JObj: "plain_json n (JObj kvs) \<longleftrightarrow> 1 \<le> n \<and> (\<forall>(k, v) \<in> set kvs. utf8_Valid k \<and> plain_json (n - 1) v)"
  using foldr_max_le [of "map (\<lambda>(k, v). nesting v) kvs" "n - 1"]
  by (fastforce simp: plain_json_def map_fix_iff utf8_Valid_def)

lemma plain_json_mono: "plain_json m j \<Longrightarrow> m \<le> n \<Longrightarrow> plain_json n j"
  by (simp add: plain_json_def)

lemmas plain_simps = plain_JStr plain_enc_uint plain_enc_bytes plain_JBool plain_JArr plain_JObj

lemma dec_enc_uint [simp]: "dec_uint old (enc_uint w) = Done w"
proof -
  have "show_int (uint w) = show_nat (unat w)" by (simp add: show_int_def)
  moreover have "int (unat w) < 2 ^ LENGTH('a)" by (metis uint_lt2p uint_nat)
  ultimately show ?thesis by (simp add: dec_uint_def enc_uint_def)
qed

lemma dec_enc_bytes [simp]: "dec_bytes old (enc_bytes bs) = Done bs"
  by (simp add: dec_bytes_def enc_bytes_def b64_dec_enc)

lemma dec_string_JStr [simp]: "dec_string old (JStr s) = Done s"
  by (simp add: dec_string_def)

lemma dec_bool_JBool [simp]: "dec_bool old (JBool b) = Done b"
  by (simp add: dec_bool_def)

interpretation string_codec: json_codec "\<lambda>s. Inr (JStr s)" dec_string "[]" utf8_Valid 0
  by unfold_locales (auto simp: plain_simps max_depth_def)

interpretation bytes_codec: json_codec "\<lambda>bs. Inr (enc_bytes bs)" dec_bytes "[]" "\<lambda>_. True" 0
  by unfold_locales (auto simp: plain_simps max_depth_def)

interpretation u32_codec: json_codec "\<lambda>w. Inr (enc_uint w)" dec_uint "0 :: 32 word" "\<lambda>_. True" 0
  by unfold_locales (auto simp: plain_simps max_depth_def)

text \<open>Arrays of what a codec gives back.\<close>

definition enc_list :: "('a \<Rightarrow> json) \<Rightarrow> 'a list \<Rightarrow> json" where
  "enc_list e xs = JArr (map e xs)"

lemma dec_elems_enc:
  assumes "\<forall>x \<in> set xs. d zero (e x) = Done x"
  shows "dec_elems d zero [] (map e xs) = Done xs"
  using assms by (induction xs) auto

lemma list_codec:
  assumes "json_codec (\<lambda>x. Inr (e x)) d zero valid n" and "0 \<le> n" and "n < max_depth"
  shows "json_codec (\<lambda>xs. Inr (enc_list e xs)) (dec_list d zero) [] (list_all valid) (n + 1)"
proof (unfold_locales)
  fix xs
  assume v: "list_all valid xs"
  have "\<forall>x \<in> set xs. plain_json n (e x) \<and> d zero (e x) = Done x"
    using v json_codec.codec [OF assms(1)] by (force simp: list_all_iff)
  then show "\<exists>j. Inr (enc_list e xs) = Inr j \<and> plain_json (n + 1) j \<and> dec_list d zero [] j = Done xs"
    using assms(2) by (simp add: enc_list_def plain_simps dec_list_def dec_elems_enc)
qed (use assms in simp)

interpretation strings_codec: json_codec "\<lambda>xs. Inr (enc_list JStr xs)" "dec_list dec_string []" "[]" "list_all utf8_Valid" 1
  using list_codec [OF string_codec.json_codec_axioms] by (simp add: max_depth_def)

end
