(* ===== verification/NodeTypes.thy ===== *)
theory NodeTypes
  imports GoFiles Codec
begin

text \<open>
  The data the components exchange: the structures of \<^verbatim>\<open>node/common/types.go\<close>, \<^verbatim>\<open>node/podr2.go\<close> and
  \<^verbatim>\<open>node/calctag.go\<close>, the fields the miner uses of the chain SDK's and the protobuf structures, and the
  record \<open>sdk\<close> of the third-party constants and pure functions the code calls.

  Pointers that the code dereferences without a check are options: dereferencing \<open>None\<close> panics.
  Fixed-size arrays (\<^verbatim>\<open>chain.WorkerPublicKey\<close>, \<^verbatim>\<open>chain.BloomFilter\<close>, hashes, accounts) are lists.
\<close>

type_synonym i64 = "64 word"
type_synonym workerPublicKey = bytes
type_synonym accumulator = bytes
type_synonym bloomFilter = "u64 list"
type_synonym chainRandom = bytes

subsection \<open>Structures of the chain SDK\<close>

text \<open>\<^verbatim>\<open>types.Option\<close> of the RPC client: \<^verbatim>\<open>Unwrap\<close> returns the presence flag and the value.\<close>

definition HasValue :: "'a option \<Rightarrow> bool" where
  "HasValue o' = (case o' of None \<Rightarrow> False | Some _ \<Rightarrow> True)"

definition Unwrap :: "'a \<Rightarrow> 'a option \<Rightarrow> bool \<times> 'a" where
  "Unwrap zero o' = (case o' of None \<Rightarrow> (False, zero) | Some x \<Rightarrow> (True, x))"

record fragmentInfo =
  fi_Hash :: string
  fi_Miner :: bytes
  fi_Tag :: "u32 option"

record segmentInfo =
  si_FragmentList :: "fragmentInfo list"

record fileMetadata =
  fm_SegmentList :: "segmentInfo list"

record completeInfo =
  ci_Index :: u8
  ci_Miner :: bytes

record dealSegment =
  ds_FragmentHash :: "string list"

record storageOrder =
  so_SegmentList :: "dealSegment list"
  so_CompleteList :: "completeInfo list"

record chainDigest =
  cd_Fragment :: bytes
  cd_TeePubkey :: bytes

record tagSigInfo =
  ts_Miner :: bytes
  ts_Filehash :: bytes
  ts_Digest :: "chainDigest list"

record spaceProofInfo =
  spi_Miner :: bytes
  spi_Front :: u64
  spi_Rear :: u64
  spi_KeyG :: bytes
  spi_KeyN :: bytes
  spi_Accumulator :: accumulator

record minerItems =
  mi_State :: string
  mi_StakingAccount :: bytes
  mi_BeneficiaryAccount :: bytes
  mi_DeclarationSpace :: u64
  mi_IdleSpace :: u64
  mi_ServiceSpace :: u64
  mi_LockSpace :: u64
  mi_Collaterals :: int
  mi_Endpoint :: string
  mi_SpaceProofInfo :: "spaceProofInfo option"
  mi_TeeSig :: bytes

record workerInfo =
  wi_Pubkey :: workerPublicKey
  wi_Role :: u8

record restoralOrder =
  ro_FileHash :: string
  ro_FragmentHash :: string
  ro_Deadline :: u32

record challengeSnapshot =
  cs_Start :: u32
  cs_IdleSlip :: u32
  cs_ServiceSlip :: u32
  cs_VerifySlip :: u32
  cs_SpaceParam :: "u64 list"
  cs_ServiceIndex :: "u32 list"
  cs_ServiceValue :: "chainRandom list"
  cs_IdleProve :: "bool option option"
  cs_ServiceProve :: "bool option option"
  cs_Front :: u64
  cs_Rear :: u64
  cs_Accumulator :: accumulator
  cs_TeeSig :: bytes

subsection \<open>Messages to and from the TEE workers\<close>

record qslice =
  RandomIndexList :: "u32 list"
  RandomList :: "bytes list"

record requestBatchVerify =
  rb_Names :: "string list"
  rb_Us :: "string list"
  rb_Mus :: "string list"
  rb_Sigma :: string
  rb_MinerId :: bytes
  rb_Qslices :: qslice
  rb_USigs :: "bytes list"
  rb_ServiceBloomFilter :: "u64 list"

record responseBatchVerify =
  rv_TeeAccountId :: bytes
  rv_Signature :: bytes
  rv_ServiceBloomFilter :: "u64 list"
  rv_BatchVerifyResult :: bool

record verifyInServiceFile =
  vf_MinerId :: bytes
  vf_Result :: bool
  vf_Sigma :: string
  vf_ServiceBloomFilter :: "u64 list"
  vf_Signature :: bytes

record requestAggregate =
  ra_History :: "verifyInServiceFile list"
  ra_Qslices :: qslice

record responseAggregate =
  rg_TeeAccountId :: bytes
  rg_Signature :: bytes

record pbT =
  T_Name :: string
  T_U :: string
  T_Phi :: "string list"

record pbTag =
  pt_T :: "pbT option"
  pt_PhiHash :: string
  pt_Attest :: string

record digestInfo =
  di_FragmentName :: bytes
  di_TeeAccountId :: bytes

record genTagMsg =
  gt_Tag :: "pbTag option"
  gt_USig :: bytes
  gt_Signature :: bytes

record requestGenTag =
  rt_FragmentData :: bytes
  rt_FragmentName :: string
  rt_CustomData :: string
  rt_FileName :: string
  rt_MinerId :: bytes
  rt_TeeDigestList :: "digestInfo option list"
  rt_LastTeeSignature :: bytes

record responseGenTag =
  rr_Processing :: bool
  rr_Msg :: "genTagMsg option"

record mhtProof =
  mp_Index :: "32 word"
  mp_Label :: bytes
  mp_Paths :: "bytes list"
  mp_Locs :: bytes

datatype accWitness = AccWitness (aw_Elem: bytes) (aw_Wit: bytes) (aw_Acc: "accWitness option")

record spaceProof =
  sp_Left :: i64
  sp_Right :: i64
  sp_Roots :: "bytes list"
  sp_Proofs :: "mhtProof list list"
  sp_WitChains :: "accWitness list"

record blocksProof =
  bp_SpaceProofHash :: bytes
  bp_Left :: i64
  bp_Right :: i64
  bp_Signature :: bytes

record minerPoisInfo =
  mpi_Acc :: bytes
  mpi_Front :: i64
  mpi_Rear :: i64
  mpi_KeyN :: bytes
  mpi_KeyG :: bytes
  mpi_StatusTeeSign :: bytes

record requestSpaceProofVerify =
  rs_SpaceChals :: "i64 list"
  rs_MinerId :: bytes
  rs_PoisInfo :: minerPoisInfo
  rs_Proof :: "spaceProof option"
  rs_Sig :: bytes

record requestSpaceProofVerifyTotal =
  rst_MinerId :: bytes
  rst_Front :: i64
  rst_Rear :: i64
  rst_Acc :: bytes
  rst_SpaceChals :: "i64 list"
  rst_ProofList :: "blocksProof list"

record responseSpaceProofVerifyTotal =
  rvt_Signature :: bytes
  rvt_IdleResult :: bool

text \<open>
  The commitments and proofs of the space prover, and the messages they travel in. A nil slice or
  pointer that the code tests for is \<open>None\<close>.
\<close>

record idleCommits =
  ic_FileIndexs :: "i64 list"
  ic_Roots :: "bytes list"

record commitProof =
  cp_Node :: mhtProof
  cp_Elders :: "mhtProof list"
  cp_Parents :: "mhtProof list"

record accProof =
  ap_Indexs :: "i64 list"
  ap_Labels :: "bytes list"
  ap_WitChains :: "accWitness option"
  ap_AccPath :: "bytes list"

record deletionProof =
  dp_Roots :: "bytes list option"
  dp_WitChain :: "accWitness option"
  dp_AccPath :: "bytes list option"

record requestCommitGenChall =
  rcg_MinerId :: bytes
  rcg_Commit :: idleCommits
  rcg_MinerSign :: bytes

record requestVerifyCommit =
  rvc_CommitProofGroup :: "commitProof list list"
  rvc_AccProof :: accProof
  rvc_MinerId :: bytes
  rvc_PoisInfo :: minerPoisInfo
  rvc_MinerSign :: bytes

record requestVerifyDeletion =
  rvd_Roots :: "bytes list"
  rvd_WitChain :: accWitness
  rvd_AccPath :: "bytes list"
  rvd_MinerId :: bytes
  rvd_PoisInfo :: minerPoisInfo
  rvd_MinerSign :: bytes

record poisStatus =
  ps_Acc :: bytes
  ps_Front :: i64
  ps_Rear :: i64

record responseVerifyCommitOrDeletion =
  rcd_PoisStatus :: "poisStatus option"
  rcd_StatusTeeSign :: bytes
  rcd_SignatureWithTeeController :: bytes

record minerInitParam =
  mip_Acc :: bytes
  mip_KeyN :: bytes
  mip_KeyG :: bytes
  mip_Front :: i64
  mip_Rear :: i64
  mip_StatusTeeSign :: bytes
  mip_Podr2Pbk :: bytes
  mip_SignatureWithTeeController :: bytes

subsection \<open>Structures of the miner\<close>

record fileBlockProofInfo =
  fb_ProofHashSign :: bytes
  fb_ProofHashSignOrigin :: bytes
  fb_SpaceProof :: spaceProof
  fb_FileBlockFront :: i64
  fb_FileBlockRear :: i64

record idleProofInfo =
  ip_Start :: u32
  ip_ChainFront :: i64
  ip_ChainRear :: i64
  ip_IdleResult :: bool
  ip_CanSubmintProof :: bool
  ip_CanSubmintResult :: bool
  ip_AllocatedTeeWorkpuk :: workerPublicKey
  ip_IdleProof :: bytes
  ip_Acc :: bytes
  ip_TotalSignature :: bytes
  ip_ChallRandom :: "i64 list"
  ip_FileBlockProofInfo :: "fileBlockProofInfo list"
  ip_BlocksProof :: "blocksProof list"

record serviceProofInfo =
  sv_SignatureHex :: string
  sv_Proof :: bytes
  sv_BloomFilter :: bloomFilter
  sv_TeePublicKey :: workerPublicKey
  sv_Start :: u32
  sv_Result :: bool
  sv_CanSubmitProof :: bool
  sv_CanSubmitResult :: bool

record randomList =
  rd_Index :: "u32 list"
  rd_Random :: "bytes list"

record qElement =
  qe_I :: i64
  qe_V :: string

record statueMsg =
  StatusCode :: int
  Msg :: string

record genProofResponse =
  gp_Sigma :: string
  gp_MU :: string
  gp_StatueMsg :: statueMsg

record tagfileType =
  tf_Tag :: "pbTag option"
  tf_USig :: bytes
  tf_Signature :: bytes
  tf_FragmentName :: bytes
  tf_TeeAccountId :: bytes
  tf_Index :: u16

record challengedFile =
  cf_Fid :: string
  cf_Fragments :: "string list"

definition tagfile_zero :: tagfileType where
  "tagfile_zero = \<lparr>tf_Tag = None, tf_USig = [], tf_Signature = [], tf_FragmentName = [],
     tf_TeeAccountId = [], tf_Index = 0\<rparr>"

subsection \<open>Third-party constants and pure functions\<close>

text \<open>
  The types \<^verbatim>\<open>[]types.U8\<close>, \<^verbatim>\<open>chain.BloomFilter\<close> and \<^verbatim>\<open>chain.WorkerPublicKey\<close> of other modules come with the codec their
  modules give them. The record of the idle challenge, whose structure here leaves out the nil pointers of the
  protobuf messages it contains, is encoded and decoded as a whole by the parameter; decoding returns the partially filled value
  beside the error, as \<^verbatim>\<open>json.Unmarshal\<close> does.
\<close>

record sdk =
  FragmentSize :: nat
  FileHashLen :: nat
  TeeSigLen :: nat
  TeeSignatureLen :: nat
  WorkerPublicKeyLen :: nat
  BloomFilterLen :: nat
  AccumulatorLen :: nat
  SpaceChallengeParamLen :: nat
  SIZE_1GiB :: u64
  DataShards :: nat
  ParShards :: nat
  ERR_Empty :: string
  ZeroFileHash_8M :: string
  TeeType_Full :: u8
  TeeType_Verifier :: u8
  TeeType_Marker :: u8
  MINER_STATE_POSITIVE :: string
  MINER_STATE_FROZEN :: string
  MINER_STATE_EXIT :: string
  MINER_STATE_OFFLINE :: string
  CompareSlice :: "bytes \<Rightarrow> bytes \<Rightarrow> bool"
  BytesToWorkPublickey :: "bytes \<Rightarrow> bytes \<times> goerr option"
  BytesToFileHash :: "bytes \<Rightarrow> bytes \<times> goerr option"
  EncodePublicKeyAsCessAccount :: "bytes \<Rightarrow> string result"
  WriteBufToFile :: "fs \<Rightarrow> bytes \<Rightarrow> string \<Rightarrow> fs \<times> goerr option"
  CalcPathSHA256 :: "fs \<Rightarrow> string \<Rightarrow> string result"
  sha256 :: "bytes \<Rightarrow> bytes"
  json_U8s :: "bytes codec"
  json_bloom :: "bloomFilter codec"
  json_key :: "workerPublicKey codec"
  marshal_idle :: "idleProofInfo \<Rightarrow> bytes result"
  unmarshal_idle :: "bytes \<Rightarrow> idleProofInfo \<times> goerr option"
  marshal_space_proof :: "spaceProof \<Rightarrow> bytes result"

text \<open>What is documented of \<^verbatim>\<open>WriteBufToFile\<close>: on success the file holds the buffer, and no other
  path is touched in any case.\<close>

locale write_buf =
  fixes wb :: "fs \<Rightarrow> bytes \<Rightarrow> string \<Rightarrow> fs \<times> goerr option"
  assumes wb_ok: "wb fs d s = (fs', None) \<Longrightarrow> file_at fs' (resolve s) = Some d"
    and wb_other: "wb fs d s = (fs', e) \<Longrightarrow> q \<noteq> resolve s \<Longrightarrow> node_at fs' q = node_at fs q"
    and wb_fault: "wb fs d s = (fs', e) \<Longrightarrow> ffault fs' = ffault fs"
begin

lemma wb_file_other: "wb fs d s = (fs', e) \<Longrightarrow> q \<noteq> resolve s \<Longrightarrow> file_at fs' q = file_at fs q"
  using wb_other [of fs d s fs' e q] by (simp add: file_at_def)

lemma wb_is_dir_other: "wb fs d s = (fs', e) \<Longrightarrow> q \<noteq> resolve s \<Longrightarrow> is_dir fs' q = is_dir fs q"
  using wb_other [of fs d s fs' e q] by (simp add: is_dir_def)

text \<open>A value written and read back through a codec that decodes what it encodes.\<close>

lemma save_load:
  assumes "wb fs d s = (fs', None)" and "s \<noteq> []" and "\<not> ffault fs OpOpen (resolve s)" "\<not> ffault fs OpRead (resolve s)"
  shows "os_ReadFile fs' s = Inr d"
  using wb_ok [OF assms(1)] wb_fault [OF assms(1)] assms(2-4)
  by (simp add: os_ReadFile_def file_at_Some Let_def)

end

text \<open>The standard library's \<^verbatim>\<open>os.WriteFile\<close> has the same contract.\<close>

interpretation os_write: write_buf "\<lambda>fs d s. os_WriteFile fs s d"
  by unfold_locales (auto dest: os_WriteFile_ok os_WriteFile_other os_WriteFile_fault)

subsection \<open>An instance of the parameter\<close>

text \<open>Small sizes and simple functions, on which the properties are evaluated.\<close>

definition zero_service :: serviceProofInfo where
  "zero_service = \<lparr>sv_SignatureHex = [], sv_Proof = [], sv_BloomFilter = [], sv_TeePublicKey = [],
     sv_Start = 0, sv_Result = False, sv_CanSubmitProof = False, sv_CanSubmitResult = False\<rparr>"

definition zero_pois :: minerPoisInfo where
  "zero_pois = \<lparr>mpi_Acc = [], mpi_Front = 0, mpi_Rear = 0, mpi_KeyN = [], mpi_KeyG = [], mpi_StatusTeeSign = []\<rparr>"

definition zero_idle :: idleProofInfo where
  "zero_idle = \<lparr>ip_Start = 0, ip_ChainFront = 0, ip_ChainRear = 0, ip_IdleResult = False,
     ip_CanSubmintProof = False, ip_CanSubmintResult = False, ip_AllocatedTeeWorkpuk = [],
     ip_IdleProof = [], ip_Acc = [], ip_TotalSignature = [], ip_ChallRandom = [],
     ip_FileBlockProofInfo = [], ip_BlocksProof = []\<rparr>"

definition demo_sdk :: sdk where
  "demo_sdk = \<lparr>FragmentSize = 4, FileHashLen = 2, TeeSigLen = 2, TeeSignatureLen = 2,
     WorkerPublicKeyLen = 2, BloomFilterLen = 2, AccumulatorLen = 2, SpaceChallengeParamLen = 2,
     SIZE_1GiB = 1073741824, DataShards = 2, ParShards = 1,
     ERR_Empty = ''empty'', ZeroFileHash_8M = ''zz'', TeeType_Full = 0, TeeType_Verifier = 1,
     TeeType_Marker = 2, MINER_STATE_POSITIVE = ''positive'', MINER_STATE_FROZEN = ''frozen'',
     MINER_STATE_EXIT = ''exit'', MINER_STATE_OFFLINE = ''offline'',
     CompareSlice = (=), BytesToWorkPublickey = \<lambda>b. (b, None), BytesToFileHash = \<lambda>b. (b, None),
     EncodePublicKeyAsCessAccount = \<lambda>b. Inr b, WriteBufToFile = \<lambda>fs d s. os_WriteFile fs s d,
     CalcPathSHA256 = \<lambda>fs s. os_ReadFile fs s, sha256 = \<lambda>b. b,
     json_U8s = \<lparr>c_enc = \<lambda>bs. Inr (enc_bytes bs), c_dec = dec_bytes\<rparr>,
     json_bloom = \<lparr>c_enc = \<lambda>ws. Inr (enc_list enc_uint ws), c_dec = dec_list dec_uint 0\<rparr>,
     json_key = \<lparr>c_enc = \<lambda>bs. Inr (enc_bytes bs), c_dec = dec_bytes\<rparr>,
     marshal_idle = \<lambda>p. Inr ''i'', unmarshal_idle = \<lambda>b. (zero_idle, None),
     marshal_space_proof = \<lambda>p. Inr ''p''\<rparr>"

end
