(* ===== verification/Utils.thy ===== *)
theory Utils
  imports GoFiles
begin

text \<open>
  Package \<^verbatim>\<open>pkg/utils\<close> (\<^verbatim>\<open>src/pkg/utils/util.go\<close>): directory listings, file copy, shuffling, the
  minimum function and the memory queries. The random source of \<^verbatim>\<open>RandSlice\<close>, the modification
  times of \<^verbatim>\<open>DirFileDetail\<close> and the readings of the \<^verbatim>\<open>gopsutil\<close> library are parameters.
\<close>

subsection \<open>Directory listings\<close>

record fileDetail =
  fd_Path :: string
  fd_ModTime :: string
  fd_Size :: nat
  fd_IsDir :: bool

fun dirs_loop :: "fs \<Rightarrow> string list \<Rightarrow> string list \<Rightarrow> string list" where
  "dirs_loop fs dirs [] = dirs"
| "dirs_loop fs dirs (v # vs) =
     (case os_Stat fs v of
        Inl _ \<Rightarrow> dirs_loop fs dirs vs
      | Inr f \<Rightarrow> dirs_loop fs (if fi_isdir f then dirs @ [v] else dirs) vs)"

definition Dirs :: "fs \<Rightarrow> string \<Rightarrow> string list result" where
  "Dirs fs path = (case glob_star fs path of Inl e \<Rightarrow> Inl e | Inr rs \<Rightarrow> Inr (dirs_loop fs [] rs))"

fun dir_files_loop :: "fs \<Rightarrow> u32 \<Rightarrow> string list \<Rightarrow> string list \<Rightarrow> string list" where
  "dir_files_loop fs cnt files [] = files"
| "dir_files_loop fs cnt files (v # vs) =
     (case os_Stat fs v of
        Inl _ \<Rightarrow> dir_files_loop fs cnt files vs
      | Inr f \<Rightarrow>
          (let files' = (if \<not> fi_isdir f then files @ [v] else files) in
           if cnt > 0 \<and> length files' \<ge> unat cnt then files'
           else dir_files_loop fs cnt files' vs))"

definition DirFiles :: "fs \<Rightarrow> string \<Rightarrow> u32 \<Rightarrow> string list result" where
  "DirFiles fs path cnt =
     (case glob_star fs path of Inl e \<Rightarrow> Inl e | Inr rs \<Rightarrow> Inr (dir_files_loop fs cnt [] rs))"

fun dir_detail_loop :: "(string \<Rightarrow> string) \<Rightarrow> fs \<Rightarrow> u32 \<Rightarrow> fileDetail list \<Rightarrow> string list \<Rightarrow> fileDetail list" where
  "dir_detail_loop mtime fs cnt ds [] = ds"
| "dir_detail_loop mtime fs cnt ds (v # vs) =
     (case os_Stat fs v of
        Inl _ \<Rightarrow> dir_detail_loop mtime fs cnt ds vs
      | Inr f \<Rightarrow>
          (let ds' = ds @ [\<lparr>fd_Path = v, fd_ModTime = mtime v, fd_Size = fi_size f, fd_IsDir = fi_isdir f\<rparr>] in
           if cnt > 0 \<and> length ds' \<ge> unat cnt then ds'
           else dir_detail_loop mtime fs cnt ds' vs))"

definition DirFileDetail :: "(string \<Rightarrow> string) \<Rightarrow> fs \<Rightarrow> string \<Rightarrow> u32 \<Rightarrow> fileDetail list result" where
  "DirFileDetail mtime fs path cnt =
     (case glob_star fs path of Inl e \<Rightarrow> Inl e | Inr rs \<Rightarrow> Inr (dir_detail_loop mtime fs cnt [] rs))"

subsection \<open>RandSlice, Ternary, CopyFile\<close>

definition swap_elems :: "'a list \<Rightarrow> nat \<Rightarrow> nat \<Rightarrow> 'a list" where
  "swap_elems xs i j = (xs[i := xs ! j])[j := xs ! i]"

text \<open>\<open>rnd i\<close> is the value \<^verbatim>\<open>Intn(length)\<close> returned in the iteration for index \<open>i\<close>; the library
  documents it to be below \<^verbatim>\<open>length\<close>.\<close>

fun rand_slice_loop :: "(nat \<Rightarrow> nat) \<Rightarrow> 'a list \<Rightarrow> nat \<Rightarrow> 'a list" where
  "rand_slice_loop rnd xs 0 = xs"
| "rand_slice_loop rnd xs (Suc i) = rand_slice_loop rnd (swap_elems xs i (rnd i)) i"

definition RandSlice :: "(nat \<Rightarrow> nat) \<Rightarrow> 'a list \<Rightarrow> 'a list" where
  "RandSlice rnd xs = (if length xs < 2 then xs else rand_slice_loop rnd xs (length xs))"

definition Ternary :: "64 word \<Rightarrow> 64 word \<Rightarrow> 64 word" where
  "Ternary a b = (if sint a > sint b then b else a)"

definition CopyFile :: "fs \<Rightarrow> string \<Rightarrow> string \<Rightarrow> fs \<times> goerr option" where
  "CopyFile fs dst src =
     (case os_Open fs src of
        Some e \<Rightarrow> (fs, Some e)
      | None \<Rightarrow>
          (case os_OpenTrunc fs dst of
             (fs1, Some e) \<Rightarrow> (fs1, Some e)
           | (fs1, None) \<Rightarrow>
               (case os_ReadFile fs1 src of
                  Inl e \<Rightarrow> (fs1, Some e)
                | Inr d \<Rightarrow>
                    (if ffault fs1 OpWrite (resolve dst) then (fs1, Some err_io)
                     else (put_node fs1 (resolve dst) (FileNode d), None)))))"

subsection \<open>System memory\<close>

text \<open>The arguments are the answers of \<^verbatim>\<open>mem.VirtualMemory\<close> and \<^verbatim>\<open>mem.SwapMemory\<close>.\<close>

definition GetSysMemAvailable :: "u64 result \<Rightarrow> u64 result \<Rightarrow> u64 \<times> goerr option" where
  "GetSysMemAvailable available swapFree =
     (case available of
        Inl e \<Rightarrow> (0, Some (mk_err (''[mem.VirtualMemory]: '' @ err_msg e)))
      | Inr result \<Rightarrow> (case swapFree of Inl _ \<Rightarrow> (result, None) | Inr free \<Rightarrow> (result + free, None)))"

definition GetSysMemTotle :: "u64 result \<Rightarrow> u64 result \<Rightarrow> u64 \<times> goerr option" where
  "GetSysMemTotle tot swapFree =
     (case tot of
        Inl e \<Rightarrow> (0, Some (mk_err (''[mem.VirtualMemory]: '' @ err_msg e)))
      | Inr result \<Rightarrow> (case swapFree of Inl _ \<Rightarrow> (result, None) | Inr free \<Rightarrow> (result + free, None)))"

subsection \<open>Listings select by kind and respect the bound\<close>

definition is_regular :: "fs \<Rightarrow> string \<Rightarrow> bool" where
  "is_regular fs v \<longleftrightarrow> (case os_Stat fs v of Inl _ \<Rightarrow> False | Inr f \<Rightarrow> \<not> fi_isdir f)"

lemma dirs_loop_eq:
  "dirs_loop fs ds vs = ds @ filter (\<lambda>v. case os_Stat fs v of Inl _ \<Rightarrow> False | Inr f \<Rightarrow> fi_isdir f) vs"
  by (induction vs arbitrary: ds) (auto split: sum.splits)

lemma dir_files_loop_all: "dir_files_loop fs 0 files vs = files @ filter (is_regular fs) vs"
  by (induction vs arbitrary: files) (auto simp: is_regular_def Let_def split: sum.splits)

lemma dir_files_loop_take:
  "length files < unat cnt \<Longrightarrow>
     dir_files_loop fs cnt files vs = take (unat cnt) (files @ filter (is_regular fs) vs)"
proof (induction vs arbitrary: files)
  case Nil
  then show ?case by simp
next
  case (Cons v vs)
  have pos: "cnt > 0" using Cons.prems by (auto simp: word_less_nat_alt)
  show ?case
  proof (cases "is_regular fs v")
    case False
    with Cons show ?thesis by (auto simp: is_regular_def Let_def split: sum.splits)
  next
    case True
    then obtain f where f: "os_Stat fs v = Inr f" "\<not> fi_isdir f"
      by (auto simp: is_regular_def split: sum.splits)
    show ?thesis
    proof (cases "Suc (length files) < unat cnt")
      case lt: True
      with Cons.IH [of "files @ [v]"] f True show ?thesis by simp
    next
      case False
      with Cons.prems have "unat cnt = Suc (length files)" by simp
      with f pos True show ?thesis by (simp add: Let_def)
    qed
  qed
qed

lemma DirFiles_spec:
  "DirFiles fs path cnt = (case glob_star fs path of Inl e \<Rightarrow> Inl e
     | Inr rs \<Rightarrow> Inr (if cnt = 0 then filter (is_regular fs) rs
                     else take (unat cnt) (filter (is_regular fs) rs)))"
  by (auto simp: DirFiles_def dir_files_loop_all dir_files_loop_take unat_gt_0 split: sum.split)

lemma DirFiles_files:
  assumes "DirFiles fs path cnt = Inr vs" and "v \<in> set vs"
  shows "is_regular fs v"
  using assms by (auto simp: DirFiles_spec split: sum.splits if_splits dest: in_set_takeD)

lemma is_regular_file: "is_regular fs v \<Longrightarrow> \<exists>d. file_at fs (resolve v) = Some d"
  by (auto simp: is_regular_def split: sum.splits dest: os_Stat_file)

lemma dir_detail_loop_length:
  "cnt > 0 \<Longrightarrow> length ds < unat cnt \<Longrightarrow> length (dir_detail_loop mtime fs cnt ds vs) \<le> unat cnt"
  by (induction vs arbitrary: ds) (auto simp: Let_def not_le split: sum.splits)

text \<open>
  Listing a directory with a bound (\<^verbatim>\<open>DirFiles\<close>, \<^verbatim>\<open>Dirs\<close>). With bound 0 every entry that can
  be stat'ed and is not a directory is returned, in the order of \<^verbatim>\<open>Glob\<close>; with a positive bound the
  first \<open>cnt\<close> of these; directories and entries that cannot be stat'ed never cnt.
\<close>

theorem DirFiles_selects:
  "DirFiles fs path cnt = (case glob_star fs path of Inl e \<Rightarrow> Inl e
     | Inr rs \<Rightarrow> Inr (if cnt = 0 then filter (is_regular fs) rs
                     else take (unat cnt) (filter (is_regular fs) rs)))
   \<and> Dirs fs path = (case glob_star fs path of Inl e \<Rightarrow> Inl e
     | Inr rs \<Rightarrow> Inr (filter (\<lambda>v. case os_Stat fs v of Inl _ \<Rightarrow> False | Inr f \<Rightarrow> fi_isdir f) rs))"
  by (simp add: DirFiles_spec Dirs_def dirs_loop_eq split: sum.split)

subsection \<open>Shuffling and copying\<close>

lemma mset_swap_elems: "i < length xs \<Longrightarrow> j < length xs \<Longrightarrow> mset (swap_elems xs i j) = mset xs"
  by (simp add: swap_elems_def mset_swap)

lemma length_swap_elems [simp]: "length (swap_elems xs i j) = length xs"
  by (simp add: swap_elems_def)

lemma mset_rand_slice_loop:
  "i \<le> length xs \<Longrightarrow> (\<And>k. k < i \<Longrightarrow> rnd k < length xs) \<Longrightarrow> mset (rand_slice_loop rnd xs i) = mset xs"
  by (induction i arbitrary: xs) (simp_all add: mset_swap_elems)

text \<open>
  \<^verbatim>\<open>RandSlice\<close> only reorders: whatever the random source returns within the range that
  \<^verbatim>\<open>Intn\<close> documents, the result has the same elements with the same multiplicities.
\<close>

theorem RandSlice_permutation:
  assumes "\<And>k. k < length xs \<Longrightarrow> rnd k < length xs"
  shows "mset (RandSlice rnd xs) = mset xs"
  using assms by (simp add: RandSlice_def mset_rand_slice_loop)

theorem RandSlice_permutation_witness:
  "mset (RandSlice (\<lambda>_. 1) [1, 2, 3 :: nat]) = mset [1, 2, 3]"
  by (rule RandSlice_permutation) simp

lemma Ternary_min: "sint (Ternary a b) = min (sint a) (sint b)"
  by (simp add: Ternary_def min_def)

text \<open>
  A successful \<^verbatim>\<open>CopyFile\<close> between two different paths leaves at the target exactly the bytes
  of the source and changes no other path; copying a file onto itself empties it.
\<close>

theorem CopyFile_copies:
  assumes "CopyFile fs dst src = (fs', None)"
  shows "(resolve dst \<noteq> resolve src \<longrightarrow>
            (\<exists>d. file_at fs (resolve src) = Some d \<and> file_at fs' (resolve dst) = Some d))
    \<and> (resolve dst = resolve src \<longrightarrow> file_at fs' (resolve dst) = Some [])
    \<and> (\<forall>q. q \<noteq> resolve dst \<longrightarrow> node_at fs' q = node_at fs q)"
proof -
  from assms obtain fs1 d where open_dst: "os_OpenTrunc fs dst = (fs1, None)"
    and rd: "os_ReadFile fs1 src = Inr d" and fs': "fs' = put_node fs1 (resolve dst) (FileNode d)"
    by (auto simp: CopyFile_def split: option.splits prod.splits sum.splits if_splits)
  have fs1: "fs1 = put_node fs (resolve dst) (FileNode [])" using os_OpenTrunc_ok [OF open_dst] by simp
  have "file_at fs1 (resolve src) = Some d" using rd by (rule os_ReadFile_Inr)
  then show ?thesis by (auto simp: fs' fs1 fs_simps split: if_splits)
qed

end
