(* ===== verification/Host.thy ===== *)
theory Host
  imports Utils
begin

unbundle bit_operations_syntax

text \<open>
  What \<^verbatim>\<open>src/pkg/utils/util.go\<close>, \<^verbatim>\<open>src/node/node.go\<close>, \<^verbatim>\<open>src/node/chainsync.go\<close> and \<^verbatim>\<open>src/node/init.go\<close> ask of the machine they
  run on: the size of a directory, the free space of a disk, ports, addresses, memory. The answers of the \<^verbatim>\<open>gopsutil\<close>
  library, of the network interfaces and of dialling are parameters.
\<close>

subsection \<open>DirSize\<close>

text \<open>\<^verbatim>\<open>filepath.Walk\<close> with the function of \<^verbatim>\<open>DirSize\<close>: the state is the size summed up so far. The function asks \<^verbatim>\<open>info.IsDir()\<close> before it
  looks at the error, and \<^verbatim>\<open>info\<close> is nil when a path cannot be examined. The first number bounds the depth.\<close>

fun walk_size :: "fs \<Rightarrow> nat \<Rightarrow> string \<Rightarrow> fileInfo \<Rightarrow> u64 \<Rightarrow> (u64, goerr option) outcome"
  and walk_names :: "fs \<Rightarrow> nat \<Rightarrow> string \<Rightarrow> string list \<Rightarrow> u64 \<Rightarrow> (u64, goerr option) outcome" where
  "walk_size fs n path i sz =
     (if \<not> fi_isdir i then Ret None (sz + of_nat (fi_size i))
      else if ffault fs OpRead (resolve path) then Ret (Some err_io) sz
      else walk_names fs n path (entries fs (resolve path)) sz)"
| "walk_names fs n path [] sz = Ret None sz"
| "walk_names fs 0 path (v # vs) sz = Spin sz"
| "walk_names fs (Suc n) path (v # vs) sz =
     (case os_Stat fs (Join [path, v]) of
        Inl _ \<Rightarrow> Panic sz
      | Inr i \<Rightarrow>
          andThen (walk_size fs n (Join [path, v]) i sz) (\<lambda>err size1.
            if err \<noteq> None then Ret err size1 else walk_names fs (Suc n) path vs size1))"

definition DirSize :: "fs \<Rightarrow> string \<Rightarrow> (u64, goerr option) outcome" where
  "DirSize fs path =
     (case os_Stat fs path of
        Inl _ \<Rightarrow> Panic 0
      | Inr i \<Rightarrow> walk_size fs (length (fnodes fs)) path i 0)"

lemma DirSize_missing: "os_Stat fs path = Inl e \<Longrightarrow> DirSize fs path = Panic 0"
  by (simp add: DirSize_def)

lemma DirSize_file: "os_Stat fs path = Inr i \<Longrightarrow> \<not> fi_isdir i \<Longrightarrow> DirSize fs path = Ret None (of_nat (fi_size i))"
  by (simp add: DirSize_def)

subsection \<open>Disk, memory, ports\<close>

text \<open>The answer of \<^verbatim>\<open>disk.Usage\<close>: a pointer to the statistics (here their free space), which may be nil, and an error. The
  field is read before the error is looked at. \<open>None\<close>: a panic.\<close>

type_synonym usage = "u64 option \<times> goerr option"

definition GetDirFreeSpace :: "usage \<Rightarrow> (u64 \<times> goerr option) option" where
  "GetDirFreeSpace r = (case r of (None, err) \<Rightarrow> None | (Some free, err) \<Rightarrow> Some (free, err))"

definition getMemUsage :: "u64 \<Rightarrow> u64 \<Rightarrow> u64" where
  "getMemUsage HeapSys StackSys = HeapSys + StackSys"

text \<open>The readings of the heap every three seconds; true when the process ends itself at one of them.\<close>

fun WatchMem :: "u64 \<Rightarrow> u64 list \<Rightarrow> bool" where
  "WatchMem SIZE_1GiB [] = False"
| "WatchMem SIZE_1GiB (h # hs) = (h \<ge> SIZE_1GiB * 8 \<or> WatchMem SIZE_1GiB hs)"

definition FreeLocalPort :: "(string \<Rightarrow> goerr option) \<Rightarrow> u16 \<Rightarrow> bool" where
  "FreeLocalPort dial port = (dial (''127.0.0.1:'' @ show_nat (unat port)) \<noteq> None)"

definition RecoverError :: "string \<Rightarrow> string \<Rightarrow> string" where
  "RecoverError err stack =
     ''--------------------panic--------------------'' @ [CHR 0x0A] @ err @ [CHR 0x0A] @ stack @ [CHR 0x0A]"

subsection \<open>Addresses\<close>

text \<open>Package \<^verbatim>\<open>net\<close>: an address is 4 or 16 bytes; the first form may be embedded in the second.\<close>

definition To4 :: "u8 list \<Rightarrow> u8 list option" where
  "To4 ip = (if length ip = 4 then Some ip
     else if length ip = 16 \<and> take 12 ip = replicate 10 0 @ [0xff, 0xff] then Some (drop 12 ip) else None)"

definition To16 :: "u8 list \<Rightarrow> u8 list option" where
  "To16 ip = (if length ip = 4 then Some (replicate 10 0 @ [0xff, 0xff] @ ip) else if length ip = 16 then Some ip else None)"

definition IsLoopback :: "u8 list \<Rightarrow> bool" where
  "IsLoopback ip = (case To4 ip of Some a \<Rightarrow> a ! 0 = 127 | None \<Rightarrow> ip = replicate 15 0 @ [1])"

definition IsPrivate :: "u8 list \<Rightarrow> bool" where
  "IsPrivate ip = (case To4 ip of
     Some a \<Rightarrow> a ! 0 = 10 \<or> a ! 0 = 172 \<and> (a ! 1) AND 0xf0 = 16 \<or> a ! 0 = 192 \<and> a ! 1 = 168
   | None \<Rightarrow> length ip = 16 \<and> (ip ! 0) AND 0xfe = 0xfc)"

definition IsUnspecified :: "u8 list \<Rightarrow> bool" where
  "IsUnspecified ip \<longleftrightarrow> To16 ip = Some (replicate 10 0 @ [0xff, 0xff, 0, 0, 0, 0]) \<or> ip = replicate 16 0"

datatype netAddr = IPNet "u8 list" | OtherAddr

record netInterface =
  ni_up :: bool
  ni_addrs :: "netAddr list"

fun usable :: "netAddr \<Rightarrow> u8 list option" where
  "usable (IPNet ip) =
     (if \<not> IsLoopback ip \<and> \<not> IsPrivate ip \<and> \<not> IsUnspecified ip \<and> (To4 ip \<noteq> None \<or> To16 ip \<noteq> None) then Some ip else None)"
| "usable OtherAddr = None"

fun first_address :: "netAddr list \<Rightarrow> u8 list option" where
  "first_address [] = None"
| "first_address (a # as) = (case usable a of Some ip \<Rightarrow> Some ip | None \<Rightarrow> first_address as)"

fun interface_loop :: "netInterface list \<Rightarrow> u8 list option" where
  "interface_loop [] = None"
| "interface_loop (n # ns) =
     (case (if ni_up n then first_address (ni_addrs n) else None) of Some ip \<Rightarrow> Some ip | None \<Rightarrow> interface_loop ns)"

text \<open>The address as bytes; \<^verbatim>\<open>String\<close> renders it.\<close>

definition GetLocalIP :: "netInterface list result \<Rightarrow> (u8 list) result" where
  "GetLocalIP netInterfaces =
     (case netInterfaces of
        Inl err \<Rightarrow> Inl (mk_err (''[net.Interfaces]: '' @ err_msg err))
      | Inr ns \<Rightarrow> (case interface_loop ns of Some ip \<Rightarrow> Inr ip | None \<Rightarrow> Inl (mk_err ''No available ip address found'')))"

lemma first_address_usable: "first_address as = Some ip \<Longrightarrow> IPNet ip \<in> set as \<and> \<not> IsLoopback ip \<and> \<not> IsPrivate ip \<and> \<not> IsUnspecified ip"
proof (induction as)
  case (Cons a as)
  then show ?case by (cases a) (auto split: if_splits)
qed simp

lemma GetLocalIP_public:
  assumes "GetLocalIP (Inr ns) = Inr ip"
  shows "\<exists>n \<in> set ns. ni_up n \<and> IPNet ip \<in> set (ni_addrs n) \<and> \<not> IsLoopback ip \<and> \<not> IsPrivate ip \<and> \<not> IsUnspecified ip"
proof -
  have "interface_loop ns = Some ip" using assms by (auto simp: GetLocalIP_def split: option.splits)
  then show ?thesis
    by (induction ns) (auto dest: first_address_usable split: option.splits if_splits)
qed

subsection \<open>ContainsIpv4\<close>

text \<open>The leftmost match of \<^verbatim>\<open>\b(?:\d{1,3}\.){3}\d{1,3}\b\<close>. Giving back a digit of a group can never help: the character after it
  would be a digit where a dot or a word boundary is needed.\<close>

definition is_word :: "char \<Rightarrow> bool" where
  "is_word c \<longleftrightarrow> is_digit c \<or> (let n = of_char c :: nat in 65 \<le> n \<and> n \<le> 90 \<or> 97 \<le> n \<and> n \<le> 122 \<or> n = 95)"

definition digits3 :: "string \<Rightarrow> string" where
  "digits3 s = takeWhile is_digit (take 3 s)"

definition boundary :: "char option \<Rightarrow> string \<Rightarrow> bool" where
  "boundary before s \<longleftrightarrow> (case before of None \<Rightarrow> False | Some c \<Rightarrow> is_word c) \<noteq> (case s of [] \<Rightarrow> False | c # _ \<Rightarrow> is_word c)"

text \<open>The match at the beginning of a text: \<open>n\<close> groups with their dots and a last group.\<close>

fun match_groups :: "nat \<Rightarrow> string \<Rightarrow> string option" where
  "match_groups 0 s =
     (let d = digits3 s in if d \<noteq> [] \<and> boundary (Some (last d)) (drop (length d) s) then Some d else None)"
| "match_groups (Suc n) s =
     (let d = digits3 s in
      if d \<noteq> [] \<and> take 1 (drop (length d) s) = ''.''
      then map_option (\<lambda>m. d @ ''.'' @ m) (match_groups n (drop (Suc (length d)) s)) else None)"

fun FindString :: "char option \<Rightarrow> string \<Rightarrow> string" where
  "FindString before [] = []"
| "FindString before (c # s) =
     (case (if boundary before (c # s) then match_groups 3 (c # s) else None) of
        Some m \<Rightarrow> m | None \<Rightarrow> FindString (Some c) s)"

text \<open>\<^verbatim>\<open>net.ParseIP\<close> on a match: four numbers up to 255, none with a leading zero.\<close>

definition octet_ok :: "string \<Rightarrow> bool" where
  "octet_ok d \<longleftrightarrow> (case parse_nat d of None \<Rightarrow> False | Some n \<Rightarrow> n \<le> 255) \<and> (length d > 1 \<longrightarrow> hd d \<noteq> CHR ''0'')"

definition ParseIPv4 :: "string \<Rightarrow> bool" where
  "ParseIPv4 s \<longleftrightarrow> length (Split s (CHR ''.'')) = 4 \<and> list_all octet_ok (Split s (CHR ''.''))"

definition ContainsIpv4 :: "string \<Rightarrow> bool" where
  "ContainsIpv4 str \<longleftrightarrow> (let m = FindString None str in ParseIPv4 m \<and> Contains m ''.'')"

text \<open>Only the first text of the form of an address is looked at.\<close>

lemma ContainsIpv4_first: "ContainsIpv4 ''at 10.0.0.1:80'' \<and> \<not> ContainsIpv4 ''999.0.0.1 or 10.0.0.1''"
  by code_simp

end
