(* ===== verification/Confile.thy ===== *)
theory Confile
  imports GoFiles
begin

text \<open>
  The configuration file (\<^verbatim>\<open>src/pkg/confile/confile.go\<close>): parsing with its checks, the setters of the
  command line and the getters the node reads.

  The parser (viper), the key ring of the mnemonic and the address checks are third-party code, the
  record \<open>confLib\<close>: \<open>cl_read\<close> is \<^verbatim>\<open>viper.ReadInConfig\<close> on the file and its type and, when it succeeds,
  \<^verbatim>\<open>viper.Unmarshal\<close> into the receiver; \<open>cl_key\<close> is \<^verbatim>\<open>signature.KeyringPairFromSecret\<close> and gives the public
  key; \<open>cl_address\<close> is \<^verbatim>\<open>sutils.VerityAddress\<close> with the chain's prefix.
\<close>

record confile =
  cf_Workspace :: string
  cf_Port :: u16
  cf_Maxusespace :: u64
  cf_Cores :: u32
  cf_ApiEndpoint :: string
  cf_Mnemonic :: string
  cf_Stakingacc :: string
  cf_Earningsacc :: string
  cf_Timeout :: u16
  cf_Rpcs :: "string list"
  cf_Tees :: "string list"

record confLib =
  cl_read :: "fs \<Rightarrow> string \<Rightarrow> string \<Rightarrow> (confile \<Rightarrow> confile \<times> goerr option) result"
  cl_key :: "string \<Rightarrow> bytes result"
  cl_address :: "string \<Rightarrow> goerr option"
  cl_account :: "bytes \<Rightarrow> string"

definition NewConfigFile :: confile where
  "NewConfigFile = \<lparr>cf_Workspace = [], cf_Port = 0, cf_Maxusespace = 0, cf_Cores = 0, cf_ApiEndpoint = [],
     cf_Mnemonic = [], cf_Stakingacc = [], cf_Earningsacc = [], cf_Timeout = 0, cf_Rpcs = [], cf_Tees = []\<rparr>"

subsection \<open>Parsing\<close>

text \<open>\<^verbatim>\<open>path.Ext\<close>: from the last dot of the last path element, or empty.\<close>

definition Ext :: "string \<Rightarrow> string" where
  "Ext p = (let r = takeWhile (\<lambda>c. c \<noteq> CHR ''/'') (rev p) in
     if CHR ''.'' \<in> set r then CHR ''.'' # rev (takeWhile (\<lambda>c. c \<noteq> CHR ''.'') r) else [])"

text \<open>The directory of the configuration exists or is made.\<close>

definition ensure_dir :: "fs \<Rightarrow> string \<Rightarrow> fs \<times> goerr option" where
  "ensure_dir fs d =
     (case os_Stat fs d of
        Inl _ \<Rightarrow> os_MkdirAll fs d
      | Inr st \<Rightarrow> (fs, if fi_isdir st then None else Some (mk_err ''is not a directory'')))"

definition conf_checks :: "confLib \<Rightarrow> confile \<Rightarrow> goerr option" where
  "conf_checks L c =
     (if cf_ApiEndpoint c = [] then Some (mk_err ''apiendpoint can not be empty'')
      else if (case cl_key L (cf_Mnemonic c) of Inl _ \<Rightarrow> True | Inr _ \<Rightarrow> False) then Some (mk_err ''invalid mnemonic'')
      else if cf_Rpcs c = [] then Some (mk_err ''cannot have empty configurations'')
      else if cf_Port c < 1024 then Some (mk_err ''prohibit the use of system reserved port'')
      else if cf_Stakingacc c \<noteq> [] \<and> cl_address L (cf_Stakingacc c) \<noteq> None then Some (mk_err ''invalid staking account'')
      else if cl_address L (cf_Earningsacc c) \<noteq> None then Some (mk_err ''invalid earnings account'')
      else None)"

definition Parse :: "confLib \<Rightarrow> string \<Rightarrow> confile \<Rightarrow> fs \<Rightarrow> (fs, confile \<times> goerr option) outcome" where
  "Parse L fpath c fs =
     (case os_Stat fs fpath of
        Inl e \<Rightarrow> Ret (c, Some e) fs
      | Inr st \<Rightarrow>
          (if fi_isdir st then Ret (c, Some (mk_err ''is not a file'')) fs
           else if Ext fpath = [] then Panic fs
           else
             (case cl_read L fs fpath (tl (Ext fpath)) of
                Inl e \<Rightarrow> Ret (c, Some (mk_err ''[ReadInConfig]'')) fs
              | Inr unmarshal \<Rightarrow>
                  (case unmarshal c of
                     (c1, Some e) \<Rightarrow> Ret (c1, Some (mk_err ''[Unmarshal]'')) fs
                   | (c1, None) \<Rightarrow>
                       (case conf_checks L c1 of
                          Some e \<Rightarrow> Ret (c1, Some e) fs
                        | None \<Rightarrow> (case ensure_dir fs (cf_Workspace c1) of (fs', e) \<Rightarrow> Ret (c1, e) fs'))))))"

subsection \<open>Setters\<close>

definition SetRpcAddr :: "string list \<Rightarrow> confile \<Rightarrow> confile" where
  "SetRpcAddr rpc c = c\<lparr>cf_Rpcs := rpc\<rparr>"

definition SetUseSpace :: "u64 \<Rightarrow> confile \<Rightarrow> confile" where
  "SetUseSpace useSpace c = c\<lparr>cf_Maxusespace := useSpace\<rparr>"

definition SetCpuCores :: "64 word \<Rightarrow> confile \<Rightarrow> confile" where
  "SetCpuCores cores c = c\<lparr>cf_Cores := ucast cores\<rparr>"

definition SetServicePort :: "u16 \<Rightarrow> confile \<Rightarrow> confile \<times> goerr option" where
  "SetServicePort port c =
     (if port < 1024 then (c, Some (mk_err ''Prohibit the use of system reserved port'')) else (c\<lparr>cf_Port := port\<rparr>, None))"

definition SetWorkspace :: "string \<Rightarrow> confile \<Rightarrow> fs \<Rightarrow> (confile \<times> goerr option) \<times> fs" where
  "SetWorkspace ws c fs =
     (case ensure_dir fs ws of
        (fs', Some e) \<Rightarrow> ((c, Some e), fs')
      | (fs', None) \<Rightarrow> ((c\<lparr>cf_Workspace := ws\<rparr>, None), fs'))"

definition SetMnemonic :: "confLib \<Rightarrow> string \<Rightarrow> confile \<Rightarrow> confile \<times> goerr option" where
  "SetMnemonic L mnemonic c =
     (case cl_key L mnemonic of Inl e \<Rightarrow> (c, Some e) | Inr _ \<Rightarrow> (c\<lparr>cf_Mnemonic := mnemonic\<rparr>, None))"

definition conf_SetEarningsAcc :: "confLib \<Rightarrow> string \<Rightarrow> confile \<Rightarrow> confile \<times> goerr option" where
  "conf_SetEarningsAcc L earningsAcc c =
     (case cl_address L earningsAcc of Some e \<Rightarrow> (c, Some e) | None \<Rightarrow> (c\<lparr>cf_Earningsacc := earningsAcc\<rparr>, None))"

definition SetEndpoint :: "string \<Rightarrow> confile \<Rightarrow> confile" where
  "SetEndpoint endpoint c = c\<lparr>cf_ApiEndpoint := endpoint\<rparr>"

definition SetPriorityTeeList :: "string list \<Rightarrow> confile \<Rightarrow> confile" where
  "SetPriorityTeeList tees c = c\<lparr>cf_Tees := tees\<rparr>"

subsection \<open>Getters\<close>

definition ReadRpcEndpoints :: "confile \<Rightarrow> string list" where "ReadRpcEndpoints c = cf_Rpcs c"
definition ReadServicePort :: "confile \<Rightarrow> u16" where "ReadServicePort c = cf_Port c"
definition ReadWorkspace :: "confile \<Rightarrow> string" where "ReadWorkspace c = cf_Workspace c"
definition ReadMnemonic :: "confile \<Rightarrow> string" where "ReadMnemonic c = cf_Mnemonic c"
definition ReadStakingAcc :: "confile \<Rightarrow> string" where "ReadStakingAcc c = cf_Stakingacc c"
definition ReadEarningsAcc :: "confile \<Rightarrow> string" where "ReadEarningsAcc c = cf_Earningsacc c"
definition ReadUseSpace :: "confile \<Rightarrow> u64" where "ReadUseSpace c = cf_Maxusespace c"
definition ReadUseCpu :: "confile \<Rightarrow> u32" where "ReadUseCpu c = cf_Cores c"
definition ReadPriorityTeeList :: "confile \<Rightarrow> string list" where "ReadPriorityTeeList c = cf_Tees c"
definition ReadApiEndpoint :: "confile \<Rightarrow> string" where "ReadApiEndpoint c = cf_ApiEndpoint c"

text \<open>The error of the key ring is ignored; the public key is then empty.\<close>

definition ReadSignaturePublickey :: "confLib \<Rightarrow> confile \<Rightarrow> bytes" where
  "ReadSignaturePublickey L c = (case cl_key L (cf_Mnemonic c) of Inl _ \<Rightarrow> [] | Inr k \<Rightarrow> k)"

definition ReadSignatureAccount :: "confLib \<Rightarrow> confile \<Rightarrow> string" where
  "ReadSignatureAccount L c = cl_account L (ReadSignaturePublickey L c)"

subsection \<open>Configurations stay valid\<close>

text \<open>What the node relies on, and every setter keeps: a mnemonic with a key, an unreserved port, valid accounts, and a
  workspace that is a directory. The checks of \<^verbatim>\<open>Parse\<close> are these and an endpoint and a node of the chain.\<close>

definition conf_sound :: "confLib \<Rightarrow> confile \<times> fs \<Rightarrow> bool" where
  "conf_sound L s \<longleftrightarrow> (\<exists>k. cl_key L (cf_Mnemonic (fst s)) = Inr k) \<and> 1024 \<le> cf_Port (fst s)
     \<and> (cf_Stakingacc (fst s) = [] \<or> cl_address L (cf_Stakingacc (fst s)) = None) \<and> cl_address L (cf_Earningsacc (fst s)) = None
     \<and> is_dir (snd s) (resolve (cf_Workspace (fst s)))"

definition conf_valid :: "confLib \<Rightarrow> confile \<times> fs \<Rightarrow> bool" where
  "conf_valid L s \<longleftrightarrow> conf_checks L (fst s) = None \<and> is_dir (snd s) (resolve (cf_Workspace (fst s)))"

definition conf_complete :: "confile \<Rightarrow> bool" where
  "conf_complete c \<longleftrightarrow> cf_ApiEndpoint c \<noteq> [] \<and> cf_Rpcs c \<noteq> []"

datatype setting =
  UseSpace u64 | CpuCores "64 word" | ServicePort u16 | InWorkspace string | Mnemonic string | EarningsAcc string | Tees "string list"
  | RpcAddr "string list" | Endpoint string

text \<open>One setter on the configuration and the disk; a setter that fails is reported to the caller.\<close>

fun apply_setting :: "confLib \<Rightarrow> setting \<Rightarrow> confile \<times> fs \<Rightarrow> confile \<times> fs" where
  "apply_setting L (UseSpace n) (c, fs) = (SetUseSpace n c, fs)"
| "apply_setting L (CpuCores n) (c, fs) = (SetCpuCores n c, fs)"
| "apply_setting L (ServicePort p) (c, fs) = (fst (SetServicePort p c), fs)"
| "apply_setting L (InWorkspace d) (c, fs) = (fst (fst (SetWorkspace d c fs)), snd (SetWorkspace d c fs))"
| "apply_setting L (Mnemonic m) (c, fs) = (fst (SetMnemonic L m c), fs)"
| "apply_setting L (EarningsAcc a) (c, fs) = (fst (conf_SetEarningsAcc L a c), fs)"
| "apply_setting L (Tees ts) (c, fs) = (SetPriorityTeeList ts c, fs)"
| "apply_setting L (RpcAddr rs) (c, fs) = (SetRpcAddr rs c, fs)"
| "apply_setting L (Endpoint e) (c, fs) = (SetEndpoint e c, fs)"

text \<open>The two setters without a check take an empty value, too.\<close>

fun given_value :: "setting \<Rightarrow> bool" where
  "given_value (RpcAddr rs) = (rs \<noteq> [])"
| "given_value (Endpoint e) = (e \<noteq> [])"
| "given_value _ = True"

lemma conf_checks_None:
  "conf_checks L c = None \<longleftrightarrow> cf_ApiEndpoint c \<noteq> [] \<and> (\<exists>k. cl_key L (cf_Mnemonic c) = Inr k) \<and> cf_Rpcs c \<noteq> [] \<and> 1024 \<le> cf_Port c
     \<and> (cf_Stakingacc c = [] \<or> cl_address L (cf_Stakingacc c) = None) \<and> cl_address L (cf_Earningsacc c) = None"
  by (cases "cl_key L (cf_Mnemonic c)") (auto simp: conf_checks_def not_less)

lemma conf_valid_parts: "conf_valid L (c, fs) \<longleftrightarrow> conf_complete c \<and> conf_sound L (c, fs)"
  by (auto simp: conf_valid_def conf_checks_None conf_complete_def conf_sound_def)

lemma ensure_dir_ok: "ensure_dir fs d = (fs', None) \<Longrightarrow> is_dir fs' (resolve d)"
  by (auto simp: ensure_dir_def os_Stat_dir os_MkdirAll_ok split: sum.splits if_splits)

lemma ensure_dir_keeps: "ensure_dir fs d = (fs', e) \<Longrightarrow> (is_dir fs q \<longrightarrow> is_dir fs' q) \<and> file_at fs' q = file_at fs q"
  by (auto simp: ensure_dir_def os_MkdirAll_dir os_MkdirAll_file split: sum.splits)

lemma apply_setting_valid: "conf_sound L s \<Longrightarrow> conf_sound L (apply_setting L x s)"
proof (cases "(L, x, s)" rule: apply_setting.cases)
  case (4 L' d c fs)
  assume v: "conf_sound L s"
  obtain fs' e where d: "ensure_dir fs d = (fs', e)" by fastforce
  show ?thesis using v 4 ensure_dir_ok [of fs d fs'] ensure_dir_keeps [OF d, of "resolve (cf_Workspace c)"]
    by (cases e) (simp_all add: conf_sound_def SetWorkspace_def d)
qed (auto simp: conf_sound_def SetUseSpace_def SetCpuCores_def SetServicePort_def SetMnemonic_def
  conf_SetEarningsAcc_def SetPriorityTeeList_def SetRpcAddr_def SetEndpoint_def split: if_splits sum.splits option.splits)

lemma apply_setting_complete: "conf_complete (fst s) \<Longrightarrow> given_value x \<Longrightarrow> conf_complete (fst (apply_setting L x s))"
  by (cases "(L, x, s)" rule: apply_setting.cases)
    (auto simp: conf_complete_def SetUseSpace_def SetCpuCores_def SetServicePort_def SetWorkspace_def SetMnemonic_def
      conf_SetEarningsAcc_def SetPriorityTeeList_def SetRpcAddr_def SetEndpoint_def split: if_splits sum.splits option.splits prod.splits)

text \<open>
  C34. A configuration that \<^verbatim>\<open>Parse\<close> accepts has an endpoint for the interface, a mnemonic with a key, at least one
  node of the chain, an unreserved port, valid accounts and a workspace that is a directory. Any number of calls of the nine setters in
  any order keeps the key, the port, the accounts and the workspace so, and touches no file on the disk; the endpoint and the nodes
  stay given as long as \<^verbatim>\<open>SetEndpoint\<close> and \<^verbatim>\<open>SetRpcAddr\<close>, which check nothing, are not called with an empty value.
\<close>
theorem Parse_valid:
  assumes "Parse L fpath c fs = Ret (c1, None) fs1" and "fold (apply_setting L) xs (c1, fs1) = (c2, fs2)"
  shows "(\<exists>k. cl_key L (cf_Mnemonic c2) = Inr k) \<and> 1024 \<le> cf_Port c2
    \<and> (cf_Stakingacc c2 = [] \<or> cl_address L (cf_Stakingacc c2) = None) \<and> cl_address L (cf_Earningsacc c2) = None
    \<and> is_dir fs2 (resolve (cf_Workspace c2)) \<and> file_at fs2 q = file_at fs q
    \<and> (list_all given_value xs \<longrightarrow> cf_ApiEndpoint c2 \<noteq> [] \<and> cf_Rpcs c2 \<noteq> [])"
proof -
  have p: "conf_valid L (c1, fs1)" "file_at fs1 q = file_at fs q"
    using assms(1) by (auto simp: Parse_def conf_valid_def ensure_dir_ok dest: ensure_dir_keeps [where q = q]
        split: sum.splits if_splits prod.splits option.splits)
  have keep: "file_at (snd (apply_setting L x s)) q = file_at (snd s) q" for x s
    by (cases "(L, x, s)" rule: apply_setting.cases)
      (auto simp: SetWorkspace_def split: prod.split option.split dest: ensure_dir_keeps [where q = q])
  have "conf_sound L (fold (apply_setting L) ys s) \<and> file_at (snd (fold (apply_setting L) ys s)) q = file_at (snd s) q"
    if "conf_sound L s" for ys s
    using that
  proof (induction ys arbitrary: s)
    case (Cons x ys)
    then show ?case using Cons.IH [OF apply_setting_valid [OF Cons.prems]] by (simp add: keep)
  qed simp
  moreover have "conf_complete (fst (fold (apply_setting L) ys s))" if "conf_complete (fst s)" "list_all given_value ys" for ys s
    using that by (induction ys arbitrary: s) (simp_all add: apply_setting_complete)
  ultimately have "conf_sound L (c2, fs2) \<and> file_at fs2 q = file_at fs1 q" "list_all given_value xs \<longrightarrow> conf_complete c2"
    using p(1) assms(2) unfolding conf_valid_parts by (metis fst_conv snd_conv)+
  then show ?thesis using p(2) by (simp add: conf_sound_def conf_complete_def)
qed

text \<open>An empty value breaks the check that \<^verbatim>\<open>Parse\<close> makes.\<close>

theorem setters_unchecked: "conf_checks L (SetEndpoint [] c) \<noteq> None" "conf_checks L (SetRpcAddr [] c) \<noteq> None"
  by (simp_all add: conf_checks_None SetEndpoint_def SetRpcAddr_def)

definition demo_read :: confLib where
  "demo_read = \<lparr>cl_read = \<lambda>_ _ _. Inr (\<lambda>c. (c\<lparr>cf_Workspace := ''/ws'', cf_Port := 4001, cf_ApiEndpoint := ''e'', cf_Mnemonic := ''m'',
     cf_Earningsacc := ''a'', cf_Rpcs := [''r'']\<rparr>, None)), cl_key = \<lambda>m. Inr m,
     cl_address = \<lambda>a. if a = [] then Some (mk_err ''bad'') else None, cl_account = id\<rparr>"

definition conf_fs :: fs where
  "conf_fs = \<lparr>fnodes = [([], DirNode), ([''c.yaml''], FileNode ''x'')], ffault = \<lambda>_ _. False\<rparr>"

theorem Parse_valid_witness:
  "\<exists>c1 fs1. Parse demo_read ''/c.yaml'' NewConfigFile conf_fs = Ret (c1, None) fs1
     \<and> (let s = fold (apply_setting demo_read) [ServicePort 80, EarningsAcc [], Endpoint ''f'', InWorkspace ''/v''] (c1, fs1)
        in 1024 \<le> cf_Port (fst s) \<and> cl_address demo_read (cf_Earningsacc (fst s)) = None \<and> cf_Workspace (fst s) = ''/v'' \<and> cf_ApiEndpoint (fst s) \<noteq> []
          \<and> is_dir (snd s) [''v''] \<and> file_at (snd s) [''c.yaml''] = Some ''x'')"
proof -
  have "map_option snd (returned (Parse demo_read ''/c.yaml'' NewConfigFile conf_fs)) = Some None" by code_simp
  then obtain c1 where "returned (Parse demo_read ''/c.yaml'' NewConfigFile conf_fs) = Some (c1, None)" by fastforce
  note p = returned_Some [OF this]
  let ?m = "Parse demo_read ''/c.yaml'' NewConfigFile conf_fs"
  let ?s = "fold (apply_setting demo_read) [ServicePort 80, EarningsAcc [], Endpoint ''f'', InWorkspace ''/v''] (c1, outcome_state ?m)"
  have c: "map_option (\<lambda>r. cf_Workspace (fst (fold (apply_setting demo_read) [ServicePort 80, EarningsAcc [], Endpoint ''f'', InWorkspace ''/v'']
      (fst r, outcome_state ?m)))) (returned ?m) = Some ''/v''" by code_simp
  have w: "cf_Workspace (fst ?s) = ''/v''" using c by (subst (asm) (2) p) simp
  have r: "resolve ''/v'' = [''v'']" "file_at conf_fs [''c.yaml''] = Some ''x''" by code_simp+
  from Parse_valid [OF p, of "[ServicePort 80, EarningsAcc [], Endpoint ''f'', InWorkspace ''/v'']" "fst ?s" "snd ?s" "[''c.yaml'']"] p w r
  show ?thesis by (intro exI [of _ c1] exI [of _ "outcome_state ?m"]) (simp add: Let_def)
qed

text \<open>A file whose name has no extension makes \<^verbatim>\<open>Parse\<close> panic, whatever it holds.\<close>

theorem Parse_needs_extension:
  "Parse L ''/conf'' c \<lparr>fnodes = [([], DirNode), ([''conf''], FileNode x)], ffault = \<lambda>_ _. False\<rparr> =
     Panic \<lparr>fnodes = [([], DirNode), ([''conf''], FileNode x)], ffault = \<lambda>_ _. False\<rparr>"
proof -
  have "resolve ''/conf'' = [''conf'']" "Ext ''/conf'' = []" by code_simp+
  then show ?thesis by (simp add: Parse_def os_Stat_def node_at_def)
qed

end
