(* ===== verification/Cache.thy ===== *)
theory Cache
  imports GoFiles
begin

text \<open>
  Package \<^verbatim>\<open>pkg/cache\<close> (\<^verbatim>\<open>cache.go\<close>, \<^verbatim>\<open>leveldb.go\<close>): the key-value cache in which the miner keeps
  its challenge bookkeeping.

  The database itself is the third-party package \<^verbatim>\<open>goleveldb\<close>: the record \<open>leveldb\<close> holds its
  calls as functions of everything asked of the database so far (the log), so that any
  behaviour, I/O errors included, is an instance. What its documentation promises is the
  locale \<open>leveldb_ok\<close>. The miner's wrapper (the read-write lock makes each call atomic) is modelled
  on top, and \<open>leveldb_ok\<close> is shown to make it a cache in the sense of the Go interface \<^verbatim>\<open>Cache\<close>,
  the locale \<open>cache_if\<close>.
\<close>

subsection \<open>The database as a parameter\<close>

datatype dbop =
    DbHas bytes
  | DbGet bytes
  | DbPut bytes bytes "goerr option"
  | DbDelete bytes "goerr option"
  | DbIter bytes

type_synonym dblog = "dbop list"

text \<open>\<open>ldb_Iter\<close> stands for a whole pass of \<^verbatim>\<open>NewIterator(BytesPrefix(prefix))\<close>: the pairs it delivers
  and the error \<^verbatim>\<open>iter.Error()\<close> reports at the end.\<close>

record leveldb =
  ldb_Has :: "dblog \<Rightarrow> bytes \<Rightarrow> bool result"
  ldb_Get :: "dblog \<Rightarrow> bytes \<Rightarrow> bytes result"
  ldb_Put :: "dblog \<Rightarrow> bytes \<Rightarrow> bytes \<Rightarrow> goerr option"
  ldb_Delete :: "dblog \<Rightarrow> bytes \<Rightarrow> goerr option"
  ldb_Iter :: "dblog \<Rightarrow> bytes \<Rightarrow> (bytes \<times> bytes) list \<times> goerr option"

definition ErrNotFound :: goerr where
  "ErrNotFound = mk_err ''leveldb: not found''"

subsection \<open>The wrapper\<close>

definition minCache :: int where "minCache = 16"
definition minHandles :: int where "minHandles = 32"
definition MiB :: int where "MiB = 1048576"

record cacheOptions =
  FilterBits :: int
  DisableSeeksCompaction :: bool
  OpenFilesCacheCapacity :: int
  BlockCacheCapacity :: int
  WriteBuffer :: int

definition configureOptions :: "int \<Rightarrow> int \<Rightarrow> cacheOptions" where
  "configureOptions cache handles =
     (let cache = (if cache < minCache then minCache else cache);
          handles = (if handles < minHandles then minHandles else handles)
      in \<lparr>FilterBits = 10, DisableSeeksCompaction = True,
          OpenFilesCacheCapacity = handles,
          BlockCacheCapacity = signed_take_bit 63 (cache div 2 * MiB),
          WriteBuffer = signed_take_bit 63 (cache div 4 * MiB)\<rparr>)"

datatype open_result = Opened | Corrupted goerr | OpenFailed goerr

definition newLevelDB ::
  "(string \<Rightarrow> cacheOptions \<Rightarrow> open_result) \<Rightarrow> (string \<Rightarrow> goerr option) \<Rightarrow> string \<Rightarrow> int \<Rightarrow> int \<Rightarrow> string result" where
  "newLevelDB openFile recoverFile file memory handles =
     (case openFile file (configureOptions memory handles) of
        Opened \<Rightarrow> Inr file
      | Corrupted _ \<Rightarrow> (case recoverFile file of None \<Rightarrow> Inr file | Some e \<Rightarrow> Inl e)
      | OpenFailed e \<Rightarrow> Inl e)"

definition NewCache ::
  "(string \<Rightarrow> cacheOptions \<Rightarrow> open_result) \<Rightarrow> (string \<Rightarrow> goerr option) \<Rightarrow> fs \<Rightarrow> string \<Rightarrow> int \<Rightarrow> int
     \<Rightarrow> fs \<times> string result" where
  "NewCache openFile recoverFile fs fpath memory handles =
     (case os_Stat fs fpath of
        Inr _ \<Rightarrow> (fs, newLevelDB openFile recoverFile fpath memory handles)
      | Inl _ \<Rightarrow>
          (case os_MkdirAll fs fpath of
             (fs1, Some e) \<Rightarrow> (fs1, Inl e)
           | (fs1, None) \<Rightarrow> (fs1, newLevelDB openFile recoverFile fpath memory handles)))"

definition Has :: "leveldb \<Rightarrow> dblog \<Rightarrow> bytes \<Rightarrow> dblog \<times> bool result" where
  "Has L db k = (db @ [DbHas k], ldb_Has L db k)"

definition Get :: "leveldb \<Rightarrow> dblog \<Rightarrow> bytes \<Rightarrow> dblog \<times> bytes result" where
  "Get L db k =
     (case ldb_Get L db k of Inl e \<Rightarrow> (db @ [DbGet k], Inl e) | Inr dat \<Rightarrow> (db @ [DbGet k], Inr dat))"

definition Put :: "leveldb \<Rightarrow> dblog \<Rightarrow> bytes \<Rightarrow> bytes \<Rightarrow> dblog \<times> goerr option" where
  "Put L db k v = (let e = ldb_Put L db k v in (db @ [DbPut k v e], e))"

definition Delete :: "leveldb \<Rightarrow> dblog \<Rightarrow> bytes \<Rightarrow> dblog \<times> goerr option" where
  "Delete L db k = (let e = ldb_Delete L db k in (db @ [DbDelete k e], e))"

definition QueryPrefixKeyList :: "leveldb \<Rightarrow> dblog \<Rightarrow> string \<Rightarrow> dblog \<times> (string list \<times> goerr option)" where
  "QueryPrefixKeyList L db pfx =
     (case ldb_Iter L db pfx of
        (kvs, e) \<Rightarrow> (db @ [DbIter pfx], (map (\<lambda>(k, v). TrimPrefix k pfx) kvs, e)))"

fun query_heigh_loop :: "string \<Rightarrow> u32 \<Rightarrow> string list \<Rightarrow> (bytes \<times> bytes) list \<Rightarrow> string list" where
  "query_heigh_loop pfx blockheight result [] = result"
| "query_heigh_loop pfx blockheight result ((k, v) # kvs) =
     (case ParseUint 32 v of
        None \<Rightarrow> query_heigh_loop pfx blockheight result kvs
      | Some height \<Rightarrow>
          query_heigh_loop pfx blockheight
            (if blockheight \<ge> of_nat height then result @ [TrimPrefix k pfx] else result) kvs)"

definition QueryPrefixKeyListByHeigh ::
  "leveldb \<Rightarrow> dblog \<Rightarrow> string \<Rightarrow> u32 \<Rightarrow> dblog \<times> (string list \<times> goerr option)" where
  "QueryPrefixKeyListByHeigh L db pfx blockheight =
     (case ldb_Iter L db pfx of
        (kvs, e) \<Rightarrow> (db @ [DbIter pfx], (query_heigh_loop pfx blockheight [] kvs, e)))"

definition Prefix_idle_chall_proof :: string where "Prefix_idle_chall_proof = ''idle_chall_proof:''"
definition Prefix_idle_chall_result :: string where "Prefix_idle_chall_result = ''idle_chall_result:''"
definition Prefix_service_chall_proof :: string where "Prefix_service_chall_proof = ''service_chall_proof:''"
definition Prefix_service_chall_result :: string where
  "Prefix_service_chall_result = ''service_chall_result:''"

subsection \<open>What the database promises\<close>

text \<open>The contents a log stands for: the last successful write of each key.\<close>

fun dbop_apply :: "dbop \<Rightarrow> (bytes \<times> bytes) list \<Rightarrow> (bytes \<times> bytes) list" where
  "dbop_apply (DbPut k v None) m = AList.update k v m"
| "dbop_apply (DbDelete k None) m = AList.delete k m"
| "dbop_apply _ m = m"

definition contents :: "dblog \<Rightarrow> (bytes \<times> bytes) list" where
  "contents db = fold dbop_apply db []"

definition stored :: "dblog \<Rightarrow> bytes \<Rightarrow> bytes option" where
  "stored db = map_of (contents db)"

lemma contents_snoc [simp]: "contents (db @ [x]) = dbop_apply x (contents db)"
  by (simp add: contents_def)

lemma stored_snoc [simp]:
  "stored (db @ [DbHas k]) = stored db"
  "stored (db @ [DbGet k]) = stored db"
  "stored (db @ [DbIter k]) = stored db"
  "stored (db @ [DbPut k v None]) = (stored db)(k \<mapsto> v)"
  "stored (db @ [DbPut k v (Some e)]) = stored db"
  "stored (db @ [DbDelete k None]) = (stored db)(k := None)"
  "stored (db @ [DbDelete k (Some e)]) = stored db"
  by (simp_all add: stored_def update_conv' delete_conv')

lemma distinct_dbop_apply: "distinct (map fst m) \<Longrightarrow> distinct (map fst (dbop_apply x m))"
  by (cases "(x, m)" rule: dbop_apply.cases) (simp_all add: distinct_update distinct_delete)

lemma distinct_contents: "distinct (map fst (contents db))"
  by (induction db rule: rev_induct) (simp_all add: contents_def distinct_dbop_apply)

text \<open>
  The documented behaviour of the database: a read that succeeds returns the stored value, \<^verbatim>\<open>Get\<close>
  answers \<^verbatim>\<open>ErrNotFound\<close> only for a missing key, and an iterator that ends without an error has
  delivered each stored pair whose key has the prefix exactly once.
\<close>

locale leveldb_ok =
  fixes L :: leveldb
  assumes has_sound: "ldb_Has L db k = Inr b \<Longrightarrow> b \<longleftrightarrow> stored db k \<noteq> None"
    and get_sound: "ldb_Get L db k = Inr v \<Longrightarrow> stored db k = Some v"
    and get_missing: "ldb_Get L db k = Inl ErrNotFound \<Longrightarrow> stored db k = None"
    and iter_sound: "ldb_Iter L db p = (kvs, None) \<Longrightarrow>
      distinct (map fst kvs) \<and> (\<forall>k v. (k, v) \<in> set kvs \<longleftrightarrow> stored db k = Some v \<and> HasPrefix k p)"

text \<open>
  The Go interface \<^verbatim>\<open>Cache\<close> with its contract, over an abstract state: \<open>look\<close> is the value a state
  holds under a key.
\<close>

locale cache_if =
  fixes look :: "'s \<Rightarrow> bytes \<Rightarrow> bytes option"
    and c_has :: "'s \<Rightarrow> bytes \<Rightarrow> 's \<times> bool result"
    and c_get :: "'s \<Rightarrow> bytes \<Rightarrow> 's \<times> bytes result"
    and c_put :: "'s \<Rightarrow> bytes \<Rightarrow> bytes \<Rightarrow> 's \<times> goerr option"
    and c_del :: "'s \<Rightarrow> bytes \<Rightarrow> 's \<times> goerr option"
  assumes has_look: "c_has s k = (s', Inr b) \<Longrightarrow> b \<longleftrightarrow> look s k \<noteq> None"
    and has_state: "c_has s k = (s', r) \<Longrightarrow> look s' = look s"
    and get_look: "c_get s k = (s', Inr v) \<Longrightarrow> look s k = Some v"
    and get_state: "c_get s k = (s', r') \<Longrightarrow> look s' = look s"
    and put_ok: "c_put s k v = (s', None) \<Longrightarrow> look s' = (look s)(k \<mapsto> v)"
    and put_fail: "c_put s k v = (s', Some e) \<Longrightarrow> look s' = look s"
    and del_ok: "c_del s k = (s', None) \<Longrightarrow> look s' = (look s)(k := None)"
    and del_fail: "c_del s k = (s', Some e) \<Longrightarrow> look s' = look s"
begin

lemma put_get:
  assumes "c_put s k v = (s1, None)" and "c_get s1 k = (s2, Inr v')"
  shows "v' = v"
  using get_look [OF assms(2)] put_ok [OF assms(1)] by simp

lemma put_get_other:
  assumes "c_put s k v = (s1, e)" and "c_get s1 j = (s2, Inr w)" and "j \<noteq> k"
  shows "look s j = Some w"
  using get_look [OF assms(2)] put_ok [of s k v s1] put_fail [of s k v s1] assms(1,3)
  by (cases e) auto

lemma del_get:
  assumes "c_del s k = (s1, None)" and "c_get s1 k = (s2, r)"
  shows "\<exists>e. r = Inl e"
  using get_look [of s1 k s2] del_ok [OF assms(1)] assms(2) by (cases r) auto

lemma has_after_put:
  assumes "c_put s k v = (s1, None)" and "c_has s1 k = (s2, Inr b)"
  shows "b"
  using has_look [OF assms(2)] put_ok [OF assms(1)] by simp

end

sublocale leveldb_ok \<subseteq> wrapped: cache_if stored "Has L" "Get L" "Put L" "Delete L"
proof unfold_locales
  fix db k db' b assume "Has L db k = (db', Inr b)"
  then show "b \<longleftrightarrow> stored db k \<noteq> None" using has_sound by (auto simp: Has_def)
next
  fix db k db' r assume "Has L db k = (db', r)"
  then show "stored db' = stored db" by (auto simp: Has_def)
next
  fix db k db' v assume "Get L db k = (db', Inr v)"
  then show "stored db k = Some v" using get_sound by (auto simp: Get_def split: sum.splits)
next
  fix db k db' and r :: "bytes result" assume "Get L db k = (db', r)"
  then show "stored db' = stored db" by (auto simp: Get_def split: sum.splits)
next
  fix db k v db' assume "Put L db k v = (db', None)"
  then show "stored db' = (stored db)(k \<mapsto> v)" by (auto simp: Put_def Let_def)
next
  fix db k v db' e assume "Put L db k v = (db', Some e)"
  then show "stored db' = stored db" by (auto simp: Put_def Let_def)
next
  fix db k db' assume "Delete L db k = (db', None)"
  then show "stored db' = (stored db)(k := None)" by (auto simp: Delete_def Let_def)
next
  fix db k db' e assume "Delete L db k = (db', Some e)"
  then show "stored db' = stored db" by (auto simp: Delete_def Let_def)
qed

lemma query_heigh_loop_eq:
  "query_heigh_loop p h r kvs = r @ map (\<lambda>(k, v). TrimPrefix k p)
     (filter (\<lambda>(k, v). case ParseUint 32 v of None \<Rightarrow> False | Some n \<Rightarrow> n \<le> unat h) kvs)"
proof (induction kvs arbitrary: r)
  case Nil
  then show ?case by simp
next
  case (Cons kv kvs)
  obtain k v where kv: "kv = (k, v)" by (cases kv)
  have "(of_nat n :: u32) \<le> h \<longleftrightarrow> n \<le> unat h" if "ParseUint 32 v = Some n" for n
    using ParseUint_bound [OF that] by (simp add: word_le_nat_alt unat_of_nat_small)
  then show ?case using Cons.IH by (auto simp: kv split: option.split)
qed

lemma strip_keys:
  assumes "\<And>k v. (k, v) \<in> set kvs \<Longrightarrow> HasPrefix k p"
  shows "k \<in> set (map (\<lambda>(k, v). TrimPrefix k p) (filter (\<lambda>(k, v). P v) kvs)) \<longleftrightarrow> (\<exists>v. (p @ k, v) \<in> set kvs \<and> P v)"
proof
  assume "k \<in> set (map (\<lambda>(k, v). TrimPrefix k p) (filter (\<lambda>(k, v). P v) kvs))"
  then obtain j v where jv: "(j, v) \<in> set kvs" "P v" "k = TrimPrefix j p" by auto
  then have "j = p @ k" using assms [OF jv(1)] by (auto simp: HasPrefix_iff)
  with jv(1,2) show "\<exists>v. (p @ k, v) \<in> set kvs \<and> P v" by auto
next
  assume "\<exists>v. (p @ k, v) \<in> set kvs \<and> P v"
  then obtain v where "(p @ k, v) \<in> set kvs" "P v" by blast
  then show "k \<in> set (map (\<lambda>(k, v). TrimPrefix k p) (filter (\<lambda>(k, v). P v) kvs))"
    by (auto simp: image_iff intro!: exI [of _ "p @ k"] exI [of _ v])
qed

context leveldb_ok
begin

lemma round_trip:
  "(Put L db k v = (db1, None) \<longrightarrow>
      (\<forall>w. snd (Get L db1 k) = Inr w \<longrightarrow> w = v) \<and> (\<forall>b. snd (Has L db1 k) = Inr b \<longrightarrow> b)
      \<and> (\<forall>j w. j \<noteq> k \<longrightarrow> snd (Get L db1 j) = Inr w \<longrightarrow> stored db j = Some w))
    \<and> (Delete L db k = (db1, None) \<longrightarrow> (\<exists>e. snd (Get L db1 k) = Inl e))"
  using wrapped.put_get wrapped.has_after_put wrapped.put_get_other wrapped.del_get
  by (metis prod.collapse)

lemma query_keys:
  assumes "QueryPrefixKeyList L db p = (db', (ks, None))"
  shows "distinct ks \<and> (\<forall>k. k \<in> set ks \<longleftrightarrow> stored db (p @ k) \<noteq> None)"
proof -
  obtain kvs where it: "ldb_Iter L db p = (kvs, None)" and ks: "ks = map (\<lambda>(k, v). TrimPrefix k p) kvs"
    using assms by (auto simp: QueryPrefixKeyList_def split: prod.splits)
  have pre: "\<exists>j. k = p @ j" if "(k, v) \<in> set kvs" for k v
    using iter_sound [OF it] that by (auto simp: HasPrefix_iff)
  have "inj_on (\<lambda>k. TrimPrefix k p) (set (map fst kvs))"
  proof (rule inj_onI)
    fix a b assume ab: "a \<in> set (map fst kvs)" "b \<in> set (map fst kvs)" "TrimPrefix a p = TrimPrefix b p"
    then obtain i j where "a = p @ i" "b = p @ j" using pre by fastforce
    with ab(3) show "a = b" by simp
  qed
  then have "distinct (map (\<lambda>k. TrimPrefix k p) (map fst kvs))"
    using iter_sound [OF it] by (simp add: distinct_map comp_inj_on)
  moreover have "ks = map (\<lambda>k. TrimPrefix k p) (map fst kvs)" by (auto simp: ks)
  moreover have "k \<in> set ks \<longleftrightarrow> stored db (p @ k) \<noteq> None" for k
    using strip_keys [of kvs p k "\<lambda>_. True"] iter_sound [OF it] by (simp add: ks)
  ultimately show ?thesis by metis
qed

lemma query_keys_heigh:
  assumes "QueryPrefixKeyListByHeigh L db p h = (db', (ks, None))"
  shows "k \<in> set ks \<longleftrightarrow> (\<exists>v n. stored db (p @ k) = Some v \<and> ParseUint 32 v = Some n \<and> n \<le> unat h)"
proof -
  obtain kvs where it: "ldb_Iter L db p = (kvs, None)" and ks: "ks = query_heigh_loop p h [] kvs"
    using assms by (auto simp: QueryPrefixKeyListByHeigh_def split: prod.splits)
  have "k \<in> set ks \<longleftrightarrow> (\<exists>v n. (p @ k, v) \<in> set kvs \<and> ParseUint 32 v = Some n \<and> n \<le> unat h)"
    using strip_keys [of kvs p k "\<lambda>v. case ParseUint 32 v of None \<Rightarrow> False | Some n \<Rightarrow> n \<le> unat h"]
      iter_sound [OF it] by (auto simp: ks query_heigh_loop_eq split: option.splits)
  then show ?thesis using iter_sound [OF it] by auto
qed

end

subsection \<open>A database that never fails\<close>

definition mem_leveldb :: leveldb where
  "mem_leveldb = \<lparr>
     ldb_Has = \<lambda>db k. Inr (stored db k \<noteq> None),
     ldb_Get = \<lambda>db k. (case stored db k of None \<Rightarrow> Inl ErrNotFound | Some v \<Rightarrow> Inr v),
     ldb_Put = \<lambda>db k v. None,
     ldb_Delete = \<lambda>db k. None,
     ldb_Iter = \<lambda>db p. (filter (\<lambda>(k, v). HasPrefix k p) (contents db), None)\<rparr>"

interpretation mem: leveldb_ok mem_leveldb
proof unfold_locales
  fix db p kvs assume "ldb_Iter mem_leveldb db p = (kvs, None)"
  then have "kvs = filter (\<lambda>(k, v). HasPrefix k p) (contents db)" by (simp add: mem_leveldb_def)
  moreover have "(k, v) \<in> set (contents db) \<longleftrightarrow> stored db k = Some v" for k v
    using distinct_contents [of db] by (simp add: stored_def)
  ultimately show "distinct (map fst kvs)
      \<and> (\<forall>k v. (k, v) \<in> set kvs \<longleftrightarrow> stored db k = Some v \<and> HasPrefix k p)"
    using distinct_contents [of db] by (auto simp: distinct_filter_keys)
qed (auto simp: mem_leveldb_def ErrNotFound_def split: option.splits)

subsection \<open>Properties\<close>

text \<open>
  The cache round trip over a database that keeps its documented promises: after a successful
  \<^verbatim>\<open>Put\<close> a successful \<^verbatim>\<open>Get\<close> of the key returns the value put, a \<^verbatim>\<open>Has\<close> that answers answers true,
  and every other key is as before; after a successful \<^verbatim>\<open>Delete\<close> a \<^verbatim>\<open>Get\<close> of the key fails.
\<close>

theorem cache_round_trip:
  assumes "leveldb_ok L"
  shows "(Put L db k v = (db1, None) \<longrightarrow>
      (\<forall>w. snd (Get L db1 k) = Inr w \<longrightarrow> w = v) \<and> (\<forall>b. snd (Has L db1 k) = Inr b \<longrightarrow> b)
      \<and> (\<forall>j w. j \<noteq> k \<longrightarrow> snd (Get L db1 j) = Inr w \<longrightarrow> stored db j = Some w))
    \<and> (Delete L db k = (db1, None) \<longrightarrow> (\<exists>e. snd (Get L db1 k) = Inl e))"
  by (rule leveldb_ok.round_trip [OF assms])

theorem cache_round_trip_witness:
  "snd (Get mem_leveldb (fst (Put mem_leveldb [] ''k'' ''v'')) ''k'') = Inr ''v''
   \<and> (\<exists>e. snd (Get mem_leveldb (fst (Delete mem_leveldb [DbPut ''k'' ''v'' None] ''k'')) ''k'') = Inl e)"
proof -
  have "Put mem_leveldb [] ''k'' ''v'' = ([DbPut ''k'' ''v'' None], None)"
    by (simp add: Put_def mem_leveldb_def)
  moreover have "snd (Get mem_leveldb [DbPut ''k'' ''v'' None] ''k'') = Inr ''v''"
    by (simp add: Get_def mem_leveldb_def stored_def contents_def)
  moreover have "Delete mem_leveldb [DbPut ''k'' ''v'' None] ''k''
      = ([DbPut ''k'' ''v'' None, DbDelete ''k'' None], None)"
    by (simp add: Delete_def mem_leveldb_def)
  ultimately show ?thesis
    using cache_round_trip [OF mem.leveldb_ok_axioms, of "[DbPut ''k'' ''v'' None]" "''k''" "''v''"
        "[DbPut ''k'' ''v'' None, DbDelete ''k'' None]"] by simp
qed

text \<open>
  C38. \<^verbatim>\<open>QueryPrefixKeyListByHeigh\<close> returns exactly the keys (stripped of the prefix) whose stored value
  is a decimal 32-bit height not above the bound, the bound itself included; values that are no
  such number are skipped.
\<close>

theorem QueryPrefixKeyListByHeigh_spec:
  assumes "leveldb_ok L" and "QueryPrefixKeyListByHeigh L db p h = (db', (ks, None))"
  shows "k \<in> set ks \<longleftrightarrow> (\<exists>v n. stored db (p @ k) = Some v \<and> ParseUint 32 v = Some n \<and> n \<le> unat h)"
  by (rule leveldb_ok.query_keys_heigh [OF assms])

theorem QueryPrefixKeyListByHeigh_spec_witness:
  "''a'' \<in> set (fst (snd (QueryPrefixKeyListByHeigh mem_leveldb
       [DbPut ''t:a'' ''5'' None, DbPut ''t:b'' ''6'' None, DbPut ''t:c'' ''x'' None] ''t:'' 5)))
   \<longleftrightarrow> (\<exists>v n. stored [DbPut ''t:a'' ''5'' None, DbPut ''t:b'' ''6'' None, DbPut ''t:c'' ''x'' None] (''t:'' @ ''a'') = Some v
          \<and> ParseUint 32 v = Some n \<and> n \<le> unat (5 :: u32))"
  by (rule QueryPrefixKeyListByHeigh_spec [OF mem.leveldb_ok_axioms])
    (simp add: QueryPrefixKeyListByHeigh_def mem_leveldb_def)

end
