(* ===== verification/RunStatus.thy ===== *)
theory RunStatus
  imports Prelude
begin

text \<open>
  Package \<^verbatim>\<open>node/runstatus\<close>: the flags and values the workers of the miner share. The Go structure embeds
  five structures, each with its own read-write lock; every method takes the lock for the whole
  of its body, so a method is one atomic step on the record below. \<open>status_cell\<close> is the contract of a
  getter/setter pair; each pair of the package is an interpretation of it.
\<close>

subsection \<open>State\<close>

record rpcSt =
  currentRpc :: string
  startTime :: string
  currentRpcSt :: bool
  isitconnecting :: bool

record processSt =
  pid :: int
  cpucores :: int
  addr :: string
  checkPois :: bool

record challengeSt =
  lastChallenge :: u32
  idleChallenging :: bool
  serviceChallenging :: bool

record minerSt =
  signAcc :: string
  stakingAcc :: string
  earningsAcc :: string
  state :: string
  register :: bool
  decSpace :: u64
  validSpace :: u64
  usedSpace :: u64
  lockedSpace :: u64
  calcTagFlag :: bool
  reportFileFlag :: bool
  genIdleFlag :: bool
  authIdleFlag :: bool

record idleSt =
  generatingIdle :: bool
  certifyingIdle :: bool

record runstatus =
  RpcSt :: rpcSt
  ProcessSt :: processSt
  ChallengeSt :: challengeSt
  MinerSt :: minerSt
  IdleSt :: idleSt

definition NewRpcSt :: rpcSt where
  "NewRpcSt = \<lparr>currentRpc = [], startTime = [], currentRpcSt = False, isitconnecting = False\<rparr>"

definition NewProcessSt :: processSt where
  "NewProcessSt = \<lparr>pid = 0, cpucores = 0, addr = [], checkPois = False\<rparr>"

definition NewChallengeSt :: challengeSt where
  "NewChallengeSt = \<lparr>lastChallenge = 0, idleChallenging = False, serviceChallenging = False\<rparr>"

definition NewMinerSt :: minerSt where
  "NewMinerSt = \<lparr>signAcc = [], stakingAcc = [], earningsAcc = [], state = [], register = False, decSpace = 0, validSpace = 0, usedSpace = 0, lockedSpace = 0, calcTagFlag = False, reportFileFlag = False, genIdleFlag = False, authIdleFlag = False\<rparr>"

definition NewIdleSt :: idleSt where
  "NewIdleSt = \<lparr>generatingIdle = False, certifyingIdle = False\<rparr>"

definition NewRunstatus :: runstatus where
  "NewRunstatus = \<lparr>RpcSt = NewRpcSt, ProcessSt = NewProcessSt, ChallengeSt = NewChallengeSt, MinerSt = NewMinerSt, IdleSt = NewIdleSt\<rparr>"

subsection \<open>Methods\<close>

definition SetCurrentRpc :: "string \<Rightarrow> runstatus \<Rightarrow> runstatus" where
  "SetCurrentRpc x r = r\<lparr>RpcSt := (RpcSt r)\<lparr>currentRpc := x\<rparr>\<rparr>"

definition GetCurrentRpc :: "runstatus \<Rightarrow> string" where
  "GetCurrentRpc r = currentRpc (RpcSt r)"

definition SetStartTime :: "string \<Rightarrow> runstatus \<Rightarrow> runstatus" where
  "SetStartTime x r = r\<lparr>RpcSt := (RpcSt r)\<lparr>startTime := x\<rparr>\<rparr>"

definition GetStartTime :: "runstatus \<Rightarrow> string" where
  "GetStartTime r = startTime (RpcSt r)"

definition SetCurrentRpcst :: "bool \<Rightarrow> runstatus \<Rightarrow> runstatus" where
  "SetCurrentRpcst x r = r\<lparr>RpcSt := (RpcSt r)\<lparr>currentRpcSt := x\<rparr>\<rparr>"

definition GetCurrentRpcst :: "runstatus \<Rightarrow> bool" where
  "GetCurrentRpcst r = currentRpcSt (RpcSt r)"

definition SetRpcConnecting :: "bool \<Rightarrow> runstatus \<Rightarrow> runstatus" where
  "SetRpcConnecting x r = r\<lparr>RpcSt := (RpcSt r)\<lparr>isitconnecting := x\<rparr>\<rparr>"

definition GetRpcConnecting :: "runstatus \<Rightarrow> bool" where
  "GetRpcConnecting r = isitconnecting (RpcSt r)"

definition GetAndSetRpcConnecting :: "runstatus \<Rightarrow> bool \<times> runstatus" where
  "GetAndSetRpcConnecting r =
     (if isitconnecting (RpcSt r) then (True, r)
      else (False, r\<lparr>RpcSt := (RpcSt r)\<lparr>isitconnecting := True\<rparr>\<rparr>))"

definition SetPID :: "int \<Rightarrow> runstatus \<Rightarrow> runstatus" where
  "SetPID x r = r\<lparr>ProcessSt := (ProcessSt r)\<lparr>pid := x\<rparr>\<rparr>"

definition GetPID :: "runstatus \<Rightarrow> int" where
  "GetPID r = pid (ProcessSt r)"

definition SetCpucores :: "int \<Rightarrow> runstatus \<Rightarrow> runstatus" where
  "SetCpucores x r = r\<lparr>ProcessSt := (ProcessSt r)\<lparr>cpucores := x\<rparr>\<rparr>"

definition GetCpucores :: "runstatus \<Rightarrow> int" where
  "GetCpucores r = cpucores (ProcessSt r)"

definition SetComAddr :: "string \<Rightarrow> runstatus \<Rightarrow> runstatus" where
  "SetComAddr x r = r\<lparr>ProcessSt := (ProcessSt r)\<lparr>addr := x\<rparr>\<rparr>"

definition GetComAddr :: "runstatus \<Rightarrow> string" where
  "GetComAddr r = addr (ProcessSt r)"

definition SetCheckPois :: "bool \<Rightarrow> runstatus \<Rightarrow> runstatus" where
  "SetCheckPois x r = r\<lparr>ProcessSt := (ProcessSt r)\<lparr>checkPois := x\<rparr>\<rparr>"

definition GetCheckPois :: "runstatus \<Rightarrow> bool" where
  "GetCheckPois r = checkPois (ProcessSt r)"

definition SetLastChallenge :: "u32 \<Rightarrow> runstatus \<Rightarrow> runstatus" where
  "SetLastChallenge x r = r\<lparr>ChallengeSt := (ChallengeSt r)\<lparr>lastChallenge := x\<rparr>\<rparr>"

definition GetLastChallenge :: "runstatus \<Rightarrow> u32" where
  "GetLastChallenge r = lastChallenge (ChallengeSt r)"

definition SetIdleChallenging :: "bool \<Rightarrow> runstatus \<Rightarrow> runstatus" where
  "SetIdleChallenging x r = r\<lparr>ChallengeSt := (ChallengeSt r)\<lparr>idleChallenging := x\<rparr>\<rparr>"

definition GetIdleChallenging :: "runstatus \<Rightarrow> bool" where
  "GetIdleChallenging r = idleChallenging (ChallengeSt r)"

definition SetServiceChallenging :: "bool \<Rightarrow> runstatus \<Rightarrow> runstatus" where
  "SetServiceChallenging x r = r\<lparr>ChallengeSt := (ChallengeSt r)\<lparr>serviceChallenging := x\<rparr>\<rparr>"

definition GetServiceChallenging :: "runstatus \<Rightarrow> bool" where
  "GetServiceChallenging r = serviceChallenging (ChallengeSt r)"

definition SetSignAcc :: "string \<Rightarrow> runstatus \<Rightarrow> runstatus" where
  "SetSignAcc x r = r\<lparr>MinerSt := (MinerSt r)\<lparr>signAcc := x\<rparr>\<rparr>"

definition GetSignAcc :: "runstatus \<Rightarrow> string" where
  "GetSignAcc r = signAcc (MinerSt r)"

definition SetStakingAcc :: "string \<Rightarrow> runstatus \<Rightarrow> runstatus" where
  "SetStakingAcc x r = r\<lparr>MinerSt := (MinerSt r)\<lparr>stakingAcc := x\<rparr>\<rparr>"

definition GetStakingAcc :: "runstatus \<Rightarrow> string" where
  "GetStakingAcc r = stakingAcc (MinerSt r)"

definition SetEarningsAcc :: "string \<Rightarrow> runstatus \<Rightarrow> runstatus" where
  "SetEarningsAcc x r = r\<lparr>MinerSt := (MinerSt r)\<lparr>earningsAcc := x\<rparr>\<rparr>"

definition GetEarningsAcc :: "runstatus \<Rightarrow> string" where
  "GetEarningsAcc r = earningsAcc (MinerSt r)"

definition SetState :: "string \<Rightarrow> runstatus \<Rightarrow> runstatus" where
  "SetState x r = r\<lparr>MinerSt := (MinerSt r)\<lparr>state := x\<rparr>\<rparr>"

definition GetState :: "runstatus \<Rightarrow> string" where
  "GetState r = state (MinerSt r)"

definition SetRegister :: "bool \<Rightarrow> runstatus \<Rightarrow> runstatus" where
  "SetRegister x r = r\<lparr>MinerSt := (MinerSt r)\<lparr>register := x\<rparr>\<rparr>"

definition GetRegister :: "runstatus \<Rightarrow> bool" where
  "GetRegister r = register (MinerSt r)"

definition SetSpaceInfo :: "u64 \<times> u64 \<times> u64 \<times> u64 \<Rightarrow> runstatus \<Rightarrow> runstatus" where
  "SetSpaceInfo x r = (case x of (dec, valid, used, locked) \<Rightarrow>
     r\<lparr>MinerSt := (MinerSt r)\<lparr>decSpace := dec, validSpace := valid, usedSpace := used, lockedSpace := locked\<rparr>\<rparr>)"

definition GetMinerSpaceInfo :: "runstatus \<Rightarrow> u64 \<times> u64 \<times> u64 \<times> u64" where
  "GetMinerSpaceInfo r =
     (decSpace (MinerSt r), validSpace (MinerSt r), usedSpace (MinerSt r), lockedSpace (MinerSt r))"

definition SetGeneratingIdle :: "bool \<Rightarrow> runstatus \<Rightarrow> runstatus" where
  "SetGeneratingIdle x r = r\<lparr>IdleSt := (IdleSt r)\<lparr>generatingIdle := x\<rparr>\<rparr>"

definition GetGeneratingIdle :: "runstatus \<Rightarrow> bool" where
  "GetGeneratingIdle r = generatingIdle (IdleSt r)"

definition SetCertifyingIdle :: "bool \<Rightarrow> runstatus \<Rightarrow> runstatus" where
  "SetCertifyingIdle x r = r\<lparr>IdleSt := (IdleSt r)\<lparr>certifyingIdle := x\<rparr>\<rparr>"

definition GetCertifyingIdle :: "runstatus \<Rightarrow> bool" where
  "GetCertifyingIdle r = certifyingIdle (IdleSt r)"

lemmas setter_defs = SetCurrentRpc_def SetStartTime_def SetCurrentRpcst_def SetRpcConnecting_def SetPID_def SetCpucores_def SetComAddr_def SetCheckPois_def SetLastChallenge_def SetIdleChallenging_def SetServiceChallenging_def SetSignAcc_def SetStakingAcc_def SetEarningsAcc_def SetState_def SetRegister_def SetGeneratingIdle_def SetCertifyingIdle_def SetSpaceInfo_def

lemmas getter_defs = GetCurrentRpc_def GetStartTime_def GetCurrentRpcst_def GetRpcConnecting_def GetPID_def GetCpucores_def GetComAddr_def GetCheckPois_def GetLastChallenge_def GetIdleChallenging_def GetServiceChallenging_def GetSignAcc_def GetStakingAcc_def GetEarningsAcc_def GetState_def GetRegister_def GetGeneratingIdle_def GetCertifyingIdle_def GetMinerSpaceInfo_def

subsection \<open>The contract of a getter and its setter\<close>

locale status_cell =
  fixes getc :: "'s \<Rightarrow> 'a" and setc :: "'a \<Rightarrow> 's \<Rightarrow> 's"
  assumes get_set: "getc (setc x s) = x"
    and set_set: "setc y (setc x s) = setc y s"
    and set_get: "setc (getc s) s = s"
begin

lemma last_write_wins: "xs \<noteq> [] \<Longrightarrow> getc (fold setc xs s) = last xs"
  by (induction xs rule: rev_induct) (simp_all add: get_set)

lemma writes_collapse: "xs \<noteq> [] \<Longrightarrow> fold setc xs s = setc (last xs) s"
proof (induction xs arbitrary: s)
  case Nil
  then show ?case by simp
next
  case (Cons x xs)
  then show ?case by (cases xs) (simp_all add: set_set)
qed

end

text \<open>Two cells that do not share a field.\<close>

locale disjoint_cells = a: status_cell geta seta + b: status_cell getb setb
  for geta :: "'s \<Rightarrow> 'a" and seta :: "'a \<Rightarrow> 's \<Rightarrow> 's" and getb :: "'s \<Rightarrow> 'b" and setb :: "'b \<Rightarrow> 's \<Rightarrow> 's" +
  assumes commute: "seta x (setb y s) = setb y (seta x s)"
begin

lemma get_other: "geta (setb y s) = geta s"
  by (metis a.get_set a.set_get commute)

lemma get_other': "getb (seta x s) = getb s"
  by (metis b.get_set b.set_get commute)

lemma interleaved_writes:
  "ys \<noteq> [] \<Longrightarrow> geta (fold setb ys (seta x s)) = x"
  by (induction ys rule: rev_induct) (metis a.get_set fold_simps(1) get_other append_Nil fold_append comp_apply fold_simps(2))+

end

interpretation currentrpc: status_cell GetCurrentRpc SetCurrentRpc
  by unfold_locales (auto simp: setter_defs getter_defs split: prod.split)

interpretation starttime: status_cell GetStartTime SetStartTime
  by unfold_locales (auto simp: setter_defs getter_defs split: prod.split)

interpretation currentrpcst: status_cell GetCurrentRpcst SetCurrentRpcst
  by unfold_locales (auto simp: setter_defs getter_defs split: prod.split)

interpretation rpcconnecting: status_cell GetRpcConnecting SetRpcConnecting
  by unfold_locales (auto simp: setter_defs getter_defs split: prod.split)

interpretation pid: status_cell GetPID SetPID
  by unfold_locales (auto simp: setter_defs getter_defs split: prod.split)

interpretation cpucores: status_cell GetCpucores SetCpucores
  by unfold_locales (auto simp: setter_defs getter_defs split: prod.split)

interpretation comaddr: status_cell GetComAddr SetComAddr
  by unfold_locales (auto simp: setter_defs getter_defs split: prod.split)

interpretation checkpois: status_cell GetCheckPois SetCheckPois
  by unfold_locales (auto simp: setter_defs getter_defs split: prod.split)

interpretation lastchallenge: status_cell GetLastChallenge SetLastChallenge
  by unfold_locales (auto simp: setter_defs getter_defs split: prod.split)

interpretation idlechallenging: status_cell GetIdleChallenging SetIdleChallenging
  by unfold_locales (auto simp: setter_defs getter_defs split: prod.split)

interpretation servicechallenging: status_cell GetServiceChallenging SetServiceChallenging
  by unfold_locales (auto simp: setter_defs getter_defs split: prod.split)

interpretation signacc: status_cell GetSignAcc SetSignAcc
  by unfold_locales (auto simp: setter_defs getter_defs split: prod.split)

interpretation stakingacc: status_cell GetStakingAcc SetStakingAcc
  by unfold_locales (auto simp: setter_defs getter_defs split: prod.split)

interpretation earningsacc: status_cell GetEarningsAcc SetEarningsAcc
  by unfold_locales (auto simp: setter_defs getter_defs split: prod.split)

interpretation state: status_cell GetState SetState
  by unfold_locales (auto simp: setter_defs getter_defs split: prod.split)

interpretation register: status_cell GetRegister SetRegister
  by unfold_locales (auto simp: setter_defs getter_defs split: prod.split)

interpretation generatingidle: status_cell GetGeneratingIdle SetGeneratingIdle
  by unfold_locales (auto simp: setter_defs getter_defs split: prod.split)

interpretation certifyingidle: status_cell GetCertifyingIdle SetCertifyingIdle
  by unfold_locales (auto simp: setter_defs getter_defs split: prod.split)

interpretation spaceinfo: status_cell GetMinerSpaceInfo SetSpaceInfo
  by unfold_locales (auto simp: setter_defs getter_defs split: prod.split)

interpretation challenging: disjoint_cells GetIdleChallenging SetIdleChallenging GetServiceChallenging SetServiceChallenging
  by unfold_locales (simp add: setter_defs)

interpretation idle_flags: disjoint_cells GetGeneratingIdle SetGeneratingIdle GetCertifyingIdle SetCertifyingIdle
  by unfold_locales (simp add: setter_defs)

interpretation miner_state: disjoint_cells GetState SetState GetMinerSpaceInfo SetSpaceInfo
  by unfold_locales (simp add: setter_defs split: prod.split)

subsection \<open>The connection lock\<close>

text \<open>
  Calls on the connection flag by any number of callers, in the order in which the lock
  serialises them: \<open>Acquire\<close> is \<^verbatim>\<open>GetAndSetRpcConnecting\<close> (its answer false means the caller may
  reconnect), \<open>Release\<close> is \<^verbatim>\<open>SetRpcConnecting(false)\<close>.
\<close>

datatype conn_op = Acquire | Release

fun conn_run :: "conn_op list \<Rightarrow> runstatus \<Rightarrow> conn_op list" where
  "conn_run [] r = []"
| "conn_run (Acquire # ops) r =
     (case GetAndSetRpcConnecting r of (busy, r') \<Rightarrow> (if busy then [] else [Acquire]) @ conn_run ops r')"
| "conn_run (Release # ops) r = Release # conn_run ops (SetRpcConnecting False r)"

lemma conn_run_alternates:
  "conn_run ops r = xs @ Acquire # ys \<Longrightarrow>
     (isitconnecting (RpcSt r) \<longrightarrow> Release \<in> set xs)
     \<and> (\<forall>us vs. xs = us @ Acquire # vs \<longrightarrow> Release \<in> set vs)"
proof (induction ops r arbitrary: xs ys rule: conn_run.induct)
  case (2 ops r)
  show ?case
  proof (cases "isitconnecting (RpcSt r)")
    case True
    then have r: "GetAndSetRpcConnecting r = (True, r)" by (simp add: GetAndSetRpcConnecting_def)
    with 2(2) show ?thesis using 2(1) [OF r [symmetric], of xs ys] by simp
  next
    case False
    let ?r = "r\<lparr>RpcSt := (RpcSt r)\<lparr>isitconnecting := True\<rparr>\<rparr>"
    from False have r: "GetAndSetRpcConnecting r = (False, ?r)" by (simp add: GetAndSetRpcConnecting_def)
    show ?thesis
    proof (cases xs)
      case Nil
      with False show ?thesis by simp
    next
      case (Cons x xs')
      with 2(2) r have "conn_run ops ?r = xs' @ Acquire # ys" and x: "x = Acquire" by auto
      from 2(1) [OF r [symmetric] this(1)]
      have ih: "Release \<in> set xs'" "\<And>us vs. xs' = us @ Acquire # vs \<Longrightarrow> Release \<in> set vs" by auto
      show ?thesis using False ih Cons x by (auto simp: Cons_eq_append_conv)
    qed
  qed
next
  case (3 ops r)
  then show ?case
    by (cases xs) (auto simp: Cons_eq_append_conv SetRpcConnecting_def)
qed simp

text \<open>
  The reconnection lock excludes: between two callers that are told to reconnect there is always
  a release in between, and a caller that finds the flag set is never told to reconnect
  before a release.
\<close>

theorem rpc_connecting_excludes:
  assumes "conn_run ops r = us @ Acquire # vs @ Acquire # ws"
  shows "Release \<in> set vs"
  using conn_run_alternates [of ops r "us @ Acquire # vs" ws] assms by simp

theorem rpc_connecting_excludes_witness:
  "conn_run [Acquire, Acquire, Release, Acquire] NewRunstatus = [Acquire, Release, Acquire]
     \<and> Release \<in> set [Release]"
  using rpc_connecting_excludes [of "[Acquire, Acquire, Release, Acquire]" NewRunstatus "[]" "[Release]" "[]"]
  by (simp add: GetAndSetRpcConnecting_def SetRpcConnecting_def NewRunstatus_def NewRpcSt_def)

end
