(* ===== verification/TeeRecord.thy ===== *)
theory TeeRecord
  imports NodeTypes "HOL-Library.AList"
begin

text \<open>
  The record of TEE workers (\<^verbatim>\<open>src/node/record/tee.go\<close>) and the endpoint normalisation of
  \<^verbatim>\<open>src/node/chainsync.go\<close>. The Go map is an association list with distinct keys; the order in which
  \<^verbatim>\<open>range\<close> visits it is unspecified in Go, so the traversals take a function \<open>ord\<close> that rearranges
  the list (hypothesis: it is a permutation). Each method holds the lock for the whole access to
  the map, so it is one atomic step.
\<close>

subsection \<open>State\<close>

record teeInfo =
  EndPoint :: string
  Type :: u8

record teeRecord =
  priorityTeeEndpoints :: "string list"
  teeList :: "(string \<times> teeInfo) list"

type_synonym map_order = "(string \<times> teeInfo) list \<Rightarrow> (string \<times> teeInfo) list"

definition NewTeeRecord :: teeRecord where
  "NewTeeRecord = \<lparr>priorityTeeEndpoints = [], teeList = []\<rparr>"

subsection \<open>Operations\<close>

definition SaveTee :: "sdk \<Rightarrow> teeRecord \<Rightarrow> string \<Rightarrow> string \<Rightarrow> u8 \<Rightarrow> teeRecord \<times> goerr option" where
  "SaveTee K t pubkeyhex endPoint teeType =
     (if pubkeyhex = [] then (t, Some (mk_err ''publickey is empty''))
      else if endPoint = [] then (t, Some (mk_err ''endPoint is empty''))
      else if teeType > TeeType_Marker K then (t, Some (mk_err ''invalid tee type''))
      else
        (let teeEndPoint =
           (if HasPrefix endPoint ''http://'' then
              (let e = TrimSuffix (TrimPrefix endPoint ''http://'') ''/'' in
               if \<not> Contains e '':'' then e @ '':80'' else e)
            else if HasPrefix endPoint ''https://'' then
              (let e = TrimSuffix (TrimPrefix endPoint ''https://'') ''/'' in
               if \<not> Contains e '':'' then e @ '':443'' else e)
            else if \<not> Contains endPoint '':'' then endPoint @ '':80''
            else endPoint)
         in (t\<lparr>teeList := AList.update pubkeyhex \<lparr>EndPoint = teeEndPoint, Type = teeType\<rparr> (teeList t)\<rparr>, None)))"

definition Length :: "teeRecord \<Rightarrow> nat" where
  "Length t = length (teeList t)"

definition GetTee :: "teeRecord \<Rightarrow> string \<Rightarrow> teeInfo result" where
  "GetTee t pubkeyhex =
     (case map_of (teeList t) pubkeyhex of None \<Rightarrow> Inl (mk_err ''not found'') | Some r \<Rightarrow> Inr r)"

fun find_endpoint :: "string \<Rightarrow> (string \<times> teeInfo) list \<Rightarrow> string" where
  "find_endpoint endpoint [] = []"
| "find_endpoint endpoint ((k, v) # kvs) = (if EndPoint v = endpoint then k else find_endpoint endpoint kvs)"

definition GetTeePubkeyHexByEndpoint :: "map_order \<Rightarrow> teeRecord \<Rightarrow> string \<Rightarrow> string result" where
  "GetTeePubkeyHexByEndpoint ord t endpoint =
     (let pubkeyHex = find_endpoint endpoint (ord (teeList t)) in
      if pubkeyHex = [] then Inl (mk_err ''not found'') else Inr pubkeyHex)"

definition GetTeePubkeyByEndpoint :: "map_order \<Rightarrow> teeRecord \<Rightarrow> string \<Rightarrow> bytes result" where
  "GetTeePubkeyByEndpoint ord t endpoint =
     (let pubkeyHex = find_endpoint endpoint (ord (teeList t)) in
      if pubkeyHex = [] then Inl (mk_err ''not found'')
      else (case hex_DecodeString pubkeyHex of
              None \<Rightarrow> Inl (mk_err ''encoding/hex'') | Some b \<Rightarrow> Inr b))"

definition DeleteTee :: "teeRecord \<Rightarrow> string \<Rightarrow> teeRecord" where
  "DeleteTee t pubkeyhex =
     (case map_of (teeList t) pubkeyhex of
        None \<Rightarrow> t
      | Some _ \<Rightarrow> t\<lparr>teeList := AList.delete pubkeyhex (teeList t)\<rparr>)"

definition GetAllTeeEndpoint :: "map_order \<Rightarrow> teeRecord \<Rightarrow> string list" where
  "GetAllTeeEndpoint ord t = priorityTeeEndpoints t @ map (\<lambda>(k, v). EndPoint v) (ord (teeList t))"

definition GetAllTeePubkeyHex :: "map_order \<Rightarrow> teeRecord \<Rightarrow> string list" where
  "GetAllTeePubkeyHex ord t = map fst (ord (teeList t))"

definition GetAllMarkerTeeEndpoint :: "sdk \<Rightarrow> map_order \<Rightarrow> teeRecord \<Rightarrow> string list" where
  "GetAllMarkerTeeEndpoint K ord t =
     map (\<lambda>(k, v). EndPoint v)
       (filter (\<lambda>(k, v). Type v = TeeType_Full K \<or> Type v = TeeType_Marker K) (ord (teeList t)))"

definition GetAllVerifierTeeEndpoint :: "sdk \<Rightarrow> map_order \<Rightarrow> teeRecord \<Rightarrow> string list" where
  "GetAllVerifierTeeEndpoint K ord t =
     map (\<lambda>(k, v). EndPoint v)
       (filter (\<lambda>(k, v). Type v = TeeType_Full K \<or> Type v = TeeType_Verifier K) (ord (teeList t)))"

definition ProcessTeeEndpoint :: "string \<Rightarrow> string" where
  "ProcessTeeEndpoint endPoint =
     (if HasPrefix endPoint ''http://'' then
        (let e = TrimSuffix (TrimPrefix endPoint ''http://'') ''/'' in
         if \<not> Contains e '':'' then e @ '':80'' else e)
      else if HasPrefix endPoint ''https://'' then
        (let e = TrimSuffix (TrimPrefix endPoint ''https://'') ''/'' in
         if \<not> Contains e '':'' then e @ '':443'' else e)
      else if \<not> Contains endPoint '':'' then endPoint @ '':80''
      else endPoint)"

subsection \<open>The recorder as a finite map\<close>

text \<open>
  The contract of the recorder that its clients rely on: an abstract map \<open>look\<close> from key to
  worker, with what saving and deleting do to it, and a well-formedness kept by both.
\<close>

locale tee_recorder =
  fixes good :: "'t \<Rightarrow> bool"
    and look :: "'t \<Rightarrow> string \<Rightarrow> teeInfo option"
    and save :: "'t \<Rightarrow> string \<Rightarrow> string \<Rightarrow> u8 \<Rightarrow> 't \<times> goerr option"
    and remove :: "'t \<Rightarrow> string \<Rightarrow> 't"
    and norm :: "string \<Rightarrow> string"
  assumes save_ok: "good t \<Longrightarrow> save t k e ty = (t', None) \<Longrightarrow>
      good t' \<and> look t' = (look t)(k \<mapsto> \<lparr>EndPoint = norm e, Type = ty\<rparr>)"
    and save_fail: "save t k e ty = (t', Some x) \<Longrightarrow> t' = t"
    and remove_look: "good t \<Longrightarrow> good (remove t k) \<and> look (remove t k) = (look t)(k := None)"
begin

fun saves :: "'t \<Rightarrow> (string \<times> string \<times> u8) list \<Rightarrow> 't" where
  "saves t [] = t"
| "saves t ((k, e, ty) # xs) = saves (fst (save t k e ty)) xs"

lemma good_save: "good t \<Longrightarrow> good (fst (save t k e ty))"
  using save_ok [of t k e ty] save_fail [of t k e ty]
  by (cases "save t k e ty"; cases "snd (save t k e ty)") auto

lemma good_saves: "good t \<Longrightarrow> good (saves t xs)"
  by (induction t xs rule: saves.induct) (auto intro: good_save)

lemma saves_other: "good t \<Longrightarrow> k \<notin> fst ` set xs \<Longrightarrow> look (saves t xs) k = look t k"
proof (induction t xs rule: saves.induct)
  case (2 t j e ty xs)
  have "look (fst (save t j e ty)) k = look t k"
    using 2(2,3) save_ok [of t j e ty] save_fail [of t j e ty]
    by (cases "save t j e ty"; cases "snd (save t j e ty)") auto
  with 2 good_save show ?case by simp
qed simp

lemma remove_then_save:
  assumes "good t" and "save (remove t k) k e ty = (t', None)"
  shows "look t' = (look t)(k \<mapsto> \<lparr>EndPoint = norm e, Type = ty\<rparr>)"
  using save_ok [of "remove t k"] remove_look [OF assms(1)] assms by auto

end

definition tees_ok :: "teeRecord \<Rightarrow> bool" where
  "tees_ok t \<longleftrightarrow> distinct (map fst (teeList t))"

definition tee_look :: "teeRecord \<Rightarrow> string \<Rightarrow> teeInfo option" where
  "tee_look t = map_of (teeList t)"

lemma SaveTee_endpoint:
  "SaveTee K t k e ty = (t', None) \<longleftrightarrow> k \<noteq> [] \<and> e \<noteq> [] \<and> ty \<le> TeeType_Marker K
     \<and> t' = t\<lparr>teeList := AList.update k \<lparr>EndPoint = ProcessTeeEndpoint e, Type = ty\<rparr> (teeList t)\<rparr>"
  by (auto simp: SaveTee_def ProcessTeeEndpoint_def Let_def not_less)

lemma SaveTee_fail: "SaveTee K t k e ty = (t', Some x) \<Longrightarrow> t' = t"
  by (auto simp: SaveTee_def Let_def split: if_splits)

interpretation recorder: tee_recorder tees_ok tee_look "SaveTee K" DeleteTee ProcessTeeEndpoint
  for K
proof unfold_locales
  fix t k e ty t' assume "tees_ok t" and "SaveTee K t k e ty = (t', None)"
  then show "tees_ok t' \<and> tee_look t' = (tee_look t)(k \<mapsto> \<lparr>EndPoint = ProcessTeeEndpoint e, Type = ty\<rparr>)"
    by (auto simp: SaveTee_endpoint tees_ok_def tee_look_def distinct_update update_conv')
next
  fix t k assume "tees_ok t"
  then show "tees_ok (DeleteTee t k) \<and> tee_look (DeleteTee t k) = (tee_look t)(k := None)"
    by (auto simp: DeleteTee_def tees_ok_def tee_look_def distinct_delete delete_conv' split: option.split)
qed (rule SaveTee_fail)

subsection \<open>Endpoints\<close>

lemma Process_idem_aux: "Contains e '':'' \<Longrightarrow> \<not> HasPrefix e ''http://'' \<Longrightarrow> \<not> HasPrefix e ''https://'' \<Longrightarrow> ProcessTeeEndpoint e = e"
  by (simp add: ProcessTeeEndpoint_def)

lemma ProcessTeeEndpoint_port: "CHR '':'' \<in> set (ProcessTeeEndpoint e)"
  by (simp add: ProcessTeeEndpoint_def Let_def)

text \<open>
  C28. Saving a worker stores the endpoint exactly as \<^verbatim>\<open>ProcessTeeEndpoint\<close> normalises it (the two copies
  of that code agree), so that every stored endpoint has a port; a rejected save changes
  nothing; a later lookup by key returns what was saved last, other keys are untouched,
  and a deleted key is gone.
\<close>

theorem tee_record_laws:
  assumes "tees_ok t"
  shows "(case SaveTee K t k e ty of
       (t', None) \<Rightarrow> k \<noteq> [] \<and> e \<noteq> [] \<and> ty \<le> TeeType_Marker K \<and> tees_ok t'
          \<and> GetTee t' k = Inr \<lparr>EndPoint = ProcessTeeEndpoint e, Type = ty\<rparr>
          \<and> CHR '':'' \<in> set (ProcessTeeEndpoint e)
          \<and> (\<forall>j. j \<noteq> k \<longrightarrow> GetTee t' j = GetTee t j)
     | (t', Some x) \<Rightarrow> t' = t \<and> (k = [] \<or> e = [] \<or> ty > TeeType_Marker K))
    \<and> tees_ok (DeleteTee t k) \<and> (\<exists>x. GetTee (DeleteTee t k) k = Inl x)
    \<and> (\<forall>j. j \<noteq> k \<longrightarrow> GetTee (DeleteTee t k) j = GetTee t j)"
proof -
  have get: "GetTee s j = (case tee_look s j of None \<Rightarrow> Inl (mk_err ''not found'') | Some r \<Rightarrow> Inr r)" for s j
    by (simp add: GetTee_def tee_look_def)
  have "tees_ok (DeleteTee t k) \<and> (\<exists>x. GetTee (DeleteTee t k) k = Inl x)
      \<and> (\<forall>j. j \<noteq> k \<longrightarrow> GetTee (DeleteTee t k) j = GetTee t j)"
    using recorder.remove_look [OF assms, of k] by (simp add: get)
  moreover have "case SaveTee K t k e ty of
       (t', None) \<Rightarrow> k \<noteq> [] \<and> e \<noteq> [] \<and> ty \<le> TeeType_Marker K \<and> tees_ok t'
          \<and> GetTee t' k = Inr \<lparr>EndPoint = ProcessTeeEndpoint e, Type = ty\<rparr>
          \<and> CHR '':'' \<in> set (ProcessTeeEndpoint e)
          \<and> (\<forall>j. j \<noteq> k \<longrightarrow> GetTee t' j = GetTee t j)
     | (t', Some x) \<Rightarrow> t' = t \<and> (k = [] \<or> e = [] \<or> ty > TeeType_Marker K)"
  proof (cases "SaveTee K t k e ty")
    case (Pair t' x)
    show ?thesis
    proof (cases x)
      case None
      with Pair have sv: "SaveTee K t k e ty = (t', None)" by simp
      then have "k \<noteq> [] \<and> e \<noteq> [] \<and> ty \<le> TeeType_Marker K" by (simp add: SaveTee_endpoint)
      then show ?thesis using recorder.save_ok [OF assms sv] sv by (simp add: get ProcessTeeEndpoint_port)
    next
      case (Some y)
      then show ?thesis using Pair SaveTee_fail [of K t k e ty t' y]
        by (auto simp: SaveTee_def Let_def split: if_splits)
    qed
  qed
  ultimately show ?thesis by blast
qed

theorem tee_record_laws_witness:
  "SaveTee demo_sdk NewTeeRecord ''ab'' ''http://h/'' 1 =
     (NewTeeRecord\<lparr>teeList := [(''ab'', \<lparr>EndPoint = ''h:80'', Type = 1\<rparr>)]\<rparr>, None)
   \<and> tees_ok (DeleteTee NewTeeRecord ''ab'') \<and> (\<exists>x. GetTee (DeleteTee NewTeeRecord ''ab'') ''ab'' = Inl x)"
proof -
  have "tees_ok NewTeeRecord" by (simp add: tees_ok_def NewTeeRecord_def)
  moreover have "SaveTee demo_sdk NewTeeRecord ''ab'' ''http://h/'' 1 =
     (NewTeeRecord\<lparr>teeList := [(''ab'', \<lparr>EndPoint = ''h:80'', Type = 1\<rparr>)]\<rparr>, None)"
    by code_simp
  ultimately show ?thesis
    using tee_record_laws [where t = NewTeeRecord and k = "''ab''"] by blast
qed

subsection \<open>Traversals\<close>

lemma find_endpoint_mem:
  "find_endpoint e kvs \<noteq> [] \<Longrightarrow> \<exists>v. (find_endpoint e kvs, v) \<in> set kvs \<and> EndPoint v = e"
  by (induction e kvs rule: find_endpoint.induct) (auto split: if_splits)

lemma find_endpoint_Nil:
  "\<forall>(k, v) \<in> set kvs. k \<noteq> [] \<Longrightarrow> find_endpoint e kvs = [] \<longleftrightarrow> (\<forall>(k, v) \<in> set kvs. EndPoint v \<noteq> e)"
  by (induction e kvs rule: find_endpoint.induct) auto

text \<open>
  Asking for verifier endpoints, and then for the key of one of them, fits together for every
  order in which the map is visited: the listing holds exactly the endpoints of workers of
  type full or verifier (as many as there are such workers), and each endpoint listed
  resolves to the key of a worker saved with that endpoint. The same holds of marker endpoints.
\<close>

theorem tee_listing:
  assumes ord: "\<And>kvs. mset (ord kvs) = mset kvs"
    and keys: "\<forall>(k, v) \<in> set (teeList t). k \<noteq> []"
  shows "mset (GetAllVerifierTeeEndpoint K ord t) = mset (map EndPoint (filter (\<lambda>v. Type v = TeeType_Full K \<or> Type v = TeeType_Verifier K) (map snd (teeList t))))
    \<and> mset (GetAllMarkerTeeEndpoint K ord t) = mset (map EndPoint (filter (\<lambda>v. Type v = TeeType_Full K \<or> Type v = TeeType_Marker K) (map snd (teeList t))))
    \<and> (\<forall>e \<in> set (GetAllVerifierTeeEndpoint K ord t) \<union> set (GetAllMarkerTeeEndpoint K ord t).
         \<exists>k v. GetTeePubkeyHexByEndpoint ord t e = Inr k \<and> (k, v) \<in> set (teeList t) \<and> EndPoint v = e)"
proof -
  have set_ord: "set (ord kvs) = set kvs" for kvs by (metis ord set_mset_mset)
  have sel: "mset (map (\<lambda>(k, v). EndPoint v) (filter (\<lambda>(k, v). P v) (ord (teeList t))))
      = mset (map EndPoint (filter (\<lambda>v. P v) (map snd (teeList t))))" for P
  proof -
    have "mset (map (\<lambda>(k, v). EndPoint v) (filter (\<lambda>(k, v). P v) (ord (teeList t))))
        = mset (map (\<lambda>(k, v). EndPoint v) (filter (\<lambda>(k, v). P v) (teeList t)))"
      using ord by simp
    also have "map (\<lambda>(k, v). EndPoint v) (filter (\<lambda>(k, v). P v) kvs)
        = map EndPoint (filter (\<lambda>v. P v) (map snd kvs))" for kvs
      by (induction kvs) auto
    finally show ?thesis .
  qed
  have "\<exists>k v. GetTeePubkeyHexByEndpoint ord t e = Inr k \<and> (k, v) \<in> set (teeList t) \<and> EndPoint v = e"
    if "e \<in> set (GetAllVerifierTeeEndpoint K ord t) \<union> set (GetAllMarkerTeeEndpoint K ord t)" for e
  proof -
    from that have "\<exists>(k, v) \<in> set (ord (teeList t)). EndPoint v = e"
      by (force simp: GetAllVerifierTeeEndpoint_def GetAllMarkerTeeEndpoint_def)
    moreover have "\<forall>(k, v) \<in> set (ord (teeList t)). k \<noteq> []" using keys set_ord by simp
    ultimately have ne: "find_endpoint e (ord (teeList t)) \<noteq> []" using find_endpoint_Nil by fastforce
    with find_endpoint_mem [OF ne] show ?thesis
      by (auto simp: GetTeePubkeyHexByEndpoint_def Let_def set_ord)
  qed
  then show ?thesis
    using sel [of "\<lambda>v. Type v = TeeType_Full K \<or> Type v = TeeType_Verifier K"]
      sel [of "\<lambda>v. Type v = TeeType_Full K \<or> Type v = TeeType_Marker K"]
    by (simp add: GetAllVerifierTeeEndpoint_def GetAllMarkerTeeEndpoint_def)
qed

definition demo_tees :: teeRecord where
  "demo_tees = \<lparr>priorityTeeEndpoints = [], teeList =
     [(''aa'', \<lparr>EndPoint = ''x:80'', Type = 1\<rparr>), (''bb'', \<lparr>EndPoint = ''y:80'', Type = 2\<rparr>)]\<rparr>"

theorem tee_listing_witness:
  "mset (GetAllVerifierTeeEndpoint demo_sdk rev demo_tees) = {# ''x:80'' #}
   \<and> (\<exists>k v. GetTeePubkeyHexByEndpoint rev demo_tees ''x:80'' = Inr k \<and> (k, v) \<in> set (teeList demo_tees)
        \<and> EndPoint v = ''x:80'')"
proof -
  have "\<forall>(k, v) \<in> set (teeList demo_tees). k \<noteq> []" by (simp add: demo_tees_def)
  note l = tee_listing [of rev, OF _ this, of demo_sdk]
  have m: "mset (GetAllVerifierTeeEndpoint demo_sdk rev demo_tees) = {# ''x:80'' #}"
    using l by (simp add: demo_tees_def demo_sdk_def)
  then have "''x:80'' \<in> set (GetAllVerifierTeeEndpoint demo_sdk rev demo_tees)"
    by (metis set_mset_mset union_single_eq_member)
  with m l show ?thesis by simp
qed

end
