(* ===== verification/Stored.thy ===== *)
theory Stored
  imports NodeTypes
begin

text \<open>
  The JSON of what the miner stores: tag files (\<^verbatim>\<open>TagfileType\<close> of \<^verbatim>\<open>src/node/calctag.go\<close> with the protobuf messages
  \<^verbatim>\<open>pb.Tag\<close> and \<^verbatim>\<open>pb.Tag_T\<close>), the record of the service challenge and the random numbers of a challenge
  (\<^verbatim>\<open>src/node/common/types.go\<close>), by the tags of their fields; and that they are read back as they were stored.
\<close>

subsection \<open>Tag files\<close>

definition T_zero :: pbT where
  "T_zero = \<lparr>T_Name = [], T_U = [], T_Phi = []\<rparr>"

definition Tag_zero :: pbTag where
  "Tag_zero = \<lparr>pt_T = None, pt_PhiHash = [], pt_Attest = []\<rparr>"

definition enc_T :: "pbT \<Rightarrow> json" where
  "enc_T t = JObj (
     omit_if (T_Name t = []) ''name'' (JStr (T_Name t)) @
     omit_if (T_U t = []) ''u'' (JStr (T_U t)) @
     omit_if (T_Phi t = []) ''phi'' (enc_list JStr (T_Phi t)))"

definition T_fields :: "pbT fields" where
  "T_fields =
     [(''name'', field T_Name T_Name_update dec_string),
      (''u'', field T_U T_U_update dec_string),
      (''phi'', field T_Phi T_Phi_update (dec_list dec_string []))]"

definition enc_Tag :: "pbTag \<Rightarrow> json" where
  "enc_Tag t = JObj (
     (case pt_T t of None \<Rightarrow> [] | Some x \<Rightarrow> [(''t'', enc_T x)]) @
     omit_if (pt_PhiHash t = []) ''phi_hash'' (JStr (pt_PhiHash t)) @
     omit_if (pt_Attest t = []) ''attest'' (JStr (pt_Attest t)))"

definition Tag_fields :: "pbTag fields" where
  "Tag_fields =
     [(''t'', field pt_T pt_T_update (dec_ptr (dec_struct T_fields) T_zero)),
      (''phi_hash'', field pt_PhiHash pt_PhiHash_update dec_string),
      (''attest'', field pt_Attest pt_Attest_update dec_string)]"

definition enc_tagfile :: "tagfileType \<Rightarrow> json" where
  "enc_tagfile t = JObj (
     (case tf_Tag t of None \<Rightarrow> [] | Some x \<Rightarrow> [(''tag'', enc_Tag x)]) @
     omit_if (tf_USig t = []) ''u_sig'' (enc_bytes (tf_USig t)) @
     omit_if (tf_Signature t = []) ''signature'' (enc_bytes (tf_Signature t)) @
     omit_if (tf_FragmentName t = []) ''fragment_name'' (enc_bytes (tf_FragmentName t)) @
     omit_if (tf_TeeAccountId t = []) ''tee_account_id'' (enc_bytes (tf_TeeAccountId t)) @
     omit_if (tf_Index t = 0) ''index'' (enc_uint (tf_Index t)))"

definition tagfile_fields :: "tagfileType fields" where
  "tagfile_fields =
     [(''tag'', field tf_Tag tf_Tag_update (dec_ptr (dec_struct Tag_fields) Tag_zero)),
      (''u_sig'', field tf_USig tf_USig_update dec_bytes),
      (''signature'', field tf_Signature tf_Signature_update dec_bytes),
      (''fragment_name'', field tf_FragmentName tf_FragmentName_update dec_bytes),
      (''tee_account_id'', field tf_TeeAccountId tf_TeeAccountId_update dec_bytes),
      (''index'', field tf_Index tf_Index_update dec_uint)]"

definition marshal_tag :: "tagfileType \<Rightarrow> bytes result" where
  "marshal_tag = Marshal (\<lambda>t. Inr (enc_tagfile t))"

definition unmarshal_tag :: "tagfileType \<Rightarrow> bytes \<Rightarrow> tagfileType \<times> goerr option" where
  "unmarshal_tag = Unmarshal (dec_struct tagfile_fields)"

subsection \<open>The record of the service challenge\<close>

fun enc_all :: "(string \<times> json result) list \<Rightarrow> (string \<times> json) list result" where
  "enc_all [] = Inr []"
| "enc_all ((k, r) # krs) =
     (case r of
        Inl e \<Rightarrow> Inl e
      | Inr j \<Rightarrow> (case enc_all krs of Inl e \<Rightarrow> Inl e | Inr kvs \<Rightarrow> Inr ((k, j) # kvs)))"

definition enc_service :: "sdk \<Rightarrow> serviceProofInfo \<Rightarrow> json result" where
  "enc_service K r =
     map_sum (\<lambda>e. e) JObj (enc_all
       [(''signature_hex'', Inr (JStr (sv_SignatureHex r))),
        (''proof'', c_enc (json_U8s K) (sv_Proof r)),
        (''bloom_filter'', c_enc (json_bloom K) (sv_BloomFilter r)),
        (''tee_public_key'', c_enc (json_key K) (sv_TeePublicKey r)),
        (''start'', Inr (enc_uint (sv_Start r))),
        (''result'', Inr (JBool (sv_Result r))),
        (''can_submit_proof'', Inr (JBool (sv_CanSubmitProof r))),
        (''can_submit_result'', Inr (JBool (sv_CanSubmitResult r)))])"

definition service_fields :: "sdk \<Rightarrow> serviceProofInfo fields" where
  "service_fields K =
     [(''signature_hex'', field sv_SignatureHex sv_SignatureHex_update dec_string),
      (''proof'', field sv_Proof sv_Proof_update (c_dec (json_U8s K))),
      (''bloom_filter'', field sv_BloomFilter sv_BloomFilter_update (c_dec (json_bloom K))),
      (''tee_public_key'', field sv_TeePublicKey sv_TeePublicKey_update (c_dec (json_key K))),
      (''start'', field sv_Start sv_Start_update dec_uint),
      (''result'', field sv_Result sv_Result_update dec_bool),
      (''can_submit_proof'', field sv_CanSubmitProof sv_CanSubmitProof_update dec_bool),
      (''can_submit_result'', field sv_CanSubmitResult sv_CanSubmitResult_update dec_bool)]"

definition marshal_service :: "sdk \<Rightarrow> serviceProofInfo \<Rightarrow> bytes result" where
  "marshal_service K = Marshal (enc_service K)"

definition unmarshal_service :: "sdk \<Rightarrow> bytes \<Rightarrow> serviceProofInfo \<times> goerr option" where
  "unmarshal_service K = Unmarshal (dec_struct (service_fields K)) zero_service"

subsection \<open>The random numbers of a challenge\<close>

definition enc_random :: "randomList \<Rightarrow> json" where
  "enc_random r = JObj [(''index'', enc_list enc_uint (rd_Index r)), (''random'', enc_list enc_bytes (rd_Random r))]"

definition marshal_random :: "randomList \<Rightarrow> bytes result" where
  "marshal_random = Marshal (\<lambda>r. Inr (enc_random r))"

subsection \<open>What is stored is read back\<close>

lemma dec_enc_strings [simp]: "dec_list dec_string [] [] (enc_list JStr xs) = Done xs"
  by (simp add: dec_list_def enc_list_def dec_elems_enc)

lemma plain_strings: "plain_json n (enc_list JStr xs) \<longleftrightarrow> 1 \<le> n \<and> (\<forall>x \<in> set xs. utf8_Valid x)"
  by (auto simp: enc_list_def plain_simps)

lemma dec_struct_JObj [simp]: "dec_struct fs old (JObj kvs) = dec_members fs old kvs"
  by (simp add: dec_struct_def)

lemma enc_not_null [simp]: "enc_T t \<noteq> JNull" "enc_Tag t' \<noteq> JNull"
  by (simp_all add: enc_T_def enc_Tag_def)

lemma dec_members_omit [simp]:
  "dec_members fs r (omit_if b k j @ kvs) = (if b then dec_members fs r kvs else dec_members fs r ((k, j) # kvs))"
  "dec_members fs r (omit_if b k j) = (if b then Done r else dec_members fs r [(k, j)])"
  by (simp_all add: omit_if_def)

lemma omit_if_ball: "(\<forall>x \<in> set (omit_if b k j). P x) \<longleftrightarrow> b \<or> P (k, j)"
  by (simp add: omit_if_def)

lemma name_utf8 [simp]:
  "utf8_Valid ''name''" "utf8_Valid ''u''" "utf8_Valid ''phi''" "utf8_Valid ''t''" "utf8_Valid ''phi_hash''" "utf8_Valid ''attest''"
  "utf8_Valid ''tag''" "utf8_Valid ''u_sig''" "utf8_Valid ''signature''" "utf8_Valid ''fragment_name''"
  "utf8_Valid ''tee_account_id''" "utf8_Valid ''index''" "utf8_Valid ''signature_hex''" "utf8_Valid ''proof''"
  "utf8_Valid ''bloom_filter''" "utf8_Valid ''tee_public_key''" "utf8_Valid ''start''" "utf8_Valid ''result''"
  "utf8_Valid ''can_submit_proof''" "utf8_Valid ''can_submit_result''" "utf8_Valid ''random''"
  by (rule utf8_Valid_ascii, simp)+

definition T_valid :: "pbT \<Rightarrow> bool" where
  "T_valid t \<longleftrightarrow> utf8_Valid (T_Name t) \<and> utf8_Valid (T_U t) \<and> (\<forall>x \<in> set (T_Phi t). utf8_Valid x)"

definition Tag_valid :: "pbTag \<Rightarrow> bool" where
  "Tag_valid t \<longleftrightarrow> utf8_Valid (pt_PhiHash t) \<and> utf8_Valid (pt_Attest t) \<and> (case pt_T t of None \<Rightarrow> True | Some x \<Rightarrow> T_valid x)"

text \<open>A tag whose texts are UTF-8; its slices of bytes may be any.\<close>

definition tagfile_valid :: "tagfileType \<Rightarrow> bool" where
  "tagfile_valid t \<longleftrightarrow> (case tf_Tag t of None \<Rightarrow> True | Some x \<Rightarrow> Tag_valid x)"

lemma dec_enc_T: "dec_struct T_fields T_zero (enc_T t) = Done t"
  by (cases t) (auto simp: enc_T_def T_zero_def T_fields_def find_field_def field_def)

lemma plain_enc_T: "T_valid t \<Longrightarrow> plain_json 2 (enc_T t)"
  by (auto simp: enc_T_def plain_simps plain_strings T_valid_def ball_Un omit_if_ball)

lemma dec_enc_Tag: "dec_struct Tag_fields Tag_zero (enc_Tag t) = Done t"
  by (cases t) (auto simp: enc_Tag_def Tag_zero_def Tag_fields_def find_field_def field_def dec_ptr_def dec_enc_T
      split: option.split)

lemma plain_enc_Tag: "Tag_valid t \<Longrightarrow> plain_json 3 (enc_Tag t)"
  using plain_enc_T by (auto simp: enc_Tag_def plain_simps Tag_valid_def ball_Un omit_if_ball split: option.splits)

lemma dec_enc_tagfile: "dec_struct tagfile_fields tagfile_zero (enc_tagfile t) = Done t"
  by (cases t) (auto simp: enc_tagfile_def tagfile_zero_def tagfile_fields_def find_field_def field_def dec_ptr_def
      dec_enc_Tag split: option.split)

interpretation tagfile_codec: json_codec "\<lambda>t. Inr (enc_tagfile t)" "dec_struct tagfile_fields" tagfile_zero tagfile_valid 4
proof unfold_locales
  fix t
  assume "tagfile_valid t"
  then have "plain_json 4 (enc_tagfile t)"
    using plain_enc_Tag by (auto simp: enc_tagfile_def plain_simps tagfile_valid_def ball_Un omit_if_ball split: option.splits)
  then show "\<exists>j. Inr (enc_tagfile t) = Inr j \<and> plain_json 4 j \<and> dec_struct tagfile_fields tagfile_zero j = Done t"
    by (simp add: dec_enc_tagfile)
qed (simp add: max_depth_def)

lemma tag_stored: "tagfile_valid t \<Longrightarrow> \<exists>buf. marshal_tag t = Inr buf \<and> unmarshal_tag tagfile_zero buf = (t, None)"
  unfolding marshal_tag_def unmarshal_tag_def by (rule tagfile_codec.Marshal_Unmarshal)

text \<open>The record of the service challenge, if the codecs of the other modules give back what they are given.\<close>

definition third_codec :: "'a codec \<Rightarrow> 'a \<Rightarrow> 'a \<Rightarrow> bool" where
  "third_codec c zero x \<longleftrightarrow> (\<exists>j. c_enc c x = Inr j \<and> plain_json 100 j \<and> c_dec c zero j = Done x)"

definition service_valid :: "sdk \<Rightarrow> serviceProofInfo \<Rightarrow> bool" where
  "service_valid K r \<longleftrightarrow> utf8_Valid (sv_SignatureHex r) \<and> third_codec (json_U8s K) [] (sv_Proof r)
     \<and> third_codec (json_bloom K) [] (sv_BloomFilter r) \<and> third_codec (json_key K) [] (sv_TeePublicKey r)"

interpretation service_codec: json_codec "enc_service K" "dec_struct (service_fields K)" zero_service "service_valid K" 101 for K
proof unfold_locales
  fix r
  assume "service_valid K r"
  then obtain a b c where u: "utf8_Valid (sv_SignatureHex r)"
    and a: "c_enc (json_U8s K) (sv_Proof r) = Inr a" "plain_json 100 a" "c_dec (json_U8s K) [] a = Done (sv_Proof r)"
    and b: "c_enc (json_bloom K) (sv_BloomFilter r) = Inr b" "plain_json 100 b" "c_dec (json_bloom K) [] b = Done (sv_BloomFilter r)"
    and c: "c_enc (json_key K) (sv_TeePublicKey r) = Inr c" "plain_json 100 c" "c_dec (json_key K) [] c = Done (sv_TeePublicKey r)"
    by (auto simp: service_valid_def third_codec_def)
  let ?j = "JObj [(''signature_hex'', JStr (sv_SignatureHex r)), (''proof'', a), (''bloom_filter'', b), (''tee_public_key'', c),
    (''start'', enc_uint (sv_Start r)), (''result'', JBool (sv_Result r)), (''can_submit_proof'', JBool (sv_CanSubmitProof r)),
    (''can_submit_result'', JBool (sv_CanSubmitResult r))]"
  have "enc_service K r = Inr ?j" using a(1) b(1) c(1) by (simp add: enc_service_def)
  moreover have "plain_json 101 ?j" using u a(2) b(2) c(2) by (simp add: plain_simps)
  moreover have "dec_struct (service_fields K) zero_service ?j = Done r"
    using a(3) b(3) c(3) by (cases r) (simp add: service_fields_def find_field_def field_def zero_service_def)
  ultimately show "\<exists>j. enc_service K r = Inr j \<and> plain_json 101 j \<and> dec_struct (service_fields K) zero_service j = Done r"
    by blast
qed (simp add: max_depth_def)

lemma service_stored: "service_valid K r \<Longrightarrow> marshal_service K r = Inr buf \<Longrightarrow> unmarshal_service K buf = (r, None)"
  unfolding marshal_service_def unmarshal_service_def by (rule service_codec.Unmarshal_Marshal)

lemma demo_service_valid: "service_valid demo_sdk zero_service"
  by (simp add: service_valid_def third_codec_def demo_sdk_def zero_service_def enc_list_def plain_simps dec_list_def utf8_Valid_def)

text \<open>The random numbers are written as an object with two arrays, which can be parsed.\<close>

lemma random_stored: "\<exists>buf. marshal_random r = Inr buf \<and> parse buf = Some (enc_random r)"
proof -
  have "plain_json 2 (enc_random r)" by (auto simp: enc_random_def enc_list_def plain_simps)
  then have "parse (print (enc_random r)) = Some (enc_random r)"
    using parse_print [of "enc_random r"] by (simp add: plain_json_def max_depth_def)
  then show ?thesis by (simp add: marshal_random_def Marshal_def)
qed

text \<open>A text that is no JSON, such as the empty one, leaves the tag as it was.\<close>

lemma unmarshal_tag_empty: "unmarshal_tag t [] = (t, Some (mk_err ''invalid JSON''))"
  by (simp add: unmarshal_tag_def Unmarshal_def parse_def)

end
