(* ===== verification/Workspace.thy ===== *)
theory Workspace
  imports Stored Host
begin

text \<open>
  The miner's directory tree (\<^verbatim>\<open>src/node/workspace/workspace.go\<close>): creating it, wiping it, and the
  challenge records kept in it. An operation takes and returns the file system and, where it
  sets fields of the Go structure, the structure.
\<close>

subsection \<open>State\<close>

record workspace =
  rootDir :: string
  fileDir :: string
  reportDir :: string
  tmpDir :: string
  dbDir :: string
  logDir :: string
  spaceDir :: string
  poisDir :: string
  accDir :: string
  randomDir :: string
  podr2_rsa_pub :: string
  idle_prove :: string
  service_prove :: string

definition NewWorkspace :: "string \<Rightarrow> workspace" where
  "NewWorkspace ws = \<lparr>rootDir = ws, fileDir = [], reportDir = [], tmpDir = [], dbDir = [], logDir = [],
     spaceDir = [], poisDir = [], accDir = [], randomDir = [], podr2_rsa_pub = [], idle_prove = [],
     service_prove = []\<rparr>"

text \<open>\<^verbatim>\<open>if err := ...; err != nil { return err }\<close>, for a list of calls on the file system.\<close>

fun try_all :: "(fs \<Rightarrow> fs \<times> goerr option) list \<Rightarrow> fs \<Rightarrow> fs \<times> goerr option" where
  "try_all [] fs = (fs, None)"
| "try_all (f # ops) fs = (case f fs of (fs1, Some e) \<Rightarrow> (fs1, Some e) | (fs1, None) \<Rightarrow> try_all ops fs1)"

text \<open>Calls whose error is ignored.\<close>

definition remove_all_of :: "string list \<Rightarrow> fs \<Rightarrow> fs" where
  "remove_all_of ps fs = fold (\<lambda>p fs. fst (os_Remove fs p)) ps fs"

subsection \<open>Building the tree\<close>

text \<open>The outer \<open>None\<close> is a panic; the warning when there is little space is only printed.\<close>

definition Check :: "(string \<Rightarrow> usage) \<Rightarrow> workspace \<Rightarrow> goerr option option" where
  "Check diskUsage w =
     (case GetDirFreeSpace (diskUsage (rootDir w)) of
        None \<Rightarrow> None
      | Some (free, Some e) \<Rightarrow> Some (Some (mk_err (''check workspace: '' @ err_msg e)))
      | Some (free, None) \<Rightarrow> Some None)"

text \<open>A disk that cannot be asked makes the check panic: the answer is nil, and its field is read first.\<close>

lemma Check_panics: "diskUsage (rootDir w) = (None, Some e) \<Longrightarrow> Check diskUsage w = None"
  by (simp add: Check_def GetDirFreeSpace_def)

definition set_paths :: "workspace \<Rightarrow> workspace" where
  "set_paths w = w\<lparr>
     idle_prove := Join [rootDir w, ''idle_proof''],
     service_prove := Join [rootDir w, ''service_proof''],
     fileDir := Join [rootDir w, ''file''],
     reportDir := Join [rootDir w, ''report''],
     tmpDir := Join [rootDir w, ''tmp''],
     dbDir := Join [rootDir w, ''db''],
     logDir := Join [rootDir w, ''log''],
     spaceDir := Join [rootDir w, ''space''],
     accDir := Join [rootDir w, ''acc''],
     poisDir := Join [rootDir w, ''pois''],
     randomDir := Join [rootDir w, ''random'']\<rparr>"

definition RemoveAndBuild :: "fs \<Rightarrow> workspace \<Rightarrow> fs \<times> workspace \<times> goerr option" where
  "RemoveAndBuild fs w0 =
     (if rootDir w0 = [] then (fs, w0, Some (mk_err ''Please initialize the workspace first''))
      else
        (let w = set_paths w0 in
         case try_all (map (\<lambda>d fs. os_RemoveAll fs d)
                [fileDir w, reportDir w, tmpDir w, dbDir w, logDir w, spaceDir w, poisDir w, accDir w, randomDir w]) fs of
           (fs1, Some e) \<Rightarrow> (fs1, w, Some e)
         | (fs1, None) \<Rightarrow>
             (let fs2 = remove_all_of
                    [Join [rootDir w, ''idle_prove''], Join [rootDir w, ''service_prove''],
                     Join [rootDir w, ''podr2_rsa.pub''], Join [rootDir w, ''peer_record''],
                     podr2_rsa_pub w, idle_prove w, service_prove w] fs1
              in case try_all (map (\<lambda>d fs. os_MkdirAll fs d)
                     [fileDir w, reportDir w, tmpDir w, dbDir w, logDir w, spaceDir w, accDir w, poisDir w, randomDir w]) fs2 of
                   (fs3, r) \<Rightarrow> (fs3, w, r))))"

fun build_steps :: "((string \<Rightarrow> workspace \<Rightarrow> workspace) \<times> string) list \<Rightarrow> fs \<Rightarrow> workspace \<Rightarrow> fs \<times> workspace \<times> goerr option" where
  "build_steps [] fs w = (fs, w, None)"
| "build_steps ((setf, name) # steps) fs w =
     (let d = Join [rootDir w, name]; w' = setf d w in
      case os_MkdirAll fs d of
        (fs1, Some e) \<Rightarrow> (fs1, w', Some e)
      | (fs1, None) \<Rightarrow> build_steps steps fs1 w')"

definition build_dirs :: "((string \<Rightarrow> workspace \<Rightarrow> workspace) \<times> string) list" where
  "build_dirs =
     [(\<lambda>d w. w\<lparr>logDir := d\<rparr>, ''log''), (\<lambda>d w. w\<lparr>dbDir := d\<rparr>, ''db''), (\<lambda>d w. w\<lparr>accDir := d\<rparr>, ''acc''),
      (\<lambda>d w. w\<lparr>poisDir := d\<rparr>, ''pois''), (\<lambda>d w. w\<lparr>randomDir := d\<rparr>, ''random''),
      (\<lambda>d w. w\<lparr>spaceDir := d\<rparr>, ''space''), (\<lambda>d w. w\<lparr>fileDir := d\<rparr>, ''file''),
      (\<lambda>d w. w\<lparr>reportDir := d\<rparr>, ''report'')]"

definition Build :: "fs \<Rightarrow> workspace \<Rightarrow> fs \<times> workspace \<times> goerr option" where
  "Build fs w0 =
     (if rootDir w0 = [] then (fs, w0, Some (mk_err ''Please initialize the workspace first''))
      else
        (let fs1 = remove_all_of
               [Join [rootDir w0, ''idle_prove''], Join [rootDir w0, ''service_prove''],
                Join [rootDir w0, ''podr2_rsa.pub''], Join [rootDir w0, ''peer_record'']] fs;
             w1 = w0\<lparr>idle_prove := Join [rootDir w0, ''idle_proof''],
                     service_prove := Join [rootDir w0, ''service_proof'']\<rparr>
         in case build_steps build_dirs fs1 w1 of
              (fs2, w2, Some e) \<Rightarrow> (fs2, w2, Some e)
            | (fs2, w2, None) \<Rightarrow>
                (let w3 = w2\<lparr>tmpDir := Join [rootDir w2, ''tmp'']\<rparr>;
                     fs3 = fst (os_RemoveAll fs2 (tmpDir w3))
                 in case os_MkdirAll fs3 (tmpDir w3) of (fs4, r) \<Rightarrow> (fs4, w3, r))))"

subsection \<open>Accessors\<close>

definition GetRootDir :: "workspace \<Rightarrow> string" where "GetRootDir w = rootDir w"
definition GetFileDir :: "workspace \<Rightarrow> string" where "GetFileDir w = fileDir w"
definition GetReportDir :: "workspace \<Rightarrow> string" where "GetReportDir w = reportDir w"
definition GetTmpDir :: "workspace \<Rightarrow> string" where "GetTmpDir w = tmpDir w"
definition GetDbDir :: "workspace \<Rightarrow> string" where "GetDbDir w = dbDir w"
definition GetLogDir :: "workspace \<Rightarrow> string" where "GetLogDir w = logDir w"
definition GetSpaceDir :: "workspace \<Rightarrow> string" where "GetSpaceDir w = spaceDir w"
definition GetPoisDir :: "workspace \<Rightarrow> string" where "GetPoisDir w = poisDir w"
definition GetPoisAccDir :: "workspace \<Rightarrow> string" where "GetPoisAccDir w = accDir w"
definition GetChallRndomDir :: "workspace \<Rightarrow> string" where "GetChallRndomDir w = randomDir w"
definition GetChallRandomDir :: "workspace \<Rightarrow> string" where "GetChallRandomDir w = randomDir w"
definition GetPodr2Key :: "workspace \<Rightarrow> string" where "GetPodr2Key w = podr2_rsa_pub w"
definition GetIdleProve :: "workspace \<Rightarrow> string" where "GetIdleProve w = idle_prove w"
definition GetServiceProve :: "workspace \<Rightarrow> string" where "GetServiceProve w = service_prove w"

lemmas ws_getters = GetRootDir_def GetFileDir_def GetReportDir_def GetTmpDir_def GetDbDir_def GetLogDir_def
  GetSpaceDir_def GetPoisDir_def GetPoisAccDir_def GetChallRndomDir_def GetChallRandomDir_def GetPodr2Key_def
  GetIdleProve_def GetServiceProve_def

subsection \<open>Challenge records\<close>

definition SaveIdleProve :: "sdk \<Rightarrow> fs \<Rightarrow> workspace \<Rightarrow> idleProofInfo \<Rightarrow> fs \<times> goerr option" where
  "SaveIdleProve K fs w r =
     (case marshal_idle K r of Inl e \<Rightarrow> (fs, Some e) | Inr buf \<Rightarrow> WriteBufToFile K fs buf (idle_prove w))"

definition LoadIdleProve :: "sdk \<Rightarrow> fs \<Rightarrow> workspace \<Rightarrow> idleProofInfo \<times> goerr option" where
  "LoadIdleProve K fs w =
     (case os_ReadFile fs (idle_prove w) of Inl e \<Rightarrow> (zero_idle, Some e) | Inr buf \<Rightarrow> unmarshal_idle K buf)"

definition SaveServiceProve :: "sdk \<Rightarrow> fs \<Rightarrow> workspace \<Rightarrow> serviceProofInfo \<Rightarrow> fs \<times> goerr option" where
  "SaveServiceProve K fs w r =
     (case marshal_service K r of Inl e \<Rightarrow> (fs, Some e) | Inr buf \<Rightarrow> WriteBufToFile K fs buf (service_prove w))"

definition LoadServiceProve :: "sdk \<Rightarrow> fs \<Rightarrow> workspace \<Rightarrow> serviceProofInfo \<times> goerr option" where
  "LoadServiceProve K fs w =
     (case os_ReadFile fs (service_prove w) of
        Inl e \<Rightarrow> (zero_service, Some e) | Inr buf \<Rightarrow> unmarshal_service K buf)"

definition save_random ::
  "fs \<Rightarrow> string \<Rightarrow> u32 list \<Rightarrow> chainRandom list \<Rightarrow> (fs \<times> goerr option) option" where
  "save_random fs path is rnds =
     (if length rnds < length is then None
      else
        (case marshal_random \<lparr>rd_Index = is, rd_Random = take (length is) rnds\<rparr> of
           Inl e \<Rightarrow> Some (fs, Some (mk_err (''[json.Marshal] '' @ err_msg e)))
         | Inr buff \<Rightarrow>
             Some (case os_OpenTrunc fs path of
               (fs1, Some e) \<Rightarrow> (fs1, Some (mk_err (''[OpenFile] '' @ err_msg e)))
             | (fs1, None) \<Rightarrow>
                 (if ffault fs1 OpWrite (resolve path) then (fs1, Some (mk_err (''[Write] '' @ err_msg err_io)))
                  else (put_node fs1 (resolve path) (FileNode buff),
                        if ffault fs1 OpSync (resolve path) then Some err_io else None)))))"

text \<open>\<open>None\<close> is the panic of indexing \<^verbatim>\<open>randomList\<close> beyond its length.\<close>

definition SaveChallRandom ::
  "fs \<Rightarrow> workspace \<Rightarrow> u32 \<Rightarrow> u32 list \<Rightarrow> chainRandom list \<Rightarrow> (fs \<times> goerr option) option" where
  "SaveChallRandom fs w challStart randomIndexList randomList =
     (let randfilePath = Join [GetChallRndomDir w, ''random.'' @ show_nat (unat challStart)] in
      case os_Stat fs randfilePath of
        Inr fstat \<Rightarrow>
          (if fi_size fstat > 0 then Some (fs, None)
           else save_random fs randfilePath randomIndexList randomList)
      | Inl _ \<Rightarrow> save_random fs randfilePath randomIndexList randomList)"

subsection \<open>Lists of calls\<close>

lemma try_RemoveAll:
  assumes "try_all (map (\<lambda>d fs. os_RemoveAll fs d) ds) fs = (fs', None)" and "wf_fs fs"
    and "\<And>d. d \<in> set ds \<Longrightarrow> d \<noteq> [] \<and> resolve d \<noteq> []"
  shows "wf_fs fs' \<and> ffault fs' = ffault fs
    \<and> (\<forall>d \<in> set ds. \<forall>q. prefix (resolve d) q \<longrightarrow> node_at fs' q = None)
    \<and> (\<forall>q. (\<forall>d \<in> set ds. \<not> prefix (resolve d) q) \<longrightarrow> node_at fs' q = node_at fs q)"
  using assms
proof (induction ds arbitrary: fs)
  case Nil
  then show ?case by simp
next
  case (Cons d ds)
  from Cons.prems(1) obtain fs1 where r: "os_RemoveAll fs d = (fs1, None)"
    and rest: "try_all (map (\<lambda>d fs. os_RemoveAll fs d) ds) fs1 = (fs', None)"
    by (auto split: prod.splits option.splits)
  have wf1: "wf_fs fs1" using wf_os_RemoveAll [OF Cons.prems(2) _ r] Cons.prems(3) by simp
  note ih = Cons.IH [OF rest wf1 Cons.prems(3)]
  have gone: "node_at fs1 q = None" if "prefix (resolve d) q" for q
    using os_RemoveAll_ok [OF Cons.prems(2) _ r that] Cons.prems(3) by simp
  have "node_at fs' q = None" if "prefix (resolve d) q" for q
    using ih gone [OF that] by (cases "\<exists>d' \<in> set ds. prefix (resolve d') q") auto
  with ih os_RemoveAll_fault [OF r] os_RemoveAll_other [OF r] show ?case by simp
qed

lemma try_MkdirAll:
  assumes "try_all (map (\<lambda>d fs. os_MkdirAll fs d) ds) fs = (fs', None)"
  shows "ffault fs' = ffault fs \<and> (\<forall>d \<in> set ds. is_dir fs' (resolve d))
    \<and> (\<forall>q. is_dir fs q \<longrightarrow> is_dir fs' q) \<and> (\<forall>q. file_at fs' q = file_at fs q)
    \<and> (\<forall>q. (\<forall>d \<in> set ds. \<not> prefix q (resolve d)) \<longrightarrow> node_at fs' q = node_at fs q)"
  using assms
proof (induction ds arbitrary: fs)
  case Nil
  then show ?case by simp
next
  case (Cons d ds)
  from Cons.prems obtain fs1 where r: "os_MkdirAll fs d = (fs1, None)"
    and rest: "try_all (map (\<lambda>d fs. os_MkdirAll fs d) ds) fs1 = (fs', None)"
    by (auto split: prod.splits option.splits)
  show ?case
    using Cons.IH [OF rest] os_MkdirAll_ok [OF r] os_MkdirAll_dir [OF r] os_MkdirAll_file [OF r]
      os_MkdirAll_other [OF r] os_MkdirAll_fault [OF r] by simp
qed

lemma remove_all_of_frame:
  "(\<forall>p \<in> set ps. p = [] \<or> resolve p \<noteq> []) \<Longrightarrow> wf_fs fs \<Longrightarrow>
    wf_fs (remove_all_of ps fs) \<and> ffault (remove_all_of ps fs) = ffault fs
    \<and> (\<forall>q. node_at (remove_all_of ps fs) q = node_at fs q \<or>
           (q \<in> resolve ` (set ps - {[]}) \<and> node_at (remove_all_of ps fs) q = None))"
proof (induction ps arbitrary: fs)
  case Nil
  then show ?case by (simp add: remove_all_of_def)
next
  case (Cons p ps)
  let ?fs = "fst (os_Remove fs p)"
  have wf: "wf_fs ?fs"
  proof (cases "p = []")
    case True
    with Cons.prems show ?thesis by (simp add: os_Remove_def)
  next
    case False
    with Cons.prems show ?thesis by (intro wf_os_Remove) auto
  qed
  have one: "node_at ?fs q = node_at fs q \<or> (p \<noteq> [] \<and> q = resolve p \<and> node_at ?fs q = None)" for q
    using os_Remove_node [of fs p q] by (cases "p = []") (auto simp: os_Remove_def)
  have step: "remove_all_of (p # ps) fs = remove_all_of ps ?fs" by (simp add: remove_all_of_def)
  have ih: "wf_fs (remove_all_of ps ?fs)" "ffault (remove_all_of ps ?fs) = ffault ?fs"
    "\<And>q. node_at (remove_all_of ps ?fs) q = node_at ?fs q \<or>
           (q \<in> resolve ` (set ps - {[]}) \<and> node_at (remove_all_of ps ?fs) q = None)"
    using Cons.IH [of ?fs] wf Cons.prems by auto
  have "node_at (remove_all_of ps ?fs) q = node_at fs q \<or>
      (q \<in> resolve ` (set (p # ps) - {[]}) \<and> node_at (remove_all_of ps ?fs) q = None)" for q
    using ih(3) [of q] one [of q] by auto
  with ih(1,2) show ?case by (simp add: step)
qed

lemma build_steps_step:
  assumes "build_steps ((f, nm) # steps) fs w = (fs', w', None)"
  obtains fs1 where "os_MkdirAll fs (Join [rootDir w, nm]) = (fs1, None)"
    and "build_steps steps fs1 (f (Join [rootDir w, nm]) w) = (fs', w', None)"
  using assms by (auto simp: Let_def split: prod.splits option.splits)

lemma build_steps_root:
  assumes "build_steps steps fs w = (fs', w', r)"
    and "\<forall>(f, nm) \<in> set steps. \<forall>d v. rootDir (f d v) = rootDir v"
  shows "rootDir w' = rootDir w"
  using assms
  by (induction steps fs w rule: build_steps.induct) (auto simp: Let_def split: prod.splits option.splits)

lemma build_steps_fields:
  assumes "build_steps steps fs w = (fs', w', None)"
    and "\<forall>(f, nm) \<in> set steps. \<forall>d v. rootDir (f d v) = rootDir v"
  shows "w' = fold (\<lambda>st. fst st (Join [rootDir w, snd st])) steps w"
  using assms
proof (induction steps arbitrary: fs w)
  case Nil
  then show ?case by simp
next
  case (Cons st steps)
  obtain f nm where st: "st = (f, nm)" by (cases st)
  let ?w = "f (Join [rootDir w, nm]) w"
  have root: "rootDir ?w = rootDir w"
    and keep: "\<forall>(g, n) \<in> set steps. \<forall>d v. rootDir (g d v) = rootDir v" using Cons.prems(2) by (auto simp: st)
  from Cons.prems(1) [unfolded st] obtain fs1 where "build_steps steps fs1 ?w = (fs', w', None)"
    by (rule build_steps_step)
  from Cons.IH [OF this keep] show ?case by (simp add: st root)
qed

lemma build_steps_fs:
  assumes "build_steps steps fs w = (fs', w', None)" and "wf_fs fs"
    and "\<forall>(f, nm) \<in> set steps. \<forall>d v. rootDir (f d v) = rootDir v"
  shows "wf_fs fs' \<and> ffault fs' = ffault fs
    \<and> (\<forall>(f, nm) \<in> set steps. is_dir fs' (resolve (Join [rootDir w, nm])))
    \<and> (\<forall>q. is_dir fs q \<longrightarrow> is_dir fs' q) \<and> (\<forall>q. file_at fs' q = file_at fs q)"
  using assms
proof (induction steps arbitrary: fs w)
  case Nil
  then show ?case by simp
next
  case (Cons st steps)
  obtain f nm where st: "st = (f, nm)" by (cases st)
  let ?w = "f (Join [rootDir w, nm]) w"
  have root: "rootDir ?w = rootDir w"
    and keep: "\<forall>(g, n) \<in> set steps. \<forall>d v. rootDir (g d v) = rootDir v" using Cons.prems(3) by (auto simp: st)
  from Cons.prems(1) [unfolded st] obtain fs1 where r: "os_MkdirAll fs (Join [rootDir w, nm]) = (fs1, None)"
    and rest: "build_steps steps fs1 ?w = (fs', w', None)" by (rule build_steps_step)
  from Cons.IH [OF rest wf_os_MkdirAll [OF Cons.prems(2) r] keep]
  show ?case
    using root os_MkdirAll_ok [OF r] os_MkdirAll_dir [OF r] os_MkdirAll_file [OF r] os_MkdirAll_fault [OF r]
    by (simp add: st)
qed

lemma set_paths_root [simp]: "rootDir (set_paths w) = rootDir w"
  by (simp add: set_paths_def)

lemma build_dirs_root: "\<forall>(f, nm) \<in> set build_dirs. \<forall>d v. rootDir (f d v) = rootDir v"
  by (auto simp: build_dirs_def)

definition ws_dirs :: "string list" where
  "ws_dirs = [''file'', ''report'', ''tmp'', ''db'', ''log'', ''space'', ''acc'', ''pois'', ''random'']"

definition stale_names :: "string list" where
  "stale_names = [''idle_prove'', ''service_prove'', ''podr2_rsa.pub'', ''peer_record'']"

lemma ws_safe: "nm \<in> set ws_dirs \<union> set stale_names \<union> {''idle_proof'', ''service_proof''} \<Longrightarrow> safe_name nm"
  by (auto simp: ws_dirs_def stale_names_def safe_name_def)

lemma Join_root_not_Nil: "rooted r \<Longrightarrow> Join [r, nm] \<noteq> []"
  using rooted_Join [of r "[nm]"] by (auto simp: rooted_def)

subsection \<open>What building does\<close>

lemma ws_prefix_simps [simp]: "prefix (r @ [a]) (r @ b # q) \<longleftrightarrow> a = b" "\<not> prefix (r @ a # q) r"
  by (auto dest: prefix_length_le)

lemma Build_tree:
  assumes "Build fs w0 = (fs', w, None)" and "wf_fs fs" and "rooted (rootDir w0)"
  shows "w = set_paths w0
    \<and> (\<forall>nm \<in> set ws_dirs. is_dir fs' (resolve (rootDir w0) @ [nm]))
    \<and> (\<forall>q. \<not> prefix (resolve (rootDir w0) @ [''tmp'']) q
          \<longrightarrow> q \<notin> (\<lambda>nm. resolve (rootDir w0) @ [nm]) ` set stale_names \<longrightarrow> file_at fs' q = file_at fs q)
    \<and> (\<not> ffault fs OpRemove (resolve (rootDir w0) @ [''tmp''])
          \<longrightarrow> (\<forall>q. strict_prefix (resolve (rootDir w0) @ [''tmp'']) q \<longrightarrow> node_at fs' q = None))"
proof -
  let ?r = "resolve (rootDir w0)" and ?tmp = "Join [rootDir w0, ''tmp'']"
  let ?stale = "map (\<lambda>nm. Join [rootDir w0, nm]) stale_names"
  let ?fs1 = "remove_all_of ?stale fs"
  let ?w1 = "w0\<lparr>idle_prove := Join [rootDir w0, ''idle_proof''], service_prove := Join [rootDir w0, ''service_proof'']\<rparr>"
  have res: "resolve (Join [rootDir w0, nm]) = ?r @ [nm]"
    if "nm \<in> set ws_dirs \<union> set stale_names \<union> {''idle_proof'', ''service_proof''}" for nm
    using assms(3) ws_safe [OF that] by simp
  have tmp: "resolve ?tmp = ?r @ [''tmp'']" by (rule res) (simp add: ws_dirs_def)
  from assms(1,3) obtain fs2 w2 where st: "build_steps build_dirs ?fs1 ?w1 = (fs2, w2, None)"
    and w: "w = w2\<lparr>tmpDir := Join [rootDir w2, ''tmp'']\<rparr>"
    and mk: "os_MkdirAll (fst (os_RemoveAll fs2 (Join [rootDir w2, ''tmp'']))) (Join [rootDir w2, ''tmp'']) = (fs', None)"
    by (auto simp: Build_def rooted_def stale_names_def Let_def split: prod.splits option.splits)
  have stale: "\<forall>p \<in> set ?stale. p = [] \<or> resolve p \<noteq> []" by (auto simp: res)
  note f1 = remove_all_of_frame [OF stale assms(2)]
  note bw = build_steps_fields [OF st build_dirs_root]
  note bs = build_steps_fs [OF st conjunct1 [OF f1] build_dirs_root]
  have root2: "rootDir w2 = rootDir w0" using build_steps_root [OF st build_dirs_root] by simp
  let ?fs3 = "fst (os_RemoveAll fs2 ?tmp)"
  have mk': "os_MkdirAll ?fs3 ?tmp = (fs', None)" using mk root2 by simp
  obtain e3 where ra: "os_RemoveAll fs2 ?tmp = (?fs3, e3)" by (metis prod.collapse)
  have wpaths: "w = set_paths w0"
    using bw root2 by (simp add: w build_dirs_def set_paths_def)
  have fault: "ffault fs2 = ffault fs" using bs f1 by simp
  have dir2: "is_dir fs2 (?r @ [nm])" if "nm \<in> set ws_dirs" "nm \<noteq> ''tmp''" for nm
  proof -
    have "nm \<in> snd ` set build_dirs" using that by (auto simp: ws_dirs_def build_dirs_def)
    then obtain f where "(f, nm) \<in> set build_dirs" by auto
    moreover have "\<forall>(f, nm) \<in> set build_dirs. is_dir fs2 (resolve (Join [rootDir w0, nm]))" using bs by simp
    ultimately have "is_dir fs2 (resolve (Join [rootDir w0, nm]))" by (auto dest: bspec)
    then show ?thesis using that by (simp add: res)
  qed
  have dirs: "is_dir fs' (?r @ [nm])" if nm: "nm \<in> set ws_dirs" for nm
  proof (cases "nm = ''tmp''")
    case True
    then show ?thesis using os_MkdirAll_ok [OF mk'] tmp by simp
  next
    case False
    then have "is_dir ?fs3 (?r @ [nm])"
      using dir2 [OF nm] os_RemoveAll_other [OF ra, of "?r @ [nm]"] tmp by (simp add: is_dir_def)
    then show ?thesis using os_MkdirAll_dir [OF mk'] by blast
  qed
  have files: "file_at fs' q = file_at fs q"
    if "\<not> prefix (?r @ [''tmp'']) q" "q \<notin> (\<lambda>nm. ?r @ [nm]) ` set stale_names" for q
  proof -
    have "file_at fs' q = file_at fs2 q"
      using that os_MkdirAll_file [OF mk', of q] os_RemoveAll_other [OF ra, of q] tmp by (simp add: file_at_def)
    also have "\<dots> = file_at ?fs1 q" using bs by simp
    also have "q \<notin> resolve ` (set ?stale - {[]})" using that by (force simp: res)
    then have "file_at ?fs1 q = file_at fs q" using f1 by (metis file_at_def)
    finally show ?thesis .
  qed
  have empty: "node_at fs' q = None" if "\<not> ffault fs OpRemove (?r @ [''tmp''])" "strict_prefix (?r @ [''tmp'']) q" for q
  proof -
    have "e3 = None" using ra that fault tmp by (auto simp: os_RemoveAll_def Let_def split: if_splits)
    then have "node_at ?fs3 q = None"
      using os_RemoveAll_ok [of fs2 ?tmp ?fs3 q] ra bs that tmp Join_root_not_Nil [OF assms(3)]
      by (simp add: prefix_order.less_imp_le)
    moreover have "\<not> prefix q (resolve ?tmp)"
      using prefix_length_less [OF that(2)] tmp by (metis leD prefix_length_le)
    ultimately show ?thesis using os_MkdirAll_other [OF mk'] by simp
  qed
  show ?thesis using wpaths dirs files empty by blast
qed

text \<open>
  A successful \<^verbatim>\<open>Build\<close> makes the nine directories of the tree, sets every path field accordingly, leaves
  every file outside the temporary directory as it was (the four obsolete files of earlier
  versions apart) and, unless the operating system refuses to delete it, empties the temporary
  directory.
\<close>

theorem Build_makes_tree:
  assumes "Build fs w0 = (fs', w, None)" and "wf_fs fs" and "rooted (rootDir w0)"
  shows "w = set_paths w0
    \<and> (\<forall>nm \<in> set ws_dirs. is_dir fs' (resolve (rootDir w0) @ [nm]))
    \<and> (\<forall>q. \<not> prefix (resolve (rootDir w0) @ [''tmp'']) q
          \<longrightarrow> q \<notin> (\<lambda>nm. resolve (rootDir w0) @ [nm]) ` set stale_names \<longrightarrow> file_at fs' q = file_at fs q)
    \<and> (\<not> ffault fs OpRemove (resolve (rootDir w0) @ [''tmp''])
          \<longrightarrow> (\<forall>q. strict_prefix (resolve (rootDir w0) @ [''tmp'']) q \<longrightarrow> node_at fs' q = None))"
  by (rule Build_tree [OF assms])

definition bare_fs :: fs where
  "bare_fs = \<lparr>fnodes = [([], DirNode), ([''w''], DirNode), ([''w'', ''idle_proof''], FileNode ''x''),
      ([''w'', ''tmp''], DirNode), ([''w'', ''tmp'', ''u''], FileNode ''y'')], ffault = \<lambda>_ _. False\<rparr>"

lemma bare_fs_wf: "wf_fs bare_fs"
  by (simp add: wf_fs_def bare_fs_def is_dir_def node_at_def)

lemma snd_snd_None: "snd (snd r) = None \<Longrightarrow> r = (fst r, fst (snd r), None)"
  by (metis prod.collapse)

theorem Build_makes_tree_witness:
  "is_dir (fst (Build bare_fs (NewWorkspace ''/w''))) [''w'', ''file'']
   \<and> node_at (fst (Build bare_fs (NewWorkspace ''/w''))) [''w'', ''tmp'', ''u''] = None
   \<and> file_at (fst (Build bare_fs (NewWorkspace ''/w''))) [''w'', ''idle_proof''] = Some ''x''"
proof -
  have "snd (snd (Build bare_fs (NewWorkspace ''/w''))) = None" by code_simp
  note b = Build_makes_tree [OF snd_snd_None [OF this] bare_fs_wf]
  have r: "rooted (rootDir (NewWorkspace ''/w''))" "resolve (rootDir (NewWorkspace ''/w'')) = [''w'']"
    by code_simp+
  have x: "file_at bare_fs [''w'', ''idle_proof''] = Some ''x''" by code_simp
  show ?thesis
    using b [OF r(1)] x unfolding r(2) by (simp add: ws_dirs_def stale_names_def bare_fs_def)
qed

text \<open>
  A successful \<^verbatim>\<open>RemoveAndBuild\<close> leaves the nine directories existing and empty, and no file
  outside them changes except the records at the root of the tree that it removes.
\<close>

theorem RemoveAndBuild_wipes:
  assumes "RemoveAndBuild fs w0 = (fs', w, None)" and "wf_fs fs" and "rooted (rootDir w0)"
    and "podr2_rsa_pub w0 = []"
  shows "w = set_paths w0
    \<and> (\<forall>nm \<in> set ws_dirs. is_dir fs' (resolve (rootDir w0) @ [nm])
          \<and> (\<forall>q. strict_prefix (resolve (rootDir w0) @ [nm]) q \<longrightarrow> node_at fs' q = None))
    \<and> (\<forall>q. (\<forall>nm \<in> set ws_dirs. \<not> prefix (resolve (rootDir w0) @ [nm]) q)
          \<longrightarrow> q \<notin> (\<lambda>nm. resolve (rootDir w0) @ [nm]) ` (set stale_names \<union> {''idle_proof'', ''service_proof''})
          \<longrightarrow> file_at fs' q = file_at fs q)"
proof -
  let ?r = "resolve (rootDir w0)" and ?J = "\<lambda>nm. Join [rootDir w0, nm]"
  define rm where "rm = [''file'', ''report'', ''tmp'', ''db'', ''log'', ''space'', ''pois'', ''acc'', ''random'']"
  let ?rec = "map ?J stale_names @ [[], ?J ''idle_proof'', ?J ''service_proof'']"
  have res: "resolve (?J nm) = ?r @ [nm]"
    if "nm \<in> set ws_dirs \<union> set stale_names \<union> {''idle_proof'', ''service_proof''}" for nm
    using assms(3) ws_safe [OF that] by simp
  from assms(1,3,4) obtain fs1 where
      rmv: "try_all (map (\<lambda>d fs. os_RemoveAll fs d) (map ?J rm)) fs = (fs1, None)"
    and mk: "try_all (map (\<lambda>d fs. os_MkdirAll fs d) (map ?J ws_dirs)) (remove_all_of ?rec fs1) = (fs', None)"
    and w: "w = set_paths w0"
    by (auto simp: RemoveAndBuild_def rooted_def stale_names_def ws_dirs_def set_paths_def rm_def Let_def
        simp del: try_all.simps split: prod.splits option.splits)
  have dset: "set rm = set ws_dirs" by (auto simp: ws_dirs_def rm_def)
  have ne: "d \<noteq> [] \<and> resolve d \<noteq> []" if "d \<in> set (map ?J rm)" for d
    using that Join_root_not_Nil [OF assms(3)] dset res by auto
  note f1 = try_RemoveAll [OF rmv assms(2) ne]
  let ?fs2 = "remove_all_of ?rec fs1"
  have recs: "\<forall>p \<in> set ?rec. p = [] \<or> resolve p \<noteq> []" by (auto simp: res)
  note f2 = remove_all_of_frame [OF recs conjunct1 [OF f1]]
  note f3 = try_MkdirAll [OF mk]
  have gone: "node_at fs' q = None" if nm: "nm \<in> set ws_dirs" and q: "strict_prefix (?r @ [nm]) q" for nm q
  proof -
    have "prefix (resolve (?J nm)) q" using nm q res by (simp add: prefix_order.less_imp_le)
    moreover have "?J nm \<in> set (map ?J rm)" using nm dset by simp
    ultimately have "node_at fs1 q = None" using f1 by blast
    then have "node_at ?fs2 q = None" using f2 by metis
    moreover have "\<forall>d \<in> set (map ?J ws_dirs). \<not> prefix q (resolve d)"
    proof
      fix d assume "d \<in> set (map ?J ws_dirs)"
      then obtain m where "m \<in> set ws_dirs" "d = ?J m" by auto
      then have d: "resolve d = ?r @ [m]" using res by simp
      have "length (?r @ [nm]) < length q" using q by (rule prefix_length_less)
      then show "\<not> prefix q (resolve d)" using d by (auto dest: prefix_length_le)
    qed
    ultimately show ?thesis using f3 by simp
  qed
  have dirs: "is_dir fs' (?r @ [nm])" if "nm \<in> set ws_dirs" for nm
    using f3 that res [of nm] by force
  have files: "file_at fs' q = file_at fs q"
    if q: "\<forall>nm \<in> set ws_dirs. \<not> prefix (?r @ [nm]) q"
      "q \<notin> (\<lambda>nm. ?r @ [nm]) ` (set stale_names \<union> {''idle_proof'', ''service_proof''})" for q
  proof -
    have "q \<notin> resolve ` (set ?rec - {[]})" using q(2) by (force simp: res)
    then have "file_at ?fs2 q = file_at fs1 q" using f2 by (metis file_at_def)
    moreover have "\<forall>d \<in> set (map ?J rm). \<not> prefix (resolve d) q" using q(1) dset res by auto
    then have "file_at fs1 q = file_at fs q" using f1 by (simp add: file_at_def)
    ultimately show ?thesis using f3 by simp
  qed
  show ?thesis using w dirs gone files by blast
qed

theorem RemoveAndBuild_wipes_witness:
  "is_dir (fst (RemoveAndBuild bare_fs (NewWorkspace ''/w''))) [''w'', ''tmp'']
   \<and> node_at (fst (RemoveAndBuild bare_fs (NewWorkspace ''/w''))) [''w'', ''tmp'', ''u''] = None"
proof -
  have "snd (snd (RemoveAndBuild bare_fs (NewWorkspace ''/w''))) = None" by code_simp
  note b = RemoveAndBuild_wipes [OF snd_snd_None [OF this] bare_fs_wf]
  have r: "rooted (rootDir (NewWorkspace ''/w''))" "resolve (rootDir (NewWorkspace ''/w'')) = [''w'']"
    "podr2_rsa_pub (NewWorkspace ''/w'') = []" by code_simp+
  show ?thesis
    using b [OF r(1) r(3)] unfolding r(2) by (simp add: ws_dirs_def)
qed

subsection \<open>Challenge records survive a restart\<close>

text \<open>A record is loaded from the file system its save left behind.\<close>

lemma LoadService_after_Save:
  assumes "write_buf (WriteBufToFile K)" and "SaveServiceProve K fs w r = (fs', None)"
    and "service_prove w \<noteq> []"
    and "\<not> ffault fs OpOpen (resolve (service_prove w))" and "\<not> ffault fs OpRead (resolve (service_prove w))"
  shows "\<exists>buf. marshal_service K r = Inr buf \<and> LoadServiceProve K fs' w = unmarshal_service K buf"
proof -
  from assms(2) obtain buf where m: "marshal_service K r = Inr buf"
    and wr: "WriteBufToFile K fs buf (service_prove w) = (fs', None)"
    by (auto simp: SaveServiceProve_def split: sum.splits)
  have "os_ReadFile fs' (service_prove w) = Inr buf"
    by (rule write_buf.save_load [OF assms(1) wr assms(3-5)])
  with m show ?thesis by (simp add: LoadServiceProve_def)
qed

lemma LoadIdle_after_Save:
  assumes "write_buf (WriteBufToFile K)" and "SaveIdleProve K fs w r = (fs', None)"
    and "idle_prove w \<noteq> []"
    and "\<not> ffault fs OpOpen (resolve (idle_prove w))" and "\<not> ffault fs OpRead (resolve (idle_prove w))"
  shows "\<exists>buf. marshal_idle K r = Inr buf \<and> LoadIdleProve K fs' w = unmarshal_idle K buf"
proof -
  from assms(2) obtain buf where m: "marshal_idle K r = Inr buf"
    and wr: "WriteBufToFile K fs buf (idle_prove w) = (fs', None)"
    by (auto simp: SaveIdleProve_def split: sum.splits)
  have "os_ReadFile fs' (idle_prove w) = Inr buf"
    by (rule write_buf.save_load [OF assms(1) wr assms(3-5)])
  with m show ?thesis by (simp add: LoadIdleProve_def)
qed

text \<open>
  What \<^verbatim>\<open>SaveServiceProve\<close> stores is what \<^verbatim>\<open>LoadServiceProve\<close> returns, and likewise for the idle
  record; saving one record leaves the other file alone. The fields of the service record whose types come from other modules, and
  the idle record, have to be given back by their codecs; the text of the record, its strings, numbers and flags are not assumed of.
\<close>

theorem prove_records_round_trip:
  assumes "write_buf (WriteBufToFile K)"
    and "\<And>op p. \<not> ffault fs op p"
    and "idle_prove w \<noteq> []" and "service_prove w \<noteq> []"
    and "resolve (idle_prove w) \<noteq> resolve (service_prove w)"
    and "service_valid K r"
    and "\<And>buf. marshal_idle K i = Inr buf \<Longrightarrow> unmarshal_idle K buf = (i, None)"
    and "SaveServiceProve K fs w r = (fs1, None)" and "SaveIdleProve K fs1 w i = (fs2, None)"
  shows "LoadServiceProve K fs2 w = (r, None) \<and> LoadIdleProve K fs2 w = (i, None)"
proof -
  from assms(8) obtain buf where m: "marshal_service K r = Inr buf"
    and wr: "WriteBufToFile K fs buf (service_prove w) = (fs1, None)"
    by (auto simp: SaveServiceProve_def split: sum.splits)
  from assms(9) obtain buf2 where wr2: "WriteBufToFile K fs1 buf2 (idle_prove w) = (fs2, None)"
    by (auto simp: SaveIdleProve_def split: sum.splits)
  have fault: "\<not> ffault fs1 op p" "\<not> ffault fs2 op p" for op p
    using write_buf.wb_fault [OF assms(1) wr] write_buf.wb_fault [OF assms(1) wr2] assms(2) by auto
  have "file_at fs2 (resolve (service_prove w)) = Some buf"
    using write_buf.wb_file_other [OF assms(1) wr2] write_buf.wb_ok [OF assms(1) wr] assms(5) by metis
  then have "os_ReadFile fs2 (service_prove w) = Inr buf"
    using fault(2) assms(4) by (simp add: os_ReadFile_def file_at_Some Let_def)
  moreover have "LoadIdleProve K fs2 w = (i, None)"
    using LoadIdle_after_Save [OF assms(1,9,3) fault(1) fault(1)] assms(7) by auto
  ultimately show ?thesis using service_stored [OF assms(6) m] by (simp add: LoadServiceProve_def)
qed

theorem prove_records_round_trip_witness:
  "LoadServiceProve demo_sdk (fst (SaveIdleProve demo_sdk (fst (SaveServiceProve demo_sdk bare_fs
      (set_paths (NewWorkspace ''/w'')) zero_service)) (set_paths (NewWorkspace ''/w'')) zero_idle))
      (set_paths (NewWorkspace ''/w'')) = (zero_service, None)"
proof -
  let ?w = "set_paths (NewWorkspace ''/w'')"
  let ?fs1 = "fst (SaveServiceProve demo_sdk bare_fs ?w zero_service)"
  let ?fs2 = "fst (SaveIdleProve demo_sdk ?fs1 ?w zero_idle)"
  have s1n: "snd (SaveServiceProve demo_sdk bare_fs ?w zero_service) = None" by code_simp
  have s1: "SaveServiceProve demo_sdk bare_fs ?w zero_service = (?fs1, None)"
    using s1n by (metis prod.collapse)
  have s2n: "snd (SaveIdleProve demo_sdk ?fs1 ?w zero_idle) = None" by code_simp
  have s2: "SaveIdleProve demo_sdk ?fs1 ?w zero_idle = (?fs2, None)"
    using s2n by (metis prod.collapse)
  have wb: "write_buf (WriteBufToFile demo_sdk)"
    using os_write.write_buf_axioms by (simp add: demo_sdk_def)
  have p: "idle_prove ?w \<noteq> []" "service_prove ?w \<noteq> []" "resolve (idle_prove ?w) \<noteq> resolve (service_prove ?w)"
    by code_simp+
  have "LoadServiceProve demo_sdk ?fs2 ?w = (zero_service, None) \<and> LoadIdleProve demo_sdk ?fs2 ?w = (zero_idle, None)"
    by (rule prove_records_round_trip [OF wb _ p demo_service_valid _ s1 s2]) (auto simp: bare_fs_def demo_sdk_def)
  then show ?thesis by blast
qed

text \<open>
  The random numbers of a challenge are written once: when \<^verbatim>\<open>SaveChallRandom\<close> finds a non-empty
  file for that challenge it succeeds without changing anything; otherwise, when it succeeds,
  the file holds a JSON text that parses to exactly the indexes and the random numbers that go with them.
  It touches no other path.
\<close>

theorem SaveChallRandom_once:
  assumes "SaveChallRandom fs w c is rnds = Some (fs', None)"
  shows "let path = Join [randomDir w, ''random.'' @ show_nat (unat c)] in
    (\<forall>q. q \<noteq> resolve path \<longrightarrow> node_at fs' q = node_at fs q)
    \<and> (if \<exists>i. os_Stat fs path = Inr i \<and> fi_size i > 0 then fs' = fs
       else length is \<le> length rnds
         \<and> (\<exists>buf. file_at fs' (resolve path) = Some buf
              \<and> parse buf = Some (enc_random \<lparr>rd_Index = is, rd_Random = take (length is) rnds\<rparr>)))"
proof -
  let ?path = "Join [randomDir w, ''random.'' @ show_nat (unat c)]"
  have save: "(\<forall>q. q \<noteq> resolve ?path \<longrightarrow> node_at fs' q = node_at fs q) \<and> length is \<le> length rnds
       \<and> (\<exists>buf. file_at fs' (resolve ?path) = Some buf
              \<and> parse buf = Some (enc_random \<lparr>rd_Index = is, rd_Random = take (length is) rnds\<rparr>))"
    if "save_random fs ?path is rnds = Some (fs', None)"
    using that random_stored [of "\<lparr>rd_Index = is, rd_Random = take (length is) rnds\<rparr>"] by (auto simp: save_random_def fs_simps not_less dest!: os_OpenTrunc_ok
        split: if_splits sum.splits prod.splits option.splits)
  show ?thesis
  proof (cases "\<exists>i. os_Stat fs ?path = Inr i \<and> fi_size i > 0")
    case True
    then show ?thesis using assms by (auto simp: SaveChallRandom_def GetChallRndomDir_def Let_def)
  next
    case False
    then have "save_random fs ?path is rnds = Some (fs', None)"
      using assms by (auto simp: SaveChallRandom_def GetChallRndomDir_def Let_def split: sum.splits if_splits)
    from save [OF this] False show ?thesis by (auto simp: Let_def)
  qed
qed

definition random_run :: "(fs \<times> goerr option) option" where
  "random_run = SaveChallRandom bare_fs ((NewWorkspace ''/w'')\<lparr>randomDir := ''/w''\<rparr>) 7 [1] [''ab'']"

theorem SaveChallRandom_once_witness:
  "map_option parse (file_at (fst (the random_run)) [''w'', ''random.7''])
    = Some (Some (enc_random \<lparr>rd_Index = [1], rd_Random = [''ab'']\<rparr>))"
proof -
  let ?w = "(NewWorkspace ''/w'')\<lparr>randomDir := ''/w''\<rparr>"
  have "map_option snd random_run = Some None" by code_simp
  then obtain x where rr: "random_run = Some (x, None)" by auto
  then have r: "SaveChallRandom bare_fs ?w 7 [1] [''ab''] = Some (x, None)"
    unfolding random_run_def .
  have p: "Join [randomDir ?w, ''random.'' @ show_nat (unat (7 :: u32))] = ''/w/random.7''"
    "resolve ''/w/random.7'' = [''w'', ''random.7'']" "os_Stat bare_fs ''/w/random.7'' = Inl err_noent"
    by code_simp+
  have "map_option parse (file_at x [''w'', ''random.7'']) = Some (Some (enc_random \<lparr>rd_Index = [1], rd_Random = [''ab'']\<rparr>))"
    using SaveChallRandom_once [OF r] unfolding p(1) Let_def p(2,3) by auto
  then show ?thesis unfolding rr by simp
qed

end
