(* ===== verification/Podr2.thy ===== *)
theory Podr2
  imports NodeTypes
begin

text \<open>
  The proof of data possession (\<^verbatim>\<open>src/node/podr2.go\<close>) and the conversion of the chain's random
  numbers into its challenge (\<^verbatim>\<open>calcQSlice\<close>, \<^verbatim>\<open>calcQSlicePb\<close> of \<^verbatim>\<open>src/node/chlgservice.go\<close>).
  \<^verbatim>\<open>big.Int\<close> is \<open>int\<close>; \<open>None\<close> is a panic: an index out of range, a nil integer used in
  arithmetic, a division by zero. The key is given by its modulus \<^verbatim>\<open>Spk.N\<close>.
\<close>

subsection \<open>Arithmetic of \<^verbatim>\<open>math/big\<close>\<close>

definition ModInverse :: "int \<Rightarrow> int \<Rightarrow> int option" where
  "ModInverse x m = find (\<lambda>i. (x * i) mod \<bar>m\<bar> = 1 mod \<bar>m\<bar>) (map int [0..<nat \<bar>m\<bar>])"

definition big_Exp :: "int \<Rightarrow> int \<Rightarrow> int \<Rightarrow> int option" where
  "big_Exp x y m =
     (if m = 0 then Some (if y \<le> 0 then 1 else x ^ nat y)
      else if y < 0 then map_option (\<lambda>i. i ^ nat (- y) mod \<bar>m\<bar>) (ModInverse x m)
      else Some (x ^ nat y mod \<bar>m\<bar>))"

definition big_Mod :: "int \<Rightarrow> int \<Rightarrow> int option" where
  "big_Mod x m = (if m = 0 then None else Some (x mod \<bar>m\<bar>))"

definition index :: "'a list \<Rightarrow> i64 \<Rightarrow> 'a option" where
  "index xs i = (if 0 \<le> sint i \<and> sint i < int (length xs) then Some (xs ! nat (sint i)) else None)"

subsection \<open>The operations\<close>

definition Success :: int where "Success = 200"

definition NewRsaKey :: "(bytes \<Rightarrow> int result) \<Rightarrow> bytes \<Rightarrow> int result" where
  "NewRsaKey parsePKCS1 pubkey = (case parsePKCS1 pubkey of Inl e \<Rightarrow> Inl e | Inr spk \<Rightarrow> Inr spk)"

definition VerifyAttest ::
  "sdk \<Rightarrow> (int \<Rightarrow> bytes \<Rightarrow> bytes \<Rightarrow> goerr option) \<Rightarrow> int \<Rightarrow> string \<Rightarrow> string \<Rightarrow> string \<Rightarrow> string \<Rightarrow> string
     \<Rightarrow> bool \<times> goerr option" where
  "VerifyAttest K verifyPKCS1v15 spk name u phiHash attest customData =
     (case hex_DecodeString phiHash of
        None \<Rightarrow> (False, Some (mk_err ''encoding/hex''))
      | Some bytesHash \<Rightarrow>
          (case hex_DecodeString attest of
             None \<Rightarrow> (False, Some (mk_err ''encoding/hex''))
           | Some bytesAttest \<Rightarrow>
               (let hdata = sha256 K ((if customData \<noteq> [] then customData else []) @ name @ u @ bytesHash) in
                case verifyPKCS1v15 spk (sha256 K hdata) bytesAttest of
                  Some e \<Rightarrow> (False, Some e)
                | None \<Rightarrow> (True, None))))"

fun gen_proof_loop :: "int \<Rightarrow> qElement list \<Rightarrow> string list \<Rightarrow> bytes list \<Rightarrow> int \<Rightarrow> int \<Rightarrow> (int \<times> int) option" where
  "gen_proof_loop N [] phi matrix mu sigma = Some (mu, sigma)"
| "gen_proof_loop N (q # qs) phi matrix mu sigma =
     (case index matrix (qe_I q) of
        None \<Rightarrow> None
      | Some block \<Rightarrow>
          (case SetString10 (qe_V q) of
             None \<Rightarrow> None
           | Some vi \<Rightarrow>
               (let mi = SetBytes block; mu' = mi * vi + mu in
                case index phi (qe_I q) of
                  None \<Rightarrow> None
                | Some phi_i \<Rightarrow>
                    (case SetString10 phi_i of
                       None \<Rightarrow> None
                     | Some sigma_i \<Rightarrow>
                         (case big_Exp sigma_i vi N of
                            None \<Rightarrow> None
                          | Some p \<Rightarrow> gen_proof_loop N qs phi matrix mu' (p * sigma))))))"

definition GenProof :: "int \<Rightarrow> qElement list \<Rightarrow> string list \<Rightarrow> bytes list \<Rightarrow> genProofResponse option" where
  "GenProof N QSlice phi matrix =
     (case gen_proof_loop N QSlice phi matrix 0 1 of
        None \<Rightarrow> None
      | Some (mu, sigma) \<Rightarrow>
          (case big_Mod sigma N of
             None \<Rightarrow> None
           | Some s \<Rightarrow>
               Some \<lparr>gp_Sigma = show_int s, gp_MU = show_int mu,
                     gp_StatueMsg = \<lparr>StatusCode = Success, Msg = ''Success''\<rparr>\<rparr>))"

fun aggr_q_loop :: "int \<Rightarrow> qElement list \<Rightarrow> string list \<Rightarrow> int \<Rightarrow> int option" where
  "aggr_q_loop N [] phi sigma = Some sigma"
| "aggr_q_loop N (q # qs) phi sigma =
     (case index phi (qe_I q) of
        None \<Rightarrow> None
      | Some phi_i \<Rightarrow>
          (case (SetString10 phi_i, SetString10 (qe_V q)) of
             (Some sigma_i, Some vi) \<Rightarrow>
               (case big_Exp sigma_i vi N of
                  None \<Rightarrow> aggr_q_loop N qs phi (sigma * sigma_i)
                | Some p \<Rightarrow> aggr_q_loop N qs phi (sigma * p))
           | _ \<Rightarrow> None))"

fun aggr_tag_loop :: "int \<Rightarrow> qElement list \<Rightarrow> string list list \<Rightarrow> int \<Rightarrow> int option" where
  "aggr_tag_loop N QSlice [] sigma = Some sigma"
| "aggr_tag_loop N QSlice (phi # phis) sigma =
     (case aggr_q_loop N QSlice phi sigma of
        None \<Rightarrow> None
      | Some s \<Rightarrow>
          (case big_Mod s N of None \<Rightarrow> None | Some s' \<Rightarrow> aggr_tag_loop N QSlice phis s'))"

text \<open>A tag enters \<^verbatim>\<open>AggrGenProof\<close> through its \<^verbatim>\<open>T.Phi\<close> only.\<close>

definition AggrGenProof :: "int \<Rightarrow> qElement list \<Rightarrow> string list list \<Rightarrow> string option" where
  "AggrGenProof N QSlice phis = map_option show_int (aggr_tag_loop N QSlice phis 1)"

definition AggrAppendProof :: "int \<Rightarrow> string \<Rightarrow> string \<Rightarrow> (string \<times> bool) option" where
  "AggrAppendProof N aggrSigma aSigma =
     (let aggrSigma = (if aggrSigma = [] then ''1'' else aggrSigma) in
      case SetString10 aggrSigma of
        None \<Rightarrow> Some ([], False)
      | Some sigma \<Rightarrow>
          (case SetString10 aSigma of
             None \<Rightarrow> Some ([], False)
           | Some subSigma \<Rightarrow>
               (case big_Mod (sigma * subSigma) N of
                  None \<Rightarrow> None
                | Some s \<Rightarrow> Some (show_int s, True))))"

definition split_block :: "bytes \<Rightarrow> nat \<Rightarrow> nat \<Rightarrow> nat \<Rightarrow> bytes" where
  "split_block dat N sep i =
     (if i \<noteq> N - 1 then take ((i + 1) * sep - i * sep) (drop (i * sep) dat) else drop (i * sep) dat)"

definition SplitByN :: "fs \<Rightarrow> string \<Rightarrow> nat \<Rightarrow> (bytes list \<times> nat) result option" where
  "SplitByN fs filePath N =
     (case os_ReadFile fs filePath of
        Inl e \<Rightarrow> Some (Inl e)
      | Inr dat \<Rightarrow>
          (if N = 0 then None
           else
             (let sep = length dat div N in
              if length dat mod N \<noteq> 0 then Some (Inl (mk_err ''can't divide''))
              else Some (Inr (map (split_block dat N sep) [0..<N], sep)))))"

fun calc_q_loop :: "u32 list \<Rightarrow> chainRandom list \<Rightarrow> nat \<Rightarrow> qElement list \<Rightarrow> qElement list option" where
  "calc_q_loop [] rnds k acc = Some acc"
| "calc_q_loop (v # vs) rnds k acc =
     (if k < length rnds
      then calc_q_loop vs rnds (k + 1)
             (acc @ [\<lparr>qe_I = ucast v, qe_V = show_int (SetBytes (rnds ! k))\<rparr>])
      else None)"

definition calcQSlice :: "u32 list \<Rightarrow> chainRandom list \<Rightarrow> qElement list option" where
  "calcQSlice randomIndexList randomList = calc_q_loop randomIndexList randomList 0 []"

fun calc_qpb_loop :: "u32 list \<Rightarrow> chainRandom list \<Rightarrow> nat \<Rightarrow> u32 list \<Rightarrow> bytes list \<Rightarrow> qslice option" where
  "calc_qpb_loop [] rnds k is bs = Some \<lparr>RandomIndexList = is, RandomList = bs\<rparr>"
| "calc_qpb_loop (v # vs) rnds k is bs =
     (if k < length rnds then calc_qpb_loop vs rnds (k + 1) (is @ [v]) (bs @ [rnds ! k]) else None)"

definition calcQSlicePb :: "u32 list \<Rightarrow> chainRandom list \<Rightarrow> qslice option" where
  "calcQSlicePb randomIndexList randomList = calc_qpb_loop randomIndexList randomList 0 [] []"

subsection \<open>The challenge slice\<close>

lemma calc_q_loop_eq:
  "calc_q_loop is rnds k acc =
     (if k + length is \<le> length rnds \<or> is = []
      then Some (acc @ map2 (\<lambda>v r. \<lparr>qe_I = ucast v, qe_V = show_int (SetBytes r)\<rparr>) is (drop k rnds))
      else None)"
proof (induction "is" arbitrary: k acc)
  case Nil
  then show ?case by simp
next
  case (Cons v vs)
  show ?case
  proof (cases "k < length rnds")
    case True
    then have "drop k rnds = rnds ! k # drop (Suc k) rnds" by (simp add: Cons_nth_drop_Suc)
    with True Cons.IH show ?thesis by (auto simp: not_less Suc_le_eq)
  qed simp
qed

lemma calc_qpb_loop_eq:
  "calc_qpb_loop is rnds k xs bs =
     (if k + length is \<le> length rnds \<or> is = []
      then Some \<lparr>RandomIndexList = xs @ is, RandomList = bs @ take (length is) (drop k rnds)\<rparr>
      else None)"
proof (induction "is" arbitrary: k xs bs)
  case Nil
  then show ?case by simp
next
  case (Cons v vs)
  show ?case
  proof (cases "k < length rnds")
    case True
    then have "drop k rnds = rnds ! k # drop (Suc k) rnds" by (simp add: Cons_nth_drop_Suc)
    with True Cons.IH show ?thesis by (auto simp: not_less Suc_le_eq)
  qed simp
qed

lemma calcQSlice_eq:
  "length is \<le> length rnds \<Longrightarrow>
     calcQSlice is rnds = Some (map2 (\<lambda>v r. \<lparr>qe_I = ucast v, qe_V = show_int (SetBytes r)\<rparr>) is rnds)"
  by (simp add: calcQSlice_def calc_q_loop_eq)

lemma calcQSlice_None: "length rnds < length is \<Longrightarrow> calcQSlice is rnds = None"
  by (auto simp: calcQSlice_def calc_q_loop_eq)

text \<open>
  Both forms of the challenge built from the chain's random numbers carry the same information:
  they are defined exactly when there is a random number for every index (otherwise both
  panic), the decimal string of the local form reads back as the big-endian number of the
  bytes sent to the TEE worker, and the indexes agree.
\<close>

theorem calcQSlice_agrees:
  "(case (calcQSlice is rnds, calcQSlicePb is rnds) of
      (Some qs, Some pb) \<Rightarrow> length is \<le> length rnds
        \<and> map (\<lambda>q. SetString10 (qe_V q)) qs = map (\<lambda>r. Some (SetBytes r)) (RandomList pb)
        \<and> map (\<lambda>q. sint (qe_I q)) qs = map uint (RandomIndexList pb)
        \<and> RandomIndexList pb = is
    | (None, None) \<Rightarrow> length rnds < length is
    | _ \<Rightarrow> False)"
proof (cases "length is \<le> length rnds")
  case True
  have sint_u32: "sint (ucast v :: i64) = uint v" for v :: u32
    by transfer (simp add: signed_take_bit_eq_if_positive bit_take_bit_iff take_bit_take_bit min_def)
  have "map (\<lambda>q. SetString10 (qe_V q)) (map2 (\<lambda>v r. \<lparr>qe_I = ucast v, qe_V = show_int (SetBytes r)\<rparr>) is rnds)
      = map (\<lambda>r. Some (SetBytes r)) (take (length is) rnds)"
    using True by (intro nth_equalityI) auto
  moreover have "map (\<lambda>q. sint (qe_I q)) (map2 (\<lambda>v r. \<lparr>qe_I = ucast v, qe_V = show_int (SetBytes r)\<rparr>) is rnds)
      = map uint is"
    using True by (intro nth_equalityI) (auto simp: sint_u32)
  ultimately show ?thesis
    using True by (simp add: calcQSlice_eq calcQSlicePb_def calc_qpb_loop_eq)
next
  case False
  then have "is \<noteq> []" by auto
  with False show ?thesis by (simp add: calcQSlice_None calcQSlicePb_def calc_qpb_loop_eq)
qed

subsection \<open>Splitting a fragment\<close>

lemma concat_blocks:
  "k * sep \<le> length dat \<Longrightarrow>
     concat (map (\<lambda>i. take sep (drop (i * sep) dat)) [0..<k]) = take (k * sep) dat"
proof (induction k)
  case 0
  then show ?case by simp
next
  case (Suc k)
  have "take (sep + k * sep) dat = take (k * sep) dat @ take sep (drop (k * sep) dat)"
    by (metis add.commute take_add)
  with Suc show ?case by simp
qed

lemma split_block_eq:
  assumes "length dat = N * sep" and "i < N"
  shows "split_block dat N sep i = take sep (drop (i * sep) dat)"
proof (cases "i = N - 1")
  case True
  with assms have "length dat - i * sep = sep" by (simp add: diff_mult_distrib)
  with True show ?thesis by (simp add: split_block_def)
qed (simp add: split_block_def algebra_simps)

text \<open>
  Splitting a fragment loses nothing: for a positive number of blocks that divides the size,
  \<^verbatim>\<open>SplitByN\<close> returns that many blocks of equal size whose concatenation is the file; a number
  that does not divide the size is an error; zero blocks (a tag without authenticators) is
  a division by zero.
\<close>

theorem SplitByN_partition:
  assumes "os_ReadFile fs p = Inr dat"
  shows "(N = 0 \<longrightarrow> SplitByN fs p N = None)
    \<and> (0 < N \<and> \<not> N dvd length dat \<longrightarrow> (\<exists>e. SplitByN fs p N = Some (Inl e)))
    \<and> (0 < N \<and> N dvd length dat \<longrightarrow>
        (\<exists>blocks. SplitByN fs p N = Some (Inr (blocks, length dat div N)) \<and> length blocks = N
           \<and> (\<forall>b \<in> set blocks. length b = length dat div N) \<and> concat blocks = dat))"
proof -
  have "\<exists>blocks. SplitByN fs p N = Some (Inr (blocks, length dat div N)) \<and> length blocks = N
           \<and> (\<forall>b \<in> set blocks. length b = length dat div N) \<and> concat blocks = dat"
    if N: "0 < N" "N dvd length dat"
  proof -
    let ?sep = "length dat div N"
    have len: "length dat = N * ?sep" using N by simp
    have bl: "map (split_block dat N ?sep) [0..<N] = map (\<lambda>i. take ?sep (drop (i * ?sep) dat)) [0..<N]" (is "?bs = _")
      using split_block_eq [OF len] by simp
    have "(i + 1) * ?sep \<le> length dat" if "i < N" for i
      using that by (subst len) (intro mult_le_mono1, simp)
    then have "?sep \<le> length dat - i * ?sep" if "i < N" for i
      using that by (metis add_le_imp_le_diff mult.commute Suc_eq_plus1 mult_Suc)
    then have "\<forall>b \<in> set ?bs. length b = ?sep"
      unfolding bl by (auto intro: min_absorb2)
    moreover have "concat ?bs = dat"
      unfolding bl using concat_blocks [of N ?sep dat] len by simp
    moreover have "SplitByN fs p N = Some (Inr (?bs, ?sep))"
      using assms N by (simp add: SplitByN_def Let_def)
    ultimately show ?thesis by (metis length_map length_upt diff_zero)
  qed
  then show ?thesis using assms by (auto simp: SplitByN_def mod_eq_0_iff_dvd)
qed

definition demo_fs :: fs where
  "demo_fs = \<lparr>fnodes = [([], DirNode), ([''f''], FileNode ''abcdef'')], ffault = \<lambda>_ _. False\<rparr>"

theorem SplitByN_partition_witness:
  "os_ReadFile demo_fs ''/f'' = Inr ''abcdef''
    \<and> (\<exists>blocks. SplitByN demo_fs ''/f'' 3 = Some (Inr (blocks, 2)) \<and> length blocks = 3
         \<and> (\<forall>b \<in> set blocks. length b = 2) \<and> concat blocks = ''abcdef'')"
proof -
  have r: "os_ReadFile demo_fs ''/f'' = Inr ''abcdef''" by code_simp
  moreover have "length ''abcdef'' = 6" and "(3::nat) dvd 6" by (simp_all add: dvd_eq_mod_eq_0)
  ultimately show ?thesis using SplitByN_partition [OF r, of 3] by (simp del: list.size)
qed

subsection \<open>The proof of one fragment\<close>

text \<open>The well-formed input of a proof: what index \<open>i\<close> of the challenge weighs (\<open>v i\<close>), the
  authenticators as integers.\<close>

definition q_vals :: "qElement list \<Rightarrow> (nat \<times> nat) list \<Rightarrow> bool" where
  "q_vals qs ivs \<longleftrightarrow> map (\<lambda>q. (sint (qe_I q), SetString10 (qe_V q))) qs = map (\<lambda>(i, v). (int i, Some (int v))) ivs"

lemma q_vals_Cons [simp]:
  "q_vals (q # qs) ((i, v) # ivs) \<longleftrightarrow>
     sint (qe_I q) = int i \<and> SetString10 (qe_V q) = Some (int v) \<and> q_vals qs ivs"
  by (auto simp: q_vals_def)

lemma q_vals_Nil [simp]: "q_vals [] ivs \<longleftrightarrow> ivs = []"
  by (auto simp: q_vals_def)

lemma q_vals_ConsE:
  assumes "q_vals (q # qs) ivs"
  obtains i v ivs' where "ivs = (i, v) # ivs'" "sint (qe_I q) = int i"
    "SetString10 (qe_V q) = Some (int v)" "q_vals qs ivs'"
  using assms by (cases ivs) (auto simp: q_vals_def)

lemma index_int [simp]: "sint i = int j \<Longrightarrow> j < length xs \<Longrightarrow> index xs i = Some (xs ! j)"
  by (simp add: index_def)

lemma big_Exp_nonneg: "0 < N \<Longrightarrow> big_Exp x (int v) N = Some (x ^ v mod N)"
  by (simp add: big_Exp_def)

definition sum_mu :: "bytes list \<Rightarrow> (nat \<times> nat) list \<Rightarrow> int" where
  "sum_mu matrix ivs = (\<Sum>(i, v) \<leftarrow> ivs. int v * SetBytes (matrix ! i))"

definition prod_sigma :: "int list \<Rightarrow> (nat \<times> nat) list \<Rightarrow> int" where
  "prod_sigma ss ivs = (\<Prod>(i, v) \<leftarrow> ivs. (ss ! i) ^ v)"

lemma gen_proof_loop_correct:
  assumes "0 < N" and "phi = map show_int ss"
  shows "q_vals qs ivs \<Longrightarrow> \<forall>(i, v) \<in> set ivs. i < length matrix \<and> i < length ss \<Longrightarrow>
    \<exists>sigma'. gen_proof_loop N qs phi matrix mu sigma = Some (sum_mu matrix ivs + mu, sigma')
       \<and> sigma' mod N = (prod_sigma ss ivs * sigma) mod N"
proof (induction qs arbitrary: ivs mu sigma)
  case Nil
  then show ?case by (simp add: sum_mu_def prod_sigma_def)
next
  case (Cons q qs)
  from Cons.prems(1) obtain i v ivs' where ivs: "ivs = (i, v) # ivs'" and q: "sint (qe_I q) = int i"
    "SetString10 (qe_V q) = Some (int v)" and rest: "q_vals qs ivs'" by (rule q_vals_ConsE)
  have len: "i < length matrix" "i < length ss" and rest_len: "\<forall>(i, v) \<in> set ivs'. i < length matrix \<and> i < length ss"
    using Cons.prems(2) by (auto simp: ivs)
  let ?mu = "SetBytes (matrix ! i) * int v + mu" and ?s = "(ss ! i ^ v mod N) * sigma"
  have step: "gen_proof_loop N (q # qs) phi matrix mu sigma = gen_proof_loop N qs phi matrix ?mu ?s"
    using assms len q by (simp add: big_Exp_nonneg)
  from Cons.IH [OF rest rest_len, of ?mu ?s] obtain sigma'
    where ih: "gen_proof_loop N qs phi matrix ?mu ?s = Some (sum_mu matrix ivs' + ?mu, sigma')"
      and sg: "sigma' mod N = (prod_sigma ss ivs' * ?s) mod N" by blast
  have "(prod_sigma ss ivs' * ?s) mod N = (prod_sigma ss ivs' * (ss ! i ^ v * sigma)) mod N"
    by (metis mod_mult_left_eq mod_mult_right_eq)
  also have "prod_sigma ss ivs' * (ss ! i ^ v * sigma) = prod_sigma ss ivs * sigma"
    by (simp add: prod_sigma_def ivs algebra_simps)
  finally have "sigma' mod N = (prod_sigma ss ivs * sigma) mod N" using sg by simp
  moreover have "sum_mu matrix ivs' + ?mu = sum_mu matrix ivs + mu"
    by (simp add: sum_mu_def ivs algebra_simps)
  ultimately show ?case using step ih by auto
qed

lemma gen_proof_fact:
  assumes "0 < N" and "q_vals qs ivs" and "\<forall>(i, v) \<in> set ivs. i < length matrix \<and> i < length ss"
  shows "GenProof N qs (map show_int ss) matrix =
    Some \<lparr>gp_Sigma = show_int (prod_sigma ss ivs mod N), gp_MU = show_int (sum_mu matrix ivs),
          gp_StatueMsg = \<lparr>StatusCode = Success, Msg = ''Success''\<rparr>\<rparr>"
  using gen_proof_loop_correct [OF assms(1) refl assms(2,3), of 0 1] assms(1)
  by (auto simp: GenProof_def big_Mod_def)

text \<open>
  C26. The possession proof computes what the scheme defines. For a positive modulus, a challenge
  whose weights are the decimal strings of non-negative numbers and whose indexes lie in
  range, and authenticators given in decimal, \<^verbatim>\<open>GenProof\<close> succeeds (it does not panic) with
  \<open>\<mu> = \<Sum> v\<^sub>i m\<^sub>i\<close>, unreduced, and \<open>\<sigma> = \<Prod> \<sigma>\<^sub>i ^ v\<^sub>i mod N\<close>.
\<close>

theorem GenProof_correct:
  assumes "0 < N" and "q_vals qs ivs" and "\<forall>(i, v) \<in> set ivs. i < length matrix \<and> i < length ss"
  shows "GenProof N qs (map show_int ss) matrix =
    Some \<lparr>gp_Sigma = show_int (prod_sigma ss ivs mod N), gp_MU = show_int (sum_mu matrix ivs),
          gp_StatueMsg = \<lparr>StatusCode = Success, Msg = ''Success''\<rparr>\<rparr>"
  using assms by (rule gen_proof_fact)

theorem GenProof_correct_witness:
  "GenProof 7 [\<lparr>qe_I = 1, qe_V = ''3''\<rparr>, \<lparr>qe_I = 0, qe_V = ''2''\<rparr>] (map show_int [5, 4]) [[CHR ''A''], [CHR ''B'']]
     = Some \<lparr>gp_Sigma = show_int (prod_sigma [5, 4] [(1, 3), (0, 2)] mod 7),
             gp_MU = show_int (sum_mu [[CHR ''A''], [CHR ''B'']] [(1, 3), (0, 2)]),
             gp_StatueMsg = \<lparr>StatusCode = Success, Msg = ''Success''\<rparr>\<rparr>
   \<and> prod_sigma [5, 4] [(1, 3), (0, 2)] mod 7 = 4
   \<and> sum_mu [[CHR ''A''], [CHR ''B'']] [(1, 3), (0, 2)] = 328"
proof -
  have q: "q_vals [\<lparr>qe_I = 1, qe_V = ''3''\<rparr>, \<lparr>qe_I = 0, qe_V = ''2''\<rparr>] [(1, 3), (0, 2)]"
    by (simp, code_simp)
  have "GenProof 7 [\<lparr>qe_I = 1, qe_V = ''3''\<rparr>, \<lparr>qe_I = 0, qe_V = ''2''\<rparr>] (map show_int [5, 4]) [[CHR ''A''], [CHR ''B'']]
     = Some \<lparr>gp_Sigma = show_int (prod_sigma [5, 4] [(1, 3), (0, 2)] mod 7),
             gp_MU = show_int (sum_mu [[CHR ''A''], [CHR ''B'']] [(1, 3), (0, 2)]),
             gp_StatueMsg = \<lparr>StatusCode = Success, Msg = ''Success''\<rparr>\<rparr>"
    using q by (intro GenProof_correct) auto
  moreover have "prod_sigma [5, 4] [(1, 3), (0, 2)] mod 7 = 4" by (simp add: prod_sigma_def)
  moreover have "sum_mu [[CHR ''A''], [CHR ''B'']] [(1, 3), (0, 2)] = 328"
    by (simp add: sum_mu_def SetBytes_def)
  ultimately show ?thesis by blast
qed

subsection \<open>Aggregation\<close>

fun append_all :: "int \<Rightarrow> string \<Rightarrow> string list \<Rightarrow> string option" where
  "append_all N agg [] = Some agg"
| "append_all N agg (s # ss) =
     (case AggrAppendProof N agg s of Some (agg', True) \<Rightarrow> append_all N agg' ss | _ \<Rightarrow> None)"

lemma show_int_not_Nil [simp]: "show_int i \<noteq> []"
  by (simp add: show_int_def)

lemma AggrAppendProof_show:
  "0 < N \<Longrightarrow> AggrAppendProof N (show_int a) (show_int s) = Some (show_int (a * s mod N), True)"
  by (simp add: AggrAppendProof_def big_Mod_def)

lemma AggrAppendProof_empty:
  "0 < N \<Longrightarrow> AggrAppendProof N [] (show_int s) = Some (show_int (s mod N), True)"
proof -
  assume "0 < N"
  have "SetString10 ''1'' = Some 1" by code_simp
  then show ?thesis using \<open>0 < N\<close> by (simp add: AggrAppendProof_def big_Mod_def)
qed

lemma append_all_show:
  "0 < N \<Longrightarrow> append_all N (show_int a) (map show_int ss) =
     Some (show_int (if ss = [] then a else a * prod_list ss mod N))"
proof (induction ss arbitrary: a)
  case Nil
  then show ?case by simp
next
  case (Cons s ss)
  have "(a * s mod N) * prod_list ss mod N = a * (s * prod_list ss) mod N"
    by (simp add: mod_mult_left_eq mult.assoc)
  with Cons show ?case by (auto simp: AggrAppendProof_show)
qed

lemma append_all_fact:
  assumes "0 < N" and "ts \<noteq> []"
  shows "append_all N [] (map show_int ts) = Some (show_int (prod_list ts mod N))"
proof (cases ts)
  case (Cons t ts')
  then show ?thesis using assms(1)
    by (auto simp: AggrAppendProof_empty append_all_show mod_mult_left_eq)
qed (use assms(2) in simp)

text \<open>
  Appending proofs one at a time to the aggregate, starting from the empty string as the
  challenge handlers do, never fails and yields the product of all of them modulo \<open>N\<close>;
  so the aggregate does not depend on the order of the fragments.
\<close>

theorem AggrAppendProof_product:
  assumes "0 < N" and "ss \<noteq> []"
  shows "append_all N [] (map show_int ss) = Some (show_int (prod_list ss mod N))
    \<and> (\<forall>ss'. mset ss' = mset ss \<longrightarrow> append_all N [] (map show_int ss') = append_all N [] (map show_int ss))"
proof -
  note run = append_all_fact [OF assms(1)]
  have "append_all N [] (map show_int ss') = append_all N [] (map show_int ss)" if "mset ss' = mset ss" for ss'
  proof -
    have "ss' \<noteq> []" using that assms(2) by auto
    moreover have "prod_list ss' = prod_list ss" using that by (metis prod_mset_prod_list)
    ultimately show ?thesis using run assms(2) by simp
  qed
  then show ?thesis using run assms(2) by blast
qed

theorem AggrAppendProof_product_witness:
  "append_all 11 [] (map show_int [3, 4, 5]) = Some (show_int 5)
   \<and> append_all 11 [] (map show_int [5, 3, 4]) = append_all 11 [] (map show_int [3, 4, 5])"
proof -
  have "mset [5, 3, 4 :: int] = mset [3, 4, 5]" by simp
  then show ?thesis
    using AggrAppendProof_product [of 11 "[3, 4, 5]"] by (simp del: append_all.simps list.map mset.simps)
qed

lemma aggr_q_loop_correct:
  assumes "0 < N"
  shows "q_vals qs ivs \<Longrightarrow> \<forall>(i, v) \<in> set ivs. i < length ss \<Longrightarrow>
    \<exists>sigma'. aggr_q_loop N qs (map show_int ss) sigma = Some sigma'
       \<and> sigma' mod N = (sigma * prod_sigma ss ivs) mod N"
proof (induction qs arbitrary: ivs sigma)
  case Nil
  then show ?case by (simp add: prod_sigma_def)
next
  case (Cons q qs)
  from Cons.prems(1) obtain i v ivs' where ivs: "ivs = (i, v) # ivs'" and q: "sint (qe_I q) = int i"
    "SetString10 (qe_V q) = Some (int v)" and rest: "q_vals qs ivs'" by (rule q_vals_ConsE)
  have len: "i < length ss" and rest_len: "\<forall>(i, v) \<in> set ivs'. i < length ss"
    using Cons.prems(2) by (auto simp: ivs)
  let ?s = "sigma * (ss ! i ^ v mod N)"
  have "aggr_q_loop N (q # qs) (map show_int ss) sigma = aggr_q_loop N qs (map show_int ss) ?s"
    using assms len q by (simp add: big_Exp_nonneg)
  moreover obtain sigma' where "aggr_q_loop N qs (map show_int ss) ?s = Some sigma'"
      and sg: "sigma' mod N = (?s * prod_sigma ss ivs') mod N" using Cons.IH [OF rest rest_len] by blast
  moreover have "(?s * prod_sigma ss ivs') mod N = (sigma * prod_sigma ss ivs) mod N"
  proof -
    have "(?s * prod_sigma ss ivs') mod N = (sigma * (ss ! i ^ v) * prod_sigma ss ivs') mod N"
      by (metis mod_mult_left_eq mod_mult_right_eq)
    then show ?thesis by (simp add: prod_sigma_def ivs algebra_simps)
  qed
  ultimately show ?case by simp
qed

lemma aggr_tag_loop_correct:
  assumes "0 < N" and "q_vals qs ivs"
  shows "\<forall>ss \<in> set sss. \<forall>(i, v) \<in> set ivs. i < length ss \<Longrightarrow>
    aggr_tag_loop N qs (map (map show_int) sss) sigma =
      Some (if sss = [] then sigma else (sigma * (\<Prod>ss \<leftarrow> sss. prod_sigma ss ivs)) mod N)"
proof (induction sss arbitrary: sigma)
  case Nil
  then show ?case by simp
next
  case (Cons ss sss)
  from aggr_q_loop_correct [OF assms, of ss sigma] Cons.prems obtain s
    where s: "aggr_q_loop N qs (map show_int ss) sigma = Some s" "s mod N = (sigma * prod_sigma ss ivs) mod N"
    by auto
  have "(s mod N) * X mod N = sigma * (prod_sigma ss ivs * X) mod N" for X
    by (metis s(2) mod_mult_left_eq mult.assoc)
  then show ?case using Cons s assms(1) by (auto simp: big_Mod_def)
qed

text \<open>
  C27. The incremental aggregate is the one-pass aggregate: proving each tag with \<^verbatim>\<open>GenProof\<close> and
  appending the proofs one by one (what \<^verbatim>\<open>calcSigma\<close> and \<^verbatim>\<open>batchGenProofAndVerify\<close> do) gives the
  same string as \<^verbatim>\<open>AggrGenProof\<close> over all tags, whatever the data blocks are.
\<close>

theorem AggrAppendProof_is_AggrGenProof:
  assumes "0 < N" and "q_vals qs ivs" and "sss \<noteq> []" and "length mats = length sss"
    and "\<forall>ss \<in> set sss. \<forall>(i, v) \<in> set ivs. i < length ss"
    and "\<forall>m \<in> set mats. \<forall>(i, v) \<in> set ivs. i < length m"
  shows "\<exists>proofs. map2 (\<lambda>ss m. GenProof N qs (map show_int ss) m) sss mats = map Some proofs
    \<and> append_all N [] (map gp_Sigma proofs) = AggrGenProof N qs (map (map show_int) sss)"
proof -
  let ?pf = "\<lambda>ss m. \<lparr>gp_Sigma = show_int (prod_sigma ss ivs mod N), gp_MU = show_int (sum_mu m ivs),
          gp_StatueMsg = \<lparr>StatusCode = Success, Msg = ''Success''\<rparr>\<rparr>"
  let ?ps = "map2 ?pf sss mats"
  have gen: "GenProof N qs (map show_int ss) m = Some (?pf ss m)" if "(ss, m) \<in> set (zip sss mats)" for ss m
    using that assms set_zip_leftD [OF that] set_zip_rightD [OF that]
    by (intro gen_proof_fact) auto
  then have "map2 (\<lambda>ss m. GenProof N qs (map show_int ss) m) sss mats = map Some ?ps" by auto
  moreover have "append_all N [] (map gp_Sigma ?ps) = AggrGenProof N qs (map (map show_int) sss)"
  proof -
    have "map gp_Sigma ?ps = map show_int (map (\<lambda>ss. prod_sigma ss ivs mod N) sss)"
      using assms(4) by (intro nth_equalityI) auto
    moreover have "append_all N [] (map show_int (map (\<lambda>ss. prod_sigma ss ivs mod N) sss))
        = Some (show_int (prod_list (map (\<lambda>ss. prod_sigma ss ivs mod N) sss) mod N))"
      using assms(1,3) by (intro append_all_fact) auto
    moreover have "prod_list (map (\<lambda>ss. prod_sigma ss ivs mod N) sss) mod N
        = (\<Prod>ss \<leftarrow> sss. prod_sigma ss ivs) mod N"
      by (induction sss) (simp_all, metis mod_mult_left_eq mod_mult_right_eq)
    ultimately show ?thesis
      using aggr_tag_loop_correct [OF assms(1,2,5)] assms(3) by (simp add: AggrGenProof_def)
  qed
  ultimately show ?thesis by blast
qed

theorem AggrAppendProof_is_AggrGenProof_witness:
  "\<exists>proofs. map2 (\<lambda>ss m. GenProof 7 [\<lparr>qe_I = 0, qe_V = ''2''\<rparr>] (map show_int ss) m) [[5], [3]] [[''a''], [''b'']]
      = map Some proofs
    \<and> append_all 7 [] (map gp_Sigma proofs) = AggrGenProof 7 [\<lparr>qe_I = 0, qe_V = ''2''\<rparr>] (map (map show_int) [[5], [3]])"
proof (rule AggrAppendProof_is_AggrGenProof [of 7 _ "[(0, 2)]"])
  show "q_vals [\<lparr>qe_I = 0, qe_V = ''2''\<rparr>] [(0, 2)]" by (simp, code_simp)
qed simp_all

end
