(* ===== verification/NodeWorld.thy ===== *)
theory NodeWorld
  imports NodeTypes Host Confile Cache RunStatus TeeRecord Workspace Podr2
begin

text \<open>
  The state of a running node and its environment.

  Everything outside the miner (the chain behind the RPC, the TEE workers, the gateways, the
  space prover, random sources) is the record \<open>env\<close>: each call is a function of the history of all
  external calls made so far with their answers, so that the outside world may behave in any way
  whatever, also differently each time. A call appends its arguments and its answer to the
  history, which is therefore also the trace that properties speak about. The chain height, for
  instance, is just what successive \<^verbatim>\<open>GetBlockLatest\<close> calls answer.

  \<open>world\<close> is the state of the node itself: files, cache, shared status, TEE record, path
  names, the accumulator state \<^verbatim>\<open>MinerPoisInfo\<close> and the keys of \<^verbatim>\<open>recoveryFailedFiles\<close> (whose values, times,
  are never read). Log output and sleeping are not modelled.
\<close>

subsection \<open>External calls\<close>


datatype prover_event =
    ProverCommitDataIsReady_ev bool
  | ProverGetFront_ev i64
  | ProverGetRear_ev i64
  | ProverSyncChainPoisStatus_ev i64 i64 "goerr option"
  | ProverGetIdleFileSetCommits_ev "idleCommits result"
  | ProverCommitRollback_ev bool
  | ProverAccRollback_ev bool bool
  | ProverProveCommitAndAcc_ev "i64 list list" "(commitProof list list option \<times> accProof option) result"
  | ProverProveDeletion_ev i64 "deletionProof option result"
  | ProverUpdateStatus_ev i64 bool "goerr option"
  | ProverDeleteFiles_ev "goerr option"
  | ProverGenerateIdleFileSet_ev "goerr option"
  | ProverInit_ev "goerr option"
  | ProverRecovery_ev i64 i64 "goerr option"
  | ProverCheckAndRestoreIdleData_ev i64 i64 int "goerr option"

datatype cert_event =
    MinerCommitGenChall_ev string bool requestCommitGenChall "i64 list list result"
  | VerifyCommitProof_ev string bool requestVerifyCommit "responseVerifyCommitOrDeletion result"
  | VerifyDeletionProof_ev string bool requestVerifyDeletion "responseVerifyCommitOrDeletion result"
  | CertIdleSpace_ev spaceProofInfo bytes bytes bytes "string \<times> goerr option"
  | ReplaceIdleSpace_ev spaceProofInfo bytes bytes bytes "string \<times> goerr option"
  | QueryPendingReplacements_ev "int result"
  | GetHeaderLatest_ev "u32 result"
  | DiskUsage_ev string usage

datatype reg_event =
    QueryAccountInfo_ev string "int result"
  | IncreaseCollateral_ev string "string \<times> goerr option"
  | IncreaseDeclarationSpace_ev u32 "string \<times> goerr option"
  | UpdateBeneficiary_ev string "string \<times> goerr option"
  | UpdateSminerEndpoint_ev bytes "string \<times> goerr option"
  | RegnstkAssignStaking_ev string bytes string u32 "string \<times> goerr option"
  | RegnstkSminer_ev string bytes u64 u32 "string \<times> goerr option"
  | RegisterPoisKey_ev bytes bytes bytes bytes bytes "string \<times> goerr option"
  | SystemSyncState_ev "(u64 \<times> u64) result"
  | GetPodr2Pubkey_ev string bool bytes "bytes result"
  | MinerGetNewKey_ev string bool bytes "minerInitParam result"
  | NewProver_ev u64 "goerr option"
  | GetRpcState_ev bool

datatype query_event =
    GetBlockLatest_ev "u32 result"
  | QueryBlockNumber_ev string "u32 result"
  | QueryFile_ev string int "fileMetadata result"
  | QueryDealMap_ev string "storageOrder result"
  | QueryAllOss_ev "string list result"
  | QueryChallengeSnapShot_ev "(bool \<times> challengeSnapshot) result"
  | QueryMinerItems_ev "minerItems result"
  | QueryEndpoints_ev bytes "string result"
  | QueryWorkers_ev bytes "workerInfo result"
  | QueryAllWorkers_ev "workerInfo list result"
  | QueryAllRestoralOrder_ev "restoralOrder list result"
  | QueryRestoralOrder_ev string "restoralOrder result"

datatype tx_event =
    SubmitServiceProof_ev bytes "string \<times> goerr option"
  | SubmitVerifyServiceResult_ev bool bytes bloomFilter bytes "string \<times> goerr option"
  | SubmitIdleProof_ev bytes "string \<times> goerr option"
  | SubmitVerifyIdleResult_ev bytes u64 u64 bytes bool bytes bytes "string \<times> goerr option"
  | GenerateRestoralOrder_ev string string "string \<times> goerr option"
  | ClaimRestoralOrder_ev string "string \<times> goerr option"
  | RestoralOrderComplete_ev string "string \<times> goerr option"
  | TransferReport_ev u8 string "string \<times> goerr option"
  | CalculateReport_ev bytes tagSigInfo "string \<times> goerr option"
  | ReconnectRpc_ev "goerr option"

datatype tee_event =
    RequestBatchVerify_ev string bool requestBatchVerify "responseBatchVerify result"
  | RequestAggregateSignature_ev string bool requestAggregate "responseAggregate result"
  | RequestSpaceProofVerify_ev string bool requestSpaceProofVerify "bytes result"
  | RequestVerifySpaceTotal_ev string bool requestSpaceProofVerifyTotal "responseSpaceProofVerifyTotal result"
  | GetIdentityPubkey_ev string bool bytes "bytes result"
  | GenTagOpen_ev string bool "goerr option"
  | GenTagSend_ev requestGenTag "goerr option"
  | GenTagRecv_ev "responseGenTag result"
  | GenTagClose_ev "goerr option"

datatype misc_event =
    HttpGet_ev string string string string "(int \<times> bytes \<times> goerr option) result"
  | GetRandomcode_ev string
  | SignedSR25519_ev string "bytes result"
  | Sign_ev bytes "bytes result"
  | NewUuid_ev "string result"
  | SetChallengeState_ev bytes i64 i64 "goerr option"
  | ChallengeHandle_ev "i64 list" bytes "i64 \<times> i64"
  | ProveSpace_ev "i64 list" i64 i64 "spaceProof result"
  | GetCurrentRpcAddr_ev string

datatype event = QueryEvent query_event | TxEvent tx_event | TeeEvent tee_event | MiscEvent misc_event
  | ProverEvent prover_event | CertEvent cert_event | RegEvent reg_event

abbreviation "EvGetBlockLatest r \<equiv> QueryEvent (GetBlockLatest_ev r)"
abbreviation "EvQueryBlockNumber a0 r \<equiv> QueryEvent (QueryBlockNumber_ev a0 r)"
abbreviation "EvQueryFile a0 a1 r \<equiv> QueryEvent (QueryFile_ev a0 a1 r)"
abbreviation "EvQueryDealMap a0 r \<equiv> QueryEvent (QueryDealMap_ev a0 r)"
abbreviation "EvQueryAllOss r \<equiv> QueryEvent (QueryAllOss_ev r)"
abbreviation "EvQueryChallengeSnapShot r \<equiv> QueryEvent (QueryChallengeSnapShot_ev r)"
abbreviation "EvQueryMinerItems r \<equiv> QueryEvent (QueryMinerItems_ev r)"
abbreviation "EvQueryEndpoints a0 r \<equiv> QueryEvent (QueryEndpoints_ev a0 r)"
abbreviation "EvQueryWorkers a0 r \<equiv> QueryEvent (QueryWorkers_ev a0 r)"
abbreviation "EvQueryAllWorkers r \<equiv> QueryEvent (QueryAllWorkers_ev r)"
abbreviation "EvQueryAllRestoralOrder r \<equiv> QueryEvent (QueryAllRestoralOrder_ev r)"
abbreviation "EvQueryRestoralOrder a0 r \<equiv> QueryEvent (QueryRestoralOrder_ev a0 r)"
abbreviation "EvSubmitServiceProof a0 r \<equiv> TxEvent (SubmitServiceProof_ev a0 r)"
abbreviation "EvSubmitVerifyServiceResult a0 a1 a2 a3 r \<equiv> TxEvent (SubmitVerifyServiceResult_ev a0 a1 a2 a3 r)"
abbreviation "EvSubmitIdleProof a0 r \<equiv> TxEvent (SubmitIdleProof_ev a0 r)"
abbreviation "EvSubmitVerifyIdleResult a0 a1 a2 a3 a4 a5 a6 r \<equiv> TxEvent (SubmitVerifyIdleResult_ev a0 a1 a2 a3 a4 a5 a6 r)"
abbreviation "EvGenerateRestoralOrder a0 a1 r \<equiv> TxEvent (GenerateRestoralOrder_ev a0 a1 r)"
abbreviation "EvClaimRestoralOrder a0 r \<equiv> TxEvent (ClaimRestoralOrder_ev a0 r)"
abbreviation "EvRestoralOrderComplete a0 r \<equiv> TxEvent (RestoralOrderComplete_ev a0 r)"
abbreviation "EvTransferReport a0 a1 r \<equiv> TxEvent (TransferReport_ev a0 a1 r)"
abbreviation "EvCalculateReport a0 a1 r \<equiv> TxEvent (CalculateReport_ev a0 a1 r)"
abbreviation "EvReconnectRpc r \<equiv> TxEvent (ReconnectRpc_ev r)"
abbreviation "EvRequestBatchVerify a0 a1 a2 r \<equiv> TeeEvent (RequestBatchVerify_ev a0 a1 a2 r)"
abbreviation "EvRequestAggregateSignature a0 a1 a2 r \<equiv> TeeEvent (RequestAggregateSignature_ev a0 a1 a2 r)"
abbreviation "EvRequestSpaceProofVerify a0 a1 a2 r \<equiv> TeeEvent (RequestSpaceProofVerify_ev a0 a1 a2 r)"
abbreviation "EvRequestVerifySpaceTotal a0 a1 a2 r \<equiv> TeeEvent (RequestVerifySpaceTotal_ev a0 a1 a2 r)"
abbreviation "EvGetIdentityPubkey a0 a1 a2 r \<equiv> TeeEvent (GetIdentityPubkey_ev a0 a1 a2 r)"
abbreviation "EvGenTagOpen a0 a1 r \<equiv> TeeEvent (GenTagOpen_ev a0 a1 r)"
abbreviation "EvGenTagSend a0 r \<equiv> TeeEvent (GenTagSend_ev a0 r)"
abbreviation "EvGenTagRecv r \<equiv> TeeEvent (GenTagRecv_ev r)"
abbreviation "EvGenTagClose r \<equiv> TeeEvent (GenTagClose_ev r)"
abbreviation "EvHttpGet a0 a1 a2 a3 r \<equiv> MiscEvent (HttpGet_ev a0 a1 a2 a3 r)"
abbreviation "EvGetRandomcode r \<equiv> MiscEvent (GetRandomcode_ev r)"
abbreviation "EvSignedSR25519 a0 r \<equiv> MiscEvent (SignedSR25519_ev a0 r)"
abbreviation "EvSign a0 r \<equiv> MiscEvent (Sign_ev a0 r)"
abbreviation "EvNewUuid r \<equiv> MiscEvent (NewUuid_ev r)"
abbreviation "EvSetChallengeState a0 a1 a2 r \<equiv> MiscEvent (SetChallengeState_ev a0 a1 a2 r)"
abbreviation "EvChallengeHandle a0 a1 r \<equiv> MiscEvent (ChallengeHandle_ev a0 a1 r)"
abbreviation "EvProveSpace a0 a1 a2 r \<equiv> MiscEvent (ProveSpace_ev a0 a1 a2 r)"
abbreviation "EvGetCurrentRpcAddr r \<equiv> MiscEvent (GetCurrentRpcAddr_ev r)"
abbreviation "EvProverCommitDataIsReady r \<equiv> ProverEvent (ProverCommitDataIsReady_ev r)"
abbreviation "EvProverGetFront r \<equiv> ProverEvent (ProverGetFront_ev r)"
abbreviation "EvProverGetRear r \<equiv> ProverEvent (ProverGetRear_ev r)"
abbreviation "EvProverSyncChainPoisStatus a0 a1 r \<equiv> ProverEvent (ProverSyncChainPoisStatus_ev a0 a1 r)"
abbreviation "EvProverGetIdleFileSetCommits r \<equiv> ProverEvent (ProverGetIdleFileSetCommits_ev r)"
abbreviation "EvProverCommitRollback r \<equiv> ProverEvent (ProverCommitRollback_ev r)"
abbreviation "EvProverAccRollback a0 r \<equiv> ProverEvent (ProverAccRollback_ev a0 r)"
abbreviation "EvProverProveCommitAndAcc a0 r \<equiv> ProverEvent (ProverProveCommitAndAcc_ev a0 r)"
abbreviation "EvProverProveDeletion a0 r \<equiv> ProverEvent (ProverProveDeletion_ev a0 r)"
abbreviation "EvProverUpdateStatus a0 a1 r \<equiv> ProverEvent (ProverUpdateStatus_ev a0 a1 r)"
abbreviation "EvProverDeleteFiles r \<equiv> ProverEvent (ProverDeleteFiles_ev r)"
abbreviation "EvProverGenerateIdleFileSet r \<equiv> ProverEvent (ProverGenerateIdleFileSet_ev r)"
abbreviation "EvProverInit r \<equiv> ProverEvent (ProverInit_ev r)"
abbreviation "EvProverRecovery a0 a1 r \<equiv> ProverEvent (ProverRecovery_ev a0 a1 r)"
abbreviation "EvProverCheckAndRestoreIdleData a0 a1 a2 r \<equiv> ProverEvent (ProverCheckAndRestoreIdleData_ev a0 a1 a2 r)"
abbreviation "EvMinerCommitGenChall a0 a1 a2 r \<equiv> CertEvent (MinerCommitGenChall_ev a0 a1 a2 r)"
abbreviation "EvVerifyCommitProof a0 a1 a2 r \<equiv> CertEvent (VerifyCommitProof_ev a0 a1 a2 r)"
abbreviation "EvVerifyDeletionProof a0 a1 a2 r \<equiv> CertEvent (VerifyDeletionProof_ev a0 a1 a2 r)"
abbreviation "EvCertIdleSpace a0 a1 a2 a3 r \<equiv> CertEvent (CertIdleSpace_ev a0 a1 a2 a3 r)"
abbreviation "EvReplaceIdleSpace a0 a1 a2 a3 r \<equiv> CertEvent (ReplaceIdleSpace_ev a0 a1 a2 a3 r)"
abbreviation "EvQueryPendingReplacements r \<equiv> CertEvent (QueryPendingReplacements_ev r)"
abbreviation "EvGetHeaderLatest r \<equiv> CertEvent (GetHeaderLatest_ev r)"
abbreviation "EvDiskUsage a0 r \<equiv> CertEvent (DiskUsage_ev a0 r)"
abbreviation "EvQueryAccountInfo a0 r \<equiv> RegEvent (QueryAccountInfo_ev a0 r)"
abbreviation "EvIncreaseCollateral a0 r \<equiv> RegEvent (IncreaseCollateral_ev a0 r)"
abbreviation "EvIncreaseDeclarationSpace a0 r \<equiv> RegEvent (IncreaseDeclarationSpace_ev a0 r)"
abbreviation "EvUpdateBeneficiary a0 r \<equiv> RegEvent (UpdateBeneficiary_ev a0 r)"
abbreviation "EvUpdateSminerEndpoint a0 r \<equiv> RegEvent (UpdateSminerEndpoint_ev a0 r)"
abbreviation "EvRegnstkAssignStaking a0 a1 a2 a3 r \<equiv> RegEvent (RegnstkAssignStaking_ev a0 a1 a2 a3 r)"
abbreviation "EvRegnstkSminer a0 a1 a2 a3 r \<equiv> RegEvent (RegnstkSminer_ev a0 a1 a2 a3 r)"
abbreviation "EvRegisterPoisKey a0 a1 a2 a3 a4 r \<equiv> RegEvent (RegisterPoisKey_ev a0 a1 a2 a3 a4 r)"
abbreviation "EvSystemSyncState r \<equiv> RegEvent (SystemSyncState_ev r)"
abbreviation "EvGetPodr2Pubkey a0 a1 a2 r \<equiv> RegEvent (GetPodr2Pubkey_ev a0 a1 a2 r)"
abbreviation "EvMinerGetNewKey a0 a1 a2 r \<equiv> RegEvent (MinerGetNewKey_ev a0 a1 a2 r)"
abbreviation "EvNewProver a0 r \<equiv> RegEvent (NewProver_ev a0 r)"
abbreviation "EvGetRpcState r \<equiv> RegEvent (GetRpcState_ev r)"

record spaceEnv =
  PoISKeyLen :: nat
  rsaKey_G :: bytes
  rsaKey_N :: bytes
  DEFAULT_ELEMS_NUM :: i64
  pois_FileSize :: i64
  minSpace :: u64
  marshal_commit :: "requestCommitGenChall \<Rightarrow> bytes result"
  marshal_verify_commit :: "requestVerifyCommit \<Rightarrow> bytes result"
  marshal_verify_deletion :: "requestVerifyDeletion \<Rightarrow> bytes result"
  x_prover_CommitDataIsReady :: "event list \<Rightarrow> bool"
  x_prover_GetFront :: "event list \<Rightarrow> i64"
  x_prover_GetRear :: "event list \<Rightarrow> i64"
  x_prover_SyncChainPoisStatus :: "event list \<Rightarrow> i64 \<Rightarrow> i64 \<Rightarrow> goerr option"
  x_prover_GetIdleFileSetCommits :: "event list \<Rightarrow> idleCommits result"
  x_prover_CommitRollback :: "event list \<Rightarrow> bool"
  x_prover_AccRollback :: "event list \<Rightarrow> bool \<Rightarrow> bool"
  x_prover_ProveCommitAndAcc :: "event list \<Rightarrow> i64 list list \<Rightarrow> (commitProof list list option \<times> accProof option) result"
  x_prover_ProveDeletion :: "event list \<Rightarrow> i64 \<Rightarrow> deletionProof option result"
  x_prover_UpdateStatus :: "event list \<Rightarrow> i64 \<Rightarrow> bool \<Rightarrow> goerr option"
  x_prover_DeleteFiles :: "event list \<Rightarrow> goerr option"
  x_prover_GenerateIdleFileSet :: "event list \<Rightarrow> goerr option"
  x_prover_Init :: "event list \<Rightarrow> goerr option"
  x_prover_Recovery :: "event list \<Rightarrow> i64 \<Rightarrow> i64 \<Rightarrow> goerr option"
  x_prover_CheckAndRestoreIdleData :: "event list \<Rightarrow> i64 \<Rightarrow> i64 \<Rightarrow> int \<Rightarrow> goerr option"
  x_cert_MinerCommitGenChall :: "event list \<Rightarrow> string \<Rightarrow> bool \<Rightarrow> requestCommitGenChall \<Rightarrow> i64 list list result"
  x_cert_VerifyCommitProof :: "event list \<Rightarrow> string \<Rightarrow> bool \<Rightarrow> requestVerifyCommit \<Rightarrow> responseVerifyCommitOrDeletion result"
  x_cert_VerifyDeletionProof :: "event list \<Rightarrow> string \<Rightarrow> bool \<Rightarrow> requestVerifyDeletion \<Rightarrow> responseVerifyCommitOrDeletion result"
  x_cert_CertIdleSpace :: "event list \<Rightarrow> spaceProofInfo \<Rightarrow> bytes \<Rightarrow> bytes \<Rightarrow> bytes \<Rightarrow> string \<times> goerr option"
  x_cert_ReplaceIdleSpace :: "event list \<Rightarrow> spaceProofInfo \<Rightarrow> bytes \<Rightarrow> bytes \<Rightarrow> bytes \<Rightarrow> string \<times> goerr option"
  x_cert_QueryPendingReplacements :: "event list \<Rightarrow> int result"
  x_cert_GetHeaderLatest :: "event list \<Rightarrow> u32 result"
  x_disk_Usage :: "event list \<Rightarrow> string \<Rightarrow> usage"

record regEnv =
  SIZE_1KiB :: u64
  SIZE_1TiB :: u64
  StakingStakePerTiB :: u64
  TokenPrecision_CESS :: string
  ParsingPublickey :: "string \<Rightarrow> bytes result"
  BytesToPoISKeyInfo :: "bytes \<Rightarrow> bytes \<Rightarrow> (bytes \<times> bytes) result"
  podr2_key :: "bytes \<Rightarrow> int result"
  x_reg_QueryAccountInfo :: "event list \<Rightarrow> string \<Rightarrow> int result"
  x_reg_IncreaseCollateral :: "event list \<Rightarrow> string \<Rightarrow> string \<times> goerr option"
  x_reg_IncreaseDeclarationSpace :: "event list \<Rightarrow> u32 \<Rightarrow> string \<times> goerr option"
  x_reg_UpdateBeneficiary :: "event list \<Rightarrow> string \<Rightarrow> string \<times> goerr option"
  x_reg_UpdateSminerEndpoint :: "event list \<Rightarrow> bytes \<Rightarrow> string \<times> goerr option"
  x_reg_RegnstkAssignStaking :: "event list \<Rightarrow> string \<Rightarrow> bytes \<Rightarrow> string \<Rightarrow> u32 \<Rightarrow> string \<times> goerr option"
  x_reg_RegnstkSminer :: "event list \<Rightarrow> string \<Rightarrow> bytes \<Rightarrow> u64 \<Rightarrow> u32 \<Rightarrow> string \<times> goerr option"
  x_reg_RegisterPoisKey :: "event list \<Rightarrow> bytes \<Rightarrow> bytes \<Rightarrow> bytes \<Rightarrow> bytes \<Rightarrow> bytes \<Rightarrow> string \<times> goerr option"
  x_reg_SystemSyncState :: "event list \<Rightarrow> (u64 \<times> u64) result"
  x_reg_GetPodr2Pubkey :: "event list \<Rightarrow> string \<Rightarrow> bool \<Rightarrow> bytes \<Rightarrow> bytes result"
  x_reg_MinerGetNewKey :: "event list \<Rightarrow> string \<Rightarrow> bool \<Rightarrow> bytes \<Rightarrow> minerInitParam result"
  x_reg_NewProver :: "event list \<Rightarrow> u64 \<Rightarrow> goerr option"
  x_reg_GetRpcState :: "event list \<Rightarrow> bool"

record env =
  e_sdk :: sdk
  e_db :: leveldb
  e_ord :: map_order
  e_acc :: bytes
  e_signacc :: string
  e_rsaN :: "int option"
  e_keyN :: bytes
  e_keyG :: bytes
  e_conf :: confile
  e_conflib :: confLib
  e_space :: spaceEnv
  e_reg :: regEnv
  e_dial :: "string \<Rightarrow> bool \<Rightarrow> goerr option"
  x_GetBlockLatest :: "event list \<Rightarrow> u32 result"
  x_QueryBlockNumber :: "event list \<Rightarrow> string \<Rightarrow> u32 result"
  x_QueryFile :: "event list \<Rightarrow> string \<Rightarrow> int \<Rightarrow> fileMetadata result"
  x_QueryDealMap :: "event list \<Rightarrow> string \<Rightarrow> storageOrder result"
  x_QueryAllOss :: "event list \<Rightarrow> string list result"
  x_QueryChallengeSnapShot :: "event list \<Rightarrow> (bool \<times> challengeSnapshot) result"
  x_QueryMinerItems :: "event list \<Rightarrow> minerItems result"
  x_QueryEndpoints :: "event list \<Rightarrow> bytes \<Rightarrow> string result"
  x_QueryWorkers :: "event list \<Rightarrow> bytes \<Rightarrow> workerInfo result"
  x_QueryAllWorkers :: "event list \<Rightarrow> workerInfo list result"
  x_QueryAllRestoralOrder :: "event list \<Rightarrow> restoralOrder list result"
  x_QueryRestoralOrder :: "event list \<Rightarrow> string \<Rightarrow> restoralOrder result"
  x_SubmitServiceProof :: "event list \<Rightarrow> bytes \<Rightarrow> string \<times> goerr option"
  x_SubmitVerifyServiceResult :: "event list \<Rightarrow> bool \<Rightarrow> bytes \<Rightarrow> bloomFilter \<Rightarrow> bytes \<Rightarrow> string \<times> goerr option"
  x_SubmitIdleProof :: "event list \<Rightarrow> bytes \<Rightarrow> string \<times> goerr option"
  x_SubmitVerifyIdleResult :: "event list \<Rightarrow> bytes \<Rightarrow> u64 \<Rightarrow> u64 \<Rightarrow> bytes \<Rightarrow> bool \<Rightarrow> bytes \<Rightarrow> bytes \<Rightarrow> string \<times> goerr option"
  x_GenerateRestoralOrder :: "event list \<Rightarrow> string \<Rightarrow> string \<Rightarrow> string \<times> goerr option"
  x_ClaimRestoralOrder :: "event list \<Rightarrow> string \<Rightarrow> string \<times> goerr option"
  x_RestoralOrderComplete :: "event list \<Rightarrow> string \<Rightarrow> string \<times> goerr option"
  x_TransferReport :: "event list \<Rightarrow> u8 \<Rightarrow> string \<Rightarrow> string \<times> goerr option"
  x_CalculateReport :: "event list \<Rightarrow> bytes \<Rightarrow> tagSigInfo \<Rightarrow> string \<times> goerr option"
  x_ReconnectRpc :: "event list \<Rightarrow> goerr option"
  x_rpc_RequestBatchVerify :: "event list \<Rightarrow> string \<Rightarrow> bool \<Rightarrow> requestBatchVerify \<Rightarrow> responseBatchVerify result"
  x_rpc_RequestAggregateSignature :: "event list \<Rightarrow> string \<Rightarrow> bool \<Rightarrow> requestAggregate \<Rightarrow> responseAggregate result"
  x_rpc_RequestSpaceProofVerify :: "event list \<Rightarrow> string \<Rightarrow> bool \<Rightarrow> requestSpaceProofVerify \<Rightarrow> bytes result"
  x_rpc_RequestVerifySpaceTotal :: "event list \<Rightarrow> string \<Rightarrow> bool \<Rightarrow> requestSpaceProofVerifyTotal \<Rightarrow> responseSpaceProofVerifyTotal result"
  x_rpc_GetIdentityPubkey :: "event list \<Rightarrow> string \<Rightarrow> bool \<Rightarrow> bytes \<Rightarrow> bytes result"
  x_rpc_GenTagOpen :: "event list \<Rightarrow> string \<Rightarrow> bool \<Rightarrow> goerr option"
  x_rpc_GenTagSend :: "event list \<Rightarrow> requestGenTag \<Rightarrow> goerr option"
  x_rpc_GenTagRecv :: "event list \<Rightarrow> responseGenTag result"
  x_rpc_GenTagClose :: "event list \<Rightarrow> goerr option"
  x_http_Get :: "event list \<Rightarrow> string \<Rightarrow> string \<Rightarrow> string \<Rightarrow> string \<Rightarrow> (int \<times> bytes \<times> goerr option) result"
  x_GetRandomcode :: "event list \<Rightarrow> string"
  x_SignedSR25519 :: "event list \<Rightarrow> string \<Rightarrow> bytes result"
  x_Sign :: "event list \<Rightarrow> bytes \<Rightarrow> bytes result"
  x_NewUuid :: "event list \<Rightarrow> string result"
  x_SetChallengeState :: "event list \<Rightarrow> bytes \<Rightarrow> i64 \<Rightarrow> i64 \<Rightarrow> goerr option"
  x_ChallengeHandle :: "event list \<Rightarrow> i64 list \<Rightarrow> bytes \<Rightarrow> i64 \<times> i64"
  x_ProveSpace :: "event list \<Rightarrow> i64 list \<Rightarrow> i64 \<Rightarrow> i64 \<Rightarrow> spaceProof result"
  x_GetCurrentRpcAddr :: "event list \<Rightarrow> string"

text \<open>
  \<open>e_acc\<close> is \<^verbatim>\<open>GetSignatureAccPulickey\<close>, \<open>e_rsaN\<close> the modulus of the possession-proof key (\<open>None\<close>: no key
  loaded), \<open>e_conf\<close> the configuration, \<open>e_space\<close> the space prover and the calls that certify idle space,
  \<open>e_reg\<close> the calls made while the node starts, \<open>e_dial\<close> the local checks of \<^verbatim>\<open>grpc.NewClient\<close>
  (second argument: whether TLS credentials are used).
\<close>

record world =
  w_fs :: fs
  w_db :: dblog
  w_run :: runstatus
  w_tee :: teeRecord
  w_ws :: workspace
  w_pois :: minerPoisInfo
  w_failed :: "string list"
  w_hist :: "event list"

definition log_event :: "event \<Rightarrow> world \<Rightarrow> world" where
  "log_event e w = w\<lparr>w_hist := w_hist w @ [e]\<rparr>"

definition GetBlockLatest :: "env \<Rightarrow> world \<Rightarrow> (u32 result) \<times> world" where
  "GetBlockLatest E w = (let r = x_GetBlockLatest E (w_hist w) in (r, log_event (EvGetBlockLatest r) w))"

definition QueryBlockNumber :: "env \<Rightarrow> string \<Rightarrow> world \<Rightarrow> (u32 result) \<times> world" where
  "QueryBlockNumber E a0 w = (let r = x_QueryBlockNumber E (w_hist w) a0 in (r, log_event (EvQueryBlockNumber a0 r) w))"

definition QueryFile :: "env \<Rightarrow> string \<Rightarrow> int \<Rightarrow> world \<Rightarrow> (fileMetadata result) \<times> world" where
  "QueryFile E a0 a1 w = (let r = x_QueryFile E (w_hist w) a0 a1 in (r, log_event (EvQueryFile a0 a1 r) w))"

definition QueryDealMap :: "env \<Rightarrow> string \<Rightarrow> world \<Rightarrow> (storageOrder result) \<times> world" where
  "QueryDealMap E a0 w = (let r = x_QueryDealMap E (w_hist w) a0 in (r, log_event (EvQueryDealMap a0 r) w))"

definition QueryAllOss :: "env \<Rightarrow> world \<Rightarrow> (string list result) \<times> world" where
  "QueryAllOss E w = (let r = x_QueryAllOss E (w_hist w) in (r, log_event (EvQueryAllOss r) w))"

definition QueryChallengeSnapShot :: "env \<Rightarrow> world \<Rightarrow> ((bool \<times> challengeSnapshot) result) \<times> world" where
  "QueryChallengeSnapShot E w = (let r = x_QueryChallengeSnapShot E (w_hist w) in (r, log_event (EvQueryChallengeSnapShot r) w))"

definition QueryMinerItems :: "env \<Rightarrow> world \<Rightarrow> (minerItems result) \<times> world" where
  "QueryMinerItems E w = (let r = x_QueryMinerItems E (w_hist w) in (r, log_event (EvQueryMinerItems r) w))"

definition QueryEndpoints :: "env \<Rightarrow> bytes \<Rightarrow> world \<Rightarrow> (string result) \<times> world" where
  "QueryEndpoints E a0 w = (let r = x_QueryEndpoints E (w_hist w) a0 in (r, log_event (EvQueryEndpoints a0 r) w))"

definition QueryWorkers :: "env \<Rightarrow> bytes \<Rightarrow> world \<Rightarrow> (workerInfo result) \<times> world" where
  "QueryWorkers E a0 w = (let r = x_QueryWorkers E (w_hist w) a0 in (r, log_event (EvQueryWorkers a0 r) w))"

definition QueryAllWorkers :: "env \<Rightarrow> world \<Rightarrow> (workerInfo list result) \<times> world" where
  "QueryAllWorkers E w = (let r = x_QueryAllWorkers E (w_hist w) in (r, log_event (EvQueryAllWorkers r) w))"

definition QueryAllRestoralOrder :: "env \<Rightarrow> world \<Rightarrow> (restoralOrder list result) \<times> world" where
  "QueryAllRestoralOrder E w = (let r = x_QueryAllRestoralOrder E (w_hist w) in (r, log_event (EvQueryAllRestoralOrder r) w))"

definition QueryRestoralOrder :: "env \<Rightarrow> string \<Rightarrow> world \<Rightarrow> (restoralOrder result) \<times> world" where
  "QueryRestoralOrder E a0 w = (let r = x_QueryRestoralOrder E (w_hist w) a0 in (r, log_event (EvQueryRestoralOrder a0 r) w))"

definition SubmitServiceProof :: "env \<Rightarrow> bytes \<Rightarrow> world \<Rightarrow> (string \<times> goerr option) \<times> world" where
  "SubmitServiceProof E a0 w = (let r = x_SubmitServiceProof E (w_hist w) a0 in (r, log_event (EvSubmitServiceProof a0 r) w))"

definition SubmitVerifyServiceResult :: "env \<Rightarrow> bool \<Rightarrow> bytes \<Rightarrow> bloomFilter \<Rightarrow> bytes \<Rightarrow> world \<Rightarrow> (string \<times> goerr option) \<times> world" where
  "SubmitVerifyServiceResult E a0 a1 a2 a3 w = (let r = x_SubmitVerifyServiceResult E (w_hist w) a0 a1 a2 a3 in (r, log_event (EvSubmitVerifyServiceResult a0 a1 a2 a3 r) w))"

definition SubmitIdleProof :: "env \<Rightarrow> bytes \<Rightarrow> world \<Rightarrow> (string \<times> goerr option) \<times> world" where
  "SubmitIdleProof E a0 w = (let r = x_SubmitIdleProof E (w_hist w) a0 in (r, log_event (EvSubmitIdleProof a0 r) w))"

definition SubmitVerifyIdleResult :: "env \<Rightarrow> bytes \<Rightarrow> u64 \<Rightarrow> u64 \<Rightarrow> bytes \<Rightarrow> bool \<Rightarrow> bytes \<Rightarrow> bytes \<Rightarrow> world \<Rightarrow> (string \<times> goerr option) \<times> world" where
  "SubmitVerifyIdleResult E a0 a1 a2 a3 a4 a5 a6 w = (let r = x_SubmitVerifyIdleResult E (w_hist w) a0 a1 a2 a3 a4 a5 a6 in (r, log_event (EvSubmitVerifyIdleResult a0 a1 a2 a3 a4 a5 a6 r) w))"

definition GenerateRestoralOrder :: "env \<Rightarrow> string \<Rightarrow> string \<Rightarrow> world \<Rightarrow> (string \<times> goerr option) \<times> world" where
  "GenerateRestoralOrder E a0 a1 w = (let r = x_GenerateRestoralOrder E (w_hist w) a0 a1 in (r, log_event (EvGenerateRestoralOrder a0 a1 r) w))"

definition ClaimRestoralOrder :: "env \<Rightarrow> string \<Rightarrow> world \<Rightarrow> (string \<times> goerr option) \<times> world" where
  "ClaimRestoralOrder E a0 w = (let r = x_ClaimRestoralOrder E (w_hist w) a0 in (r, log_event (EvClaimRestoralOrder a0 r) w))"

definition RestoralOrderComplete :: "env \<Rightarrow> string \<Rightarrow> world \<Rightarrow> (string \<times> goerr option) \<times> world" where
  "RestoralOrderComplete E a0 w = (let r = x_RestoralOrderComplete E (w_hist w) a0 in (r, log_event (EvRestoralOrderComplete a0 r) w))"

definition TransferReport :: "env \<Rightarrow> u8 \<Rightarrow> string \<Rightarrow> world \<Rightarrow> (string \<times> goerr option) \<times> world" where
  "TransferReport E a0 a1 w = (let r = x_TransferReport E (w_hist w) a0 a1 in (r, log_event (EvTransferReport a0 a1 r) w))"

definition CalculateReport :: "env \<Rightarrow> bytes \<Rightarrow> tagSigInfo \<Rightarrow> world \<Rightarrow> (string \<times> goerr option) \<times> world" where
  "CalculateReport E a0 a1 w = (let r = x_CalculateReport E (w_hist w) a0 a1 in (r, log_event (EvCalculateReport a0 a1 r) w))"

definition ReconnectRpc :: "env \<Rightarrow> world \<Rightarrow> (goerr option) \<times> world" where
  "ReconnectRpc E w = (let r = x_ReconnectRpc E (w_hist w) in (r, log_event (EvReconnectRpc r) w))"

definition rpc_RequestBatchVerify :: "env \<Rightarrow> string \<Rightarrow> bool \<Rightarrow> requestBatchVerify \<Rightarrow> world \<Rightarrow> (responseBatchVerify result) \<times> world" where
  "rpc_RequestBatchVerify E a0 a1 a2 w = (let r = x_rpc_RequestBatchVerify E (w_hist w) a0 a1 a2 in (r, log_event (EvRequestBatchVerify a0 a1 a2 r) w))"

definition rpc_RequestAggregateSignature :: "env \<Rightarrow> string \<Rightarrow> bool \<Rightarrow> requestAggregate \<Rightarrow> world \<Rightarrow> (responseAggregate result) \<times> world" where
  "rpc_RequestAggregateSignature E a0 a1 a2 w = (let r = x_rpc_RequestAggregateSignature E (w_hist w) a0 a1 a2 in (r, log_event (EvRequestAggregateSignature a0 a1 a2 r) w))"

definition rpc_RequestSpaceProofVerify :: "env \<Rightarrow> string \<Rightarrow> bool \<Rightarrow> requestSpaceProofVerify \<Rightarrow> world \<Rightarrow> (bytes result) \<times> world" where
  "rpc_RequestSpaceProofVerify E a0 a1 a2 w = (let r = x_rpc_RequestSpaceProofVerify E (w_hist w) a0 a1 a2 in (r, log_event (EvRequestSpaceProofVerify a0 a1 a2 r) w))"

definition rpc_RequestVerifySpaceTotal :: "env \<Rightarrow> string \<Rightarrow> bool \<Rightarrow> requestSpaceProofVerifyTotal \<Rightarrow> world \<Rightarrow> (responseSpaceProofVerifyTotal result) \<times> world" where
  "rpc_RequestVerifySpaceTotal E a0 a1 a2 w = (let r = x_rpc_RequestVerifySpaceTotal E (w_hist w) a0 a1 a2 in (r, log_event (EvRequestVerifySpaceTotal a0 a1 a2 r) w))"

definition rpc_GetIdentityPubkey :: "env \<Rightarrow> string \<Rightarrow> bool \<Rightarrow> bytes \<Rightarrow> world \<Rightarrow> (bytes result) \<times> world" where
  "rpc_GetIdentityPubkey E a0 a1 a2 w = (let r = x_rpc_GetIdentityPubkey E (w_hist w) a0 a1 a2 in (r, log_event (EvGetIdentityPubkey a0 a1 a2 r) w))"

definition rpc_GenTagOpen :: "env \<Rightarrow> string \<Rightarrow> bool \<Rightarrow> world \<Rightarrow> (goerr option) \<times> world" where
  "rpc_GenTagOpen E a0 a1 w = (let r = x_rpc_GenTagOpen E (w_hist w) a0 a1 in (r, log_event (EvGenTagOpen a0 a1 r) w))"

definition rpc_GenTagSend :: "env \<Rightarrow> requestGenTag \<Rightarrow> world \<Rightarrow> (goerr option) \<times> world" where
  "rpc_GenTagSend E a0 w = (let r = x_rpc_GenTagSend E (w_hist w) a0 in (r, log_event (EvGenTagSend a0 r) w))"

definition rpc_GenTagRecv :: "env \<Rightarrow> world \<Rightarrow> (responseGenTag result) \<times> world" where
  "rpc_GenTagRecv E w = (let r = x_rpc_GenTagRecv E (w_hist w) in (r, log_event (EvGenTagRecv r) w))"

definition rpc_GenTagClose :: "env \<Rightarrow> world \<Rightarrow> (goerr option) \<times> world" where
  "rpc_GenTagClose E w = (let r = x_rpc_GenTagClose E (w_hist w) in (r, log_event (EvGenTagClose r) w))"

definition http_Get :: "env \<Rightarrow> string \<Rightarrow> string \<Rightarrow> string \<Rightarrow> string \<Rightarrow> world \<Rightarrow> ((int \<times> bytes \<times> goerr option) result) \<times> world" where
  "http_Get E a0 a1 a2 a3 w = (let r = x_http_Get E (w_hist w) a0 a1 a2 a3 in (r, log_event (EvHttpGet a0 a1 a2 a3 r) w))"

definition GetRandomcode :: "env \<Rightarrow> world \<Rightarrow> (string) \<times> world" where
  "GetRandomcode E w = (let r = x_GetRandomcode E (w_hist w) in (r, log_event (EvGetRandomcode r) w))"

definition SignedSR25519 :: "env \<Rightarrow> string \<Rightarrow> world \<Rightarrow> (bytes result) \<times> world" where
  "SignedSR25519 E a0 w = (let r = x_SignedSR25519 E (w_hist w) a0 in (r, log_event (EvSignedSR25519 a0 r) w))"

definition Sign :: "env \<Rightarrow> bytes \<Rightarrow> world \<Rightarrow> (bytes result) \<times> world" where
  "Sign E a0 w = (let r = x_Sign E (w_hist w) a0 in (r, log_event (EvSign a0 r) w))"

definition NewUuid :: "env \<Rightarrow> world \<Rightarrow> (string result) \<times> world" where
  "NewUuid E w = (let r = x_NewUuid E (w_hist w) in (r, log_event (EvNewUuid r) w))"

definition SetChallengeState :: "env \<Rightarrow> bytes \<Rightarrow> i64 \<Rightarrow> i64 \<Rightarrow> world \<Rightarrow> (goerr option) \<times> world" where
  "SetChallengeState E a0 a1 a2 w = (let r = x_SetChallengeState E (w_hist w) a0 a1 a2 in (r, log_event (EvSetChallengeState a0 a1 a2 r) w))"

definition ChallengeHandle :: "env \<Rightarrow> i64 list \<Rightarrow> bytes \<Rightarrow> world \<Rightarrow> (i64 \<times> i64) \<times> world" where
  "ChallengeHandle E a0 a1 w = (let r = x_ChallengeHandle E (w_hist w) a0 a1 in (r, log_event (EvChallengeHandle a0 a1 r) w))"

definition ProveSpace :: "env \<Rightarrow> i64 list \<Rightarrow> i64 \<Rightarrow> i64 \<Rightarrow> world \<Rightarrow> (spaceProof result) \<times> world" where
  "ProveSpace E a0 a1 a2 w = (let r = x_ProveSpace E (w_hist w) a0 a1 a2 in (r, log_event (EvProveSpace a0 a1 a2 r) w))"

definition GetCurrentRpcAddr :: "env \<Rightarrow> world \<Rightarrow> (string) \<times> world" where
  "GetCurrentRpcAddr E w = (let r = x_GetCurrentRpcAddr E (w_hist w) in (r, log_event (EvGetCurrentRpcAddr r) w))"

definition prover_CommitDataIsReady :: "env \<Rightarrow> world \<Rightarrow> (bool) \<times> world" where
  "prover_CommitDataIsReady E w = (let r = x_prover_CommitDataIsReady (e_space E) (w_hist w) in (r, log_event (EvProverCommitDataIsReady r) w))"

definition prover_GetFront :: "env \<Rightarrow> world \<Rightarrow> (i64) \<times> world" where
  "prover_GetFront E w = (let r = x_prover_GetFront (e_space E) (w_hist w) in (r, log_event (EvProverGetFront r) w))"

definition prover_GetRear :: "env \<Rightarrow> world \<Rightarrow> (i64) \<times> world" where
  "prover_GetRear E w = (let r = x_prover_GetRear (e_space E) (w_hist w) in (r, log_event (EvProverGetRear r) w))"

definition prover_SyncChainPoisStatus :: "env \<Rightarrow> i64 \<Rightarrow> i64 \<Rightarrow> world \<Rightarrow> (goerr option) \<times> world" where
  "prover_SyncChainPoisStatus E a0 a1 w = (let r = x_prover_SyncChainPoisStatus (e_space E) (w_hist w) a0 a1 in (r, log_event (EvProverSyncChainPoisStatus a0 a1 r) w))"

definition prover_GetIdleFileSetCommits :: "env \<Rightarrow> world \<Rightarrow> (idleCommits result) \<times> world" where
  "prover_GetIdleFileSetCommits E w = (let r = x_prover_GetIdleFileSetCommits (e_space E) (w_hist w) in (r, log_event (EvProverGetIdleFileSetCommits r) w))"

definition prover_CommitRollback :: "env \<Rightarrow> world \<Rightarrow> (bool) \<times> world" where
  "prover_CommitRollback E w = (let r = x_prover_CommitRollback (e_space E) (w_hist w) in (r, log_event (EvProverCommitRollback r) w))"

definition prover_AccRollback :: "env \<Rightarrow> bool \<Rightarrow> world \<Rightarrow> (bool) \<times> world" where
  "prover_AccRollback E a0 w = (let r = x_prover_AccRollback (e_space E) (w_hist w) a0 in (r, log_event (EvProverAccRollback a0 r) w))"

definition prover_ProveCommitAndAcc :: "env \<Rightarrow> i64 list list \<Rightarrow> world \<Rightarrow> ((commitProof list list option \<times> accProof option) result) \<times> world" where
  "prover_ProveCommitAndAcc E a0 w = (let r = x_prover_ProveCommitAndAcc (e_space E) (w_hist w) a0 in (r, log_event (EvProverProveCommitAndAcc a0 r) w))"

definition prover_ProveDeletion :: "env \<Rightarrow> i64 \<Rightarrow> world \<Rightarrow> (deletionProof option result) \<times> world" where
  "prover_ProveDeletion E a0 w = (let r = x_prover_ProveDeletion (e_space E) (w_hist w) a0 in (r, log_event (EvProverProveDeletion a0 r) w))"

definition prover_UpdateStatus :: "env \<Rightarrow> i64 \<Rightarrow> bool \<Rightarrow> world \<Rightarrow> (goerr option) \<times> world" where
  "prover_UpdateStatus E a0 a1 w = (let r = x_prover_UpdateStatus (e_space E) (w_hist w) a0 a1 in (r, log_event (EvProverUpdateStatus a0 a1 r) w))"

definition prover_DeleteFiles :: "env \<Rightarrow> world \<Rightarrow> (goerr option) \<times> world" where
  "prover_DeleteFiles E w = (let r = x_prover_DeleteFiles (e_space E) (w_hist w) in (r, log_event (EvProverDeleteFiles r) w))"

definition prover_GenerateIdleFileSet :: "env \<Rightarrow> world \<Rightarrow> (goerr option) \<times> world" where
  "prover_GenerateIdleFileSet E w = (let r = x_prover_GenerateIdleFileSet (e_space E) (w_hist w) in (r, log_event (EvProverGenerateIdleFileSet r) w))"

definition prover_Init :: "env \<Rightarrow> world \<Rightarrow> (goerr option) \<times> world" where
  "prover_Init E w = (let r = x_prover_Init (e_space E) (w_hist w) in (r, log_event (EvProverInit r) w))"

definition prover_Recovery :: "env \<Rightarrow> i64 \<Rightarrow> i64 \<Rightarrow> world \<Rightarrow> (goerr option) \<times> world" where
  "prover_Recovery E a0 a1 w = (let r = x_prover_Recovery (e_space E) (w_hist w) a0 a1 in (r, log_event (EvProverRecovery a0 a1 r) w))"

definition prover_CheckAndRestoreIdleData :: "env \<Rightarrow> i64 \<Rightarrow> i64 \<Rightarrow> int \<Rightarrow> world \<Rightarrow> (goerr option) \<times> world" where
  "prover_CheckAndRestoreIdleData E a0 a1 a2 w = (let r = x_prover_CheckAndRestoreIdleData (e_space E) (w_hist w) a0 a1 a2 in (r, log_event (EvProverCheckAndRestoreIdleData a0 a1 a2 r) w))"

definition cert_MinerCommitGenChall :: "env \<Rightarrow> string \<Rightarrow> bool \<Rightarrow> requestCommitGenChall \<Rightarrow> world \<Rightarrow> (i64 list list result) \<times> world" where
  "cert_MinerCommitGenChall E a0 a1 a2 w = (let r = x_cert_MinerCommitGenChall (e_space E) (w_hist w) a0 a1 a2 in (r, log_event (EvMinerCommitGenChall a0 a1 a2 r) w))"

definition cert_VerifyCommitProof :: "env \<Rightarrow> string \<Rightarrow> bool \<Rightarrow> requestVerifyCommit \<Rightarrow> world \<Rightarrow> (responseVerifyCommitOrDeletion result) \<times> world" where
  "cert_VerifyCommitProof E a0 a1 a2 w = (let r = x_cert_VerifyCommitProof (e_space E) (w_hist w) a0 a1 a2 in (r, log_event (EvVerifyCommitProof a0 a1 a2 r) w))"

definition cert_VerifyDeletionProof :: "env \<Rightarrow> string \<Rightarrow> bool \<Rightarrow> requestVerifyDeletion \<Rightarrow> world \<Rightarrow> (responseVerifyCommitOrDeletion result) \<times> world" where
  "cert_VerifyDeletionProof E a0 a1 a2 w = (let r = x_cert_VerifyDeletionProof (e_space E) (w_hist w) a0 a1 a2 in (r, log_event (EvVerifyDeletionProof a0 a1 a2 r) w))"

definition cert_CertIdleSpace :: "env \<Rightarrow> spaceProofInfo \<Rightarrow> bytes \<Rightarrow> bytes \<Rightarrow> bytes \<Rightarrow> world \<Rightarrow> (string \<times> goerr option) \<times> world" where
  "cert_CertIdleSpace E a0 a1 a2 a3 w = (let r = x_cert_CertIdleSpace (e_space E) (w_hist w) a0 a1 a2 a3 in (r, log_event (EvCertIdleSpace a0 a1 a2 a3 r) w))"

definition cert_ReplaceIdleSpace :: "env \<Rightarrow> spaceProofInfo \<Rightarrow> bytes \<Rightarrow> bytes \<Rightarrow> bytes \<Rightarrow> world \<Rightarrow> (string \<times> goerr option) \<times> world" where
  "cert_ReplaceIdleSpace E a0 a1 a2 a3 w = (let r = x_cert_ReplaceIdleSpace (e_space E) (w_hist w) a0 a1 a2 a3 in (r, log_event (EvReplaceIdleSpace a0 a1 a2 a3 r) w))"

definition cert_QueryPendingReplacements :: "env \<Rightarrow> world \<Rightarrow> (int result) \<times> world" where
  "cert_QueryPendingReplacements E w = (let r = x_cert_QueryPendingReplacements (e_space E) (w_hist w) in (r, log_event (EvQueryPendingReplacements r) w))"

definition cert_GetHeaderLatest :: "env \<Rightarrow> world \<Rightarrow> (u32 result) \<times> world" where
  "cert_GetHeaderLatest E w = (let r = x_cert_GetHeaderLatest (e_space E) (w_hist w) in (r, log_event (EvGetHeaderLatest r) w))"

definition disk_Usage :: "env \<Rightarrow> string \<Rightarrow> world \<Rightarrow> usage \<times> world" where
  "disk_Usage E a0 w = (let r = x_disk_Usage (e_space E) (w_hist w) a0 in (r, log_event (EvDiskUsage a0 r) w))"

definition reg_QueryAccountInfo :: "env \<Rightarrow> string \<Rightarrow> world \<Rightarrow> (int result) \<times> world" where
  "reg_QueryAccountInfo E a0 w = (let r = x_reg_QueryAccountInfo (e_reg E) (w_hist w) a0 in (r, log_event (EvQueryAccountInfo a0 r) w))"

definition reg_IncreaseCollateral :: "env \<Rightarrow> string \<Rightarrow> world \<Rightarrow> (string \<times> goerr option) \<times> world" where
  "reg_IncreaseCollateral E a0 w = (let r = x_reg_IncreaseCollateral (e_reg E) (w_hist w) a0 in (r, log_event (EvIncreaseCollateral a0 r) w))"

definition reg_IncreaseDeclarationSpace :: "env \<Rightarrow> u32 \<Rightarrow> world \<Rightarrow> (string \<times> goerr option) \<times> world" where
  "reg_IncreaseDeclarationSpace E a0 w = (let r = x_reg_IncreaseDeclarationSpace (e_reg E) (w_hist w) a0 in (r, log_event (EvIncreaseDeclarationSpace a0 r) w))"

definition reg_UpdateBeneficiary :: "env \<Rightarrow> string \<Rightarrow> world \<Rightarrow> (string \<times> goerr option) \<times> world" where
  "reg_UpdateBeneficiary E a0 w = (let r = x_reg_UpdateBeneficiary (e_reg E) (w_hist w) a0 in (r, log_event (EvUpdateBeneficiary a0 r) w))"

definition reg_UpdateSminerEndpoint :: "env \<Rightarrow> bytes \<Rightarrow> world \<Rightarrow> (string \<times> goerr option) \<times> world" where
  "reg_UpdateSminerEndpoint E a0 w = (let r = x_reg_UpdateSminerEndpoint (e_reg E) (w_hist w) a0 in (r, log_event (EvUpdateSminerEndpoint a0 r) w))"

definition reg_RegnstkAssignStaking :: "env \<Rightarrow> string \<Rightarrow> bytes \<Rightarrow> string \<Rightarrow> u32 \<Rightarrow> world \<Rightarrow> (string \<times> goerr option) \<times> world" where
  "reg_RegnstkAssignStaking E a0 a1 a2 a3 w = (let r = x_reg_RegnstkAssignStaking (e_reg E) (w_hist w) a0 a1 a2 a3 in (r, log_event (EvRegnstkAssignStaking a0 a1 a2 a3 r) w))"

definition reg_RegnstkSminer :: "env \<Rightarrow> string \<Rightarrow> bytes \<Rightarrow> u64 \<Rightarrow> u32 \<Rightarrow> world \<Rightarrow> (string \<times> goerr option) \<times> world" where
  "reg_RegnstkSminer E a0 a1 a2 a3 w = (let r = x_reg_RegnstkSminer (e_reg E) (w_hist w) a0 a1 a2 a3 in (r, log_event (EvRegnstkSminer a0 a1 a2 a3 r) w))"

definition reg_RegisterPoisKey :: "env \<Rightarrow> bytes \<Rightarrow> bytes \<Rightarrow> bytes \<Rightarrow> bytes \<Rightarrow> bytes \<Rightarrow> world \<Rightarrow> (string \<times> goerr option) \<times> world" where
  "reg_RegisterPoisKey E a0 a1 a2 a3 a4 w = (let r = x_reg_RegisterPoisKey (e_reg E) (w_hist w) a0 a1 a2 a3 a4 in (r, log_event (EvRegisterPoisKey a0 a1 a2 a3 a4 r) w))"

definition reg_SystemSyncState :: "env \<Rightarrow> world \<Rightarrow> ((u64 \<times> u64) result) \<times> world" where
  "reg_SystemSyncState E w = (let r = x_reg_SystemSyncState (e_reg E) (w_hist w) in (r, log_event (EvSystemSyncState r) w))"

definition reg_GetPodr2Pubkey :: "env \<Rightarrow> string \<Rightarrow> bool \<Rightarrow> bytes \<Rightarrow> world \<Rightarrow> (bytes result) \<times> world" where
  "reg_GetPodr2Pubkey E a0 a1 a2 w = (let r = x_reg_GetPodr2Pubkey (e_reg E) (w_hist w) a0 a1 a2 in (r, log_event (EvGetPodr2Pubkey a0 a1 a2 r) w))"

definition reg_MinerGetNewKey :: "env \<Rightarrow> string \<Rightarrow> bool \<Rightarrow> bytes \<Rightarrow> world \<Rightarrow> (minerInitParam result) \<times> world" where
  "reg_MinerGetNewKey E a0 a1 a2 w = (let r = x_reg_MinerGetNewKey (e_reg E) (w_hist w) a0 a1 a2 in (r, log_event (EvMinerGetNewKey a0 a1 a2 r) w))"

definition reg_NewProver :: "env \<Rightarrow> u64 \<Rightarrow> world \<Rightarrow> (goerr option) \<times> world" where
  "reg_NewProver E a0 w = (let r = x_reg_NewProver (e_reg E) (w_hist w) a0 in (r, log_event (EvNewProver a0 r) w))"

definition reg_GetRpcState :: "env \<Rightarrow> world \<Rightarrow> (bool) \<times> world" where
  "reg_GetRpcState E w = (let r = x_reg_GetRpcState (e_reg E) (w_hist w) in (r, log_event (EvGetRpcState r) w))"

lemmas ext_defs = GetBlockLatest_def
  QueryBlockNumber_def
  QueryFile_def
  QueryDealMap_def
  QueryAllOss_def
  QueryChallengeSnapShot_def
  QueryMinerItems_def
  QueryEndpoints_def
  QueryWorkers_def
  QueryAllWorkers_def
  QueryAllRestoralOrder_def
  QueryRestoralOrder_def
  SubmitServiceProof_def
  SubmitVerifyServiceResult_def
  SubmitIdleProof_def
  SubmitVerifyIdleResult_def
  GenerateRestoralOrder_def
  ClaimRestoralOrder_def
  RestoralOrderComplete_def
  TransferReport_def
  CalculateReport_def
  ReconnectRpc_def
  rpc_RequestBatchVerify_def
  rpc_RequestAggregateSignature_def
  rpc_RequestSpaceProofVerify_def
  rpc_RequestVerifySpaceTotal_def
  rpc_GetIdentityPubkey_def
  rpc_GenTagOpen_def
  rpc_GenTagSend_def
  rpc_GenTagRecv_def
  rpc_GenTagClose_def
  http_Get_def
  GetRandomcode_def
  SignedSR25519_def
  Sign_def
  NewUuid_def
  SetChallengeState_def
  ChallengeHandle_def
  ProveSpace_def
  GetCurrentRpcAddr_def
  prover_CommitDataIsReady_def
  prover_GetFront_def
  prover_GetRear_def
  prover_SyncChainPoisStatus_def
  prover_GetIdleFileSetCommits_def
  prover_CommitRollback_def
  prover_AccRollback_def
  prover_ProveCommitAndAcc_def
  prover_ProveDeletion_def
  prover_UpdateStatus_def
  prover_DeleteFiles_def
  prover_GenerateIdleFileSet_def
  prover_Init_def
  prover_Recovery_def
  prover_CheckAndRestoreIdleData_def
  cert_MinerCommitGenChall_def
  cert_VerifyCommitProof_def
  cert_VerifyDeletionProof_def
  cert_CertIdleSpace_def
  cert_ReplaceIdleSpace_def
  cert_QueryPendingReplacements_def
  cert_GetHeaderLatest_def
  disk_Usage_def
  reg_QueryAccountInfo_def
  reg_IncreaseCollateral_def
  reg_IncreaseDeclarationSpace_def
  reg_UpdateBeneficiary_def
  reg_UpdateSminerEndpoint_def
  reg_RegnstkAssignStaking_def
  reg_RegnstkSminer_def
  reg_RegisterPoisKey_def
  reg_SystemSyncState_def
  reg_GetPodr2Pubkey_def
  reg_MinerGetNewKey_def
  reg_NewProver_def
  reg_GetRpcState_def

subsection \<open>Local state\<close>

definition db_Get :: "env \<Rightarrow> bytes \<Rightarrow> world \<Rightarrow> bytes result \<times> world" where
  "db_Get E k w = (case Get (e_db E) (w_db w) k of (db, r) \<Rightarrow> (r, w\<lparr>w_db := db\<rparr>))"

definition db_Put :: "env \<Rightarrow> bytes \<Rightarrow> bytes \<Rightarrow> world \<Rightarrow> goerr option \<times> world" where
  "db_Put E k v w = (case Put (e_db E) (w_db w) k v of (db, r) \<Rightarrow> (r, w\<lparr>w_db := db\<rparr>))"

definition db_Delete :: "env \<Rightarrow> bytes \<Rightarrow> world \<Rightarrow> goerr option \<times> world" where
  "db_Delete E k w = (case Delete (e_db E) (w_db w) k of (db, r) \<Rightarrow> (r, w\<lparr>w_db := db\<rparr>))"

definition on_fs :: "(fs \<Rightarrow> fs \<times> goerr option) \<Rightarrow> world \<Rightarrow> goerr option \<times> world" where
  "on_fs f w = (case f (w_fs w) of (fs, r) \<Rightarrow> (r, w\<lparr>w_fs := fs\<rparr>))"

definition on_run :: "(runstatus \<Rightarrow> runstatus) \<Rightarrow> world \<Rightarrow> world" where
  "on_run f w = w\<lparr>w_run := f (w_run w)\<rparr>"

abbreviation saveService :: "env \<Rightarrow> serviceProofInfo \<Rightarrow> world \<Rightarrow> goerr option \<times> world" where
  "saveService E r w \<equiv> on_fs (\<lambda>fs. SaveServiceProve (e_sdk E) fs (w_ws w) r) w"

abbreviation saveIdle :: "env \<Rightarrow> idleProofInfo \<Rightarrow> world \<Rightarrow> goerr option \<times> world" where
  "saveIdle E r w \<equiv> on_fs (\<lambda>fs. SaveIdleProve (e_sdk E) fs (w_ws w) r) w"

text \<open>A call that returns.\<close>

definition rets :: "'a \<times> 'w \<Rightarrow> ('w, 'a) outcome" where
  "rets p = Ret (fst p) (snd p)"

lemma andThen_rets [simp]: "andThen (rets (a, w)) f = f a w" "outcome_state (rets p) = snd p"
  by (simp_all add: rets_def)

lemma rets_pair: "rets (a, w) = Ret a w"
  by (simp add: rets_def)

text \<open>\<^verbatim>\<open>strings.Contains(ep, "443")\<close> decides whether a worker is dialled with TLS.\<close>

definition use_tls :: "string \<Rightarrow> bool" where
  "use_tls ep \<longleftrightarrow> Contains ep ''443''"

subsection \<open>Package \<^verbatim>\<open>pkg/com\<close>\<close>

definition RequestBatchVerify :: "env \<Rightarrow> string \<Rightarrow> bool \<Rightarrow> requestBatchVerify \<Rightarrow> world \<Rightarrow> responseBatchVerify result \<times> world" where
  "RequestBatchVerify E ep tls req w =
     (case e_dial E ep tls of Some e \<Rightarrow> (Inl e, w) | None \<Rightarrow> rpc_RequestBatchVerify E ep tls req w)"

definition RequestAggregateSignature :: "env \<Rightarrow> string \<Rightarrow> bool \<Rightarrow> requestAggregate \<Rightarrow> world \<Rightarrow> responseAggregate result \<times> world" where
  "RequestAggregateSignature E ep tls req w =
     (case e_dial E ep tls of Some e \<Rightarrow> (Inl e, w) | None \<Rightarrow> rpc_RequestAggregateSignature E ep tls req w)"

definition RequestSpaceProofVerifySingleBlock :: "env \<Rightarrow> string \<Rightarrow> bool \<Rightarrow> requestSpaceProofVerify \<Rightarrow> world \<Rightarrow> bytes result \<times> world" where
  "RequestSpaceProofVerifySingleBlock E ep tls req w =
     (case e_dial E ep tls of Some e \<Rightarrow> (Inl e, w) | None \<Rightarrow> rpc_RequestSpaceProofVerify E ep tls req w)"

definition RequestVerifySpaceTotal :: "env \<Rightarrow> string \<Rightarrow> bool \<Rightarrow> requestSpaceProofVerifyTotal \<Rightarrow> world \<Rightarrow> responseSpaceProofVerifyTotal result \<times> world" where
  "RequestVerifySpaceTotal E ep tls req w =
     (case e_dial E ep tls of Some e \<Rightarrow> (Inl e, w) | None \<Rightarrow> rpc_RequestVerifySpaceTotal E ep tls req w)"

definition GetIdentityPubkey :: "env \<Rightarrow> string \<Rightarrow> bool \<Rightarrow> bytes \<Rightarrow> world \<Rightarrow> bytes result \<times> world" where
  "GetIdentityPubkey E ep tls req w =
     (case e_dial E ep tls of Some e \<Rightarrow> (Inl e, w) | None \<Rightarrow> rpc_GetIdentityPubkey E ep tls req w)"

definition RequestMinerCommitGenChall :: "env \<Rightarrow> string \<Rightarrow> bool \<Rightarrow> requestCommitGenChall \<Rightarrow> world \<Rightarrow> i64 list list result \<times> world" where
  "RequestMinerCommitGenChall E ep tls req w =
     (case e_dial E ep tls of Some e \<Rightarrow> (Inl e, w) | None \<Rightarrow> cert_MinerCommitGenChall E ep tls req w)"

definition RequestVerifyCommitProof :: "env \<Rightarrow> string \<Rightarrow> bool \<Rightarrow> requestVerifyCommit \<Rightarrow> world \<Rightarrow> responseVerifyCommitOrDeletion result \<times> world" where
  "RequestVerifyCommitProof E ep tls req w =
     (case e_dial E ep tls of Some e \<Rightarrow> (Inl e, w) | None \<Rightarrow> cert_VerifyCommitProof E ep tls req w)"

definition RequestVerifyDeletionProof :: "env \<Rightarrow> string \<Rightarrow> bool \<Rightarrow> requestVerifyDeletion \<Rightarrow> world \<Rightarrow> responseVerifyCommitOrDeletion result \<times> world" where
  "RequestVerifyDeletionProof E ep tls req w =
     (case e_dial E ep tls of Some e \<Rightarrow> (Inl e, w) | None \<Rightarrow> cert_VerifyDeletionProof E ep tls req w)"

definition GetPodr2Pubkey :: "env \<Rightarrow> string \<Rightarrow> bool \<Rightarrow> bytes \<Rightarrow> world \<Rightarrow> bytes result \<times> world" where
  "GetPodr2Pubkey E ep tls req w =
     (case e_dial E ep tls of Some e \<Rightarrow> (Inl e, w) | None \<Rightarrow> reg_GetPodr2Pubkey E ep tls req w)"

definition RequestMinerGetNewKey :: "env \<Rightarrow> string \<Rightarrow> bool \<Rightarrow> bytes \<Rightarrow> world \<Rightarrow> minerInitParam result \<times> world" where
  "RequestMinerGetNewKey E ep tls req w =
     (case e_dial E ep tls of Some e \<Rightarrow> (Inl e, w) | None \<Rightarrow> reg_MinerGetNewKey E ep tls req w)"

lemmas com_defs = RequestBatchVerify_def RequestAggregateSignature_def RequestSpaceProofVerifySingleBlock_def
  RequestVerifySpaceTotal_def GetIdentityPubkey_def RequestMinerCommitGenChall_def RequestVerifyCommitProof_def
  RequestVerifyDeletionProof_def GetPodr2Pubkey_def RequestMinerGetNewKey_def

subsection \<open>Traces\<close>

text \<open>
  A property of the external calls and the database operations that a run adds, closed under
  sequential composition, holds of a run when it holds of its parts.
\<close>

definition adds :: "(event list \<Rightarrow> dbop list \<Rightarrow> bool) \<Rightarrow> world \<Rightarrow> world \<Rightarrow> bool" where
  "adds P w w' \<longleftrightarrow> (\<exists>h d. w_hist w' = w_hist w @ h \<and> w_db w' = w_db w @ d \<and> P h d)"

locale trace_property =
  fixes P :: "event list \<Rightarrow> dbop list \<Rightarrow> bool"
  assumes P_nil: "P [] []"
    and compose: "P h d \<Longrightarrow> P h' d' \<Longrightarrow> P (h @ h') (d @ d')"
begin

lemma adds_same: "w_hist w' = w_hist w \<Longrightarrow> w_db w' = w_db w \<Longrightarrow> adds P w w'"
  by (simp add: adds_def P_nil)

lemma adds_refl: "adds P w w"
  by (simp add: adds_same)

lemma adds_trans: "adds P w1 w2 \<Longrightarrow> adds P w2 w3 \<Longrightarrow> adds P w1 w3"
  unfolding adds_def by (metis append.assoc compose)

lemma adds_event: "P [e] [] \<Longrightarrow> adds P w (log_event e w)"
  by (auto simp: adds_def log_event_def)

lemma adds_db: "P [] [x] \<Longrightarrow> adds P w (w\<lparr>w_db := w_db w @ [x]\<rparr>)"
  by (auto simp: adds_def)

lemma adds_andThen:
  assumes "adds P w (outcome_state m)"
    and "\<And>a w'. m = Ret a w' \<Longrightarrow> adds P w' (outcome_state (f a w'))"
  shows "adds P w (outcome_state (andThen m f))"
  using assms by (cases m) (auto intro: adds_trans)

lemma adds_snd_trans:
  assumes "f w = (a, w')" and "adds P w (snd (f w))" and "adds P w' w''"
  shows "adds P w w''"
  using assms by (auto intro: adds_trans)

end

lemma adds_mono: "adds P w w' \<Longrightarrow> (\<And>h d. P h d \<Longrightarrow> Q h d) \<Longrightarrow> adds Q w w'"
  by (auto simp: adds_def)

lemma adds_hist_prefix: "adds P w w' \<Longrightarrow> prefix (w_hist w) (w_hist w')"
  by (auto simp: adds_def)

lemma frame_log_event [frame_simps]:
  "w_fs (log_event e w) = w_fs w" "w_db (log_event e w) = w_db w" "w_run (log_event e w) = w_run w"
  "w_tee (log_event e w) = w_tee w" "w_pois (log_event e w) = w_pois w" "w_failed (log_event e w) = w_failed w"
  "w_ws (log_event e w) = w_ws w" "w_hist (log_event e w) = w_hist w @ [e]"
  by (simp_all add: log_event_def)

lemma frame_on_fs [frame_simps]:
  "w_db (snd (on_fs f w)) = w_db w" "w_run (snd (on_fs f w)) = w_run w" "w_tee (snd (on_fs f w)) = w_tee w"
  "w_ws (snd (on_fs f w)) = w_ws w" "w_pois (snd (on_fs f w)) = w_pois w" "w_failed (snd (on_fs f w)) = w_failed w"
  "w_hist (snd (on_fs f w)) = w_hist w"
  by (simp_all add: on_fs_def split: prod.split)

lemma frame_on_run [frame_simps]:
  "w_fs (on_run f w) = w_fs w" "w_db (on_run f w) = w_db w" "w_tee (on_run f w) = w_tee w"
  "w_ws (on_run f w) = w_ws w" "w_pois (on_run f w) = w_pois w" "w_failed (on_run f w) = w_failed w"
  "w_hist (on_run f w) = w_hist w" "w_run (on_run f w) = f (w_run w)"
  by (simp_all add: on_run_def)

lemma db_Get_state: "snd (db_Get E k w) = w\<lparr>w_db := w_db w @ [DbGet k]\<rparr>"
  by (simp add: db_Get_def Get_def split: sum.split)

lemma db_Put_state: "snd (db_Put E k v w) = w\<lparr>w_db := w_db w @ [DbPut k v (fst (db_Put E k v w))]\<rparr>"
  by (simp add: db_Put_def Put_def Let_def)

lemma db_Delete_state: "snd (db_Delete E k w) = w\<lparr>w_db := w_db w @ [DbDelete k (fst (db_Delete E k w))]\<rparr>"
  by (simp add: db_Delete_def Delete_def Let_def)

subsection \<open>An instance\<close>

text \<open>A node without files whose environment answers nothing; the properties are evaluated on
  variations of it.\<close>

definition demo_conflib :: confLib where
  "demo_conflib = \<lparr>cl_read = \<lambda>_ _ _. Inl (mk_err ''down''), cl_key = \<lambda>m. Inr m, cl_address = \<lambda>_. None,
     cl_account = \<lambda>k. k\<rparr>"

definition demo_space :: spaceEnv where
  "demo_space = \<lparr>PoISKeyLen = 2, rsaKey_G = [], rsaKey_N = [], DEFAULT_ELEMS_NUM = 4, pois_FileSize = 1, minSpace = 2,
     marshal_commit = \<lambda>_. Inr [], marshal_verify_commit = \<lambda>_. Inr [], marshal_verify_deletion = \<lambda>_. Inr [],
     x_prover_CommitDataIsReady = \<lambda>_. True,
     x_prover_GetFront = \<lambda>_. 0,
     x_prover_GetRear = \<lambda>_. 0,
     x_prover_SyncChainPoisStatus = \<lambda>_ _ _. None,
     x_prover_GetIdleFileSetCommits = \<lambda>_. Inl (mk_err ''down''),
     x_prover_CommitRollback = \<lambda>_. True,
     x_prover_AccRollback = \<lambda>_ _. True,
     x_prover_ProveCommitAndAcc = \<lambda>_ _. Inl (mk_err ''down''),
     x_prover_ProveDeletion = \<lambda>_ _. Inl (mk_err ''down''),
     x_prover_UpdateStatus = \<lambda>_ _ _. None,
     x_prover_DeleteFiles = \<lambda>_. None,
     x_prover_GenerateIdleFileSet = \<lambda>_. None,
     x_prover_Init = \<lambda>_. None,
     x_prover_Recovery = \<lambda>_ _ _. None,
     x_prover_CheckAndRestoreIdleData = \<lambda>_ _ _ _. None,
     x_cert_MinerCommitGenChall = \<lambda>_ _ _ _. Inl (mk_err ''down''),
     x_cert_VerifyCommitProof = \<lambda>_ _ _ _. Inl (mk_err ''down''),
     x_cert_VerifyDeletionProof = \<lambda>_ _ _ _. Inl (mk_err ''down''),
     x_cert_CertIdleSpace = \<lambda>_ _ _ _ _. ([], Some (mk_err ''down'')),
     x_cert_ReplaceIdleSpace = \<lambda>_ _ _ _ _. ([], Some (mk_err ''down'')),
     x_cert_QueryPendingReplacements = \<lambda>_. Inl (mk_err ''down''),
     x_cert_GetHeaderLatest = \<lambda>_. Inl (mk_err ''down''),
     x_disk_Usage = \<lambda>_ _. (None, Some (mk_err ''down''))\<rparr>"

definition demo_reg :: regEnv where
  "demo_reg = \<lparr>SIZE_1KiB = 4, SIZE_1TiB = 16, StakingStakePerTiB = 2, TokenPrecision_CESS = ''0'',
     ParsingPublickey = \<lambda>a. Inr a, BytesToPoISKeyInfo = \<lambda>g n. Inr (g, n), podr2_key = \<lambda>b. Inr 7,
     x_reg_QueryAccountInfo = \<lambda>_ _. Inl (mk_err ''down''),
     x_reg_IncreaseCollateral = \<lambda>_ _. ([], Some (mk_err ''down'')),
     x_reg_IncreaseDeclarationSpace = \<lambda>_ _. ([], Some (mk_err ''down'')),
     x_reg_UpdateBeneficiary = \<lambda>_ _. ([], Some (mk_err ''down'')),
     x_reg_UpdateSminerEndpoint = \<lambda>_ _. ([], Some (mk_err ''down'')),
     x_reg_RegnstkAssignStaking = \<lambda>_ _ _ _ _. ([], Some (mk_err ''down'')),
     x_reg_RegnstkSminer = \<lambda>_ _ _ _ _. ([], Some (mk_err ''down'')),
     x_reg_RegisterPoisKey = \<lambda>_ _ _ _ _ _. ([], Some (mk_err ''down'')),
     x_reg_SystemSyncState = \<lambda>_. Inl (mk_err ''down''),
     x_reg_GetPodr2Pubkey = \<lambda>_ _ _ _. Inl (mk_err ''down''),
     x_reg_MinerGetNewKey = \<lambda>_ _ _ _. Inl (mk_err ''down''),
     x_reg_NewProver = \<lambda>_ _. None,
     x_reg_GetRpcState = \<lambda>_. True\<rparr>"

definition demo_env :: env where
  "demo_env = \<lparr>e_sdk = demo_sdk, e_db = mem_leveldb, e_ord = id, e_acc = ''me'', e_signacc = ''acc'',
     e_rsaN = Some 7, e_keyN = [], e_keyG = [], e_conf = NewConfigFile, e_conflib = demo_conflib, e_space = demo_space, e_reg = demo_reg, e_dial = \<lambda>_ _. None,
     x_GetBlockLatest = \<lambda>_. Inl (mk_err ''down''),
     x_QueryBlockNumber = \<lambda>_ _. Inl (mk_err ''down''),
     x_QueryFile = \<lambda>_ _ _. Inl (mk_err ''down''),
     x_QueryDealMap = \<lambda>_ _. Inl (mk_err ''down''),
     x_QueryAllOss = \<lambda>_. Inl (mk_err ''down''),
     x_QueryChallengeSnapShot = \<lambda>_. Inl (mk_err ''down''),
     x_QueryMinerItems = \<lambda>_. Inl (mk_err ''down''),
     x_QueryEndpoints = \<lambda>_ _. Inl (mk_err ''down''),
     x_QueryWorkers = \<lambda>_ _. Inl (mk_err ''down''),
     x_QueryAllWorkers = \<lambda>_. Inl (mk_err ''down''),
     x_QueryAllRestoralOrder = \<lambda>_. Inl (mk_err ''down''),
     x_QueryRestoralOrder = \<lambda>_ _. Inl (mk_err ''down''),
     x_SubmitServiceProof = \<lambda>_ _. ([], Some (mk_err ''down'')),
     x_SubmitVerifyServiceResult = \<lambda>_ _ _ _ _. ([], Some (mk_err ''down'')),
     x_SubmitIdleProof = \<lambda>_ _. ([], Some (mk_err ''down'')),
     x_SubmitVerifyIdleResult = \<lambda>_ _ _ _ _ _ _ _. ([], Some (mk_err ''down'')),
     x_GenerateRestoralOrder = \<lambda>_ _ _. ([], Some (mk_err ''down'')),
     x_ClaimRestoralOrder = \<lambda>_ _. ([], Some (mk_err ''down'')),
     x_RestoralOrderComplete = \<lambda>_ _. ([], Some (mk_err ''down'')),
     x_TransferReport = \<lambda>_ _ _. ([], Some (mk_err ''down'')),
     x_CalculateReport = \<lambda>_ _ _. ([], Some (mk_err ''down'')),
     x_ReconnectRpc = \<lambda>_. None,
     x_rpc_RequestBatchVerify = \<lambda>_ _ _ _. Inl (mk_err ''down''),
     x_rpc_RequestAggregateSignature = \<lambda>_ _ _ _. Inl (mk_err ''down''),
     x_rpc_RequestSpaceProofVerify = \<lambda>_ _ _ _. Inl (mk_err ''down''),
     x_rpc_RequestVerifySpaceTotal = \<lambda>_ _ _ _. Inl (mk_err ''down''),
     x_rpc_GetIdentityPubkey = \<lambda>_ _ _ _. Inl (mk_err ''down''),
     x_rpc_GenTagOpen = \<lambda>_ _ _. None,
     x_rpc_GenTagSend = \<lambda>_ _. None,
     x_rpc_GenTagRecv = \<lambda>_. Inl (mk_err ''down''),
     x_rpc_GenTagClose = \<lambda>_. None,
     x_http_Get = \<lambda>_ _ _ _ _. Inl (mk_err ''down''),
     x_GetRandomcode = \<lambda>_. [],
     x_SignedSR25519 = \<lambda>_ _. Inl (mk_err ''down''),
     x_Sign = \<lambda>_ _. Inl (mk_err ''down''),
     x_NewUuid = \<lambda>_. Inl (mk_err ''down''),
     x_SetChallengeState = \<lambda>_ _ _ _. None,
     x_ChallengeHandle = \<lambda>_ _ _. (0, 0),
     x_ProveSpace = \<lambda>_ _ _ _. Inl (mk_err ''down''),
     x_GetCurrentRpcAddr = \<lambda>_. []\<rparr>"

definition demo_world :: world where
  "demo_world = \<lparr>w_fs = bare_fs, w_db = [], w_run = NewRunstatus, w_tee = demo_tees,
     w_ws = set_paths (NewWorkspace ''/w''), w_pois = zero_pois, w_failed = [], w_hist = []\<rparr>"

end
