(* ===== verification/CalcTag.thy ===== *)
theory CalcTag
  imports NodeWorld Utils
begin

text \<open>
  Service tags (\<^verbatim>\<open>src/node/calctag.go\<close>, and \<^verbatim>\<open>calcFragmentTag\<close> of \<^verbatim>\<open>src/node/restore.go\<close>): asking a TEE
  worker for the tag of a fragment, keeping the tag files of a file numbered 1, 2, \<dots>, and
  reporting them to the chain.
\<close>

subsection \<open>Listing fragments and tags\<close>

definition getAllFragment :: "sdk \<Rightarrow> fs \<Rightarrow> string \<Rightarrow> string list result" where
  "getAllFragment K fs path =
     (case os_Stat fs path of
        Inl e \<Rightarrow> Inl e
      | Inr st \<Rightarrow>
          (if \<not> fi_isdir st then Inl (mk_err ''not dir'')
           else (case DirFiles fs path 0 of
                   Inl e \<Rightarrow> Inl e
                 | Inr files \<Rightarrow> Inr (filter (\<lambda>f. length (Base f) = FileHashLen K) files))))"

definition getFragmentTags :: "fs \<Rightarrow> string \<Rightarrow> string list result" where
  "getFragmentTags fs path =
     (case os_Stat fs path of
        Inl e \<Rightarrow> Inl e
      | Inr st \<Rightarrow>
          (if \<not> fi_isdir st then Inl (mk_err ''not dir'')
           else (case DirFiles fs path 0 of
                   Inl e \<Rightarrow> Inl e
                 | Inr files \<Rightarrow> Inr (filter (\<lambda>f. Contains f ''.tag'') files))))"

definition getTagsNumber :: "fs \<Rightarrow> string \<Rightarrow> nat" where
  "getTagsNumber fs path =
     (case os_Stat fs path of
        Inl e \<Rightarrow> 0
      | Inr st \<Rightarrow>
          (if \<not> fi_isdir st then 0
           else (case DirFiles fs path 0 of
                   Inl e \<Rightarrow> 0
                 | Inr files \<Rightarrow> length (filter (\<lambda>f. Contains f ''.tag'') files))))"

fun checkFragmentsSize :: "sdk \<Rightarrow> fs \<Rightarrow> string list \<Rightarrow> goerr option" where
  "checkFragmentsSize K fs [] = None"
| "checkFragmentsSize K fs (v # vs) =
     (case os_Stat fs v of
        Inl e \<Rightarrow> Some e
      | Inr fstat \<Rightarrow>
          (if fi_size fstat \<noteq> FragmentSize K then Some (mk_err ''size error'')
           else checkFragmentsSize K fs vs))"

fun checkAllFragmentTag :: "fs \<Rightarrow> string list \<Rightarrow> bool" where
  "checkAllFragmentTag fs [] = True"
| "checkAllFragmentTag fs (v # vs) =
     (case os_Stat fs (v @ ''.tag'') of Inl _ \<Rightarrow> False | Inr _ \<Rightarrow> checkAllFragmentTag fs vs)"

subsection \<open>Asking a worker for a tag\<close>

definition zero_genTag :: genTagMsg where
  "zero_genTag = \<lparr>gt_Tag = None, gt_USig = [], gt_Signature = []\<rparr>"

definition reciv_signal :: "env \<Rightarrow> world \<Rightarrow> bool result \<times> world" where
  "reciv_signal E w = (case rpc_GenTagRecv E w of
      (Inl e, w1) \<Rightarrow> (Inl e, w1) | (Inr req, w1) \<Rightarrow> (Inr (rr_Processing req), w1))"

text \<open>\<^verbatim>\<open>*req.GetMsg()\<close> panics when the answer carries no tag message.\<close>

definition reciv_tag :: "env \<Rightarrow> world \<Rightarrow> (world, genTagMsg result) outcome" where
  "reciv_tag E w = (case rpc_GenTagRecv E w of
      (Inl e, w1) \<Rightarrow> Ret (Inl e) w1
    | (Inr req, w1) \<Rightarrow> (case rr_Msg req of None \<Rightarrow> Panic w1 | Some m \<Rightarrow> Ret (Inr m) w1))"

definition callTeeTag_stream ::
  "env \<Rightarrow> string \<Rightarrow> string \<Rightarrow> bytes \<Rightarrow> digestInfo option list \<Rightarrow> bytes \<Rightarrow> world \<Rightarrow> (world, genTagMsg result) outcome" where
  "callTeeTag_stream E fid fragmentHash lastSign digest buf w =
     (let first = \<lparr>rt_FragmentData = [], rt_FragmentName = fragmentHash, rt_CustomData = [], rt_FileName = fid,
                   rt_MinerId = e_acc E, rt_TeeDigestList = [], rt_LastTeeSignature = []\<rparr>;
          second = \<lparr>rt_FragmentData = buf, rt_FragmentName = fragmentHash, rt_CustomData = [], rt_FileName = fid,
                   rt_MinerId = e_acc E, rt_TeeDigestList = digest, rt_LastTeeSignature = lastSign\<rparr>
      in case rpc_GenTagSend E first w of
        (Some e, w1) \<Rightarrow> Ret (Inl (mk_err (''first send: '' @ err_msg e))) w1
      | (None, w1) \<Rightarrow>
          (case reciv_signal E w1 of
             (Inl e, w2) \<Rightarrow> Ret (Inl e) w2
           | (Inr False, w2) \<Rightarrow> Ret (Inl (mk_err ''reciv_signal: false'')) w2
           | (Inr True, w2) \<Rightarrow>
               (case rpc_GenTagSend E second w2 of
                  (Some e, w3) \<Rightarrow> Ret (Inl (mk_err (''second send: '' @ err_msg e))) w3
                | (None, w3) \<Rightarrow>
                    andThen (reciv_tag E w3) (\<lambda>r w4.
                      case r of
                        Inl e \<Rightarrow> Ret (Inl e) w4
                      | Inr tag \<Rightarrow> Ret (Inr tag) (snd (rpc_GenTagClose E w4))))))"

definition callTeeTag ::
  "env \<Rightarrow> string \<Rightarrow> string \<Rightarrow> string \<Rightarrow> bytes \<Rightarrow> digestInfo option list \<Rightarrow> world \<Rightarrow> (world, genTagMsg result) outcome" where
  "callTeeTag E teeEndPoint fid fragmentFile lastSign digest w =
     (case e_dial E teeEndPoint (use_tls teeEndPoint) of
        Some e \<Rightarrow> Ret (Inl (mk_err (''grpc.Dial: '' @ err_msg e))) w
      | None \<Rightarrow>
          (case rpc_GenTagOpen E teeEndPoint (use_tls teeEndPoint) w of
             (Some e, w1) \<Rightarrow> Ret (Inl (mk_err (''RequestGenTag: '' @ err_msg e))) w1
           | (None, w1) \<Rightarrow>
               (case os_ReadFile (w_fs w1) fragmentFile of
                  Inl e \<Rightarrow> Ret (Inl (mk_err (''ReadFile: '' @ err_msg e))) w1
                | Inr buf \<Rightarrow> callTeeTag_stream E fid (Base fragmentFile) lastSign digest buf w1)))"

fun request_tee_loop ::
  "env \<Rightarrow> string \<Rightarrow> string \<Rightarrow> bytes \<Rightarrow> digestInfo option list \<Rightarrow> string list \<Rightarrow> genTagMsg \<times> bytes \<times> goerr option
     \<Rightarrow> world \<Rightarrow> (world, genTagMsg \<times> bytes \<times> goerr option) outcome" where
  "request_tee_loop E fid fragmentFile lastSign digest [] acc w = Ret acc w"
| "request_tee_loop E fid fragmentFile lastSign digest (ep # eps) acc w =
     (case GetTeePubkeyByEndpoint (e_ord E) (w_tee w) ep of
        Inl e \<Rightarrow> request_tee_loop E fid fragmentFile lastSign digest eps (fst acc, [], Some e) w
      | Inr teePubkey \<Rightarrow>
          andThen (callTeeTag E ep fid fragmentFile lastSign digest w) (\<lambda>r w1.
            case r of
              Inl e \<Rightarrow> request_tee_loop E fid fragmentFile lastSign digest eps (zero_genTag, teePubkey, Some e) w1
            | Inr tagInfo \<Rightarrow> Ret (tagInfo, teePubkey, None) w1))"

definition requestTeeTag ::
  "env \<Rightarrow> string \<Rightarrow> string \<Rightarrow> bytes \<Rightarrow> digestInfo option list \<Rightarrow> world
     \<Rightarrow> (world, genTagMsg \<times> bytes \<times> goerr option) outcome" where
  "requestTeeTag E fid fragmentFile lastSign digest w =
     request_tee_loop E fid fragmentFile lastSign digest
       (GetAllMarkerTeeEndpoint (e_sdk E) (e_ord E) (w_tee w)) (zero_genTag, [], None) w"

subsection \<open>Storing a tag\<close>

definition calcTheFragmentTag ::
  "env \<Rightarrow> string \<Rightarrow> string \<Rightarrow> u16 \<Rightarrow> bytes \<Rightarrow> digestInfo option list \<Rightarrow> world \<Rightarrow> (world, bool \<times> goerr option) outcome" where
  "calcTheFragmentTag E fid fragmentFile maxIndex lastSign digest w =
     andThen (requestTeeTag E fid fragmentFile lastSign digest w) (\<lambda>(genTag, teePubkey, err) w1.
       case err of
         Some e \<Rightarrow> Ret (False, Some (mk_err (''requestTeeTag: '' @ err_msg e))) w1
       | None \<Rightarrow>
           (if length (gt_USig genTag) \<noteq> TeeSignatureLen (e_sdk E)
            then Ret (False, Some (mk_err ''invalid USig length'')) w1
            else if length (gt_Signature genTag) \<noteq> TeeSigLen (e_sdk E)
            then Ret (False, Some (mk_err ''invalid Tag.Signature length'')) w1
            else
              (case marshal_tag \<lparr>tf_Tag = gt_Tag genTag, tf_USig = gt_USig genTag,
                      tf_Signature = gt_Signature genTag, tf_FragmentName = Base fragmentFile,
                      tf_TeeAccountId = teePubkey, tf_Index = maxIndex + 1\<rparr> of
                 Inl e \<Rightarrow> Ret (False, Some (mk_err (''json.Marshal: '' @ err_msg e))) w1
               | Inr buf \<Rightarrow>
                   (case on_fs (\<lambda>fs. WriteBufToFile (e_sdk E) fs buf (fragmentFile @ ''.tag'')) w1 of
                      (Some e, w2) \<Rightarrow> Ret (False, Some (mk_err (''WriteBufToFile: '' @ err_msg e))) w2
                    | (None, w2) \<Rightarrow> Ret (True, None) w2))))"

definition calcFragmentTag :: "env \<Rightarrow> string \<Rightarrow> string \<Rightarrow> world \<Rightarrow> (world, goerr option) outcome" where
  "calcFragmentTag E fid fragment w =
     (case os_ReadFile (w_fs w) fragment of
        Inl e \<Rightarrow> Ret (Some e) w
      | Inr buf \<Rightarrow>
          (if length buf \<noteq> FragmentSize (e_sdk E) then Ret (Some (mk_err ''invalid fragment size'')) w
           else
             andThen (requestTeeTag E fid fragment [] [] w) (\<lambda>(genTag, teePubkey, err) w1.
               case err of
                 Some e \<Rightarrow> Ret (Some e) w1
               | None \<Rightarrow>
                   (if length (gt_USig genTag) \<noteq> TeeSignatureLen (e_sdk E)
                    then Ret (Some (mk_err ''invalid USig length'')) w1
                    else if length (gt_Signature genTag) \<noteq> TeeSigLen (e_sdk E)
                    then Ret (Some (mk_err ''invalid genTag.Signature length'')) w1
                    else
                      (let tagno = getTagsNumber (w_fs w1) (Join [fileDir (w_ws w1), fid]) in
                       case marshal_tag \<lparr>tf_Tag = gt_Tag genTag, tf_USig = gt_USig genTag,
                              tf_Signature = gt_Signature genTag, tf_FragmentName = Base fragment,
                              tf_TeeAccountId = teePubkey, tf_Index = of_nat (tagno + 1)\<rparr> of
                         Inl e \<Rightarrow> Ret (Some (mk_err (''json.Marshal: '' @ err_msg e))) w1
                       | Inr buf' \<Rightarrow>
                           (case on_fs (\<lambda>fs. WriteBufToFile (e_sdk E) fs buf' (fragment @ ''.tag'')) w1 of
                              (Some e, w2) \<Rightarrow> Ret (Some (mk_err (''WriteBufToFile: '' @ err_msg e))) w2
                            | (None, w2) \<Rightarrow> Ret None w2))))))"

subsection \<open>The digest list of the tags already stored\<close>

fun digest_loop ::
  "env \<Rightarrow> string \<Rightarrow> string list \<Rightarrow> u16 \<times> bytes \<times> digestInfo option list \<Rightarrow> world
     \<Rightarrow> (world, (u16 \<times> bytes \<times> digestInfo option list) result) outcome" where
  "digest_loop E fragment [] st w = Ret (Inr st) w"
| "digest_loop E fragment (v # vs) (maxIndex, latestSig, digest) w =
     (if Contains v fragment then digest_loop E fragment vs (maxIndex, latestSig, digest) w
      else
        (case os_ReadFile (w_fs w) v of
           Inl e \<Rightarrow> Ret (Inl e) w
         | Inr buf \<Rightarrow>
             (case unmarshal_tag tagfile_zero buf of
                (tag, Some e) \<Rightarrow> Ret (Inl e) (snd (on_fs (\<lambda>fs. os_Remove fs v) w))
              | (tag, None) \<Rightarrow>
                  (if tf_Index tag = 0 then Ret (Inl (mk_err ''invalid tag.Index'')) w
                   else
                     (let (maxIndex', latestSig') =
                            (if tf_Index tag > maxIndex then (tf_Index tag, tf_Signature tag)
                             else (maxIndex, latestSig));
                          dig = \<lparr>di_FragmentName = tf_FragmentName tag, di_TeeAccountId = tf_TeeAccountId tag\<rparr>;
                          i = unat (tf_Index tag) - 1
                      in if i < length digest
                         then digest_loop E fragment vs (maxIndex', latestSig', digest[i := Some dig]) w
                         else Panic w)))))"

definition calcRequestDigest ::
  "env \<Rightarrow> string \<Rightarrow> string list \<Rightarrow> world
     \<Rightarrow> (world, (u16 \<times> bytes \<times> digestInfo option list) result) outcome" where
  "calcRequestDigest E fragment tags w =
     (if tags = [] then Ret (Inr (0, [], [])) w
      else digest_loop E fragment tags (0, [], replicate (length tags) None) w)"

subsection \<open>Reporting the tags of a file\<close>

definition Cach_prefix_Tag :: string where "Cach_prefix_Tag = ''tag:''"

definition tag_fragment :: "string \<Rightarrow> string" where
  "tag_fragment t = TrimSuffix (Base t) ''.tag''"

text \<open>The loop over \<^verbatim>\<open>tags\<close> that records the block of the report; the error of the last write is kept.\<close>

fun put_tags :: "env \<Rightarrow> string \<Rightarrow> u32 \<Rightarrow> string list \<Rightarrow> goerr option \<Rightarrow> world \<Rightarrow> goerr option \<times> world" where
  "put_tags E fid block [] err w = (err, w)"
| "put_tags E fid block (t # ts) err w =
     (case db_Put E (Cach_prefix_Tag @ fid @ ''.'' @ tag_fragment t) (show_nat (unat block)) w of
        (err', w1) \<Rightarrow> put_tags E fid block ts err' w1)"

fun report_read_loop ::
  "env \<Rightarrow> nat \<Rightarrow> string list \<Rightarrow> bytes \<times> digestInfo option list \<Rightarrow> world
     \<Rightarrow> (world, (bytes \<times> digestInfo option list) result) outcome" where
  "report_read_loop E n [] st w = Ret (Inr st) w"
| "report_read_loop E n (v # vs) (latestSig, digest) w =
     (case os_ReadFile (w_fs w) v of
        Inl e \<Rightarrow> Ret (Inl e) w
      | Inr buf \<Rightarrow>
          (case unmarshal_tag tagfile_zero buf of
             (tag, Some e) \<Rightarrow> Ret (Inl e) (snd (on_fs (\<lambda>fs. os_Remove fs v) w))
           | (tag, None) \<Rightarrow>
               (if tf_Index tag = 0 then Ret (Inl (mk_err ''invalid tag.Index'')) w
                else if unat (tf_Index tag) > n
                then Ret (Inl (mk_err ''invalid tag.Index maxIndex'')) (snd (on_fs (\<lambda>fs. os_Remove fs v) w))
                else
                  report_read_loop E n vs
                    (if unat (tf_Index tag) = n then tf_Signature tag else latestSig,
                     digest[unat (tf_Index tag) - 1 :=
                        Some \<lparr>di_FragmentName = tf_FragmentName tag, di_TeeAccountId = tf_TeeAccountId tag\<rparr>]) w)))"

text \<open>\<^verbatim>\<open>digest[j].FragmentName\<close> dereferences a nil entry when some index in 1..n is missing.\<close>

fun chain_digests :: "sdk \<Rightarrow> digestInfo option list \<Rightarrow> chainDigest list option" where
  "chain_digests K [] = Some []"
| "chain_digests K (None # ds) = None"
| "chain_digests K (Some d # ds) =
     map_option (\<lambda>r. \<lparr>cd_Fragment = fst (BytesToFileHash K (di_FragmentName d)),
                      cd_TeePubkey = fst (BytesToWorkPublickey K (di_TeeAccountId d))\<rparr> # r)
       (chain_digests K ds)"

fun find_reported :: "env \<Rightarrow> fragmentInfo list \<Rightarrow> u32 option" where
  "find_reported E [] = None"
| "find_reported E (f # fs) =
     (if CompareSlice (e_sdk E) (fi_Miner f) (e_acc E) \<and> HasValue (fi_Tag f) \<and> fst (Unwrap 0 (fi_Tag f))
      then Some (snd (Unwrap 0 (fi_Tag f))) else find_reported E fs)"

definition all_fragments :: "fileMetadata \<Rightarrow> fragmentInfo list" where
  "all_fragments m = concat (map si_FragmentList (fm_SegmentList m))"

definition remove_files :: "string list \<Rightarrow> world \<Rightarrow> world" where
  "remove_files vs w = w\<lparr>w_fs := remove_all_of vs (w_fs w)\<rparr>"

text \<open>The attempts to report; \<open>k\<close> attempts are left (the Go loop counts \<^verbatim>\<open>j\<close> from 0 to 2).\<close>

fun report_attempts :: "env \<Rightarrow> string \<Rightarrow> string list \<Rightarrow> bytes \<Rightarrow> tagSigInfo \<Rightarrow> nat \<Rightarrow> world \<Rightarrow> (string \<times> goerr option) \<times> world" where
  "report_attempts E fid tags latestSig info 0 w = (([], None), w)"
| "report_attempts E fid tags latestSig info (Suc k) w =
     (case CalculateReport E latestSig info w of
        ((txhash, err), w1) \<Rightarrow>
          (if err \<noteq> None \<or> txhash = [] then
             (case QueryFile E fid (-1) w1 of
                (Inr fmeta, w2) \<Rightarrow>
                  (case find_reported E (all_fragments fmeta) of
                     Some block \<Rightarrow>
                       (case put_tags E fid block tags None w2 of (err', w3) \<Rightarrow> ((txhash, err'), w3))
                   | None \<Rightarrow>
                       (if k = 0 then (([], Some (mk_err ''report file tag failed'')), remove_files tags w2)
                        else report_attempts E fid tags latestSig info k w2))
              | (Inl e, w2) \<Rightarrow>
                  (if k = 0 then (([], Some (mk_err ''report file tag failed'')), remove_files tags w2)
                   else report_attempts E fid tags latestSig info k w2))
           else
             (case QueryBlockNumber E txhash w1 of
                (Inl e, w2) \<Rightarrow> ((txhash, Some e), w2)
              | (Inr blocknumber, w2) \<Rightarrow>
                  (case put_tags E fid blocknumber tags None w2 of (err', w3) \<Rightarrow> ((txhash, err'), w3)))))"

definition reportFileTag :: "env \<Rightarrow> string \<Rightarrow> string list \<Rightarrow> world \<Rightarrow> (world, string \<times> goerr option) outcome" where
  "reportFileTag E fid tags w =
     (if length fid < FileHashLen (e_sdk E) then Panic w
      else
        andThen (report_read_loop E (length tags) tags ([], replicate (length tags) None) w) (\<lambda>r w1.
          case r of
            Inl e \<Rightarrow> Ret ([], Some e) w1
          | Inr (latestSig, digest) \<Rightarrow>
              (case chain_digests (e_sdk E) digest of
                 None \<Rightarrow> Panic w1
               | Some ds \<Rightarrow>
                   rets (report_attempts E fid tags latestSig
                     \<lparr>ts_Miner = e_acc E, ts_Filehash = take (FileHashLen (e_sdk E)) fid, ts_Digest = ds\<rparr> 3 w1))))"

subsection \<open>The worker\<close>

definition MinTagFileSize :: nat where "MinTagFileSize = 600000"

text \<open>One iteration of the loop over the fragments: \<open>None\<close> is the early \<^verbatim>\<open>return nil\<close>, \<open>Some b\<close> goes
  on with \<^verbatim>\<open>isReportTag = b\<close>.\<close>

definition calctag_fragment :: "env \<Rightarrow> string \<Rightarrow> string \<Rightarrow> string \<Rightarrow> bool \<Rightarrow> world \<Rightarrow> (world, bool option) outcome" where
  "calctag_fragment E fid file fragment isReportTag w =
     (case getFragmentTags (w_fs w) file of
        Inl e \<Rightarrow> Ret None w
      | Inr tags \<Rightarrow>
          andThen (calcRequestDigest E (Base fragment) tags w) (\<lambda>r w1.
            case r of
              Inl e \<Rightarrow> Ret None w1
            | Inr (maxIndex, latestSig, digest) \<Rightarrow>
                (case os_Stat (w_fs w1) fragment of
                   Inl e \<Rightarrow> Ret None w1
                 | Inr _ \<Rightarrow>
                     (let tagPath = fragment @ ''.tag'';
                          goOn = (\<lambda>w2. andThen (calcTheFragmentTag E fid fragment maxIndex latestSig digest w2)
                                   (\<lambda>(isreport, err) w3.
                                      case err of Some e \<Rightarrow> Ret None w3
                                      | None \<Rightarrow> Ret (Some (isreport \<or> isReportTag)) w3))
                      in case os_Stat (w_fs w1) tagPath of
                           Inr fstat \<Rightarrow>
                             (if fi_size fstat < MinTagFileSize
                              then goOn (snd (on_fs (\<lambda>fs. os_Remove fs tagPath) w1))
                              else Ret (Some isReportTag) w1)
                         | Inl e \<Rightarrow> goOn w1))))"

fun calctag_loop :: "env \<Rightarrow> string \<Rightarrow> string \<Rightarrow> string list \<Rightarrow> bool \<Rightarrow> world \<Rightarrow> (world, bool option) outcome" where
  "calctag_loop E fid file [] isReportTag w = Ret (Some isReportTag) w"
| "calctag_loop E fid file (f # fs) isReportTag w =
     andThen (calctag_fragment E fid file f isReportTag w) (\<lambda>r w1.
       case r of None \<Rightarrow> Ret None w1 | Some b \<Rightarrow> calctag_loop E fid file fs b w1)"

text \<open>Lines 146 to 166: a file whose first fragment of this miner already has a tag on chain is not
  reported again.\<close>

definition already_tagged :: "env \<Rightarrow> fileMetadata \<Rightarrow> bool" where
  "already_tagged E m =
     (case find (\<lambda>f. CompareSlice (e_sdk E) (fi_Miner f) (e_acc E)) (all_fragments m) of
        None \<Rightarrow> False | Some f \<Rightarrow> HasValue (fi_Tag f))"

definition calctag_report :: "env \<Rightarrow> string \<Rightarrow> string \<Rightarrow> string list \<Rightarrow> world \<Rightarrow> (world, goerr option) outcome" where
  "calctag_report E fid file fragments w =
     (if \<not> checkAllFragmentTag (w_fs w) fragments then Ret None w
      else
        (case getFragmentTags (w_fs w) file of
           Inl e \<Rightarrow> Ret None w
         | Inr tags \<Rightarrow>
             andThen (reportFileTag E fid tags w) (\<lambda>(txhash, err) w1.
               case err of
                 Some e \<Rightarrow> Ret None (remove_files tags w1)
               | None \<Rightarrow> Ret None w1)))"

definition calctag :: "env \<Rightarrow> string \<Rightarrow> world \<Rightarrow> (world, goerr option) outcome" where
  "calctag E file w =
     (let fid = Base file in
      case QueryFile E fid (-1) w of
        (Inl e, w1) \<Rightarrow> Ret (if is_empty_value e then None else Some e) w1
      | (Inr fmeta, w1) \<Rightarrow>
          (case getAllFragment (e_sdk E) (w_fs w1) file of
             Inl e \<Rightarrow> Ret None w1
           | Inr fragments \<Rightarrow>
               (if length fragments < length (fm_SegmentList fmeta) then Ret None w1
                else if checkFragmentsSize (e_sdk E) (w_fs w1) fragments \<noteq> None then Ret None w1
                else
                  andThen (calctag_loop E fid file fragments False w1) (\<lambda>r w2.
                    case r of
                      None \<Rightarrow> Ret None w2
                    | Some True \<Rightarrow> calctag_report E fid file fragments w2
                    | Some False \<Rightarrow>
                        (case QueryFile E fid (-1) w2 of
                           (Inl e, w3) \<Rightarrow> Ret None w3
                         | (Inr fmeta', w3) \<Rightarrow>
                             (if already_tagged E fmeta' then Ret None w3
                              else calctag_report E fid file fragments w3))))))"

fun calctag_all :: "env \<Rightarrow> string list \<Rightarrow> world \<Rightarrow> (world, unit) outcome" where
  "calctag_all E [] w = Ret () w"
| "calctag_all E (d # ds) w = andThen (calctag E d w) (\<lambda>_ w1. calctag_all E ds w1)"

definition getAllFileDirs :: "env \<Rightarrow> world \<Rightarrow> (world, unit) outcome" where
  "getAllFileDirs E w =
     (case Dirs (w_fs w) (GetFileDir (w_ws w)) of Inl e \<Rightarrow> Ret () w | Inr roothashs \<Rightarrow> calctag_all E roothashs w)"

text \<open>The deferred function puts the token back into the channel and recovers from a panic: the result
  is the state reached, with the token returned.\<close>

definition CalcTag :: "env \<Rightarrow> world \<Rightarrow> world" where
  "CalcTag E w =
     (if GetState (w_run w) \<noteq> MINER_STATE_POSITIVE (e_sdk E) then w else outcome_state (getAllFileDirs E w))"

subsection \<open>The numbering of tags\<close>

definition read_tag :: "env \<Rightarrow> world \<Rightarrow> string \<Rightarrow> tagfileType option" where
  "read_tag E w v =
     (case os_ReadFile (w_fs w) v of
        Inl _ \<Rightarrow> None
      | Inr buf \<Rightarrow> (case unmarshal_tag tagfile_zero buf of (t, None) \<Rightarrow> Some t | _ \<Rightarrow> None))"

definition tag_digest :: "tagfileType \<Rightarrow> digestInfo" where
  "tag_digest t = \<lparr>di_FragmentName = tf_FragmentName t, di_TeeAccountId = tf_TeeAccountId t\<rparr>"

definition digest_step ::
  "u16 \<times> bytes \<times> digestInfo option list \<Rightarrow> tagfileType \<Rightarrow> u16 \<times> bytes \<times> digestInfo option list" where
  "digest_step st t = (case st of (m, s, d) \<Rightarrow>
     (if tf_Index t > m then tf_Index t else m, if tf_Index t > m then tf_Signature t else s,
      d[unat (tf_Index t) - 1 := Some (tag_digest t)]))"

lemma digest_step_sel [simp]:
  "fst (digest_step st t) = max (fst st) (tf_Index t)"
  "fst (snd (digest_step st t)) = (if fst st < tf_Index t then tf_Signature t else fst (snd st))"
  "snd (snd (digest_step st t)) = (snd (snd st))[unat (tf_Index t) - 1 := Some (tag_digest t)]"
  by (auto simp: digest_step_def max_def split: prod.split)

lemma fold_max_less: "fold max ys (z :: u16) < b \<longleftrightarrow> z < b \<and> (\<forall>y \<in> set ys. y < b)"
  by (induction ys arbitrary: z) auto

lemma fold_max_le: "fold max ys (z :: u16) \<le> b \<longleftrightarrow> z \<le> b \<and> (\<forall>y \<in> set ys. y \<le> b)"
  by (induction ys arbitrary: z) auto

lemma fold_max_ge: "y \<in> set ys \<union> {z} \<Longrightarrow> y \<le> fold max ys (z :: u16)"
  using fold_max_less [of ys z y] by (metis UnE linorder_not_less order_less_irrefl singletonD)

lemma digest_loop_ok:
  assumes "map (read_tag E w) (filter (\<lambda>v. \<not> Contains v fragment) vs) = map Some ts"
    and "\<forall>t \<in> set ts. tf_Index t \<noteq> 0 \<and> unat (tf_Index t) \<le> length d"
  shows "digest_loop E fragment vs (m, s, d) w = Ret (Inr (foldl digest_step (m, s, d) ts)) w"
  using assms
proof (induction vs arbitrary: m s d ts)
  case Nil
  then show ?case by simp
next
  case (Cons v vs)
  show ?case
  proof (cases "Contains v fragment")
    case True
    with Cons show ?thesis by simp
  next
    case False
    with Cons.prems(1) obtain t ts' where ts: "ts = t # ts'" and t: "read_tag E w v = Some t"
      and rest: "map (read_tag E w) (filter (\<lambda>v. \<not> Contains v fragment) vs) = map Some ts'"
      by (cases ts) auto
    from t obtain buf where rd: "os_ReadFile (w_fs w) v = Inr buf"
      and un: "unmarshal_tag tagfile_zero buf = (t, None)"
      by (auto simp: read_tag_def split: sum.splits prod.splits option.splits)
    have ix: "tf_Index t \<noteq> 0" "unat (tf_Index t) \<le> length d"
      and rest_ix: "\<forall>t \<in> set ts'. tf_Index t \<noteq> 0 \<and> unat (tf_Index t) \<le> length d"
      using Cons.prems(2) by (auto simp: ts)
    have pos: "0 < unat (tf_Index t)" using ix(1) by (simp add: unat_gt_0)
    then have lt: "unat (tf_Index t) - 1 < length d" using ix(2) by simp
    obtain m' s' d' where st: "digest_step (m, s, d) t = (m', s', d')" by (metis prod_cases3)
    have len: "length d' = length d" using st by (auto simp: digest_step_def)
    have "digest_loop E fragment (v # vs) (m, s, d) w = digest_loop E fragment vs (m', s', d') w"
      using False rd un ix(1) lt st by (auto simp: Let_def digest_step_def tag_digest_def split: if_splits)
    also have "\<dots> = Ret (Inr (foldl digest_step (m', s', d') ts')) w"
      using Cons.IH [OF rest] rest_ix len by simp
    finally show ?thesis by (simp add: ts st)
  qed
qed

lemma digest_step_length: "length (snd (snd (foldl digest_step st ts))) = length (snd (snd st))"
  by (induction ts arbitrary: st) simp_all

lemma foldl_digest_max: "fst (foldl digest_step st ts) = fold max (map tf_Index ts) (fst st)"
  by (induction ts arbitrary: st) (simp_all add: max.commute)

lemma foldl_digest_sig:
  "distinct (map tf_Index ts) \<Longrightarrow> t \<in> set ts \<Longrightarrow> \<forall>t' \<in> set ts. tf_Index t' \<le> tf_Index t \<Longrightarrow> fst st < tf_Index t \<Longrightarrow>
     fst (snd (foldl digest_step st ts)) = tf_Signature t"
proof (induction ts rule: rev_induct)
  case Nil
  then show ?case by simp
next
  case (snoc x ts)
  let ?st = "foldl digest_step st ts"
  have m: "fst ?st = fold max (map tf_Index ts) (fst st)" by (rule foldl_digest_max)
  show ?case
  proof (cases "x = t")
    case True
    have "tf_Index t' < tf_Index t" if "t' \<in> set ts" for t'
    proof -
      have "tf_Index t' \<noteq> tf_Index t" using snoc.prems(1) True imageI [OF that, of tf_Index] by auto
      moreover have "tf_Index t' \<le> tf_Index t" using snoc.prems(3) that by simp
      ultimately show ?thesis by simp
    qed
    then have "fold max (map tf_Index ts) (fst st) < tf_Index t"
      using snoc.prems(4) by (auto simp: fold_max_less)
    with m True show ?thesis by simp
  next
    case False
    with snoc.prems have t: "t \<in> set ts" by simp
    have "\<not> fst ?st < tf_Index x"
    proof -
      have "tf_Index t \<le> fst ?st" unfolding m using t by (intro fold_max_ge) simp
      moreover have "tf_Index x \<le> tf_Index t" using snoc.prems(3) by simp
      ultimately show ?thesis by simp
    qed
    then have "fst (snd (digest_step ?st x)) = fst (snd ?st)" by simp
    moreover have "fst (snd ?st) = tf_Signature t" using snoc t by simp
    ultimately show ?thesis by simp
  qed
qed

lemma foldl_digest_entry:
  assumes "distinct (map tf_Index ts)" and "\<forall>t \<in> set ts. tf_Index t \<noteq> 0 \<and> unat (tf_Index t) \<le> length (snd (snd st))"
  shows "t \<in> set ts \<Longrightarrow> snd (snd (foldl digest_step st ts)) ! (unat (tf_Index t) - 1) = Some (tag_digest t)"
    and "\<forall>t \<in> set ts. unat (tf_Index t) \<noteq> Suc j \<Longrightarrow> snd (snd (foldl digest_step st ts)) ! j = snd (snd st) ! j"
  using assms
proof (induction ts rule: rev_induct)
  case Nil
  case 1
  then show ?case by simp
next
  case Nil
  case 2
  then show ?case by simp
next
  case (snoc x ts)
  let ?st = "foldl digest_step st ts"
  have len: "length (snd (snd ?st)) = length (snd (snd st))" by (rule digest_step_length)
  case 1
  have x: "0 < unat (tf_Index x)" "unat (tf_Index x) \<le> length (snd (snd st))"
    using 1(3) by (auto simp: unat_gt_0)
  show ?case
  proof (cases "x = t")
    case True
    then show ?thesis using x len by simp
  next
    case False
    then have "t \<in> set ts" using 1(1) by simp
    then have t: "t \<in> set ts" "tf_Index t \<noteq> tf_Index x" "tf_Index t \<noteq> 0"
      using 1(2,3) by (auto simp: image_iff)
    then have "unat (tf_Index x) - 1 \<noteq> unat (tf_Index t) - 1"
      using x(1) by (metis One_nat_def Suc_pred unat_gt_0 word_unat_eq_iff)
    then show ?thesis using snoc.IH(1) t 1 by simp
  qed
next
  case (snoc x ts)
  let ?st = "foldl digest_step st ts"
  case 2
  then have "0 < unat (tf_Index x)" "unat (tf_Index x) \<noteq> Suc j" by (auto simp: unat_gt_0)
  then have "unat (tf_Index x) - 1 \<noteq> j" by simp
  then show ?case using snoc.IH(2) 2 by simp
qed

text \<open>
  C24. Tags are numbered consecutively. When the tag files of the other fragments of a file decode and
  carry the numbers 1 to \<open>n\<close>, \<^verbatim>\<open>calcRequestDigest\<close> returns \<open>n\<close> as the largest index (so the next tag is
  written with \<open>n + 1\<close>), the signature of tag \<open>n\<close> as the latest signature, and a list in which entry
  \<open>i\<close> is the digest of tag \<open>i + 1\<close>; nothing changes.
\<close>

theorem calcRequestDigest_numbering:
  assumes rd: "map (read_tag E w) (filter (\<lambda>v. \<not> Contains v fragment) tags) = map Some ts"
    and dist: "distinct (map tf_Index ts)" and idx: "(unat \<circ> tf_Index) ` set ts = {1..length ts}"
    and ne: "tags \<noteq> []"
  shows "\<exists>sig dig. calcRequestDigest E fragment tags w = Ret (Inr (of_nat (length ts), sig, dig)) w
    \<and> length dig = length tags
    \<and> (\<forall>t \<in> set ts. dig ! (unat (tf_Index t) - 1) = Some (tag_digest t))
    \<and> (\<forall>j. length ts \<le> j \<and> j < length tags \<longrightarrow> dig ! j = None)
    \<and> (\<forall>t \<in> set ts. unat (tf_Index t) = length ts \<longrightarrow> sig = tf_Signature t)"
proof -
  let ?d = "replicate (length tags) None :: digestInfo option list"
  let ?r = "foldl digest_step (0, [], ?d) ts"
  have len: "length ts \<le> length tags"
    using arg_cong [OF rd, of length] by (simp, metis length_filter_le)
  have in_range: "1 \<le> unat (tf_Index t) \<and> unat (tf_Index t) \<le> length ts" if "t \<in> set ts" for t
  proof -
    have "(unat \<circ> tf_Index) t \<in> {1..length ts}" using that idx by blast
    then show ?thesis by simp
  qed
  have bnd: "\<forall>t \<in> set ts. tf_Index t \<noteq> 0 \<and> unat (tf_Index t) \<le> length (snd (snd (0, [], ?d)))"
    using in_range len by fastforce
  have run: "calcRequestDigest E fragment tags w = Ret (Inr ?r) w"
    using digest_loop_ok [OF rd, of ?d 0 "[]"] bnd ne by (simp add: calcRequestDigest_def)
  have top: "\<exists>t \<in> set ts. unat (tf_Index t) = length ts" if "ts \<noteq> []"
  proof -
    have "length ts \<in> {1..length ts}" using that by (cases ts) auto
    then have "length ts \<in> (unat \<circ> tf_Index) ` set ts" using idx by simp
    then show ?thesis by auto
  qed
  have small: "length ts < 2 ^ LENGTH(16)"
  proof (cases "ts = []")
    case False
    from top [OF False] obtain t where "t \<in> set ts" "unat (tf_Index t) = length ts" by blast
    then show ?thesis using unsigned_less [where ?'b = 16 and w = "tf_Index t" and ?'a = nat] by simp
  qed simp
  have le: "tf_Index t \<le> of_nat (length ts)" if "t \<in> set ts" for t
    using in_range [OF that] small by (simp add: word_le_nat_alt unat_of_nat_small)
  have max: "fst ?r = of_nat (length ts)"
  proof (cases "ts = []")
    case False
    from top [OF False] obtain t where t: "t \<in> set ts" "unat (tf_Index t) = length ts" by blast
    then have "tf_Index t = of_nat (length ts)" using small by (simp add: word_unat_eq_iff unat_of_nat_small)
    moreover have "tf_Index t \<le> fst ?r" unfolding foldl_digest_max using t(1) by (intro fold_max_ge) simp
    moreover have "fst ?r \<le> of_nat (length ts)" unfolding foldl_digest_max using le by (simp add: fold_max_le)
    ultimately show ?thesis by simp
  qed simp
  have "fst (snd ?r) = tf_Signature t" if t: "t \<in> set ts" "unat (tf_Index t) = length ts" for t
  proof (rule foldl_digest_sig [OF dist t(1)])
    have "tf_Index t = of_nat (length ts)" using t(2) small by (simp add: word_unat_eq_iff unat_of_nat_small)
    then show "\<forall>t' \<in> set ts. tf_Index t' \<le> tf_Index t" using le by simp
    show "fst (0, [], ?d) < tf_Index t" using bnd t(1) by (simp add: word_gt_0)
  qed
  moreover have "snd (snd ?r) ! (unat (tf_Index t) - 1) = Some (tag_digest t)" if "t \<in> set ts" for t
    using foldl_digest_entry(1) [OF dist bnd that] .
  moreover have "snd (snd ?r) ! j = None" if "length ts \<le> j" "j < length tags" for j
    using foldl_digest_entry(2) [OF dist bnd, of j] in_range that by fastforce
  moreover have "length (snd (snd ?r)) = length tags" by (simp add: digest_step_length)
  ultimately show ?thesis using run max
    by (intro exI [of _ "fst (snd ?r)"] exI [of _ "snd (snd ?r)"]) (metis prod.collapse)
qed

definition demo_tag :: "u16 \<Rightarrow> tagfileType" where
  "demo_tag i = tagfile_zero\<lparr>tf_Index := i, tf_Signature := ''sg'', tf_FragmentName := ''ab''\<rparr>"

text \<open>A world with one tag file, which holds tag number \<open>i\<close>.\<close>

definition tag_world :: "u16 \<Rightarrow> world" where
  "tag_world i = demo_world\<lparr>w_fs := \<lparr>fnodes = [([], DirNode), ([''ab.tag''], FileNode (print (enc_tagfile (demo_tag i))))],
     ffault = \<lambda>_ _. False\<rparr>\<rparr>"

lemma tag_world_read: "read_tag demo_env (tag_world i) ''/ab.tag'' = Some (demo_tag i)"
proof -
  have p: "resolve ''/ab.tag'' = [''ab.tag'']" by code_simp
  have "os_ReadFile (w_fs (tag_world i)) ''/ab.tag'' = Inr (print (enc_tagfile (demo_tag i)))"
    unfolding os_ReadFile_def p by (simp add: tag_world_def node_at_def)
  moreover have "unmarshal_tag tagfile_zero (print (enc_tagfile (demo_tag i))) = (demo_tag i, None)"
    using tag_stored [of "demo_tag i"] by (simp add: demo_tag_def tagfile_zero_def tagfile_valid_def marshal_tag_def Marshal_def)
  ultimately show ?thesis by (simp add: read_tag_def)
qed

theorem calcRequestDigest_numbering_witness:
  "\<exists>sig dig. calcRequestDigest demo_env ''cd'' [''/ab.tag''] (tag_world 1) = Ret (Inr (1, sig, dig)) (tag_world 1)
     \<and> dig ! 0 = Some (tag_digest (demo_tag 1)) \<and> sig = ''sg''"
proof -
  have "filter (\<lambda>v. \<not> Contains v ''cd'') [''/ab.tag''] = [''/ab.tag'']" by code_simp
  then have "map (read_tag demo_env (tag_world 1)) (filter (\<lambda>v. \<not> Contains v ''cd'') [''/ab.tag'']) = map Some [demo_tag 1]"
    by (simp add: tag_world_read)
  from calcRequestDigest_numbering [OF this] show ?thesis by (auto simp: demo_tag_def)
qed

text \<open>
  A stale tag stops the worker: when a tag file of another fragment carries a number larger than
  the number of tag files present, \<^verbatim>\<open>calcRequestDigest\<close> writes out of the range of its list and panics.
  (\<^verbatim>\<open>reportFileTag\<close> checks the number first, this function does not.)
\<close>

theorem calcRequestDigest_panics:
  assumes "read_tag E w v = Some t" and "unat (tf_Index t) > Suc (length tags)"
    and "\<not> Contains v fragment"
  shows "calcRequestDigest E fragment (v # tags) w = Panic w"
proof -
  from assms(1) obtain buf where "os_ReadFile (w_fs w) v = Inr buf"
    and "unmarshal_tag tagfile_zero buf = (t, None)"
    by (auto simp: read_tag_def split: sum.splits prod.splits option.splits)
  moreover have "tf_Index t \<noteq> 0" using assms(2) by auto
  moreover have "\<not> unat (tf_Index t) - Suc 0 < Suc (length tags)" using assms(2) by simp
  ultimately show ?thesis using assms(3) by (simp add: calcRequestDigest_def Let_def)
qed

theorem calcRequestDigest_panics_witness:
  "calcRequestDigest demo_env ''cd'' [''/ab.tag''] (tag_world 5) = Panic (tag_world 5)"
  by (rule calcRequestDigest_panics [OF tag_world_read]) (simp add: demo_tag_def, code_simp)

subsection \<open>A tag that is stored can be read\<close>

text \<open>What gRPC guarantees of an answer: the texts of a tag are UTF-8.\<close>

definition answer_utf8 :: "genTagMsg \<Rightarrow> bool" where
  "answer_utf8 m \<longleftrightarrow> (case gt_Tag m of None \<Rightarrow> True | Some t \<Rightarrow> Tag_valid t)"

definition answers_utf8 :: "env \<Rightarrow> bool" where
  "answers_utf8 E \<longleftrightarrow> (\<forall>h r m. x_rpc_GenTagRecv E h = Inr r \<longrightarrow> rr_Msg r = Some m \<longrightarrow> answer_utf8 m)"

lemma reciv_tag_utf8:
  assumes "answers_utf8 E" and "reciv_tag E w = Ret (Inr m) w'"
  shows "answer_utf8 m"
  using assms by (auto simp: answers_utf8_def reciv_tag_def rpc_GenTagRecv_def Let_def split: sum.splits option.splits)

lemma callTeeTag_utf8: "answers_utf8 E \<Longrightarrow> callTeeTag E ep fid fr sig dg w = Ret (Inr m) w' \<Longrightarrow> answer_utf8 m"
  by (auto simp: callTeeTag_def callTeeTag_stream_def Let_def andThen_eq_Ret 
      split: option.splits prod.splits sum.splits bool.splits) (metis obj_sumE reciv_tag_utf8)

lemma callTeeTag_fs: "w_fs (outcome_state (callTeeTag E ep fid fr sig dg w)) = w_fs w"
proof -
  have log: "w_fs (snd (rpc_GenTagSend E q u)) = w_fs u" "w_fs (snd (reciv_signal E u)) = w_fs u"
    "w_fs (snd (rpc_GenTagClose E u)) = w_fs u" "w_fs (snd (rpc_GenTagOpen E ep tls u)) = w_fs u"
    "w_fs (outcome_state (reciv_tag E u)) = w_fs u" for q u tls
    by (simp_all add: rpc_GenTagSend_def reciv_signal_def rpc_GenTagClose_def rpc_GenTagOpen_def reciv_tag_def
        rpc_GenTagRecv_def Let_def frame_simps split: sum.split option.split)
  have recv: "w_fs (outcome_state (andThen (reciv_tag E u) (\<lambda>r w4. case r of
      Inl e \<Rightarrow> Ret (Inl e) w4 | Inr tag \<Rightarrow> Ret (Inr tag) (snd (rpc_GenTagClose E w4))))) = w_fs u" for u
    using log(5) [of u] by (cases "reciv_tag E u") (auto simp: log(3) split: sum.split)
  have "w_fs (outcome_state (callTeeTag_stream E fid fh sig dg buf u)) = w_fs u" for fh buf u
    using log(1,2) recv by (auto simp: callTeeTag_stream_def Let_def split: option.splits prod.splits sum.splits bool.splits) (metis snd_conv)+
  then show ?thesis using log(4) [of "use_tls ep" w]
    by (auto simp: callTeeTag_def split: option.splits prod.splits sum.splits)
qed

lemma request_tee_loop_utf8:
  assumes "answers_utf8 E" and "answer_utf8 (fst acc)"
    and "request_tee_loop E fid fr sig dg eps acc w = Ret (m, pk, err) w'"
  shows "answer_utf8 m \<and> w_fs w' = w_fs w"
  using assms(2,3)
proof (induction eps arbitrary: acc w)
  case (Cons ep eps)
  show ?case
  proof (cases "GetTeePubkeyByEndpoint (e_ord E) (w_tee w) ep")
    case (Inl e)
    then show ?thesis using Cons.IH [of "(fst acc, [], Some e)" w] Cons.prems by simp
  next
    case (Inr pub)
    with Cons.prems(2) obtain r w1 where c: "callTeeTag E ep fid fr sig dg w = Ret r w1"
      and rest: "(case r of Inl e \<Rightarrow> request_tee_loop E fid fr sig dg eps (zero_genTag, pub, Some e) w1
          | Inr tagInfo \<Rightarrow> Ret (tagInfo, pub, None) w1) = Ret (m, pk, err) w'"
      by (auto simp: andThen_eq_Ret)
    have w1: "w_fs w1 = w_fs w" using callTeeTag_fs [of E ep fid fr sig dg w] c by simp
    show ?thesis
    proof (cases r)
      case (Inl e)
      have "answer_utf8 (fst (zero_genTag, pub, Some e))" by (simp add: answer_utf8_def zero_genTag_def)
      from Cons.IH [OF this] rest Inl w1 show ?thesis by simp
    next
      case (Inr m')
      then show ?thesis using rest w1 callTeeTag_utf8 [OF assms(1)] c by auto
    qed
  qed
qed auto

lemma requestTeeTag_utf8:
  "answers_utf8 E \<Longrightarrow> requestTeeTag E fid fr sig dg w = Ret (m, pk, err) w' \<Longrightarrow> answer_utf8 m \<and> w_fs w' = w_fs w"
  unfolding requestTeeTag_def by (rule request_tee_loop_utf8) (simp_all add: answer_utf8_def zero_genTag_def)

text \<open>A file that \<^verbatim>\<open>WriteBufToFile\<close> wrote is read as the tag that was encoded.\<close>

lemma written_tag_read:
  assumes "write_buf (WriteBufToFile (e_sdk E))" and "\<And>op p. \<not> ffault (w_fs w) op p" and "tagfile_valid t"
    and "marshal_tag t = Inr buf" and "on_fs (\<lambda>fs. WriteBufToFile (e_sdk E) fs buf (f @ ''.tag'')) w = (None, w')"
  shows "read_tag E w' (f @ ''.tag'') = Some t"
proof -
  have wr: "WriteBufToFile (e_sdk E) (w_fs w) buf (f @ ''.tag'') = (w_fs w', None)"
    using assms(5) by (auto simp: on_fs_def split: prod.splits)
  have "os_ReadFile (w_fs w') (f @ ''.tag'') = Inr buf"
    by (rule write_buf.save_load [OF assms(1) wr]) (simp_all add: assms(2))
  moreover have "unmarshal_tag tagfile_zero buf = (t, None)" using tag_stored [OF assms(3)] assms(4) by auto
  ultimately show ?thesis by (simp add: read_tag_def)
qed

text \<open>
  C37. A tag that the miner computed can be read back from its file: when \<^verbatim>\<open>calcTheFragmentTag\<close> succeeds, the file beside the
  fragment decodes, through the JSON of the standard library, to a tag with the next number, the name of the fragment and
  signatures of the right lengths, which is what the requests for the following tags are built from. The worker's answer may be
  anything that gRPC delivers.
\<close>
theorem stored_tag_is_read:
  assumes "write_buf (WriteBufToFile (e_sdk E))" and "\<And>op p. \<not> ffault (w_fs w) op p" and "answers_utf8 E"
    and "calcTheFragmentTag E fid fragment n sig dg w = Ret (True, None) w'"
  shows "\<exists>t. read_tag E w' (fragment @ ''.tag'') = Some t \<and> tf_Index t = n + 1 \<and> tf_FragmentName t = Base fragment
    \<and> length (tf_USig t) = TeeSignatureLen (e_sdk E) \<and> length (tf_Signature t) = TeeSigLen (e_sdk E)"
proof -
  from assms(4) obtain m pk w1 where r: "requestTeeTag E fid fragment sig dg w = Ret (m, pk, None) w1"
    by (auto simp: calcTheFragmentTag_def andThen_eq_Ret split: option.splits)
  let ?t = "\<lparr>tf_Tag = gt_Tag m, tf_USig = gt_USig m, tf_Signature = gt_Signature m, tf_FragmentName = Base fragment,
    tf_TeeAccountId = pk, tf_Index = n + 1\<rparr>"
  from assms(4) r obtain buf where len: "length (gt_USig m) = TeeSignatureLen (e_sdk E)" "length (gt_Signature m) = TeeSigLen (e_sdk E)"
    and buf: "marshal_tag ?t = Inr buf" and wr: "on_fs (\<lambda>fs. WriteBufToFile (e_sdk E) fs buf (fragment @ ''.tag'')) w1 = (None, w')"
    by (auto simp: calcTheFragmentTag_def split: if_splits sum.splits prod.splits option.splits)
  have u: "answer_utf8 m" "w_fs w1 = w_fs w" using requestTeeTag_utf8 [OF assms(3) r] by auto
  have valid: "tagfile_valid ?t" using u(1) by (simp add: tagfile_valid_def answer_utf8_def)
  have "read_tag E w' (fragment @ ''.tag'') = Some ?t"
    by (rule written_tag_read [OF assms(1) _ valid buf wr]) (simp add: u(2) assms(2))
  then show ?thesis using len by simp
qed

definition answer_env :: env where
  "answer_env = demo_env\<lparr>x_rpc_GenTagRecv := \<lambda>_. Inr \<lparr>rr_Processing = True,
     rr_Msg = Some \<lparr>gt_Tag = Some \<lparr>pt_T = Some \<lparr>T_Name = ''n'', T_U = ''u'', T_Phi = [''5'']\<rparr>, pt_PhiHash = [], pt_Attest = ''<''\<rparr>,
       gt_USig = [CHR 0xFF, CHR 0x00], gt_Signature = ''sg''\<rparr>\<rparr>\<rparr>"

definition answer_run :: "(world, bool \<times> goerr option) outcome" where
  "answer_run = calcTheFragmentTag answer_env ''fi'' ''/ab'' 3 [] []
     (demo_world\<lparr>w_fs := \<lparr>fnodes = [([], DirNode), ([''ab''], FileNode ''data'')], ffault = \<lambda>_ _. False\<rparr>\<rparr>)"

text \<open>The worker's answer has bytes that are no text and a character that is escaped.\<close>

theorem stored_tag_is_read_witness:
  "\<exists>t. read_tag answer_env (outcome_state answer_run) ''/ab.tag'' = Some t \<and> tf_Index t = 4 \<and> tf_FragmentName t = ''ab''"
proof -
  have run: "returned answer_run = Some (True, None)" by code_simp
  have wb: "write_buf (WriteBufToFile (e_sdk answer_env))"
    using os_write.write_buf_axioms by (simp add: answer_env_def demo_env_def demo_sdk_def)
  have utf: "answers_utf8 answer_env"
    by (simp add: answers_utf8_def answer_env_def answer_utf8_def Tag_valid_def T_valid_def) (simp add: utf8_Valid_ascii)
  have b: "Base ''/ab'' = ''ab''" by code_simp
  from stored_tag_is_read [OF wb _ utf returned_Some [OF run, unfolded answer_run_def]]
  show ?thesis unfolding answer_run_def b by auto
qed

subsection \<open>Reports are confirmed by the chain\<close>

fun is_report :: "event \<Rightarrow> bool" where
  "is_report (EvCalculateReport s i r) = True"
| "is_report _ = False"

definition report_confirmed :: "env \<Rightarrow> string \<Rightarrow> string \<Rightarrow> event list \<Rightarrow> bool" where
  "report_confirmed E fid tx h \<longleftrightarrow>
     (tx \<noteq> [] \<and> list_ex (\<lambda>e. case e of EvCalculateReport s i r \<Rightarrow> r = (tx, None) | _ \<Rightarrow> False) h)
     \<or> list_ex (\<lambda>e. case e of EvQueryFile f b (Inr m) \<Rightarrow> f = fid \<and> find_reported E (all_fragments m) \<noteq> None | _ \<Rightarrow> False) h"

lemma put_tags_hist: "w_hist (snd (put_tags E fid b ts err w)) = w_hist w"
proof (induction ts arbitrary: err w)
  case Nil
  then show ?case by simp
next
  case (Cons t ts)
  have "w_hist (snd (db_Put E k v w)) = w_hist w" for k v by (simp add: db_Put_state)
  with Cons show ?case by (simp add: split_def)
qed

lemma remove_files_hist [simp]: "w_hist (remove_files vs w) = w_hist w"
  by (simp add: remove_files_def)

lemma report_read_loop_hist:
  "report_read_loop E n vs st w = Ret r w' \<Longrightarrow> w_hist w' = w_hist w"
  by (induction E n vs st w rule: report_read_loop.induct)
    (auto simp: frame_simps split: sum.splits prod.splits option.splits if_splits)

lemma report_confirmed_later: "report_confirmed E fid tx h \<Longrightarrow> report_confirmed E fid tx (g @ h)"
  by (auto simp: report_confirmed_def)

lemma report_attempts_hist:
  assumes "0 < k"
  shows "\<exists>h. w_hist (snd (report_attempts E fid tags sig info k w)) = w_hist w @ h
     \<and> length (filter is_report h) \<le> k
     \<and> (snd (fst (report_attempts E fid tags sig info k w)) = None \<longrightarrow>
          report_confirmed E fid (fst (fst (report_attempts E fid tags sig info k w))) h)"
  using assms
proof (induction k arbitrary: w)
  case 0
  then show ?case by simp
next
  case (Suc k)
  obtain tx err w1 where c: "CalculateReport E sig info w = ((tx, err), w1)" by (metis prod.exhaust)
  then have w1: "w_hist w1 = w_hist w @ [EvCalculateReport sig info (tx, err)]"
    by (auto simp: CalculateReport_def Let_def frame_simps)
  show ?case
  proof (cases "err \<noteq> None \<or> tx = []")
    case True
    obtain q w2 where qf: "QueryFile E fid (-1) w1 = (q, w2)" by (metis prod.exhaust)
    then have w2: "w_hist w2 = w_hist w @ [EvCalculateReport sig info (tx, err), EvQueryFile fid (-1) q]"
      by (auto simp: QueryFile_def Let_def frame_simps w1)
    show ?thesis
    proof (cases "\<exists>m b. q = Inr m \<and> find_reported E (all_fragments m) = Some b")
      case found: True
      then obtain m b where m: "q = Inr m" "find_reported E (all_fragments m) = Some b" by blast
      have "report_attempts E fid tags sig info (Suc k) w
          = ((tx, fst (put_tags E fid b tags None w2)), snd (put_tags E fid b tags None w2))"
        using c True qf m by (simp add: split_def)
      then show ?thesis
        using w2 m by (auto simp: put_tags_hist report_confirmed_def)
    next
      case False
      then have step: "report_attempts E fid tags sig info (Suc k) w =
          (if k = 0 then (([], Some (mk_err ''report file tag failed'')), remove_files tags w2)
           else report_attempts E fid tags sig info k w2)"
        using c True qf by (auto split: sum.splits option.splits)
      show ?thesis
      proof (cases "k = 0")
        case True
        then show ?thesis using step w2 by auto
      next
        case k: False
        with Suc.IH [of w2] obtain h where h: "w_hist (snd (report_attempts E fid tags sig info k w2)) = w_hist w2 @ h"
          "length (filter is_report h) \<le> k"
          "snd (fst (report_attempts E fid tags sig info k w2)) = None \<longrightarrow>
             report_confirmed E fid (fst (fst (report_attempts E fid tags sig info k w2))) h" by auto
        let ?h = "[EvCalculateReport sig info (tx, err), EvQueryFile fid (-1) q]"
        show ?thesis
          using step k h w2 report_confirmed_later [of E fid _ h ?h]
          by (intro exI [of _ "?h @ h"]) auto
      qed
    qed
  next
    case False
    obtain q w2 where qb: "QueryBlockNumber E tx w1 = (q, w2)" by (metis prod.exhaust)
    then have w2: "w_hist w2 = w_hist w @ [EvCalculateReport sig info (tx, err), EvQueryBlockNumber tx q]"
      by (auto simp: QueryBlockNumber_def Let_def frame_simps w1)
    have "w_hist (snd (report_attempts E fid tags sig info (Suc k) w)) = w_hist w2
        \<and> fst (fst (report_attempts E fid tags sig info (Suc k) w)) = tx"
      using c False qb by (auto simp: put_tags_hist split_def split: sum.splits)
    then show ?thesis using w2 False by (auto simp: report_confirmed_def)
  qed
qed

text \<open>
  C25. Reporting the tags of a file makes at most three transactions, and answers without an error
  only if the chain confirmed: either one of these transactions returned a block hash without
  an error, or the file's metadata read afterwards shows this miner's tag.
\<close>

theorem reportFileTag_confirmed:
  assumes "reportFileTag E fid tags w = Ret (tx, err) w'"
  shows "\<exists>h. w_hist w' = w_hist w @ h \<and> length (filter is_report h) \<le> 3
    \<and> (err = None \<longrightarrow> report_confirmed E fid tx h)"
proof -
  from assms obtain r w1 where rd: "report_read_loop E (length tags) tags ([], replicate (length tags) None) w = Ret r w1"
    by (auto simp: reportFileTag_def andThen_eq_Ret split: if_splits)
  have hist1: "w_hist w1 = w_hist w" by (rule report_read_loop_hist [OF rd])
  show ?thesis
  proof (cases r)
    case (Inl e)
    then have "w' = w1" "err = Some e" using assms rd by (auto simp: reportFileTag_def split: if_splits)
    then show ?thesis using hist1 by auto
  next
    case (Inr p)
    obtain sig digest where p: "p = (sig, digest)" by (cases p)
    from assms rd Inr p obtain info where
      "rets (report_attempts E fid tags sig info 3 w1) = Ret (tx, err) w'"
      by (auto simp: reportFileTag_def split: if_splits option.splits)
    then have "fst (report_attempts E fid tags sig info 3 w1) = (tx, err)"
      "snd (report_attempts E fid tags sig info 3 w1) = w'" by (auto simp: rets_def)
    then show ?thesis using report_attempts_hist [of 3 E fid tags sig info w1] hist1 by auto
  qed
qed

definition report_run :: "(world, string \<times> goerr option) outcome" where
  "report_run = reportFileTag (demo_env\<lparr>x_CalculateReport := \<lambda>_ _ _. (''0xblock'', None), x_QueryBlockNumber := \<lambda>_ _. Inr 9\<rparr>)
     ''fi'' [''/ab.tag''] (tag_world 1)"

theorem reportFileTag_confirmed_witness:
  "\<exists>h. w_hist (outcome_state report_run) = w_hist (tag_world 1) @ h \<and> length (filter is_report h) \<le> 3
     \<and> report_confirmed (demo_env\<lparr>x_CalculateReport := \<lambda>_ _ _. (''0xblock'', None), x_QueryBlockNumber := \<lambda>_ _. Inr 9\<rparr>)
         ''fi'' ''0xblock'' h"
proof -
  have "returned report_run = Some (''0xblock'', None)" by code_simp
  from returned_Some [OF this] show ?thesis
    unfolding report_run_def using reportFileTag_confirmed by blast
qed

end
