(* ===== verification/Runs.thy ===== *)
theory Runs
  imports NodeWorld
begin

text \<open>
  Reasoning about runs of the node's workers: relations between the states before and after that every
  step keeps, the end of waiting loops, and submissions that happen at most once.
\<close>

subsection \<open>Relations kept by every step\<close>

text \<open>A preorder on states that writing files, changing the status and the calls of a given kind keep.\<close>

locale run_rel =
  fixes R :: "world \<Rightarrow> world \<Rightarrow> bool" and quiet :: "event \<Rightarrow> bool"
  assumes R_refl: "R w w" and R_trans: "R w1 w2 \<Longrightarrow> R w2 w3 \<Longrightarrow> R w1 w3"
    and R_event: "quiet e \<Longrightarrow> R w (log_event e w)"
    and R_fs: "R w (w\<lparr>w_fs := x\<rparr>)" and R_run: "R w (w\<lparr>w_run := y\<rparr>)"
begin

lemma keeps_event: "R w0 w \<Longrightarrow> quiet e \<Longrightarrow> R w0 (log_event e w)"
  using R_event R_trans by blast

lemma keeps_fs_upd: "R w0 w \<Longrightarrow> R w0 (w\<lparr>w_fs := x\<rparr>)"
  using R_fs R_trans by blast

lemma keeps_fs: "R w0 w \<Longrightarrow> R w0 (snd (on_fs f w))"
  by (simp add: on_fs_def keeps_fs_upd split: prod.split)

lemma keeps_run: "R w0 w \<Longrightarrow> R w0 (on_run f w)"
  unfolding on_run_def using R_run R_trans by blast

lemma keeps_bind:
  assumes "R w0 (outcome_state m)" and "\<And>a w'. m = Ret a w' \<Longrightarrow> R w0 w' \<Longrightarrow> R w0 (outcome_state (f a w'))"
  shows "R w0 (outcome_state (andThen m f))"
  using assms by (cases m) auto

end

text \<open>A composable property of the added events and cache operations gives such a relation.\<close>

locale quiet_trace = trace_property P for P :: "event list \<Rightarrow> dbop list \<Rightarrow> bool" +
  fixes quiet :: "event \<Rightarrow> bool"
  assumes quiet_ok: "quiet e \<Longrightarrow> P [e] []"
begin

lemma adds_log_put:
  "adds P w0 w \<Longrightarrow> P [e] [DbPut k v (fst (db_Put E k v (log_event e w)))] \<Longrightarrow> adds P w0 (snd (db_Put E k v (log_event e w)))"
  unfolding db_Put_state by (rule adds_trans) (auto simp: adds_def log_event_def)

end

sublocale quiet_trace \<subseteq> run_rel "adds P" quiet
  by unfold_locales (auto intro: adds_refl adds_trans adds_event quiet_ok adds_same)

subsection \<open>Waiting loops end\<close>

definition ends :: "('w, 'a) outcome \<Rightarrow> bool" where
  "ends m \<longleftrightarrow> (case m of Spin w \<Rightarrow> False | _ \<Rightarrow> True)"

lemma ends_simps [simp]: "ends (Ret a w)" "ends (Panic w)" "\<not> ends (Spin w)" "ends (rets p)"
  by (simp_all add: ends_def rets_def)

lemma ends_bind:
  "ends m \<Longrightarrow> (\<And>a w. m = Ret a w \<Longrightarrow> ends (f a w)) \<Longrightarrow> ends (andThen m f)"
  by (cases m) auto

text \<open>The chain makes progress: after \<open>n\<close> answered questions for the height, every further answer is
  a height beyond the deadline.\<close>

fun is_height_event :: "event \<Rightarrow> bool" where
  "is_height_event (EvGetBlockLatest r) = True"
| "is_height_event e = False"

definition asked :: "world \<Rightarrow> nat" where
  "asked w = length (filter is_height_event (w_hist w))"

definition chain_passes :: "env \<Rightarrow> nat \<Rightarrow> (u32 \<Rightarrow> bool) \<Rightarrow> bool" where
  "chain_passes E n late \<longleftrightarrow>
     (\<forall>w. n \<le> asked w \<longrightarrow> (\<exists>b. x_GetBlockLatest E (w_hist w) = Inr b \<and> late b))"

lemma asked_GetBlockLatest [simp]: "asked (snd (GetBlockLatest E w)) = Suc (asked w)"
  by (simp add: asked_def GetBlockLatest_def Let_def frame_simps)

lemma asked_mono: "adds P w w' \<Longrightarrow> asked w \<le> asked w'"
  by (auto simp: adds_def asked_def)

text \<open>One round of a waiting loop: either the height is known and late, or one more question was asked
  and there is one round less to go.\<close>

lemma height_round:
  assumes "chain_passes E n late" and "n - asked w < Suc fuel" and "asked (snd (GetBlockLatest E w)) \<le> asked w'"
    and "\<And>b. fst (GetBlockLatest E w) = Inr b \<Longrightarrow> \<not> late b"
  shows "n - asked w' < fuel"
proof -
  have "\<not> n \<le> asked w"
    using assms(1,4) by (auto simp: chain_passes_def GetBlockLatest_def Let_def)
  then show ?thesis using assms(2,3) by simp
qed

subsection \<open>Submitting at most once\<close>

text \<open>
  The node notes an accepted submission in its cache under a key of the
  challenge and looks there before it submits. \<open>budget\<close> counts the accepted submissions so far and
  adds one as long as the note is missing; a step that does not raise the budget can therefore
  neither submit twice nor submit after the note was made.
\<close>

text \<open>A database without input/output errors: it returns what is stored and accepts what is put.\<close>

definition reliable :: "leveldb \<Rightarrow> bool" where
  "reliable L \<longleftrightarrow> (\<forall>db k v. stored db k = Some v \<longrightarrow> ldb_Get L db k = Inr v) \<and> (\<forall>db k v. ldb_Put L db k v = None)"

definition noted :: "bytes \<Rightarrow> world \<Rightarrow> bool" where
  "noted k w \<longleftrightarrow> stored (w_db w) k \<noteq> None"

definition accepted :: "(event \<Rightarrow> bool) \<Rightarrow> world \<Rightarrow> nat" where
  "accepted A w = length (filter A (w_hist w))"

definition budget :: "(event \<Rightarrow> bool) \<Rightarrow> bytes \<Rightarrow> world \<Rightarrow> nat" where
  "budget A k w = accepted A w + (if noted k w then 0 else 1)"

definition within :: "(event \<Rightarrow> bool) \<Rightarrow> bytes \<Rightarrow> world \<Rightarrow> world \<Rightarrow> bool" where
  "within A k w w' \<longleftrightarrow> budget A k w' \<le> budget A k w"

lemma within_refl: "within A k w w"
  by (simp add: within_def)

lemma within_trans: "within A k w1 w2 \<Longrightarrow> within A k w2 w3 \<Longrightarrow> within A k w1 w3"
  by (simp add: within_def)

lemma within_same: "w_hist w' = w_hist w \<Longrightarrow> w_db w' = w_db w \<Longrightarrow> within A k w w'"
  by (simp add: within_def budget_def accepted_def noted_def)

lemma budget_event: "\<not> A e \<Longrightarrow> budget A k (log_event e w) = budget A k w"
  by (simp add: budget_def accepted_def noted_def frame_simps)

lemma budget_fs [simp]: "budget A k (snd (on_fs f w)) = budget A k w"
  by (simp add: budget_def accepted_def noted_def frame_simps)

lemma budget_Get [simp]: "budget A k (snd (db_Get E j w)) = budget A k w"
  by (simp add: budget_def accepted_def noted_def db_Get_state)

lemma within_event: "\<not> A e \<Longrightarrow> within A k w (log_event e w)" and within_Get: "within A k w (snd (db_Get E j w))"
  by (simp_all add: within_def budget_event)

lemma budget_Put_other: "j \<noteq> k \<Longrightarrow> budget A k (snd (db_Put E j v w)) = budget A k w"
  by (cases "fst (db_Put E j v w)") (simp_all add: budget_def accepted_def noted_def db_Put_state)

lemma budget_Delete_other: "j \<noteq> k \<Longrightarrow> budget A k (snd (db_Delete E j w)) = budget A k w"
  by (cases "fst (db_Delete E j w)") (simp_all add: budget_def accepted_def noted_def db_Delete_state)

lemma reliable_Get: "reliable (e_db E) \<Longrightarrow> fst (db_Get E k w) = Inl e \<Longrightarrow> \<not> noted k w"
  by (cases "stored (w_db w) k") (auto simp: reliable_def noted_def db_Get_def Get_def split: sum.splits)

text \<open>An accepted submission followed by the note uses up the budget of an unnoted key.\<close>

lemma budget_noted:
  assumes "reliable (e_db E)" and "\<not> noted k w"
  shows "budget A k (snd (db_Put E k v (log_event e w))) \<le> budget A k w"
proof -
  have "fst (db_Put E k v (log_event e w)) = None"
    using assms(1) by (simp add: reliable_def db_Put_def Put_def Let_def)
  then show ?thesis using assms(2) by (simp add: budget_def accepted_def noted_def db_Put_state frame_simps)
qed

lemma budget_bounds: "accepted A w \<le> budget A k w" "budget A k w \<le> Suc (accepted A w)"
  by (simp_all add: budget_def)

lemma noted_event [simp]: "noted k (log_event e w) = noted k w" "noted k (snd (on_fs f w)) = noted k w"
  "noted k (snd (db_Get E j w)) = noted k w"
  by (simp_all add: noted_def frame_simps db_Get_state)

lemma mem_reliable: "reliable mem_leveldb"
  by (simp add: reliable_def mem_leveldb_def)

end
