(* ===== verification/ServiceLaws.thy ===== *)
theory ServiceLaws
  imports ServiceChal Runs
begin

text \<open>
  What the challenge on service data promises: what it adds to the trace of external calls and to
  the cache, how the proofs are batched, that it ends once the chain has passed its deadlines, and
  what it submits.
\<close>

subsection \<open>What the parts of the handler add to the trace\<close>

text \<open>
  Looking for fragments and proving them asks the chain, the gateways and the tag service; having the
  proofs verified asks the verifiers too. Each interface fixes the events that may happen; a
  property that these events satisfy and that composes holds of the whole computation.
\<close>

fun tag_service_event :: "tee_event \<Rightarrow> bool" where
  "tag_service_event (GenTagOpen_ev a b r) = True"
| "tag_service_event (GenTagSend_ev a r) = True"
| "tag_service_event (GenTagRecv_ev r) = True"
| "tag_service_event (GenTagClose_ev r) = True"
| "tag_service_event _ = False"

fun verify_service_event :: "tee_event \<Rightarrow> bool" where
  "verify_service_event (RequestBatchVerify_ev a b c r) = True"
| "verify_service_event (RequestAggregateSignature_ev a b c r) = True"
| "verify_service_event _ = False"

fun proving_event :: "event \<Rightarrow> bool" where
  "proving_event (QueryEvent _) = True"
| "proving_event (MiscEvent _) = True"
| "proving_event (TxEvent t) = (case t of GenerateRestoralOrder_ev _ _ _ \<Rightarrow> True | _ \<Rightarrow> False)"
| "proving_event (TeeEvent t) = tag_service_event t"

fun verifying_event :: "event \<Rightarrow> bool" where
  "verifying_event (TeeEvent t) = (tag_service_event t \<or> verify_service_event t)"
| "verifying_event e = proving_event e"

locale proving_run = run_rel R proving_event for R :: "world \<Rightarrow> world \<Rightarrow> bool"
begin

lemma keeps_calls:
  assumes "R w0 w"
  shows "R w0 (snd (GetBlockLatest E w))" "R w0 (snd (QueryFile E a i w))" "R w0 (snd (QueryAllOss E w))"
    "R w0 (snd (GetRandomcode E w))" "R w0 (snd (SignedSR25519 E m w))" "R w0 (snd (http_Get E a b c d w))"
    "R w0 (snd (GenerateRestoralOrder E a b w))" "R w0 (snd (rpc_GenTagOpen E a t w))"
    "R w0 (snd (rpc_GenTagSend E rq w))" "R w0 (snd (rpc_GenTagRecv E w))" "R w0 (snd (rpc_GenTagClose E w))"
  by (simp_all add: GetBlockLatest_def QueryFile_def QueryAllOss_def GetRandomcode_def SignedSR25519_def http_Get_def
      GenerateRestoralOrder_def rpc_GenTagOpen_def rpc_GenTagSend_def rpc_GenTagRecv_def rpc_GenTagClose_def Let_def
      keeps_event [OF assms])

lemmas keeps_steps = keeps_bind keeps_fs keeps_fs_upd keeps_run keeps_calls

lemma keeps_requestTeeTag: "R w0 w \<Longrightarrow> R w0 (outcome_state (requestTeeTag E fid fr sig dg w))"
proof -
  have tag: "R w0 (outcome_state (reciv_tag E w))" if "R w0 w" for w
    using that by (auto simp: reciv_tag_def case_prod_beta intro!: keeps_steps split: sum.split option.split)
  have signal: "R w0 (snd (reciv_signal E w))" if "R w0 w" for w
    using that by (auto simp: reciv_signal_def case_prod_beta intro!: keeps_steps split: sum.split)
  have stream: "R w0 (outcome_state (callTeeTag_stream E fid h sig dg buf w))" if "R w0 w" for w h buf
    using that by (auto simp: callTeeTag_stream_def Let_def case_prod_beta
        intro!: keeps_steps tag signal split: sum.split option.split bool.split)
  have one: "R w0 (outcome_state (callTeeTag E ep fid fr sig dg w))" if "R w0 w" for w ep
    using that by (auto simp: callTeeTag_def case_prod_beta
        intro!: keeps_steps stream split: sum.split option.split)
  have "R w0 (outcome_state (request_tee_loop E fid fr sig dg eps acc w))" if "R w0 w" for eps acc w
    using that by (induction eps arbitrary: acc w) (auto intro!: keeps_bind one split: sum.split)
  then show "R w0 w \<Longrightarrow> ?thesis" by (simp add: requestTeeTag_def)
qed

lemma keeps_calcFragmentTag: "R w0 w \<Longrightarrow> R w0 (outcome_state (calcFragmentTag E fid fr w))"
  by (auto simp: calcFragmentTag_def Let_def case_prod_beta intro!: keeps_steps keeps_requestTeeTag
      split: sum.split option.split)

lemma keeps_DownloadFragment: "R w0 w \<Longrightarrow> R w0 (snd (DownloadFragment E fid h path w))"
proof -
  have gw: "R w0 (snd (DownloadFragmentFromGW E url p a m s w))" if "R w0 w" for url p a m s w
    using that by (auto simp: DownloadFragmentFromGW_def Let_def case_prod_beta intro!: keeps_steps
        split: sum.split option.split)
  have loop: "R w0 (snd (gateway_loop E fid h p m s url gws w))" if "R w0 w" for p m s url gws w
    using that by (induction gws arbitrary: url w) (auto simp: Let_def case_prod_beta intro!: gw split: option.split)
  then show "R w0 w \<Longrightarrow> ?thesis"
    by (auto simp: DownloadFragment_def Let_def case_prod_beta intro!: keeps_steps loop split: sum.split)
qed

lemma keeps_checkTag: "R w0 w \<Longrightarrow> R w0 (outcome_state (checkTag E fid fr w))"
proof -
  have missing: "R w0 (outcome_state (checkTag_missing E fid fr w))" if "R w0 w" for w
    using that by (auto simp: checkTag_missing_def restoral_def Let_def case_prod_beta
        intro!: keeps_steps keeps_DownloadFragment keeps_calcFragmentTag split: sum.split option.split)
  have decode: "R w0 (outcome_state (checkTag_decode E fid fr buf w))" if "R w0 w" for buf w
    using that by (auto simp: checkTag_decode_def restoral_def Let_def case_prod_beta
        intro!: keeps_steps keeps_calcFragmentTag split: sum.split option.split)
  show "R w0 w \<Longrightarrow> ?thesis"
    by (auto simp: checkTag_def intro!: keeps_steps missing decode split: sum.split option.split)
qed

lemma keeps_prove_fragment: "R w0 w \<Longrightarrow> R w0 (outcome_state (prove_fragment E qs fid fr w))"
  by (auto simp: prove_fragment_def restoral_def Let_def case_prod_beta intro!: keeps_steps keeps_checkTag
      split: sum.split option.split)

lemma keeps_calcSigma: "R w0 w \<Longrightarrow> R w0 (outcome_state (calcSigma E files idx rnd w))"
proof -
  have one: "R w0 (outcome_state (sigma_fragment E qs fid fr a w))" if "R w0 w" for qs fid fr a w
    using that by (auto simp: sigma_fragment_def case_prod_beta intro!: keeps_steps keeps_prove_fragment
        split: sum.split option.split bool.split)
  have "R w0 (outcome_state (sigma_loop E qs fs a w))" if "R w0 w" for qs fs a w
    using that by (induction fs arbitrary: a w) (auto intro!: keeps_bind one split: sum.split)
  then show "R w0 w \<Longrightarrow> ?thesis" by (auto simp: calcSigma_def split: option.split)
qed

lemma keeps_calcChallengeFiles: "R w0 w \<Longrightarrow> R w0 (snd (calcChallengeFiles E c w))"
proof -
  have meta: "R w0 (snd (query_meta E fid c n l w))" if "R w0 w" for fid n l w
    using that by (induction n arbitrary: l w) (auto simp: case_prod_beta intro!: keeps_steps split: sum.split)
  have one: "R w0 (snd (calcChallengeFragments E fid c w))" if "R w0 w" for fid w
    using that by (auto simp: calcChallengeFragments_def case_prod_beta intro!: meta split: sum.split option.split)
  have "R w0 (snd (challenge_files_loop E c ds fs n w))" if "R w0 w" for ds fs n w
    using that by (induction ds arbitrary: fs n w) (auto simp: Let_def case_prod_beta intro!: one split: sum.split)
  then show "R w0 w \<Longrightarrow> ?thesis" by (auto simp: calcChallengeFiles_def split: sum.split)
qed

end

text \<open>The deadline that \<^verbatim>\<open>onceBatchVerify\<close> passes on is block 0: the request is given up before a worker is asked.\<close>

lemma batch_verify_loop_zero:
  "batch_verify_loop E fuel rq tees 0 w = Ret r w' \<Longrightarrow> \<exists>e. r = Inl e"
  by (induction fuel arbitrary: w) (auto split: prod.splits sum.splits)

lemma onceBatchVerify_no_verdict: "onceBatchVerify E fuel idx rnd a w \<noteq> Ret (Inr v) w'"
  by (auto simp: onceBatchVerify_def requestBatchVerify_def andThen_eq_Ret dest: batch_verify_loop_zero
      split: option.splits sum.splits)

context proving_run
begin

lemma keeps_onceBatchVerify: "R w0 w \<Longrightarrow> R w0 (outcome_state (onceBatchVerify E fuel idx rnd a w))"
proof -
  have "R w0 (outcome_state (batch_verify_loop E fuel rq tees 0 w))" if "R w0 w" for rq tees w
    using that
  proof (induction fuel arbitrary: w)
    case (Suc fuel)
    show ?case using Suc.prems by (auto simp: case_prod_beta intro!: Suc.IH keeps_calls split: sum.split)
  qed simp
  then show "R w0 w \<Longrightarrow> ?thesis"
    by (auto simp: onceBatchVerify_def requestBatchVerify_def case_prod_beta intro!: keeps_bind split: option.split sum.split)
qed

lemma keeps_once_loop: "R w0 w \<Longrightarrow> R w0 (outcome_state (once_loop E fuel n idx rnd a c vslip rec w))"
proof (induction n arbitrary: w)
  case (Suc n)
  show ?case using Suc.prems onceBatchVerify_no_verdict
    by (auto simp: case_prod_beta Let_def intro!: keeps_bind Suc.IH keeps_onceBatchVerify keeps_calls split: sum.split)
qed simp

end

locale verifying_run = proving_run +
  assumes R_verify: "verifying_event e \<Longrightarrow> R w (log_event e w)"
begin

lemma keeps_verify_calls:
  assumes "R w0 w"
  shows "R w0 (snd (RequestBatchVerify E tee tls rq w))" "R w0 (snd (RequestAggregateSignature E tee tls rq' w))"
proof -
  have *: "R w0 (log_event e w)" if "verifying_event e" for e
    using assms R_trans R_verify [OF that] by blast
  show "R w0 (snd (RequestBatchVerify E tee tls rq w))" "R w0 (snd (RequestAggregateSignature E tee tls rq' w))"
    by (simp_all add: com_defs rpc_RequestBatchVerify_def rpc_RequestAggregateSignature_def Let_def * assms
        split: option.split)
qed

lemma keeps_batch_tee_loop: "R w0 w \<Longrightarrow> R w0 (snd (batch_tee_loop E rq tees w))"
  by (induction tees arbitrary: w) (auto simp: case_prod_beta intro!: keeps_verify_calls split: sum.split)

lemma keeps_requestBatchVerify: "R w0 w \<Longrightarrow> R w0 (outcome_state (requestBatchVerify E fuel rq tee slip w))"
proof -
  have "R w0 (outcome_state (batch_verify_loop E fuel rq tees slip w))" if "R w0 w" for tees w
    using that
  proof (induction fuel arbitrary: w)
    case (Suc fuel)
    show ?case using Suc.prems
      by (auto simp: case_prod_beta intro!: Suc.IH keeps_steps keeps_batch_tee_loop split: sum.split option.split)
  qed simp
  then show "R w0 w \<Longrightarrow> ?thesis" by (simp add: requestBatchVerify_def)
qed

lemma keeps_requestAggregateSignature:
  "R w0 w \<Longrightarrow> R w0 (outcome_state (requestAggregateSignature E fuel rq tee slip w))"
proof -
  have any: "R w0 (snd (aggregate_any_loop E rq tees w))" if "R w0 w" for tees w
    using that by (induction tees arbitrary: w) (auto simp: case_prod_beta intro!: keeps_verify_calls split: sum.split)
  have "R w0 (outcome_state (aggregate_wait_loop E fuel rq tee slip w))" if "R w0 w" for w
    using that
  proof (induction fuel arbitrary: w)
    case (Suc fuel)
    show ?case using Suc.prems
      by (auto simp: case_prod_beta intro!: Suc.IH keeps_steps keeps_verify_calls split: sum.split option.split)
  qed simp
  with any show "R w0 w \<Longrightarrow> ?thesis" by (simp add: requestAggregateSignature_def)
qed

lemma keeps_verdicts:
  assumes "R w0 w"
  shows "R w0 (outcome_state (onceBatchVerify E fuel idx rnd a w))"
    "R w0 (outcome_state (verifyEmpty E fuel idx rnd slip w))"
  using assms by (auto simp: onceBatchVerify_def verifyEmpty_def case_prod_beta
      intro!: keeps_bind keeps_requestBatchVerify split: option.split sum.split)

lemma keeps_batch_flush: "R w0 w \<Longrightarrow> R w0 (outcome_state (batch_flush E fuel q slip b w))"
  by (auto simp: batch_flush_def Let_def case_prod_beta intro!: keeps_bind keeps_requestBatchVerify split: sum.split)

lemma keeps_batchGenProofAndVerify:
  "R w0 w \<Longrightarrow> R w0 (outcome_state (batchGenProofAndVerify E fuel files idx rnd number slip w))"
proof -
  have one: "R w0 (outcome_state (batch_fragment E fuel qs q number slip fid fr b w))" if "R w0 w"
    for qs q fid fr b w
    using that by (auto simp: batch_fragment_def Let_def case_prod_beta
        intro!: keeps_bind keeps_prove_fragment keeps_batch_flush split: sum.split option.split bool.split)
  have loop: "R w0 (outcome_state (batch_loop E fuel qs q number slip fs b w))" if "R w0 w" for qs q fs b w
    using that by (induction fs arbitrary: b w) (auto intro!: keeps_bind one split: sum.split)
  have fin: "R w0 (outcome_state (batch_finish E fuel q slip b w))" if "R w0 w" for q b w
    using that by (auto simp: batch_finish_def intro!: keeps_bind keeps_requestAggregateSignature split: sum.split)
  show "R w0 w \<Longrightarrow> ?thesis"
    by (auto simp: batchGenProofAndVerify_def intro!: keeps_bind loop fin keeps_batch_flush split: sum.split option.split)
qed

end

subsection \<open>The handler\<close>

text \<open>The branch for up to 5000 fragments reads the cache and submits the proof; the whole handler forgets
  the marks of an older challenge and submits results.\<close>

locale once_run = proving_run R for R :: "world \<Rightarrow> world \<Rightarrow> bool" +
  fixes E :: env and c :: u32
  assumes R_Get: "R w (snd (db_Get E k w))"
    and R_submit_proof: "R w (snd (service_submit_proof E p c slip rec w))"
begin

lemma keeps_Get: "R w0 w \<Longrightarrow> R w0 (snd (db_Get E k w))"
  using R_Get R_trans by blast

lemma keeps_service_submit_proof: "R w0 w \<Longrightarrow> R w0 (snd (service_submit_proof E p c slip rec w))"
  using R_submit_proof R_trans by blast

lemma keeps_service_once:
  "R w0 w \<Longrightarrow> R w0 (outcome_state (service_once E fuel files idx rnd c slip vslip rec w))"
  by (auto simp: service_once_def Let_def case_prod_beta intro!: keeps_bind keeps_fs keeps_calcSigma keeps_Get
      keeps_service_submit_proof keeps_once_loop split: sum.split)

end

locale handler_run = once_run R E c + verifying_run R for R :: "world \<Rightarrow> world \<Rightarrow> bool" and E :: env and c :: u32 +
  assumes R_forget: "s \<noteq> c \<Longrightarrow> R w (snd (db_Delete E (service_proof_key s) w))"
      "s \<noteq> c \<Longrightarrow> R w (snd (db_Delete E (service_result_key s) w))"
    and R_submit_result: "R w (service_submit_result E b sg f t c vslip rec w)"
begin

lemma keeps_forget:
  "R w0 w \<Longrightarrow> s \<noteq> c \<Longrightarrow> R w0 (snd (db_Delete E (service_proof_key s) w))"
  "R w0 w \<Longrightarrow> s \<noteq> c \<Longrightarrow> R w0 (snd (db_Delete E (service_result_key s) w))"
  using R_forget R_trans by blast+

lemma keeps_service_submit_result: "R w0 w \<Longrightarrow> R w0 (service_submit_result E b sg f t c vslip rec w)"
  using R_submit_result R_trans by blast

lemma keeps_service_resume: "R w0 w \<Longrightarrow> R w0 (service_resume E rec c slip vslip w)"
  by (auto simp: service_resume_def case_prod_beta intro!: keeps_Get keeps_service_submit_proof keeps_service_submit_result
      split: sum.split option.split)

lemma keeps_empty_result: "R w0 w \<Longrightarrow> R w0 (empty_result E v c vslip rec w)"
  by (auto simp: empty_result_def case_prod_beta intro!: keeps_Get keeps_service_submit_result split: sum.split)

lemma keeps_empty_wait_loop: "R w0 w \<Longrightarrow> R w0 (outcome_state (empty_wait_loop E fuel n idx rnd slip vslip w))"
proof (induction n arbitrary: w)
  case (Suc n)
  show ?case using Suc.prems
    by (auto simp: case_prod_beta intro!: keeps_bind Suc.IH keeps_verdicts keeps_calls split: sum.split)
qed simp

lemma keeps_service_empty: "R w0 w \<Longrightarrow> R w0 (outcome_state (service_empty E fuel idx rnd c slip vslip rec w))"
  by (auto simp: service_empty_def Let_def case_prod_beta intro!: keeps_bind keeps_fs keeps_verdicts keeps_service_submit_proof
      keeps_empty_wait_loop keeps_empty_result split: sum.split option.split)

lemma keeps_service_batch:
  "R w0 w \<Longrightarrow> R w0 (outcome_state (service_batch E fuel files tot idx rnd c slip vslip rec w))"
  by (auto simp: service_batch_def Let_def case_prod_beta intro!: keeps_bind keeps_fs keeps_run keeps_Get
      keeps_batchGenProofAndVerify keeps_service_submit_proof keeps_service_submit_result split: sum.split)

lemma keeps_service_fresh:
  "R w0 w \<Longrightarrow> R w0 (outcome_state (service_fresh E fuel idx rnd c slip vslip rec w))"
  by (auto simp: service_fresh_def Let_def case_prod_beta intro!: keeps_fs_upd keeps_run keeps_calcChallengeFiles
      keeps_service_empty keeps_service_once keeps_service_batch split: sum.split option.split)

lemma keeps_serviceChallenge: "R w (outcome_state (serviceChallenge E fuel idx rnd c slip vslip w))"
proof -
  have "R w (outcome_state (service_body E fuel idx rnd c slip vslip w))"
    by (cases "LoadServiceProve (e_sdk E) (w_fs w) (w_ws w)"; cases "snd (LoadServiceProve (e_sdk E) (w_fs w) (w_ws w))";
        cases "sv_Start (fst (LoadServiceProve (e_sdk E) (w_fs w) (w_ws w))) = c")
      (simp_all add: service_body_def Let_def keeps_fs keeps_forget R_refl keeps_service_resume keeps_service_fresh)
  then show ?thesis
    by (auto simp: serviceChallenge_def intro!: keeps_run split: outcome.split)
qed

end

subsection \<open>Traces\<close>

locale proving_trace = quiet_trace P proving_event for P :: "event list \<Rightarrow> dbop list \<Rightarrow> bool"

sublocale proving_trace \<subseteq> proving_run "adds P" ..

locale verifying_trace = proving_trace +
  assumes verifying: "verifying_event e \<Longrightarrow> P [e] []"

sublocale verifying_trace \<subseteq> verifying_run "adds P"
  by unfold_locales (auto intro: adds_event verifying)

text \<open>Neither part writes to the cache, and neither submits anything.\<close>

definition verifying_only :: "event list \<Rightarrow> dbop list \<Rightarrow> bool" where
  "verifying_only h d \<longleftrightarrow> d = [] \<and> list_all verifying_event h"

lemma proving_is_verifying: "proving_event e \<Longrightarrow> verifying_event e"
  by (cases e rule: verifying_event.cases) auto

interpretation verifying: verifying_trace verifying_only
  by unfold_locales (auto simp: verifying_only_def proving_is_verifying)

text \<open>Submissions may fail, and a submission that returned a block hash may be noted in the cache.\<close>

locale proof_submit_trace = proving_trace P for P :: "event list \<Rightarrow> dbop list \<Rightarrow> bool" +
  fixes c :: u32
  assumes look: "P [] [DbGet k]"
    and proof_try: "P [EvSubmitServiceProof p res] []"
    and proof_mark: "hash \<noteq> [] \<Longrightarrow> P [EvSubmitServiceProof p (hash, err)] [DbPut (service_proof_key c) ''true'' r]"
begin

lemma adds_Get: "adds P w0 w \<Longrightarrow> adds P w0 (snd (db_Get E k w))"
  unfolding db_Get_state using adds_db look adds_trans by blast

lemma submit_proof_last:
  "adds P w0 w \<Longrightarrow> submit_proof_loop E p n w = ((hash, err), w1) \<Longrightarrow>
     adds P w0 w1 \<and> (hash \<noteq> [] \<longrightarrow> (\<exists>w'. adds P w0 w' \<and> w1 = log_event (EvSubmitServiceProof p (hash, err)) w'))"
proof (induction n arbitrary: w)
  case (Suc n)
  have tried: "adds P w0 (log_event (EvSubmitServiceProof p res) w)" for res
    using Suc.prems(1) adds_event adds_trans proof_try by blast
  obtain a e' where x: "x_SubmitServiceProof E (w_hist w) p = (a, e')" by fastforce
  show ?case
  proof (cases "a = []")
    case True
    then show ?thesis using Suc.prems(2) Suc.IH [OF tried] 
      by (auto simp: SubmitServiceProof_def x Let_def)
  next
    case False
    then show ?thesis using Suc.prems tried
      by (auto simp: SubmitServiceProof_def x Let_def)
  qed
qed simp

lemma submitServiceProof_last:
  assumes "adds P w0 w" and "submitServiceProof E p slip w = ((hash, err), w1)"
  shows "adds P w0 w1 \<and> (hash \<noteq> [] \<longrightarrow> (\<exists>w'. adds P w0 w' \<and> w1 = log_event (EvSubmitServiceProof p (hash, err)) w'))"
  using assms submit_proof_last [OF keeps_calls(1) [OF assms(1)]] keeps_calls(1) [OF assms(1)]
  by (auto simp: submitServiceProof_def case_prod_beta split: sum.splits if_splits)

lemma adds_service_submit_proof:
  assumes "adds P w0 w" shows "adds P w0 (snd (service_submit_proof E p c slip rec w))"
proof -
  obtain hash err w2 where s: "submitServiceProof E p slip (snd (db_Get E (service_proof_key c) w)) = ((hash, err), w2)"
    by (metis prod.exhaust)
  have "adds P w0 w2" "hash \<noteq> [] \<Longrightarrow> adds P w0 (snd (db_Put E (service_proof_key c) ''true'' w2))"
    using submitServiceProof_last [OF adds_Get [OF assms] s] by (auto intro!: adds_log_put proof_mark)
  then show ?thesis
    using s by (auto simp: service_submit_proof_def Let_def case_prod_beta intro!: keeps_fs adds_Get assms split: sum.split)
qed

end

sublocale proof_submit_trace \<subseteq> once_run "adds P" E c for E
  by unfold_locales (auto intro: adds_Get adds_service_submit_proof adds_refl)

locale submit_trace = proof_submit_trace P c + verifying_trace P for P :: "event list \<Rightarrow> dbop list \<Rightarrow> bool" and c :: u32 +
  assumes forget: "P [] [DbDelete k r]"
    and result_try: "P [EvSubmitVerifyServiceResult b s f t res] []"
    and result_mark: "hash \<noteq> [] \<Longrightarrow>
      P [EvSubmitVerifyServiceResult b s f t (hash, err)] [DbPut (service_result_key c) ''true'' r]"
begin

lemma submit_result_last:
  "adds P w0 w \<Longrightarrow> submit_result_loop E b s f t n e w = ((hash, err), w1) \<Longrightarrow>
     adds P w0 w1 \<and> (hash \<noteq> [] \<longrightarrow> (\<exists>w'. adds P w0 w' \<and> w1 = log_event (EvSubmitVerifyServiceResult b s f t (hash, err)) w'))"
proof (induction n arbitrary: w e)
  case (Suc n)
  have tried: "adds P w0 (log_event (EvSubmitVerifyServiceResult b s f t res) w)" for res
    using Suc.prems(1) adds_event adds_trans result_try by blast
  obtain a e' where x: "x_SubmitVerifyServiceResult E (w_hist w) b s f t = (a, e')" by fastforce
  show ?case
  proof (cases "a = []")
    case True
    then show ?thesis using Suc.prems(2) Suc.IH [OF tried] 
      by (auto simp: SubmitVerifyServiceResult_def x Let_def)
  next
    case False
    then show ?thesis using Suc.prems tried
      by (auto simp: SubmitVerifyServiceResult_def x Let_def)
  qed
qed simp

lemma submitServiceResult_last:
  assumes "adds P w0 w" and "submitServiceResult E b s f t slip w = ((hash, err), w1)"
  shows "adds P w0 w1 \<and> (hash \<noteq> [] \<longrightarrow> (\<exists>w'. adds P w0 w' \<and> w1 = log_event (EvSubmitVerifyServiceResult b s f t (hash, err)) w'))"
  using assms submit_result_last [OF keeps_calls(1) [OF assms(1)]] keeps_calls(1) [OF assms(1)]
  by (auto simp: submitServiceResult_def case_prod_beta split: sum.splits if_splits)

lemma result_put:
  assumes "adds P w0 w" and "submitServiceResult E b s f t slip w = ((hash, err), w1)"
  shows "adds P w0 w1" "hash \<noteq> [] \<Longrightarrow> adds P w0 (snd (db_Put E (service_result_key c) ''true'' w1))"
  using submitServiceResult_last [OF assms] by (auto intro!: adds_log_put result_mark)

lemma adds_service_submit_result:
  assumes "adds P w0 w" shows "adds P w0 (service_submit_result E b s f t c slip rec w)"
proof -
  obtain hash err w1 where s: "submitServiceResult E b s f t slip w = ((hash, err), w1)" by (metis prod.exhaust)
  then show ?thesis using result_put [OF assms s] by (auto simp: service_submit_result_def intro!: keeps_fs)
qed

lemma adds_Delete: "adds P w (snd (db_Delete E k w))"
  unfolding db_Delete_state using adds_db forget by blast

end

sublocale submit_trace \<subseteq> handler_run "adds P" E c for E
  by unfold_locales (auto intro: adds_Delete adds_service_submit_result adds_refl)

text \<open>Interpretation: every mark in the cache comes from a submission.\<close>

definition hash_of_proof :: "event \<Rightarrow> string" where
  "hash_of_proof e = (case e of TxEvent (SubmitServiceProof_ev p (hash, err)) \<Rightarrow> hash | _ \<Rightarrow> [])"

definition hash_of_result :: "event \<Rightarrow> string" where
  "hash_of_result e = (case e of TxEvent (SubmitVerifyServiceResult_ev b s f t (hash, err)) \<Rightarrow> hash | _ \<Rightarrow> [])"

fun justified :: "u32 \<Rightarrow> event list \<Rightarrow> dbop \<Rightarrow> bool" where
  "justified c h (DbPut k v r) \<longleftrightarrow>
     v = ''true'' \<and> (k = service_proof_key c \<and> (\<exists>e \<in> set h. hash_of_proof e \<noteq> [])
     \<or> k = service_result_key c \<and> (\<exists>e \<in> set h. hash_of_result e \<noteq> []))"
| "justified c h _ \<longleftrightarrow> True"

definition all_justified :: "u32 \<Rightarrow> event list \<Rightarrow> dbop list \<Rightarrow> bool" where
  "all_justified c h d \<longleftrightarrow> (\<forall>x \<in> set d. justified c h x)"

lemma justified_more: "justified c h x \<Longrightarrow> justified c (g @ h) x \<and> justified c (h @ g) x"
  by (cases x) auto

interpretation marks: submit_trace "all_justified c" c for c
  by unfold_locales (auto simp: all_justified_def hash_of_proof_def hash_of_result_def justified_more)

text \<open>
  C1. Whatever the chain, the workers and the files are like, and whether the handler returns,
  panics or is still waiting: what it puts into the cache is the value \<open>true\<close> under the key of the proof or of the result of
  the challenge at hand, and only if one of its own submissions of that kind came back with a block hash.
\<close>

theorem service_marks_submitted:
  "\<exists>h d. w_hist (outcome_state (serviceChallenge E fuel idx rnd c slip vslip w)) = w_hist w @ h
     \<and> w_db (outcome_state (serviceChallenge E fuel idx rnd c slip vslip w)) = w_db w @ d
     \<and> all_justified c h d"
  using marks.keeps_serviceChallenge unfolding adds_def .

fun is_verdict_event :: "event \<Rightarrow> bool" where
  "is_verdict_event (TeeEvent t) = verify_service_event t"
| "is_verdict_event (TxEvent (SubmitVerifyServiceResult_ev b s f t r)) = True"
| "is_verdict_event _ = False"

definition no_verdict :: "event list \<Rightarrow> dbop list \<Rightarrow> bool" where
  "no_verdict h d \<longleftrightarrow> (\<forall>e \<in> set h. \<not> is_verdict_event e)"

interpretation no_verdict: proof_submit_trace no_verdict c for c
proof unfold_locales
  fix e assume "proving_event e"
  then show "no_verdict [e] []"
    by (cases e rule: proving_event.cases) (auto simp: no_verdict_def split: tx_event.splits elim: tag_service_event.elims)
qed (auto simp: no_verdict_def)

text \<open>
  C40. Between 1 and 5000 challenged fragments the verdict is never obtained: \<^verbatim>\<open>onceBatchVerify\<close>
  passes the deadline 0 to \<^verbatim>\<open>requestBatchVerify\<close>, so no verifier is ever asked and no result is
  submitted, however the chain and the workers behave and however long the loop runs.
\<close>

theorem service_once_no_result:
  "\<exists>h. w_hist (outcome_state (service_once E fuel files idx rnd c slip vslip rec w)) = w_hist w @ h
     \<and> filter is_verdict_event h = []"
  using no_verdict.keeps_service_once [OF no_verdict.adds_refl, of w E fuel files idx rnd c slip vslip rec]
  by (auto simp: adds_def no_verdict_def filter_empty_conv)

subsection \<open>The handler ends\<close>

lemma requestTeeTag_ends: "ends (requestTeeTag E fid fr sig dg w)"
proof -
  have one: "ends (callTeeTag E ep fid fr sig dg w)" for ep w
    by (auto simp: callTeeTag_def callTeeTag_stream_def reciv_tag_def Let_def intro!: ends_bind
        split: sum.split option.split prod.split bool.split)
  have "ends (request_tee_loop E fid fr sig dg eps acc w)" for eps acc w
    by (induction eps arbitrary: acc w) (auto intro!: ends_bind one split: sum.split)
  then show ?thesis by (simp add: requestTeeTag_def)
qed

lemma calcFragmentTag_ends: "ends (calcFragmentTag E fid fr w)"
  by (auto simp: calcFragmentTag_def Let_def intro!: ends_bind requestTeeTag_ends
      split: sum.split option.split prod.split)

lemma checkTag_ends: "ends (checkTag E fid fr w)"
  by (auto simp: checkTag_def checkTag_missing_def checkTag_decode_def Let_def intro!: ends_bind calcFragmentTag_ends
      split: sum.split option.split prod.split)

lemma prove_fragment_ends: "ends (prove_fragment E qs fid fr w)"
  by (auto simp: prove_fragment_def intro!: ends_bind checkTag_ends split: sum.split option.split prod.split)

lemma calcSigma_ends: "ends (calcSigma E files idx rnd w)"
proof -
  have "ends (sigma_loop E qs fs a w)" for qs fs a w
    by (induction fs arbitrary: a w)
      (auto simp: sigma_fragment_def intro!: ends_bind prove_fragment_ends
        split: sum.split option.split prod.split bool.split)
  then show ?thesis by (simp add: calcSigma_def split: option.split)
qed

lemma batch_verify_loop_ends:
  assumes "chain_passes E n (\<lambda>b. slip \<le> b)" and "n - asked w < fuel"
  shows "ends (batch_verify_loop E fuel rq tees slip w)"
  using assms(2)
proof (induction fuel arbitrary: w)
  case (Suc fuel)
  note round = height_round [OF assms(1) Suc.prems]
  have tees: "asked w \<le> asked (snd (batch_tee_loop E rq tees w))" for w
    by (rule asked_mono [OF verifying.keeps_batch_tee_loop [OF verifying.adds_refl]])
  show ?case
  proof (cases "fst (GetBlockLatest E w)")
    case (Inl e)
    then show ?thesis by (auto simp: case_prod_beta intro!: Suc.IH round)
  next
    case (Inr b)
    then show ?thesis
      by (auto simp: case_prod_beta intro!: Suc.IH round tees split: option.split)
  qed
qed simp

lemma aggregate_ends:
  assumes "chain_passes E n (\<lambda>b. slip \<le> b)" and "n - asked w < fuel"
  shows "ends (requestAggregateSignature E fuel rq tee slip w)"
proof -
  have "ends (aggregate_wait_loop E fuel rq tee slip w)"
    using assms(2)
  proof (induction fuel arbitrary: w)
    case (Suc fuel)
    note round = height_round [OF assms(1) Suc.prems]
    have tee: "asked w \<le> asked (snd (RequestAggregateSignature E tee tls rq w))" for w tls
      by (rule asked_mono [OF verifying.keeps_verify_calls(2) [OF verifying.adds_refl]])
    show ?case
      by (auto simp: case_prod_beta intro!: Suc.IH round tee split: sum.split)
  qed simp
  then show ?thesis by (simp add: requestAggregateSignature_def)
qed

lemma verdicts_end:
  assumes "chain_passes E n (\<lambda>b. slip \<le> b)" and "n - asked w < fuel"
  shows "ends (verifyEmpty E fuel idx rnd slip w)"
  using batch_verify_loop_ends [OF assms]
  by (auto simp: verifyEmpty_def requestBatchVerify_def intro!: ends_bind split: option.split sum.split prod.split)

lemma once_verdict_ends:
  assumes "chain_passes E n late" and "n - asked w < fuel"
  shows "ends (onceBatchVerify E fuel idx rnd a w)"
proof -
  have "chain_passes E n (\<lambda>b. 0 \<le> b)" using assms(1) by (auto simp: chain_passes_def)
  from batch_verify_loop_ends [OF this assms(2)] show ?thesis
    by (auto simp: onceBatchVerify_def requestBatchVerify_def intro!: ends_bind split: option.split sum.split prod.split)
qed

lemma batch_flush_ends:
  assumes "chain_passes E n (\<lambda>b. slip \<le> b)" and "n < fuel"
  shows "ends (batch_flush E fuel q slip b w)"
  using batch_verify_loop_ends [OF assms(1), of _ fuel] assms(2)
  by (auto simp: batch_flush_def requestBatchVerify_def Let_def intro!: ends_bind split: sum.split prod.split)

lemma batchGenProofAndVerify_ends:
  assumes "chain_passes E n (\<lambda>b. slip \<le> b)" and "n < fuel"
  shows "ends (batchGenProofAndVerify E fuel files idx rnd number slip w)"
proof -
  note flush = batch_flush_ends [OF assms]
  have loop: "ends (batch_loop E fuel qs q number slip fs b w)" for qs q fs b w
    by (induction fs arbitrary: b w)
      (auto simp: batch_fragment_def Let_def intro!: ends_bind prove_fragment_ends flush
        split: sum.split option.split prod.split bool.split)
  have fin: "ends (batch_finish E fuel q slip b w)" for q b w
    using aggregate_ends [OF assms(1), of w fuel] assms(2)
    by (auto simp: batch_finish_def intro!: ends_bind split: sum.split)
  show ?thesis
    by (auto simp: batchGenProofAndVerify_def intro!: ends_bind loop fin flush split: option.split sum.split)
qed

lemma empty_wait_loop_ends:
  assumes "chain_passes E n (\<lambda>b. slip \<le> b \<and> vslip < b)" and "n - asked w < rounds" and "n < fuel"
  shows "ends (empty_wait_loop E fuel rounds idx rnd slip vslip w)"
  using assms(2)
proof (induction rounds arbitrary: w)
  case (Suc rounds)
  note round = height_round [OF assms(1) Suc.prems]
  have slip: "chain_passes E n (\<lambda>b. slip \<le> b)" using assms(1) by (auto simp: chain_passes_def)
  have verdict: "ends (verifyEmpty E fuel idx rnd slip w)" for w
    using verdicts_end [OF slip, of w fuel] assms(3) by simp
  have grows: "asked w' \<le> asked w''" if "verifyEmpty E fuel idx rnd slip w' = Ret r w''" for w' r w''
    using asked_mono [OF verifying.keeps_verdicts(2) [OF verifying.adds_refl, of w' E fuel idx rnd slip]] that by simp
  show ?case
    by (auto simp: case_prod_beta intro!: ends_bind verdict Suc.IH round dest!: grows split: sum.split)
qed simp

lemma once_loop_ends:
  assumes "chain_passes E n (\<lambda>b. vslip < b + 3)" and "n - asked w < rounds" and "n < fuel"
  shows "ends (once_loop E fuel rounds idx rnd a c vslip rec w)"
  using assms(2)
proof (induction rounds arbitrary: w)
  case (Suc rounds)
  note round = height_round [OF assms(1) Suc.prems]
  have verdict: "ends (onceBatchVerify E fuel idx rnd a w)" for w
    using once_verdict_ends [OF assms(1), of w fuel] assms(3) by simp
  have grows: "asked w' \<le> asked w''" if "onceBatchVerify E fuel idx rnd a w' = Ret r w''" for w' r w''
    using asked_mono [OF verifying.keeps_verdicts(1) [OF verifying.adds_refl, of w' E fuel idx rnd a]] that by simp
  show ?case
    by (auto simp: case_prod_beta Let_def intro!: ends_bind verdict Suc.IH round dest!: grows split: sum.split)
qed simp

text \<open>
  C2. The handler ends, with the flag that says it is at work cleared, provided the chain moves on: from
  some question for the latest block onwards the answers lie behind the deadline for verdicts
  (and at or behind the one for proofs). The number of rounds granted to each waiting loop only has to exceed the
  number of questions until then. (The once branch adds 3 to the height in 32 bits, hence the
  bound on the height.)
\<close>

theorem serviceChallenge_returns:
  assumes "chain_passes E n (\<lambda>b. slip \<le> b \<and> vslip < b \<and> b \<le> b + 3)" and "n < fuel"
  shows "\<exists>w'. serviceChallenge E fuel idx rnd c slip vslip w = Ret () w' \<and> \<not> GetServiceChallenging (w_run w')"
proof -
  have late: "chain_passes E n (\<lambda>b. slip \<le> b)" "chain_passes E n (\<lambda>b. slip \<le> b \<and> vslip < b)"
    "chain_passes E n (\<lambda>b. vslip < b + 3)"
    using assms(1) unfolding chain_passes_def by (blast intro: order_less_le_trans)+
  have empty: "ends (service_empty E fuel idx rnd c slip vslip rec w)" for rec w
    using verdicts_end [OF late(1), of _ fuel] empty_wait_loop_ends [OF late(2), of _ fuel fuel] assms(2)
    by (auto simp: service_empty_def Let_def intro!: ends_bind split: sum.split prod.split option.split)
  have once: "ends (service_once E fuel files idx rnd c slip vslip rec w)" for files rec w
    using once_loop_ends [OF late(3), of _ fuel fuel] assms(2)
    by (auto simp: service_once_def Let_def intro!: ends_bind calcSigma_ends split: sum.split prod.split)
  have batch: "ends (service_batch E fuel files tot idx rnd c slip vslip rec w)" for files tot rec w
    using batchGenProofAndVerify_ends [OF late(1) assms(2)]
    by (auto simp: service_batch_def Let_def intro!: ends_bind split: sum.split prod.split)
  have "ends (service_body E fuel idx rnd c slip vslip w)"
    by (auto simp: service_body_def service_fresh_def Let_def empty once batch
        split: prod.split option.split sum.split)
  then show ?thesis
    by (auto simp: serviceChallenge_def frame_simps ends_def servicechallenging.get_set split: outcome.splits)
qed

theorem serviceChallenge_returns_witness:
  "\<exists>w'. serviceChallenge (demo_env\<lparr>x_GetBlockLatest := \<lambda>_. Inr 100\<rparr>) 1 [] [] 7 50 60 demo_world = Ret () w'
     \<and> \<not> GetServiceChallenging (w_run w')"
  by (rule serviceChallenge_returns [where n = 0]) (simp_all add: chain_passes_def)

subsection \<open>At most one accepted proof\<close>

definition proof_accepted :: "event \<Rightarrow> bool" where
  "proof_accepted e \<longleftrightarrow> hash_of_proof e \<noteq> []"

lemma verifying_not_accepted: "verifying_event e \<Longrightarrow> \<not> proof_accepted e"
  by (cases e rule: verifying_event.cases) (auto simp: proof_accepted_def hash_of_proof_def split: tx_event.splits)

lemma service_keys [simp]:
  "service_proof_key s = service_proof_key c \<longleftrightarrow> s = c" "service_result_key s \<noteq> service_proof_key c"
  by (auto simp: service_proof_key_def service_result_key_def Prefix_service_chall_proof_def
      Prefix_service_chall_result_def word_unat_eq_iff dest!: show_nat_inj)

lemma submit_proof_loop_budget:
  assumes "reliable (e_db E)" and "\<not> noted k w" and "submit_proof_loop E p n w = ((hash, err), w1)"
  shows "if hash = [] then budget proof_accepted k w1 \<le> budget proof_accepted k w
     else budget proof_accepted k (snd (db_Put E k v w1)) \<le> budget proof_accepted k w"
  using assms(2,3)
proof (induction n arbitrary: w)
  case (Suc n)
  obtain a e' where x: "x_SubmitServiceProof E (w_hist w) p = (a, e')" by fastforce
  show ?case
  proof (cases "a = []")
    case True
    then have "\<not> proof_accepted (EvSubmitServiceProof p (a, e'))" by (simp add: proof_accepted_def hash_of_proof_def)
    from budget_event [of proof_accepted, OF this] Suc.IH [of "log_event (EvSubmitServiceProof p (a, e')) w"] Suc.prems True show ?thesis
      by (auto simp: SubmitServiceProof_def x Let_def)
  next
    case False
    then show ?thesis using Suc.prems budget_noted [OF assms(1) Suc.prems(1)]
      by (auto simp: SubmitServiceProof_def x Let_def)
  qed
qed simp

lemma height_budget [simp]:
  "budget proof_accepted k (snd (GetBlockLatest E w)) = budget proof_accepted k w"
  "noted k (snd (GetBlockLatest E w)) = noted k w"
  by (simp_all add: GetBlockLatest_def Let_def budget_event proof_accepted_def hash_of_proof_def)

lemma service_submit_proof_within:
  assumes "reliable (e_db E)"
  shows "within proof_accepted (service_proof_key c) w (snd (service_submit_proof E p c slip rec w))"
proof (cases "fst (db_Get E (service_proof_key c) w)")
  case (Inl e)
  let ?k = "service_proof_key c" and ?w1 = "snd (db_Get E (service_proof_key c) w)"
  have fresh: "\<not> noted ?k w" by (rule reliable_Get [OF assms Inl])
  obtain hash err w2 where s: "submitServiceProof E p slip ?w1 = ((hash, err), w2)" by (metis prod.exhaust)
  have "if hash = [] then budget proof_accepted ?k w2 \<le> budget proof_accepted ?k w
     else budget proof_accepted ?k (snd (db_Put E ?k ''true'' w2)) \<le> budget proof_accepted ?k w"
    using s fresh submit_proof_loop_budget [OF assms, of ?k "snd (GetBlockLatest E ?w1)" p 3 hash err w2 "''true''"]
    by (auto simp: submitServiceProof_def case_prod_beta split: sum.splits if_splits)
  then show ?thesis using s Inl by (auto simp: service_submit_proof_def within_def case_prod_beta Let_def)
next
  case (Inr v)
  then show ?thesis by (simp add: service_submit_proof_def within_def case_prod_beta)
qed

lemma service_submit_result_within:
  "within proof_accepted (service_proof_key c) w (service_submit_result E b s f t c vslip rec w)"
proof -
  have loop: "budget proof_accepted k (snd (submit_result_loop E b s f t n e w)) = budget proof_accepted k w" for k n e w
    by (induction n arbitrary: e w)
      (auto simp: SubmitVerifyServiceResult_def Let_def case_prod_beta budget_event proof_accepted_def hash_of_proof_def)
  show ?thesis
    by (auto simp: service_submit_result_def submitServiceResult_def within_def case_prod_beta loop budget_Put_other
        split: sum.split)
qed

lemma handler_within:
  assumes "reliable (e_db E)"
  shows "handler_run (within proof_accepted (service_proof_key c)) E c"
proof unfold_locales
  fix s w
  assume "s \<noteq> c"
  then show "within proof_accepted (service_proof_key c) w (snd (db_Delete E (service_proof_key s) w))"
    "within proof_accepted (service_proof_key c) w (snd (db_Delete E (service_result_key s) w))"
    by (simp_all add: within_def budget_Delete_other)
qed (auto intro: within_refl within_trans within_same service_submit_proof_within [OF assms] service_submit_result_within
    within_Get simp: within_event verifying_not_accepted proving_is_verifying)

text \<open>The handler may be run for one challenge any number of times: the main loop starts it again after every
  block until the challenge is over, and again after a restart of the node.\<close>

record service_call =
  sc_fuel :: nat
  sc_index :: "u32 list"
  sc_random :: "chainRandom list"
  sc_slip :: u32
  sc_vslip :: u32

definition run_service :: "env \<Rightarrow> u32 \<Rightarrow> service_call \<Rightarrow> world \<Rightarrow> world" where
  "run_service E c x w =
     outcome_state (serviceChallenge E (sc_fuel x) (sc_index x) (sc_random x) c (sc_slip x) (sc_vslip x) w)"

text \<open>
  Over a cache without input/output errors, all runs of the handler for a challenge together get at
  most one proof accepted by the chain, whether they return, panic or are cut off while waiting;
  and none once the cache notes a submission.
\<close>

theorem service_proof_accepted_once:
  assumes "reliable (e_db E)"
  shows "accepted proof_accepted (fold (run_service E c) calls w)
    \<le> accepted proof_accepted w + (if noted (service_proof_key c) w then 0 else 1)"
proof -
  have "within proof_accepted (service_proof_key c) w (fold (run_service E c) calls w)"
    by (induction calls arbitrary: w)
      (auto simp: run_service_def intro: within_refl within_trans handler_run.keeps_serviceChallenge [OF handler_within [OF assms]])
  then show ?thesis using budget_bounds(1) by (auto simp: within_def budget_def intro: order_trans)
qed

definition one_call :: service_call where
  "one_call = \<lparr>sc_fuel = 1, sc_index = [], sc_random = [], sc_slip = 50, sc_vslip = 60\<rparr>"

definition late_env :: env where
  "late_env = demo_env\<lparr>x_GetBlockLatest := \<lambda>_. Inr 100\<rparr>"

theorem service_proof_accepted_once_witness:
  "accepted proof_accepted (fold (run_service late_env 7) [one_call, one_call] demo_world)
    \<le> accepted proof_accepted demo_world + (if noted (service_proof_key 7) demo_world then 0 else 1)"
  by (rule service_proof_accepted_once) (simp add: late_env_def demo_env_def mem_reliable)

subsection \<open>Deadlines\<close>

lemma submit_proof_loop_tries:
  assumes "submit_proof_loop E p n w = ((hash, err), w')" and "0 < n"
  shows "\<exists>tries. w_hist w' = w_hist w @ map (EvSubmitServiceProof p) tries \<and> tries \<noteq> [] \<and> length tries \<le> n
    \<and> list_all (\<lambda>t. fst t = []) (butlast tries)
    \<and> (if hash = [] then length tries = n \<and> fst (last tries) = [] else last tries = (hash, err))"
  using assms
proof (induction n arbitrary: w)
  case (Suc n)
  obtain a e' where x: "x_SubmitServiceProof E (w_hist w) p = (a, e')" by fastforce
  let ?w1 = "log_event (EvSubmitServiceProof p (a, e')) w"
  show ?case
  proof (cases "a = [] \<and> n \<noteq> 0")
    case True
    then obtain tries where "w_hist w' = w_hist ?w1 @ map (EvSubmitServiceProof p) tries" "tries \<noteq> []" "length tries \<le> n"
      "list_all (\<lambda>t. fst t = []) (butlast tries)"
      "if hash = [] then length tries = n \<and> fst (last tries) = [] else last tries = (hash, err)"
      using Suc by (auto simp: SubmitServiceProof_def x Let_def)
    then show ?thesis using True
      by (intro exI [of _ "(a, e') # tries"]) (auto simp: frame_simps)
  next
    case False
    then show ?thesis using Suc.prems
      by (intro exI [of _ "[(a, e')]"]) (auto simp: SubmitServiceProof_def x Let_def frame_simps split: if_splits)
  qed
qed simp

text \<open>
  Submitting a proof asks for the latest block first. If that lies behind the deadline, nothing is
  submitted and the answer is empty; otherwise (also when the height is unknown) there are at most
  three attempts, all but the last of which failed; the answer is the hash of the last attempt, and it is empty
  only after three failures.
\<close>

theorem submitServiceProof_attempts:
  assumes "submitServiceProof E p slip w = ((hash, err), w')"
  shows "\<exists>b tries. w_hist w' = w_hist w @ EvGetBlockLatest b # map (EvSubmitServiceProof p) tries
    \<and> list_all (\<lambda>t. fst t = []) (butlast tries)
    \<and> (if \<exists>n. b = Inr n \<and> slip < n then tries = [] \<and> hash = [] \<and> err \<noteq> None
       else tries \<noteq> [] \<and> length tries \<le> 3
         \<and> (if hash = [] then length tries = 3 \<and> fst (last tries) = [] else last tries = (hash, err)))"
proof -
  let ?b = "x_GetBlockLatest E (w_hist w)"
  let ?w1 = "log_event (EvGetBlockLatest ?b) w"
  show ?thesis
  proof (cases "\<exists>n. ?b = Inr n \<and> slip < n")
    case True
    then show ?thesis using assms
      by (intro exI [of _ ?b] exI [of _ "[]"]) (auto simp: submitServiceProof_def GetBlockLatest_def Let_def frame_simps)
  next
    case False
    then have "submit_proof_loop E p 3 ?w1 = ((hash, err), w')"
      using assms by (auto simp: submitServiceProof_def GetBlockLatest_def Let_def split: sum.splits)
    from submit_proof_loop_tries [OF this] obtain tries where "w_hist w' = w_hist ?w1 @ map (EvSubmitServiceProof p) tries"
      "tries \<noteq> []" "length tries \<le> 3" "list_all (\<lambda>t. fst t = []) (butlast tries)"
      "if hash = [] then length tries = 3 \<and> fst (last tries) = [] else last tries = (hash, err)" by auto
    then show ?thesis using False
      by (intro exI [of _ ?b] exI [of _ tries]) (simp add: frame_simps)
  qed
qed

theorem submitServiceProof_attempts_witness:
  "\<exists>b tries. w_hist (snd (submitServiceProof late_env ''p'' 50 demo_world)) = EvGetBlockLatest b # map (EvSubmitServiceProof ''p'') tries
     \<and> (if \<exists>n. b = Inr n \<and> 50 < n then tries = [] else tries \<noteq> [])"
proof -
  obtain hash err w' where run: "submitServiceProof late_env ''p'' 50 demo_world = ((hash, err), w')"
    by (metis prod.exhaust)
  have "w_hist demo_world = []" by (simp add: demo_world_def)
  with submitServiceProof_attempts [OF run] run show ?thesis by (metis append_Nil snd_conv)
qed

text \<open>A verifier is asked only while the height last read lies before the deadline.\<close>

fun in_time :: "u32 \<Rightarrow> u32 result option \<Rightarrow> event list \<Rightarrow> bool" where
  "in_time slip height [] = True"
| "in_time slip height (EvGetBlockLatest b # h) = in_time slip (Some b) h"
| "in_time slip height (EvRequestBatchVerify a b c r # h) =
     ((case height of Some (Inr n) \<Rightarrow> n < slip | _ \<Rightarrow> False) \<and> in_time slip height h)"
| "in_time slip height (e # h) = in_time slip height h"

lemma batch_tee_loop_in_time:
  assumes "n < slip"
  shows "\<exists>h. w_hist (snd (batch_tee_loop E rq tees w)) = w_hist w @ h
    \<and> (\<forall>g. in_time slip (Some (Inr n)) g \<longrightarrow> in_time slip (Some (Inr n)) (h @ g))"
proof (induction tees arbitrary: w)
  case (Cons t tees)
  obtain a w1 where c: "RequestBatchVerify E t (use_tls t) rq w = (a, w1)" by fastforce
  then obtain h1 where h1: "w_hist w1 = w_hist w @ h1" "\<And>g. in_time slip (Some (Inr n)) g \<Longrightarrow> in_time slip (Some (Inr n)) (h1 @ g)"
    using assms by (auto simp: com_defs rpc_RequestBatchVerify_def Let_def frame_simps split: option.splits)
  from Cons [of w1] obtain h2 where h2: "w_hist (snd (batch_tee_loop E rq tees w1)) = w_hist w1 @ h2"
    "\<And>g. in_time slip (Some (Inr n)) g \<Longrightarrow> in_time slip (Some (Inr n)) (h2 @ g)" by blast
  show ?case
  proof (cases a)
    case (Inl e)
    then show ?thesis using c h1 h2 by (intro exI [of _ "h1 @ h2"]) auto
  next
    case (Inr r)
    then show ?thesis using c h1 by auto
  qed
qed auto

text \<open>
  Having proofs verified never contacts a worker at or behind the deadline, nor while the height
  is unknown, however the chain answers and however long the loop runs.
\<close>

theorem requestBatchVerify_in_time:
  "\<exists>h. w_hist (outcome_state (requestBatchVerify E fuel rq tee slip w)) = w_hist w @ h \<and> in_time slip None h"
proof -
  have "\<exists>h. w_hist (outcome_state (batch_verify_loop E fuel rq tees slip w)) = w_hist w @ h \<and> in_time slip s h" for s tees w
  proof (induction fuel arbitrary: w s)
    case (Suc fuel)
    obtain b w1 where g: "GetBlockLatest E w = (b, w1)" by fastforce
    then have h1: "w_hist w1 = w_hist w @ [EvGetBlockLatest b]" by (auto simp: GetBlockLatest_def Let_def frame_simps)
    show ?case
    proof (cases "\<exists>n. b = Inr n \<and> n < slip")
      case True
      then obtain n where n: "b = Inr n" "n < slip" by blast
      obtain r w2 where l: "batch_tee_loop E rq tees w1 = (r, w2)" by fastforce
      with batch_tee_loop_in_time [OF n(2), of E rq tees w1] obtain h2 where h2: "w_hist w2 = w_hist w1 @ h2"
        "\<And>g. in_time slip (Some (Inr n)) g \<Longrightarrow> in_time slip (Some (Inr n)) (h2 @ g)" by auto
      have "\<exists>h. w_hist (outcome_state (batch_verify_loop E (Suc fuel) rq tees slip w)) = w_hist w2 @ h \<and> in_time slip (Some (Inr n)) h"
        using Suc.IH [of w2 "Some (Inr n)"] g l n by (auto simp: not_le split: option.split)
      then obtain h where "w_hist (outcome_state (batch_verify_loop E (Suc fuel) rq tees slip w)) = w_hist w2 @ h"
        "in_time slip (Some (Inr n)) h" by blast
      then show ?thesis using h1 h2 n by (intro exI [of _ "EvGetBlockLatest b # h2 @ h"]) simp
    next
      case False
      then have "\<exists>h. w_hist (outcome_state (batch_verify_loop E (Suc fuel) rq tees slip w)) = w_hist w1 @ h \<and> in_time slip (Some b) h"
        using Suc.IH [of w1 "Some b"] g by (auto simp: not_less split: sum.split)
      then obtain h where "w_hist (outcome_state (batch_verify_loop E (Suc fuel) rq tees slip w)) = w_hist w1 @ h"
        "in_time slip (Some b) h" by blast
      then show ?thesis using h1 by (intro exI [of _ "EvGetBlockLatest b # h"]) simp
    qed
  qed simp
  then show ?thesis by (simp add: requestBatchVerify_def)
qed

end
