(* ===== verification/BatchLaws.thy ===== *)
theory BatchLaws
  imports ServiceLaws
begin

text \<open>
  How the proofs of many fragments are cut into batches, and what is sent to the verifiers.
\<close>

subsection \<open>The size of a batch\<close>

lemma batch_quantity_nat:
  "unat (calcBatchQuantity tot) = unat tot div (unat tot div 5000 + 1) + 1"
  "unat tot div (unat tot div 5000 + 1) < 5000"
proof -
  let ?t = "unat tot" and ?k = "unat tot div 5000 + 1"
  have t: "?t < 2 ^ 64" using unsigned_less [of tot] by simp
  show b: "?t div ?k < 5000"
  proof -
    have "?t < 5000 * ?k" by simp
    then show ?thesis by (simp add: less_mult_imp_div_less)
  qed
  have d: "unat (tot div maxNumberOfSingleVerification) = ?t div 5000"
    by (simp add: maxNumberOfSingleVerification_def unat_div)
  have k: "unat (tot div maxNumberOfSingleVerification + 1) = ?k"
    using t d by (simp add: unat_word_ariths)
  have "unat (tot div (tot div maxNumberOfSingleVerification + 1) + 1) = ?t div ?k + 1"
    using b k by (simp add: unat_word_ariths unat_div)
  moreover have "?t div ?k + 1 < 2 ^ 32" using b by simp
  ultimately show "unat (calcBatchQuantity tot) = ?t div ?k + 1"
    by (simp add: calcBatchQuantity_def unsigned_ucast_eq take_bit_nat_eq_self)
qed

text \<open>
  The size of a batch is positive and at most 5000 for every number of fragments a 64-bit counter can hold, and
  it is enough: one batch more than \<open>tot / 5000\<close> holds all fragments. No step of the computation
  overflows, the narrowing to 32 bits included.
\<close>

theorem calcBatchQuantity_bounds:
  "0 < calcBatchQuantity tot \<and> calcBatchQuantity tot \<le> 5000
    \<and> unat tot < (unat tot div 5000 + 1) * unat (calcBatchQuantity tot)"
proof -
  let ?t = "unat tot" and ?q = "calcBatchQuantity tot"
  have "0 < unat ?q" "unat ?q \<le> 5000" using batch_quantity_nat [of tot] by simp_all
  then have "0 < ?q" "?q \<le> 5000" by (simp_all add: unat_gt_0 word_less_nat_alt word_le_nat_alt)
  moreover have "?t < (?t div 5000 + 1) * unat ?q"
  proof -
    have "?t < (?t div 5000 + 1) * (?t div (?t div 5000 + 1) + 1)"
      using dividend_less_times_div [of "?t div 5000 + 1" ?t] by (simp add: algebra_simps)
    then show ?thesis by (simp add: batch_quantity_nat(1))
  qed
  ultimately show ?thesis by blast
qed

subsection \<open>What is sent\<close>

fun answered :: "event \<Rightarrow> (string \<times> requestBatchVerify) list" where
  "answered (TeeEvent (RequestBatchVerify_ev tee tls rq (Inr resp))) = [(tee, rq)]"
| "answered e = []"

definition sent :: "event list \<Rightarrow> (string \<times> requestBatchVerify) list" where
  "sent h = concat (map answered h)"

lemma sent_simps [simp]: "sent [] = []" "sent (e # h) = answered e @ sent h" "sent (g @ h) = sent g @ sent h"
  by (simp_all add: sent_def)







text \<open>A proof in hand is a tag body, the signature for the user, and the answer of \<^verbatim>\<open>GenProof\<close>. What is collected, and what is
  sent, holds such proofs in order, and the aggregate of their \<open>sigma\<close>s.\<close>

type_synonym madeProof = "pbT \<times> bytes \<times> genProofResponse"

fun aggr_from :: "env \<Rightarrow> string \<Rightarrow> madeProof list \<Rightarrow> string option" where
  "aggr_from E s [] = Some s"
| "aggr_from E s ((t, usig, resp) # ps) =
     (case n_AggrAppendProof E s (gp_Sigma resp) of Some (s', True) \<Rightarrow> aggr_from E s' ps | _ \<Rightarrow> None)"

definition acc_holds :: "env \<Rightarrow> madeProof list \<Rightarrow> proofAcc \<Rightarrow> bool" where
  "acc_holds E ps a \<longleftrightarrow> pa_names a = map (\<lambda>(t, usig, resp). T_Name t) ps \<and> pa_us a = map (\<lambda>(t, usig, resp). T_U t) ps
     \<and> pa_mus a = map (\<lambda>(t, usig, resp). gp_MU resp) ps \<and> pa_usig a = map (\<lambda>(t, usig, resp). usig) ps
     \<and> aggr_from E [] ps = Some (pa_sigma a)"



lemma acc_holds_empty [simp]: "acc_holds E [] empty_acc"
  by (simp add: acc_holds_def empty_acc_def)





















end
