(* ===== verification/IdleChal.thy ===== *)
theory IdleChal
  imports NodeWorld
begin

text \<open>
  The challenge on idle space (\<^verbatim>\<open>src/node/chlgidle.go\<close>): proving the idle files segment by segment,
  having a TEE worker verify the segments and the total, and submitting proof and result.

  As in the challenge on service data, waiting loops take a number of rounds (fuel) and running out of them
  is \<open>Spin\<close>. The space prover is outside the miner: \<^verbatim>\<open>SetChallengeState\<close>, the challenge handle and
  \<^verbatim>\<open>ProveSpace\<close> are calls of the environment.
\<close>

subsection \<open>Submitting\<close>

fun idle_proof_loop :: "env \<Rightarrow> bytes \<Rightarrow> nat \<Rightarrow> world \<Rightarrow> (string \<times> goerr option) \<times> world" where
  "idle_proof_loop E idleProof 0 w = (([], Some (mk_err ''submitIdleProof failed'')), w)"
| "idle_proof_loop E idleProof (Suc n) w =
     (case SubmitIdleProof E idleProof w of
        ((blockHash, err), w1) \<Rightarrow>
          (if blockHash \<noteq> [] then ((blockHash, err), w1) else idle_proof_loop E idleProof n w1))"

definition submitIdleProof :: "env \<Rightarrow> bytes \<Rightarrow> u32 \<Rightarrow> world \<Rightarrow> (string \<times> goerr option) \<times> world" where
  "submitIdleProof E idleProof slip w =
     (case GetBlockLatest E w of
        (Inr number, w1) \<Rightarrow>
          (if slip < number then (([], Some (mk_err ''challenge expired'')), w1)
           else idle_proof_loop E idleProof 3 w1)
      | (Inl e, w1) \<Rightarrow> idle_proof_loop E idleProof 3 w1)"

text \<open>The arguments of \<^verbatim>\<open>SubmitVerifyIdleResult\<close>.\<close>

record idleResult =
  ir_proof :: bytes
  ir_front :: u64
  ir_rear :: u64
  ir_acc :: bytes
  ir_result :: bool
  ir_sig :: bytes
  ir_teePuk :: workerPublicKey

definition send_idle_result :: "env \<Rightarrow> idleResult \<Rightarrow> world \<Rightarrow> (string \<times> goerr option) \<times> world" where
  "send_idle_result E r w =
     SubmitVerifyIdleResult E (ir_proof r) (ir_front r) (ir_rear r) (ir_acc r) (ir_result r) (ir_sig r) (ir_teePuk r) w"

fun idle_result_loop :: "env \<Rightarrow> idleResult \<Rightarrow> nat \<Rightarrow> world \<Rightarrow> (string \<times> goerr option) \<times> world" where
  "idle_result_loop E r 0 w = (([], Some (mk_err ''submitIdleProof failed'')), w)"
| "idle_result_loop E r (Suc n) w =
     (case send_idle_result E r w of
        ((blockhash, err), w1) \<Rightarrow>
          (if blockhash \<noteq> [] then ((blockhash, err), w1) else idle_result_loop E r n w1))"

definition submitIdleResult :: "env \<Rightarrow> idleResult \<Rightarrow> u32 \<Rightarrow> world \<Rightarrow> (string \<times> goerr option) \<times> world" where
  "submitIdleResult E r verifySlip w =
     (case GetBlockLatest E w of
        (Inr number, w1) \<Rightarrow>
          (if verifySlip < number then (([], Some (mk_err ''challenge verify expired'')), w1)
           else idle_result_loop E r 3 w1)
      | (Inl e, w1) \<Rightarrow> idle_result_loop E r 3 w1)"

subsection \<open>Verification by a TEE worker\<close>

fun verifyIdleSingleBlock ::
  "env \<Rightarrow> string \<Rightarrow> bool \<Rightarrow> requestSpaceProofVerify \<Rightarrow> fileBlockProofInfo list \<Rightarrow> blocksProof list \<Rightarrow> world
     \<Rightarrow> blocksProof list result \<times> world" where
  "verifyIdleSingleBlock E teeEndpoint tls req [] acc w = (Inr acc, w)"
| "verifyIdleSingleBlock E teeEndpoint tls req (b # bs) acc w =
     (let req' = req\<lparr>rs_Proof := Some (fb_SpaceProof b), rs_Sig := fb_ProofHashSign b\<rparr> in
      case RequestSpaceProofVerifySingleBlock E teeEndpoint tls req' w of
        (Inl e, w1) \<Rightarrow> (Inl (mk_err (''[RequestSpaceProofVerifySingleBlock] '' @ err_msg e)), w1)
      | (Inr sig, w1) \<Rightarrow>
          verifyIdleSingleBlock E teeEndpoint tls req' bs
            (acc @ [\<lparr>bp_SpaceProofHash = fb_ProofHashSignOrigin b, bp_Left = fb_FileBlockFront b,
                     bp_Right = fb_FileBlockRear b, bp_Signature = sig\<rparr>]) w1)"

type_synonym idleVerdict = "bytes \<times> workerPublicKey \<times> bool"

text \<open>The loop over the workers (lines 427 to 489). The local copy of the record collects the block
  proofs of every worker that was asked and is saved each time.\<close>

fun idle_tee_loop ::
  "env \<Rightarrow> requestSpaceProofVerify \<Rightarrow> requestSpaceProofVerifyTotal \<Rightarrow> string list \<Rightarrow> idleProofInfo \<Rightarrow> world
     \<Rightarrow> (idleVerdict option \<times> idleProofInfo) \<times> world" where
  "idle_tee_loop E req tot [] rec w = ((None, rec), w)"
| "idle_tee_loop E req tot (t # ts) rec w =
     (case GetTeePubkeyByEndpoint (e_ord E) (w_tee w) t of
        Inl e \<Rightarrow> idle_tee_loop E req tot ts rec w
      | Inr pk \<Rightarrow>
          (case BytesToWorkPublickey (e_sdk E) pk of
             (_, Some e) \<Rightarrow> idle_tee_loop E req tot ts rec w
           | (pkchain, None) \<Rightarrow>
               (case verifyIdleSingleBlock E t (use_tls t) req (ip_FileBlockProofInfo rec) [] w of
                  (Inl e, w1) \<Rightarrow> idle_tee_loop E req tot ts rec w1
                | (Inr blockProofs, w1) \<Rightarrow>
                    (let rec1 = rec\<lparr>ip_BlocksProof := ip_BlocksProof rec @ blockProofs\<rparr>;
                         w2 = snd (saveIdle E rec1 w1)
                     in case RequestVerifySpaceTotal E t (use_tls t) (tot\<lparr>rst_ProofList := blockProofs\<rparr>) w2 of
                          (Inl e, w3) \<Rightarrow> idle_tee_loop E req tot ts rec1 w3
                        | (Inr resp, w3) \<Rightarrow>
                            (if length (rvt_Signature resp) \<noteq> TeeSigLen (e_sdk E)
                             then idle_tee_loop E req tot ts rec1 w3
                             else ((Some (rvt_Signature resp, pkchain, rvt_IdleResult resp), rec1), w3))))))"

fun idle_verify_loop ::
  "env \<Rightarrow> nat \<Rightarrow> requestSpaceProofVerify \<Rightarrow> requestSpaceProofVerifyTotal \<Rightarrow> string list \<Rightarrow> u32 \<Rightarrow> idleProofInfo \<Rightarrow> world
     \<Rightarrow> (world, idleVerdict result) outcome" where
  "idle_verify_loop E 0 req tot ctees verifySlip rec w = Spin w"
| "idle_verify_loop E (Suc fuel) req tot ctees verifySlip rec w =
     (case GetBlockLatest E w of
        (latest, w1) \<Rightarrow>
          (if (case latest of Inr number \<Rightarrow> verifySlip \<le> number | Inl _ \<Rightarrow> False)
           then Ret (Inl (mk_err ''challenge verify expired'')) w1
           else
             (case idle_tee_loop E req tot ctees rec w1 of
                ((Some v, _), w2) \<Rightarrow> Ret (Inr v) w2
              | ((None, rec'), w2) \<Rightarrow> idle_verify_loop E fuel req tot ctees verifySlip rec' w2)))"

definition verifyIdleProof ::
  "env \<Rightarrow> nat \<Rightarrow> i64 \<Rightarrow> i64 \<Rightarrow> minerPoisInfo \<Rightarrow> idleProofInfo \<Rightarrow> bytes \<Rightarrow> i64 list \<Rightarrow> u32 \<Rightarrow> world
     \<Rightarrow> (world, idleVerdict result) outcome" where
  "verifyIdleProof E fuel minerChallFront minerChallRear poisInfo rec acc challRandom verifySlip w =
     idle_verify_loop E fuel
       \<lparr>rs_SpaceChals = ip_ChallRandom rec, rs_MinerId = e_acc E, rs_PoisInfo = poisInfo, rs_Proof = None, rs_Sig = []\<rparr>
       \<lparr>rst_MinerId = e_acc E, rst_Front = minerChallFront, rst_Rear = minerChallRear, rst_Acc = acc,
        rst_SpaceChals = challRandom, rst_ProofList = []\<rparr>
       (GetAllVerifierTeeEndpoint (e_sdk E) (e_ord E) (w_tee w)) verifySlip rec w"

subsection \<open>Proving\<close>

text \<open>Lines 211 to 230: exactly four nodes of a witness chain are copied; a shorter chain is a nil
  dereference.\<close>

definition witness_pb :: "accWitness \<Rightarrow> accWitness option" where
  "witness_pb a =
     Option.bind (aw_Acc a) (\<lambda>b. Option.bind (aw_Acc b) (\<lambda>c. Option.bind (aw_Acc c) (\<lambda>d.
       Some (AccWitness (aw_Elem a) (aw_Wit a) (Some (AccWitness (aw_Elem b) (aw_Wit b)
         (Some (AccWitness (aw_Elem c) (aw_Wit c) (Some (AccWitness (aw_Elem d) (aw_Wit d) None))))))))))"

fun all_witnesses :: "accWitness list \<Rightarrow> accWitness list option" where
  "all_witnesses [] = Some []"
| "all_witnesses (a # as) = Option.bind (witness_pb a) (\<lambda>b. map_option (\<lambda>bs. b # bs) (all_witnesses as))"

definition space_proof_pb :: "spaceProof \<Rightarrow> spaceProof option" where
  "space_proof_pb p = map_option (\<lambda>ws. p\<lparr>sp_WitChains := ws\<rparr>) (all_witnesses (sp_WitChains p))"

text \<open>The loop of lines 182 to 268; \<open>None\<close> is one of the returns on an error.\<close>

fun idle_prove_loop ::
  "env \<Rightarrow> nat \<Rightarrow> i64 list \<Rightarrow> bytes \<Rightarrow> bytes \<Rightarrow> fileBlockProofInfo list \<Rightarrow> world
     \<Rightarrow> (world, (bytes \<times> fileBlockProofInfo list) option) outcome" where
  "idle_prove_loop E 0 challRandom previousHash idleproof infos w = Spin w"
| "idle_prove_loop E (Suc fuel) challRandom previousHash idleproof infos w =
     (case ChallengeHandle E challRandom previousHash w of
        ((left, right), w1) \<Rightarrow>
          (if left = right then Ret (Some (idleproof, infos)) w1
           else
             (case ProveSpace E challRandom left right w1 of
                (Inl e, w2) \<Rightarrow> Ret None w2
              | (Inr spaceProof, w2) \<Rightarrow>
                  (case space_proof_pb spaceProof of
                     None \<Rightarrow> Panic w2
                   | Some proof \<Rightarrow>
                       (case marshal_space_proof (e_sdk E) proof of
                          Inl e \<Rightarrow> Ret None w2
                        | Inr b \<Rightarrow>
                            (let proofHash = sha256 (e_sdk E) b in
                             case Sign E proofHash w2 of
                               (Inl e, w3) \<Rightarrow> Ret None w3
                             | (Inr sign, w3) \<Rightarrow>
                                 idle_prove_loop E fuel challRandom proofHash (idleproof @ proofHash)
                                   (infos @ [\<lparr>fb_ProofHashSign = sign, fb_ProofHashSignOrigin = proofHash,
                                              fb_SpaceProof = proof, fb_FileBlockFront = left,
                                              fb_FileBlockRear = right\<rparr>]) w3))))))"

subsection \<open>The handler\<close>

definition idle_proof_key :: "u32 \<Rightarrow> bytes" where
  "idle_proof_key c = Prefix_idle_chall_proof @ show_nat (unat c)"

definition idle_result_key :: "u32 \<Rightarrow> bytes" where
  "idle_result_key c = Prefix_idle_chall_result @ show_nat (unat c)"

text \<open>Submit the proof unless the cache shows it as submitted (lines 57 to 68 with \<open>f\<close> clearing
  \<^verbatim>\<open>CanSubmintResult\<close>, lines 283 to 294 with \<open>f\<close> clearing \<^verbatim>\<open>CanSubmintProof\<close>).\<close>

definition idle_submit_proof ::
  "env \<Rightarrow> bytes \<Rightarrow> u32 \<Rightarrow> u32 \<Rightarrow> (idleProofInfo \<Rightarrow> idleProofInfo) \<Rightarrow> idleProofInfo \<Rightarrow> world \<Rightarrow> idleProofInfo \<times> world" where
  "idle_submit_proof E proof challStart slip f rec w =
     (case db_Get E (idle_proof_key challStart) w of
        (Inr _, w1) \<Rightarrow> (rec, w1)
      | (Inl _, w1) \<Rightarrow>
          (case submitIdleProof E proof slip w1 of
             ((blockhash, _), w2) \<Rightarrow>
               (if blockhash \<noteq> [] then
                  (let w3 = snd (db_Put E (idle_proof_key challStart) ''true'' w2)
                   in (f rec, snd (saveIdle E (f rec) w3)))
                else (rec, w2))))"

definition idle_submit_result :: "env \<Rightarrow> idleResult \<Rightarrow> u32 \<Rightarrow> u32 \<Rightarrow> idleProofInfo \<Rightarrow> world \<Rightarrow> world" where
  "idle_submit_result E r challStart verifySlip rec w =
     (case submitIdleResult E r verifySlip w of
        ((blockhash, _), w1) \<Rightarrow>
          (if blockhash \<noteq> []
           then snd (saveIdle E (rec\<lparr>ip_CanSubmintResult := False\<rparr>) (snd (db_Put E (idle_result_key challStart) ''true'' w1)))
           else w1))"

text \<open>A record of this challenge exists (lines 57 to 105).\<close>

definition idle_resume :: "env \<Rightarrow> idleProofInfo \<Rightarrow> u32 \<Rightarrow> u32 \<Rightarrow> u32 \<Rightarrow> world \<Rightarrow> (world, unit) outcome" where
  "idle_resume E rec challStart slip verifySlip w =
     (case idle_submit_proof E (ip_IdleProof rec) challStart slip (\<lambda>r. r\<lparr>ip_CanSubmintResult := False\<rparr>) rec w of
        (rec1, w1) \<Rightarrow>
          (case db_Get E (idle_result_key challStart) w1 of
             (Inr _, w2) \<Rightarrow> Ret () w2
           | (Inl _, w2) \<Rightarrow>
               (if ip_TotalSignature rec1 = [] then Ret () w2
                else if length (ip_Acc rec1) < AccumulatorLen (e_sdk E) then Panic w2
                else
                  Ret () (idle_submit_result E
                    \<lparr>ir_proof = ip_IdleProof rec1, ir_front = ip_ChainFront rec1, ir_rear = ip_ChainRear rec1,
                     ir_acc = take (AccumulatorLen (e_sdk E)) (ip_Acc rec1), ir_result = ip_IdleResult rec1,
                     ir_sig = ip_TotalSignature rec1, ir_teePuk = ip_AllocatedTeeWorkpuk rec1\<rparr>
                    challStart verifySlip rec1 w2))))"

text \<open>Lines 163 to 180: no idle files; the empty proof stands for proof and result.\<close>

definition idle_empty :: "env \<Rightarrow> u32 \<Rightarrow> u32 \<Rightarrow> idleProofInfo \<Rightarrow> world \<Rightarrow> world" where
  "idle_empty E challStart slip rec w =
     (let rec0 = rec\<lparr>ip_IdleProof := []\<rparr> in
      case db_Get E (idle_proof_key challStart) w of
        (Inr _, w1) \<Rightarrow> snd (saveIdle E rec0 w1)
      | (Inl _, w1) \<Rightarrow>
          (case submitIdleProof E [] slip w1 of
             ((blockhash, _), w2) \<Rightarrow>
               (if blockhash \<noteq> [] then
                  (let w3 = snd (db_Put E (idle_proof_key challStart) ''true'' w2);
                       w4 = snd (db_Put E (idle_result_key challStart) ''true'' w3)
                   in snd (saveIdle E (rec0\<lparr>ip_CanSubmintProof := False, ip_CanSubmintResult := False\<rparr>) w4))
                else snd (saveIdle E rec0 w2))))"

text \<open>Lines 269 to 327: the proof is the hash of the concatenated segment hashes.\<close>

definition idle_finish ::
  "env \<Rightarrow> nat \<Rightarrow> u32 \<Rightarrow> u32 \<Rightarrow> u32 \<Rightarrow> i64 \<Rightarrow> i64 \<Rightarrow> minerPoisInfo \<Rightarrow> bytes \<Rightarrow> i64 list \<Rightarrow> bytes \<Rightarrow> fileBlockProofInfo list
     \<Rightarrow> idleProofInfo \<Rightarrow> world \<Rightarrow> (world, unit) outcome" where
  "idle_finish E fuel challStart slip verifySlip front rear poisInfo acc challRandom idleproof infos rec w =
     (let idleProof = sha256 (e_sdk E) idleproof;
          rec1 = rec\<lparr>ip_FileBlockProofInfo := infos, ip_IdleProof := idleProof\<rparr>
      in case idle_submit_proof E idleProof challStart slip (\<lambda>r. r\<lparr>ip_CanSubmintProof := False\<rparr>) rec1
                (snd (saveIdle E rec1 w)) of
           (rec2, w1) \<Rightarrow>
             (case db_Get E (idle_proof_key challStart) w1 of
                (Inl _, w2) \<Rightarrow> Ret () w2
              | (Inr _, w2) \<Rightarrow>
                  andThen (verifyIdleProof E fuel front rear poisInfo rec2 acc challRandom verifySlip w2) (\<lambda>r w3.
                    case r of
                      Inl e \<Rightarrow> Ret () w3
                    | Inr (teeSignBytes, pkchain, result) \<Rightarrow>
                        (let rec3 = rec2\<lparr>ip_AllocatedTeeWorkpuk := pkchain, ip_IdleResult := result,
                                         ip_TotalSignature := teeSignBytes\<rparr>
                         in Ret () (idle_submit_result E
                              \<lparr>ir_proof = idleProof, ir_front = ip_ChainFront rec3, ir_rear = ip_ChainRear rec3,
                               ir_acc = acc, ir_result = result, ir_sig = teeSignBytes, ir_teePuk = pkchain\<rparr>
                              challStart verifySlip rec3 (snd (saveIdle E rec3 w3)))))))"

definition idle_fresh ::
  "env \<Rightarrow> nat \<Rightarrow> u32 \<Rightarrow> u32 \<Rightarrow> u32 \<Rightarrow> i64 \<Rightarrow> i64 \<Rightarrow> i64 list \<Rightarrow> bytes \<Rightarrow> bytes \<Rightarrow> idleProofInfo \<Rightarrow> world \<Rightarrow> (world, unit) outcome" where
  "idle_fresh E fuel challStart slip verifySlip front rear spaceChallengeParam acc teeSign rec w =
     (let w0 = on_run (SetIdleChallenging True) w;
          rec0 = rec\<lparr>ip_Start := challStart, ip_ChainFront := front, ip_ChainRear := rear, ip_CanSubmintProof := True,
                     ip_CanSubmintResult := True, ip_IdleResult := False, ip_TotalSignature := [],
                     ip_FileBlockProofInfo := [], ip_BlocksProof := [], ip_Acc := acc\<rparr>;
          poisInfo = \<lparr>mpi_Acc = acc, mpi_Front = front, mpi_Rear = rear, mpi_KeyN = e_keyN E, mpi_KeyG = e_keyG E,
                      mpi_StatusTeeSign = teeSign\<rparr>
      in if e_rsaN E = None then Ret () w0
         else
           (case SetChallengeState E acc front rear w0 of
              (Some e, w1) \<Rightarrow> Ret () w1
            | (None, w1) \<Rightarrow>
                (let rec1 = rec0\<lparr>ip_ChallRandom := spaceChallengeParam\<rparr> in
                 if front = rear then Ret () (idle_empty E challStart slip rec1 w1)
                 else
                   andThen (idle_prove_loop E fuel spaceChallengeParam [] [] [] w1) (\<lambda>r w2.
                     case r of
                       None \<Rightarrow> Ret () w2
                     | Some (idleproof, infos) \<Rightarrow>
                         idle_finish E fuel challStart slip verifySlip front rear poisInfo acc spaceChallengeParam
                           idleproof infos rec1 w2))))"

definition idle_body ::
  "env \<Rightarrow> nat \<Rightarrow> u32 \<Rightarrow> u32 \<Rightarrow> u32 \<Rightarrow> i64 \<Rightarrow> i64 \<Rightarrow> i64 list \<Rightarrow> bytes \<Rightarrow> bytes \<Rightarrow> world \<Rightarrow> (world, unit) outcome" where
  "idle_body E fuel challStart slip verifySlip front rear spaceChallengeParam acc teeSign w =
     (case LoadIdleProve (e_sdk E) (w_fs w) (w_ws w) of
        (rec, Some _) \<Rightarrow> idle_fresh E fuel challStart slip verifySlip front rear spaceChallengeParam acc teeSign rec w
      | (rec, None) \<Rightarrow>
          (if ip_Start rec = challStart then idle_resume E rec challStart slip verifySlip w
           else
             (let w1 = snd (on_fs (\<lambda>fs. os_Remove fs (GetIdleProve (w_ws w))) w);
                  w2 = snd (db_Delete E (idle_proof_key (ip_Start rec)) w1);
                  w3 = snd (db_Delete E (idle_result_key (ip_Start rec)) w2)
              in idle_fresh E fuel challStart slip verifySlip front rear spaceChallengeParam acc teeSign rec w3)))"

definition idleChallenge ::
  "env \<Rightarrow> nat \<Rightarrow> u32 \<Rightarrow> u32 \<Rightarrow> u32 \<Rightarrow> i64 \<Rightarrow> i64 \<Rightarrow> i64 list \<Rightarrow> bytes \<Rightarrow> bytes \<Rightarrow> world \<Rightarrow> (world, unit) outcome" where
  "idleChallenge E fuel challStart slip verifySlip front rear spaceChallengeParam acc teeSign w =
     (case idle_body E fuel challStart slip verifySlip front rear spaceChallengeParam acc teeSign w of
        Ret _ w' \<Rightarrow> Ret () (on_run (SetIdleChallenging False) w')
      | Panic w' \<Rightarrow> Ret () (on_run (SetIdleChallenging False) w')
      | Spin w' \<Rightarrow> Spin w')"

end
