(* ===== verification/IdleLaws.thy ===== *)
theory IdleLaws
  imports IdleChal Runs
begin

text \<open>
  What the challenge on idle space promises: what it adds to the trace and to the cache, that its
  proof commits to the segments in order, that it ends, and that it submits at most one accepted proof.
\<close>

subsection \<open>What the handler adds to the trace\<close>

fun space_service_event :: "tee_event \<Rightarrow> bool" where
  "space_service_event (RequestSpaceProofVerify_ev a b c r) = True"
| "space_service_event (RequestVerifySpaceTotal_ev a b c r) = True"
| "space_service_event _ = False"

fun idle_event :: "event \<Rightarrow> bool" where
  "idle_event (QueryEvent _) = True"
| "idle_event (MiscEvent _) = True"
| "idle_event (TxEvent _) = False"
| "idle_event (TeeEvent t) = space_service_event t"

locale idle_run = run_rel R idle_event for R :: "world \<Rightarrow> world \<Rightarrow> bool"
begin

lemma keeps_idle_calls:
  assumes "R w0 w"
  shows "R w0 (snd (GetBlockLatest E w))" "R w0 (snd (SetChallengeState E a f r w))" "R w0 (snd (ChallengeHandle E cr h w))"
    "R w0 (snd (ProveSpace E cr f r w))" "R w0 (snd (Sign E h w))"
    "R w0 (snd (RequestSpaceProofVerifySingleBlock E t tls rq w))" "R w0 (snd (RequestVerifySpaceTotal E t tls rq' w))"
  by (auto simp: GetBlockLatest_def SetChallengeState_def ChallengeHandle_def ProveSpace_def Sign_def com_defs
      rpc_RequestSpaceProofVerify_def rpc_RequestVerifySpaceTotal_def Let_def assms intro!: keeps_event [OF assms]
      split: option.split)

lemma keeps_verifyIdleSingleBlock: "R w0 w \<Longrightarrow> R w0 (snd (verifyIdleSingleBlock E t tls req bs acc w))"
proof (induction bs arbitrary: req acc w)
  case (Cons b bs)
  show ?case using Cons.prems
    by (auto simp: Let_def case_prod_beta intro!: Cons.IH keeps_idle_calls split: sum.split)
qed simp

lemma keeps_idle_tee_loop: "R w0 w \<Longrightarrow> R w0 (snd (idle_tee_loop E req tot ts rec w))"
proof (induction ts arbitrary: rec w)
  case (Cons t ts)
  show ?case using Cons.prems
    by (auto simp: Let_def case_prod_beta
        intro!: Cons.IH keeps_idle_calls keeps_fs keeps_verifyIdleSingleBlock split: sum.split option.split)
qed simp

lemma keeps_verifyIdleProof: "R w0 w \<Longrightarrow> R w0 (outcome_state (verifyIdleProof E fuel f r p rec a cr vs w))"
proof -
  have "R w0 (outcome_state (idle_verify_loop E fuel req tot ts vs rec w))" if "R w0 w" for req tot ts rec w
    using that
  proof (induction fuel arbitrary: rec w)
    case (Suc fuel)
    show ?case using Suc.prems
      by (auto simp: case_prod_beta intro!: Suc.IH keeps_idle_calls keeps_idle_tee_loop split: option.split)
  qed simp
  then show "R w0 w \<Longrightarrow> ?thesis" by (simp add: verifyIdleProof_def)
qed

lemma keeps_idle_prove_loop: "R w0 w \<Longrightarrow> R w0 (outcome_state (idle_prove_loop E fuel cr h ip infos w))"
proof (induction fuel arbitrary: h ip infos w)
  case (Suc fuel)
  show ?case using Suc.prems
    by (auto simp: Let_def case_prod_beta intro!: Suc.IH keeps_idle_calls split: sum.split option.split)
qed simp

end

locale idle_handler = idle_run R for R :: "world \<Rightarrow> world \<Rightarrow> bool" +
  fixes E :: env and c :: u32
  assumes R_Get: "R w (snd (db_Get E k w))"
    and R_forget: "s \<noteq> c \<Longrightarrow> R w (snd (db_Delete E (idle_proof_key s) w))"
      "s \<noteq> c \<Longrightarrow> R w (snd (db_Delete E (idle_result_key s) w))"
    and R_submit_proof: "R w (snd (idle_submit_proof E p c slip f rec w))"
    and R_submit_result: "R w (idle_submit_result E r c vslip rec w)"
    and R_empty: "R w (idle_empty E c slip rec w)"
begin

lemma keeps_steps:
  assumes "R w0 w"
  shows "R w0 (snd (db_Get E k w))" "R w0 (snd (idle_submit_proof E p c slip f rec w))"
    "R w0 (idle_submit_result E r c vslip rec w)" "R w0 (idle_empty E c slip rec w)"
    "s \<noteq> c \<Longrightarrow> R w0 (snd (db_Delete E (idle_proof_key s) w))" "s \<noteq> c \<Longrightarrow> R w0 (snd (db_Delete E (idle_result_key s) w))"
  by (auto intro!: R_trans [OF assms] R_Get R_submit_proof R_submit_result R_empty R_forget)

lemma keeps_idle_finish:
  "R w0 w \<Longrightarrow> R w0 (outcome_state (idle_finish E fuel c slip vslip f r p a cr ip infos rec w))"
  by (auto simp: idle_finish_def Let_def case_prod_beta intro!: keeps_bind keeps_fs keeps_steps keeps_verifyIdleProof
      split: sum.split)

lemma keeps_idle_fresh: "R w0 w \<Longrightarrow> R w0 (outcome_state (idle_fresh E fuel c slip vslip f r cr a ts rec w))"
  by (auto simp: idle_fresh_def Let_def case_prod_beta intro!: keeps_bind keeps_run keeps_steps keeps_idle_calls
      keeps_idle_prove_loop keeps_idle_finish split: option.split)

lemma keeps_idle_resume: "R w0 w \<Longrightarrow> R w0 (outcome_state (idle_resume E rec c slip vslip w))"
  by (auto simp: idle_resume_def case_prod_beta intro!: keeps_steps split: sum.split)

lemma keeps_idleChallenge: "R w (outcome_state (idleChallenge E fuel c slip vslip f r cr a ts w))"
proof -
  have "R w (outcome_state (idle_body E fuel c slip vslip f r cr a ts w))"
    by (cases "LoadIdleProve (e_sdk E) (w_fs w) (w_ws w)"; cases "snd (LoadIdleProve (e_sdk E) (w_fs w) (w_ws w))";
        cases "ip_Start (fst (LoadIdleProve (e_sdk E) (w_fs w) (w_ws w))) = c")
      (simp_all add: idle_body_def Let_def keeps_fs keeps_steps R_refl keeps_idle_resume keeps_idle_fresh)
  then show ?thesis by (auto simp: idleChallenge_def intro!: keeps_run split: outcome.split)
qed

end

subsection \<open>Submissions and the cache\<close>

definition idle_hash_of_proof :: "event \<Rightarrow> string" where
  "idle_hash_of_proof e = (case e of TxEvent (SubmitIdleProof_ev p (hash, err)) \<Rightarrow> hash | _ \<Rightarrow> [])"

definition idle_hash_of_result :: "event \<Rightarrow> string" where
  "idle_hash_of_result e = (case e of TxEvent (SubmitVerifyIdleResult_ev a b c d f s t (hash, err)) \<Rightarrow> hash | _ \<Rightarrow> [])"

definition empty_idle_accepted :: "event \<Rightarrow> bool" where
  "empty_idle_accepted e = (case e of TxEvent (SubmitIdleProof_ev p (hash, err)) \<Rightarrow> p = [] \<and> hash \<noteq> [] | _ \<Rightarrow> False)"

fun idle_justified :: "u32 \<Rightarrow> event list \<Rightarrow> dbop \<Rightarrow> bool" where
  "idle_justified c h (DbPut k v r) \<longleftrightarrow>
     v = ''true'' \<and> (k = idle_proof_key c \<and> (\<exists>e \<in> set h. idle_hash_of_proof e \<noteq> [])
     \<or> k = idle_result_key c \<and> (\<exists>e \<in> set h. idle_hash_of_result e \<noteq> [] \<or> empty_idle_accepted e))"
| "idle_justified c h _ \<longleftrightarrow> True"

definition idle_all_justified :: "u32 \<Rightarrow> event list \<Rightarrow> dbop list \<Rightarrow> bool" where
  "idle_all_justified c h d \<longleftrightarrow> (\<forall>x \<in> set d. idle_justified c h x)"

lemma idle_justified_more: "idle_justified c h x \<Longrightarrow> idle_justified c (g @ h) x \<and> idle_justified c (h @ g) x"
  by (cases x) auto

interpretation idle_trace: quiet_trace "idle_all_justified c" idle_event for c
  by unfold_locales (auto simp: idle_all_justified_def idle_justified_more)

text \<open>The loop that submits: nothing is put, and a hash that is not empty is that of the last call.\<close>

lemma idle_proof_loop_last:
  "idle_proof_loop E p n w = ((hash, err), w1) \<Longrightarrow> adds (idle_all_justified c) w w1
     \<and> (hash \<noteq> [] \<longrightarrow> (\<exists>w'. adds (idle_all_justified c) w w' \<and> w1 = log_event (EvSubmitIdleProof p (hash, err)) w'))"
proof (induction n arbitrary: w)
  case (Suc n)
  obtain a e' where x: "x_SubmitIdleProof E (w_hist w) p = (a, e')" by fastforce
  have step: "adds (idle_all_justified c) w (log_event e w)" for e
    by (rule idle_trace.adds_event) (simp add: idle_all_justified_def)
  show ?case
    using Suc.prems Suc.IH [of "log_event (EvSubmitIdleProof p (a, e')) w"] step idle_trace.R_trans [OF step]
    by (cases "a = []") (auto simp: SubmitIdleProof_def x Let_def intro: idle_trace.R_refl)
qed (auto intro: idle_trace.R_refl)

lemma idle_result_loop_last:
  "idle_result_loop E r n w = ((hash, err), w1) \<Longrightarrow> adds (idle_all_justified c) w w1
     \<and> (hash \<noteq> [] \<longrightarrow> (\<exists>e w'. adds (idle_all_justified c) w w' \<and> w1 = log_event e w' \<and> idle_hash_of_result e = hash))"
proof (induction n arbitrary: w)
  case (Suc n)
  let ?ev = "\<lambda>res. EvSubmitVerifyIdleResult (ir_proof r) (ir_front r) (ir_rear r) (ir_acc r) (ir_result r) (ir_sig r) (ir_teePuk r) res"
  obtain a e' where x: "x_SubmitVerifyIdleResult E (w_hist w) (ir_proof r) (ir_front r) (ir_rear r) (ir_acc r) (ir_result r)
      (ir_sig r) (ir_teePuk r) = (a, e')" by fastforce
  have step: "adds (idle_all_justified c) w (log_event e w)" for e
    by (rule idle_trace.adds_event) (simp add: idle_all_justified_def)
  show ?case
  proof (cases "a = []")
    case True
    then show ?thesis using Suc.prems Suc.IH [of "log_event (?ev (a, e')) w"] idle_trace.R_trans [OF step]
      by (auto simp: send_idle_result_def SubmitVerifyIdleResult_def x Let_def)
  next
    case False
    then have w1: "w1 = log_event (?ev (hash, err)) w" "hash \<noteq> []"
      using Suc.prems by (auto simp: send_idle_result_def SubmitVerifyIdleResult_def x Let_def)
    then show ?thesis using step
      by (auto simp: idle_hash_of_result_def intro!: exI [of _ "?ev (hash, err)"] exI [of _ w] idle_trace.R_refl)
  qed
qed (auto intro: idle_trace.R_refl)

lemma idle_height: "adds (idle_all_justified c) w (snd (GetBlockLatest E w))"
  by (simp add: GetBlockLatest_def Let_def idle_trace.R_event)

lemma submitIdleProof_last:
  assumes "submitIdleProof E p slip w = ((hash, err), w1)"
  shows "adds (idle_all_justified c) w w1
    \<and> (hash \<noteq> [] \<longrightarrow> (\<exists>w'. adds (idle_all_justified c) w w' \<and> w1 = log_event (EvSubmitIdleProof p (hash, err)) w'))"
  using assms idle_proof_loop_last [of E p 3 "snd (GetBlockLatest E w)" hash err w1 c] idle_trace.R_trans [OF idle_height [of c w E]] idle_height
  by (auto simp: submitIdleProof_def case_prod_beta split: sum.splits if_splits)

lemma submitIdleResult_last:
  assumes "submitIdleResult E r slip w = ((hash, err), w1)"
  shows "adds (idle_all_justified c) w w1
    \<and> (hash \<noteq> [] \<longrightarrow> (\<exists>e w'. adds (idle_all_justified c) w w' \<and> w1 = log_event e w' \<and> idle_hash_of_result e = hash))"
  using assms idle_result_loop_last [of E r 3 "snd (GetBlockLatest E w)" hash err w1 c] idle_trace.R_trans [OF idle_height [of c w E]] idle_height
  by (auto simp: submitIdleResult_def case_prod_beta split: sum.splits if_splits)

lemma idle_Get: "adds (idle_all_justified c) w (snd (db_Get E k w))"
  unfolding db_Get_state by (rule idle_trace.adds_db) (simp add: idle_all_justified_def)

lemma idle_submit_proof_adds: "adds (idle_all_justified c) w (snd (idle_submit_proof E p c slip f rec w))"
proof -
  obtain hash err w2 where s: "submitIdleProof E p slip (snd (db_Get E (idle_proof_key c) w)) = ((hash, err), w2)"
    by (metis prod.exhaust)
  have "adds (idle_all_justified c) w w2"
    "hash \<noteq> [] \<Longrightarrow> adds (idle_all_justified c) w (snd (db_Put E (idle_proof_key c) ''true'' w2))"
    using submitIdleProof_last [OF s, of c] idle_trace.R_trans [OF idle_Get [of c w E "idle_proof_key c"]]
    by (auto intro!: idle_trace.adds_log_put simp: idle_all_justified_def idle_hash_of_proof_def)
  then show ?thesis
    using s idle_Get by (auto simp: idle_submit_proof_def Let_def case_prod_beta intro!: idle_trace.keeps_fs split: sum.split)
qed

lemma idle_submit_result_adds: "adds (idle_all_justified c) w (idle_submit_result E r c vslip rec w)"
proof -
  obtain hash err w2 where s: "submitIdleResult E r vslip w = ((hash, err), w2)" by (metis prod.exhaust)
  have "adds (idle_all_justified c) w w2"
    "hash \<noteq> [] \<Longrightarrow> adds (idle_all_justified c) w (snd (db_Put E (idle_result_key c) ''true'' w2))"
    using submitIdleResult_last [OF s, of c]
    by (auto intro!: idle_trace.adds_log_put simp: idle_all_justified_def)
  then show ?thesis using s by (auto simp: idle_submit_result_def intro!: idle_trace.keeps_fs)
qed

lemma idle_empty_adds: "adds (idle_all_justified c) w (idle_empty E c slip rec w)"
proof -
  obtain hash err w2 where s: "submitIdleProof E [] slip (snd (db_Get E (idle_proof_key c) w)) = ((hash, err), w2)"
    by (metis prod.exhaust)
  have "adds (idle_all_justified c) w w2"
    "hash \<noteq> [] \<Longrightarrow> adds (idle_all_justified c) w
       (snd (db_Put E (idle_result_key c) ''true'' (snd (db_Put E (idle_proof_key c) ''true'' w2))))"
  proof -
    show "adds (idle_all_justified c) w w2"
      using submitIdleProof_last [OF s, of c] idle_trace.R_trans [OF idle_Get] by blast
    assume "hash \<noteq> []"
    then obtain w' where w': "adds (idle_all_justified c) w w'" "w2 = log_event (EvSubmitIdleProof [] (hash, err)) w'"
      using submitIdleProof_last [OF s, of c] idle_trace.R_trans [OF idle_Get] by blast
    have "adds (idle_all_justified c) w' (snd (db_Put E (idle_result_key c) ''true'' (snd (db_Put E (idle_proof_key c) ''true'' w2))))"
      using \<open>hash \<noteq> []\<close>
      by (auto simp: w'(2) adds_def db_Put_state frame_simps idle_all_justified_def idle_hash_of_proof_def empty_idle_accepted_def)
    with w'(1) show "adds (idle_all_justified c) w
       (snd (db_Put E (idle_result_key c) ''true'' (snd (db_Put E (idle_proof_key c) ''true'' w2))))"
      by (rule idle_trace.R_trans)
  qed
  then show ?thesis
    using s idle_Get by (auto simp: idle_empty_def Let_def case_prod_beta intro!: idle_trace.keeps_fs split: sum.split)
qed

interpretation idle_marks: idle_handler "adds (idle_all_justified c)" E c for E c
  by unfold_locales
    (auto intro: idle_Get idle_submit_proof_adds idle_submit_result_adds idle_empty_adds idle_trace.adds_db
      simp: db_Delete_state idle_all_justified_def)

text \<open>
  C5. Whatever the environment does and however the handler ends, a proof is noted as submitted in the cache only
  if a proof came back with a block hash, a result only if a result did, or the empty proof of a miner
  without idle files; and only for the challenge at hand. The value put is \<open>true\<close>.
\<close>

theorem idle_marks_submitted:
  "\<exists>h d. w_hist (outcome_state (idleChallenge E fuel c slip vslip f r cr a ts w)) = w_hist w @ h
     \<and> w_db (outcome_state (idleChallenge E fuel c slip vslip f r cr a ts w)) = w_db w @ d
     \<and> idle_all_justified c h d"
  using idle_marks.keeps_idleChallenge unfolding adds_def .

subsection \<open>The proof commits to the segments\<close>

text \<open>
  The calls that prove the recorded segments, and the last one, which finds none left. The challenge handle is given the hash
  of the proof before; the segment it answers with is proved; the hash of the encoded proof is signed.
\<close>

fun segment_trace :: "i64 list \<Rightarrow> bytes \<Rightarrow> fileBlockProofInfo list \<Rightarrow> event list \<Rightarrow> bool" where
  "segment_trace cr prev [] h \<longleftrightarrow> (\<exists>l. h = [EvChallengeHandle cr prev (l, l)])"
| "segment_trace cr prev (b # bs) h \<longleftrightarrow>
     (\<exists>sp g. space_proof_pb sp = Some (fb_SpaceProof b) \<and> segment_trace cr (fb_ProofHashSignOrigin b) bs g \<and>
        h = EvChallengeHandle cr prev (fb_FileBlockFront b, fb_FileBlockRear b)
          # EvProveSpace cr (fb_FileBlockFront b) (fb_FileBlockRear b) (Inr sp)
          # EvSign (fb_ProofHashSignOrigin b) (Inr (fb_ProofHashSign b)) # g)"

definition segment_ok :: "sdk \<Rightarrow> fileBlockProofInfo \<Rightarrow> bool" where
  "segment_ok K b \<longleftrightarrow> fb_FileBlockFront b \<noteq> fb_FileBlockRear b
     \<and> (\<exists>buf. marshal_space_proof K (fb_SpaceProof b) = Inr buf \<and> fb_ProofHashSignOrigin b = sha256 K buf)"

lemma idle_prove_loop_chain:
  "idle_prove_loop E fuel cr prev ip infos w = Ret (Some (ip', infos')) w' \<Longrightarrow>
     \<exists>new h. w_hist w' = w_hist w @ h \<and> infos' = infos @ new \<and> ip' = ip @ concat (map fb_ProofHashSignOrigin new)
       \<and> list_all (segment_ok (e_sdk E)) new \<and> segment_trace cr prev new h"
proof (induction fuel arbitrary: prev ip infos w)
  case (Suc fuel)
  obtain l r w1 where c: "ChallengeHandle E cr prev w = ((l, r), w1)" by (metis prod.exhaust)
  then have h1: "w_hist w1 = w_hist w @ [EvChallengeHandle cr prev (l, r)]"
    by (auto simp: ChallengeHandle_def Let_def frame_simps)
  show ?case
  proof (cases "l = r")
    case True
    then show ?thesis using Suc.prems c h1 by (intro exI [of _ "[]"] exI [of _ "[EvChallengeHandle cr prev (l, r)]"]) auto
  next
    case False
    obtain p w2 where ps: "ProveSpace E cr l r w1 = (p, w2)" by fastforce
    with False Suc.prems c obtain sp pf b where p: "p = Inr sp" "space_proof_pb sp = Some pf"
      "marshal_space_proof (e_sdk E) pf = Inr b" by (auto split: sum.splits option.splits)
    have h2: "w_hist w2 = w_hist w1 @ [EvProveSpace cr l r p]" using ps by (auto simp: ProveSpace_def Let_def frame_simps)
    let ?hash = "sha256 (e_sdk E) b"
    obtain s w3 where sg: "Sign E ?hash w2 = (s, w3)" by fastforce
    with False Suc.prems c ps p obtain sign where s: "s = Inr sign" by (auto simp: Let_def split: sum.splits)
    have h3: "w_hist w3 = w_hist w2 @ [EvSign ?hash s]" using sg by (auto simp: Sign_def Let_def frame_simps)
    let ?b = "\<lparr>fb_ProofHashSign = sign, fb_ProofHashSignOrigin = ?hash, fb_SpaceProof = pf, fb_FileBlockFront = l, fb_FileBlockRear = r\<rparr>"
    have "idle_prove_loop E fuel cr ?hash (ip @ ?hash) (infos @ [?b]) w3 = Ret (Some (ip', infos')) w'"
      using Suc.prems c False ps p sg s by (simp add: Let_def)
    from Suc.IH [OF this] obtain new h where rest: "w_hist w' = w_hist w3 @ h" "infos' = (infos @ [?b]) @ new"
      "ip' = (ip @ ?hash) @ concat (map fb_ProofHashSignOrigin new)" "list_all (segment_ok (e_sdk E)) new"
      "segment_trace cr ?hash new h" by blast
    have "segment_trace cr prev (?b # new) (EvChallengeHandle cr prev (l, r) # EvProveSpace cr l r p # EvSign ?hash s # h)"
      using p s rest(5) by auto
    moreover have "segment_ok (e_sdk E) ?b" using False p by (auto simp: segment_ok_def)
    ultimately show ?thesis using rest(1-4) h1 h2 h3
      by (intro exI [of _ "?b # new"] exI [of _ "EvChallengeHandle cr prev (l, r) # EvProveSpace cr l r p # EvSign ?hash s # h"])
        auto
  qed
qed simp

text \<open>
  C6. When the segments are proved, the calls that were made are exactly these, in this order: for each recorded segment the
  challenge handle is asked with the hash of the segment proved before (none at first) and answers with the bounds of the
  segment, which is not empty; that range is proved; and the hash of the encoded proof is signed. A last call of the handle finds
  nothing left. The proof of the miner is the concatenation of these hashes in order.
\<close>

theorem idle_proof_commits:
  assumes "idle_prove_loop E fuel cr [] [] [] w = Ret (Some (idleproof, infos)) w'"
  shows "idleproof = concat (map fb_ProofHashSignOrigin infos) \<and> list_all (segment_ok (e_sdk E)) infos
    \<and> (\<exists>h. w_hist w' = w_hist w @ h \<and> segment_trace cr [] infos h)"
  using idle_prove_loop_chain [OF assms] by auto

definition idle_env :: env where
  "idle_env = demo_env\<lparr>x_ChallengeHandle := \<lambda>h cr prev. (if prev = [] then (0, 256) else (256, 256)),
     x_ProveSpace := \<lambda>_ _ _ _. Inr \<lparr>sp_Left = 0, sp_Right = 256, sp_Roots = [], sp_Proofs = [], sp_WitChains = []\<rparr>,
     x_Sign := \<lambda>_ _. Inr ''sig'', x_GetBlockLatest := \<lambda>_. Inr 100\<rparr>"

definition idle_prove_run :: "(world, (bytes \<times> fileBlockProofInfo list) option) outcome" where
  "idle_prove_run = idle_prove_loop idle_env 2 [1] [] [] [] demo_world"

theorem idle_proof_commits_witness:
  "\<exists>(infos :: fileBlockProofInfo list) h. w_hist (outcome_state idle_prove_run) = w_hist demo_world @ h
     \<and> ''p'' = concat (map fb_ProofHashSignOrigin infos) \<and> segment_trace [1] [] infos h"
proof -
  have "map_option (map_option fst) (returned idle_prove_run) = Some (Some ''p'')" by code_simp
  then obtain infos where "returned idle_prove_run = Some (Some (''p'', infos))"
    by (cases "returned idle_prove_run") auto
  from returned_Some [OF this] have run: "idle_prove_loop idle_env 2 [1] [] [] [] demo_world = Ret (Some (''p'', infos)) (outcome_state idle_prove_run)"
    by (simp add: idle_prove_run_def)
  note c = idle_proof_commits [OF run]
  from conjunct2 [OF conjunct2 [OF c]] obtain h where "w_hist (outcome_state idle_prove_run) = w_hist demo_world @ h"
    "segment_trace [1] [] infos h" by blast
  with conjunct1 [OF c] show ?thesis by (intro exI [of _ infos] exI [of _ h] conjI)
qed

subsection \<open>At most one accepted proof\<close>

definition idle_proof_accepted :: "event \<Rightarrow> bool" where
  "idle_proof_accepted e \<longleftrightarrow> idle_hash_of_proof e \<noteq> []"

lemma idle_event_not_accepted: "idle_event e \<Longrightarrow> \<not> idle_proof_accepted e"
  by (cases e) (auto simp: idle_proof_accepted_def idle_hash_of_proof_def)

lemma idle_keys [simp]:
  "idle_proof_key s = idle_proof_key c \<longleftrightarrow> s = c" "idle_result_key s \<noteq> idle_proof_key c"
  by (auto simp: idle_proof_key_def idle_result_key_def Prefix_idle_chall_proof_def
      Prefix_idle_chall_result_def word_unat_eq_iff dest!: show_nat_inj)

lemma idle_proof_loop_budget:
  assumes "reliable (e_db E)" and "\<not> noted k w" and "idle_proof_loop E p n w = ((hash, err), w1)"
  shows "if hash = [] then budget idle_proof_accepted k w1 \<le> budget idle_proof_accepted k w
     else budget idle_proof_accepted k (snd (db_Put E k v w1)) \<le> budget idle_proof_accepted k w"
  using assms(2,3)
proof (induction n arbitrary: w)
  case (Suc n)
  obtain a e' where x: "x_SubmitIdleProof E (w_hist w) p = (a, e')" by fastforce
  show ?case
  proof (cases "a = []")
    case True
    then have "\<not> idle_proof_accepted (EvSubmitIdleProof p (a, e'))" by (simp add: idle_proof_accepted_def idle_hash_of_proof_def)
    from budget_event [of idle_proof_accepted, OF this] Suc.IH [of "log_event (EvSubmitIdleProof p (a, e')) w"] Suc.prems True
    show ?thesis by (auto simp: SubmitIdleProof_def x Let_def)
  next
    case False
    then show ?thesis using Suc.prems budget_noted [OF assms(1) Suc.prems(1)]
      by (auto simp: SubmitIdleProof_def x Let_def)
  qed
qed simp

lemma idle_height_budget [simp]:
  "budget idle_proof_accepted k (snd (GetBlockLatest E w)) = budget idle_proof_accepted k w"
  by (simp add: GetBlockLatest_def Let_def budget_event idle_event_not_accepted)

lemma noted_height [simp]: "noted k (snd (GetBlockLatest E w)) = noted k w"
  by (simp add: GetBlockLatest_def Let_def)

lemma submitIdleProof_budget:
  assumes "reliable (e_db E)" and "\<not> noted k w" and "submitIdleProof E p slip w = ((hash, err), w1)"
  shows "if hash = [] then budget idle_proof_accepted k w1 \<le> budget idle_proof_accepted k w
     else budget idle_proof_accepted k (snd (db_Put E k v w1)) \<le> budget idle_proof_accepted k w"
  using assms(2,3) idle_proof_loop_budget [OF assms(1), of k "snd (GetBlockLatest E w)" p 3 hash err w1 v]
  by (auto simp: submitIdleProof_def case_prod_beta split: sum.splits if_splits)

lemma idle_submit_within:
  assumes "reliable (e_db E)"
  shows "within idle_proof_accepted (idle_proof_key c) w (snd (idle_submit_proof E p c slip f rec w))"
    "within idle_proof_accepted (idle_proof_key c) w (idle_empty E c slip rec w)"
proof -
  let ?k = "idle_proof_key c" and ?w1 = "snd (db_Get E (idle_proof_key c) w)"
  have sub: "if hash = [] then budget idle_proof_accepted ?k w2 \<le> budget idle_proof_accepted ?k w
     else budget idle_proof_accepted ?k (snd (db_Put E ?k ''true'' w2)) \<le> budget idle_proof_accepted ?k w"
    if "fst (db_Get E ?k w) = Inl e" "submitIdleProof E q slip ?w1 = ((hash, err), w2)" for e q hash err w2
    using submitIdleProof_budget [OF assms, of ?k ?w1 q slip hash err w2 "''true''"] reliable_Get [OF assms that(1)] that(2)
    by auto
  show "within idle_proof_accepted ?k w (snd (idle_submit_proof E p c slip f rec w))"
    using sub [of _ p] by (cases "fst (db_Get E ?k w)"; cases "submitIdleProof E p slip ?w1"; cases "fst (submitIdleProof E p slip ?w1)")
      (auto simp: idle_submit_proof_def within_def case_prod_beta Let_def)
  show "within idle_proof_accepted ?k w (idle_empty E c slip rec w)"
    using sub [of _ "[]"] by (cases "fst (db_Get E ?k w)"; cases "submitIdleProof E [] slip ?w1"; cases "fst (submitIdleProof E [] slip ?w1)")
      (auto simp: idle_empty_def within_def case_prod_beta Let_def budget_Put_other)
qed

lemma idle_submit_result_within:
  "within idle_proof_accepted (idle_proof_key c) w (idle_submit_result E r c vslip rec w)"
proof -
  have loop: "budget idle_proof_accepted k (snd (idle_result_loop E r n w)) = budget idle_proof_accepted k w" for k n w
    by (induction n arbitrary: w)
      (auto simp: send_idle_result_def SubmitVerifyIdleResult_def Let_def case_prod_beta budget_event idle_proof_accepted_def
        idle_hash_of_proof_def)
  show ?thesis
    by (auto simp: idle_submit_result_def submitIdleResult_def within_def case_prod_beta loop budget_Put_other split: sum.split)
qed

lemma idle_handler_within:
  assumes "reliable (e_db E)"
  shows "idle_handler (within idle_proof_accepted (idle_proof_key c)) E c"
proof unfold_locales
  fix s w
  assume "s \<noteq> c"
  then show "within idle_proof_accepted (idle_proof_key c) w (snd (db_Delete E (idle_proof_key s) w))"
    "within idle_proof_accepted (idle_proof_key c) w (snd (db_Delete E (idle_result_key s) w))"
    by (simp_all add: within_def budget_Delete_other)
qed (auto intro: within_refl within_trans within_same idle_submit_within [OF assms] idle_submit_result_within
    within_Get simp: within_event idle_event_not_accepted)

record idle_call =
  ic_fuel :: nat
  ic_slip :: u32
  ic_vslip :: u32
  ic_front :: i64
  ic_rear :: i64
  ic_param :: "i64 list"
  ic_acc :: bytes
  ic_sign :: bytes

definition run_idle :: "env \<Rightarrow> u32 \<Rightarrow> idle_call \<Rightarrow> world \<Rightarrow> world" where
  "run_idle E c x w = outcome_state (idleChallenge E (ic_fuel x) c (ic_slip x) (ic_vslip x) (ic_front x) (ic_rear x)
     (ic_param x) (ic_acc x) (ic_sign x) w)"

text \<open>
  Over a cache without input/output errors, all runs of the handler for one challenge together get
  at most one idle proof accepted, and none once the cache notes a submission.
\<close>

theorem idle_proof_accepted_once:
  assumes "reliable (e_db E)"
  shows "accepted idle_proof_accepted (fold (run_idle E c) calls w)
    \<le> accepted idle_proof_accepted w + (if noted (idle_proof_key c) w then 0 else 1)"
proof -
  have "within idle_proof_accepted (idle_proof_key c) w (fold (run_idle E c) calls w)"
    by (induction calls arbitrary: w)
      (auto simp: run_idle_def intro: within_refl within_trans idle_handler.keeps_idleChallenge [OF idle_handler_within [OF assms]])
  then show ?thesis using budget_bounds(1) by (auto simp: within_def budget_def intro: order_trans)
qed

definition idle_once_call :: idle_call where
  "idle_once_call = \<lparr>ic_fuel = 3, ic_slip = 200, ic_vslip = 300, ic_front = 0, ic_rear = 256, ic_param = [1], ic_acc = ''ac'', ic_sign = ''ts''\<rparr>"

theorem idle_proof_accepted_once_witness:
  "accepted idle_proof_accepted (fold (run_idle idle_env 7) [idle_once_call, idle_once_call] demo_world)
    \<le> accepted idle_proof_accepted demo_world + (if noted (idle_proof_key 7) demo_world then 0 else 1)"
  by (rule idle_proof_accepted_once) (simp add: idle_env_def demo_env_def mem_reliable)

subsection \<open>The handler ends\<close>

fun handle_arg :: "event \<Rightarrow> bytes list" where
  "handle_arg (MiscEvent (ChallengeHandle_ev cr h r)) = [h]"
| "handle_arg e = []"

definition handled :: "world \<Rightarrow> nat" where
  "handled w = length (concat (map handle_arg (w_hist w)))"

text \<open>The prover hands out finitely many segments.\<close>

definition prover_stops :: "env \<Rightarrow> nat \<Rightarrow> bool" where
  "prover_stops E m \<longleftrightarrow> (\<forall>w cr prev. m \<le> handled w \<longrightarrow> fst (x_ChallengeHandle E (w_hist w) cr prev) = snd (x_ChallengeHandle E (w_hist w) cr prev))"

lemma idle_prove_loop_ends:
  assumes "prover_stops E m" and "m - handled w < fuel"
  shows "ends (idle_prove_loop E fuel cr prev ip infos w)"
  using assms(2)
proof (induction fuel arbitrary: prev ip infos w)
  case (Suc fuel)
  obtain l r where x: "x_ChallengeHandle E (w_hist w) cr prev = (l, r)" by fastforce
  show ?case
  proof (cases "l = r")
    case True
    then show ?thesis by (simp add: ChallengeHandle_def Let_def x)
  next
    case False
    then have "\<not> m \<le> handled w" using assms(1) x unfolding prover_stops_def by (metis fst_conv snd_conv)
    then have less: "m - handled w' < fuel" if "handled w' = Suc (handled w)" for w' using Suc.prems that by simp
    show ?thesis
      using False by (auto simp: ChallengeHandle_def ProveSpace_def Sign_def Let_def x handled_def frame_simps
          intro!: Suc.IH less split: sum.split option.split)
  qed
qed simp

lemma verifyIdleProof_ends:
  assumes "chain_passes E n (\<lambda>b. vslip \<le> b)" and "n < fuel"
  shows "ends (verifyIdleProof E fuel f r p rec a cr vslip w)"
proof -
  have "ends (idle_verify_loop E fuel req tot ts vslip rec w)" if "n - asked w < fuel" for req tot ts rec w
    using that
  proof (induction fuel arbitrary: rec w)
    case (Suc fuel)
    note round = height_round [OF assms(1) Suc.prems]
    have tees: "asked w \<le> asked (snd (idle_tee_loop E req tot ts rec w))" for rec w
      by (rule asked_mono [OF idle_marks.keeps_idle_tee_loop [OF idle_trace.R_refl]])
    show ?case
      by (auto simp: case_prod_beta intro!: Suc.IH round tees split: option.split sum.splits)
  qed simp
  then show ?thesis using assms(2) by (simp add: verifyIdleProof_def)
qed

text \<open>
  C7. The handler ends with its flag cleared, provided the prover hands out finitely many segments and the chain
  passes the deadline for verification; the rounds granted have to exceed both numbers.
\<close>

theorem idleChallenge_returns:
  assumes "chain_passes E n (\<lambda>b. vslip \<le> b)" and "prover_stops E m" and "n < fuel" and "m < fuel"
  shows "\<exists>w'. idleChallenge E fuel c slip vslip f r cr a ts w = Ret () w' \<and> \<not> GetIdleChallenging (w_run w')"
proof -
  have prove: "ends (idle_prove_loop E fuel cr prev ip infos w)" for cr prev ip infos w
    using idle_prove_loop_ends [OF assms(2), of w fuel] assms(4) by simp
  have finish: "ends (idle_finish E fuel c slip vslip f r p a cr ip infos rec w)" for p ip infos rec w
    using verifyIdleProof_ends [OF assms(1,3)]
    by (auto simp: idle_finish_def Let_def intro!: ends_bind split: prod.split sum.split)
  have resume: "ends (idle_resume E rec c slip vslip w)" for rec w
    by (simp add: idle_resume_def split: prod.split sum.split)
  have fresh: "ends (idle_fresh E fuel c slip vslip f r cr a ts rec w)" for rec w
    by (simp add: idle_fresh_def Let_def ends_bind prove finish split: prod.split option.split)
  have "ends (idle_body E fuel c slip vslip f r cr a ts w)"
    by (simp add: idle_body_def Let_def resume fresh split: prod.split option.split)
  then show ?thesis
    by (auto simp: idleChallenge_def frame_simps ends_def idlechallenging.get_set split: outcome.splits)
qed

theorem idleChallenge_returns_witness:
  "\<exists>w'. idleChallenge (demo_env\<lparr>x_GetBlockLatest := \<lambda>_. Inr 100\<rparr>) 1 7 50 60 0 256 [1] ''ac'' ''ts'' demo_world = Ret () w'
     \<and> \<not> GetIdleChallenging (w_run w')"
  by (rule idleChallenge_returns [where n = 0 and m = 0]) (simp_all add: chain_passes_def prover_stops_def demo_env_def)

end
