(* ===== verification/Report.thy ===== *)
theory Report
  imports NodeWorld Utils
begin

text \<open>
  Reporting stored files (\<^verbatim>\<open>src/node/report.go\<close>): files received through the web service wait in the report
  directory; once the chain has the file's metadata the miner's own fragments are moved to the
  file directory, and as long as the chain only has a storage order, the complete columns of fragments are
  reported.
\<close>

subsection \<open>Operations\<close>

definition own_fragments :: "env \<Rightarrow> fileMetadata \<Rightarrow> string list" where
  "own_fragments E m =
     map fi_Hash (filter (\<lambda>f. CompareSlice (e_sdk E) (fi_Miner f) (e_acc E)) (concat (map si_FragmentList (fm_SegmentList m))))"

definition remove_report :: "string \<Rightarrow> world \<Rightarrow> world" where
  "remove_report fid w = snd (on_fs (\<lambda>fs. os_RemoveAll fs (Join [GetReportDir (w_ws w), fid])) w)"

fun move_fragments :: "string \<Rightarrow> string list \<Rightarrow> world \<Rightarrow> goerr option \<times> world" where
  "move_fragments fid [] w = (None, w)"
| "move_fragments fid (f # fs') w =
     (case os_Stat (w_fs w) (Join [GetFileDir (w_ws w), fid, f]) of
        Inr _ \<Rightarrow> move_fragments fid fs' w
      | Inl _ \<Rightarrow>
          (case on_fs (\<lambda>fs. os_Rename fs (Join [GetReportDir (w_ws w), fid, f]) (Join [GetFileDir (w_ws w), fid, f])) w of
             (Some e, w1) \<Rightarrow> (Some e, w1)
           | (None, w1) \<Rightarrow> move_fragments fid fs' w1))"

text \<open>Lines 97 to 118.\<close>

definition keep_fragments :: "string \<Rightarrow> string list \<Rightarrow> world \<Rightarrow> (bool \<times> goerr option) \<times> world" where
  "keep_fragments fid saved w =
     (case (case os_Stat (w_fs w) (Join [GetFileDir (w_ws w), fid]) of
              Inr _ \<Rightarrow> (None, w)
            | Inl _ \<Rightarrow> on_fs (\<lambda>fs. os_Mkdir fs (Join [GetFileDir (w_ws w), fid])) w) of
        (Some e, w1) \<Rightarrow> ((False, Some e), w1)
      | (None, w1) \<Rightarrow>
          (case move_fragments fid saved w1 of
             (Some e, w2) \<Rightarrow> ((False, Some e), w2)
           | (None, w2) \<Rightarrow> ((False, None), remove_report fid w2)))"

definition checkfile :: "env \<Rightarrow> string \<Rightarrow> world \<Rightarrow> (bool \<times> goerr option) \<times> world" where
  "checkfile E fid w =
     (case QueryFile E fid (-1) w of
        (Inl e, w1) \<Rightarrow>
          (if \<not> is_empty_value e then ((False, Some e), w1)
           else
             (case QueryDealMap E fid w1 of
                (Inl e', w2) \<Rightarrow>
                  (if \<not> is_empty_value e' then ((False, Some e'), w2)
                   else ((False, Some (mk_err ''not found'')), remove_report fid w2))
              | (Inr _, w2) \<Rightarrow> ((True, None), w2)))
      | (Inr metadata, w1) \<Rightarrow>
          (let saved = own_fragments E metadata in
           if saved = [] then ((False, None), remove_report fid w1)
           else keep_fragments fid saved w1))"

text \<open>The loop over the segments for one column: how many consecutive segments have the fragment with
  the right size; \<open>None\<close> is an index out of range.\<close>

fun column_count :: "env \<Rightarrow> string \<Rightarrow> nat \<Rightarrow> dealSegment list \<Rightarrow> nat \<Rightarrow> world \<Rightarrow> nat option" where
  "column_count E fid idx [] n w = Some n"
| "column_count E fid idx (s # ss) n w =
     (if idx \<ge> length (ds_FragmentHash s) then None
      else
        (case os_Stat (w_fs w) (Join [GetReportDir (w_ws w), fid, ds_FragmentHash s ! idx]) of
           Inl _ \<Rightarrow> Some n
         | Inr fstat \<Rightarrow>
             (if fi_size fstat \<noteq> FragmentSize (e_sdk E) then Some n
              else column_count E fid idx ss (n + 1) w)))"

fun suc_loop :: "env \<Rightarrow> string \<Rightarrow> storageOrder \<Rightarrow> u8 \<Rightarrow> nat \<Rightarrow> u8 list \<Rightarrow> world \<Rightarrow> u8 list option" where
  "suc_loop E fid order idx 0 sucIndex w = Some sucIndex"
| "suc_loop E fid order idx (Suc n) sucIndex w =
     (case column_count E fid (unat idx) (so_SegmentList order) 0 w of
        None \<Rightarrow> None
      | Some sucCount \<Rightarrow>
          suc_loop E fid order (idx + 1) n
            (if sucCount = length (so_SegmentList order)
                \<and> \<not> list_ex (\<lambda>v. ci_Index v = idx + 1) (so_CompleteList order) \<and> sucCount > 0
             then sucIndex @ [idx + 1] else sucIndex) w)"

fun transfer_loop :: "env \<Rightarrow> string \<Rightarrow> u8 list \<Rightarrow> world \<Rightarrow> world" where
  "transfer_loop E fid [] w = w"
| "transfer_loop E fid (v # vs) w =
     (case TransferReport E v fid w of
        ((_, Some e), w1) \<Rightarrow> transfer_loop E fid vs w1
      | ((_, None), w1) \<Rightarrow> w1)"

text \<open>The number of columns is compared as \<^verbatim>\<open>uint8\<close>.\<close>

definition columns :: "env \<Rightarrow> nat" where
  "columns E = unat (of_nat (DataShards (e_sdk E) + ParShards (e_sdk E)) :: u8)"

definition reportfile :: "env \<Rightarrow> string \<Rightarrow> world \<Rightarrow> (world, goerr option) outcome" where
  "reportfile E fid w =
     (case QueryDealMap E fid w of
        (Inl e, w1) \<Rightarrow> Ret (if err_msg e \<noteq> ERR_Empty (e_sdk E) then Some e else None) w1
      | (Inr order, w1) \<Rightarrow>
          (if list_ex (\<lambda>c. CompareSlice (e_sdk E) (ci_Miner c) (e_acc E)) (so_CompleteList order) then Ret None w1
           else
             (case suc_loop E fid order 0 (columns E) [] w1 of
                None \<Rightarrow> Panic w1
              | Some sucIndex \<Rightarrow> Ret None (transfer_loop E fid sucIndex w1))))"

fun report_loop :: "env \<Rightarrow> string list \<Rightarrow> world \<Rightarrow> (world, unit) outcome" where
  "report_loop E [] w = Ret () w"
| "report_loop E (file # files) w =
     (let fid = Base file in
      case checkfile E fid w of
        ((report, _), w1) \<Rightarrow>
          andThen (if report then reportfile E fid w1 else Ret None w1) (\<lambda>_ w2.
            if \<not> GetCurrentRpcst (w_run w2) then Ret () w2 else report_loop E files w2))"

definition ReportFiles :: "env \<Rightarrow> world \<Rightarrow> world" where
  "ReportFiles E w =
     (if GetState (w_run w) \<noteq> MINER_STATE_POSITIVE (e_sdk E) then w
      else
        (case Dirs (w_fs w) (GetReportDir (w_ws w)) of
           Inl e \<Rightarrow> w
         | Inr roothashs \<Rightarrow> outcome_state (report_loop E roothashs w)))"

subsection \<open>Only complete columns are reported\<close>

definition column_complete :: "env \<Rightarrow> string \<Rightarrow> storageOrder \<Rightarrow> world \<Rightarrow> nat \<Rightarrow> bool" where
  "column_complete E fid order w i \<longleftrightarrow> list_all (\<lambda>s. i < length (ds_FragmentHash s)
     \<and> (case os_Stat (w_fs w) (Join [GetReportDir (w_ws w), fid, ds_FragmentHash s ! i]) of
          Inl _ \<Rightarrow> False | Inr st \<Rightarrow> fi_size st = FragmentSize (e_sdk E))) (so_SegmentList order)"

lemma column_count_full:
  "column_count E fid i ss n w = Some (n + length ss) \<longleftrightarrow> column_complete E fid \<lparr>so_SegmentList = ss, so_CompleteList = cl\<rparr> w i"
proof (induction ss arbitrary: n)
  case (Cons s ss)
  from Cons [of "Suc n"] show ?case by (auto simp: column_complete_def split: sum.split)
qed (simp add: column_complete_def)

definition reportable :: "env \<Rightarrow> string \<Rightarrow> storageOrder \<Rightarrow> world \<Rightarrow> u8 \<Rightarrow> bool" where
  "reportable E fid order w v \<longleftrightarrow> 0 < unat v \<and> unat v \<le> columns E \<and> column_complete E fid order w (unat v - 1)
     \<and> \<not> list_ex (\<lambda>c. ci_Index c = v) (so_CompleteList order) \<and> so_SegmentList order \<noteq> []"

lemma columns_bound: "columns E < 256"
  using unsigned_less [of "of_nat (DataShards (e_sdk E) + ParShards (e_sdk E)) :: u8"] by (simp add: columns_def)

text \<open>The columns of the order that can be reported, by their numbers, which start at 1.\<close>

definition reportable_columns :: "env \<Rightarrow> string \<Rightarrow> storageOrder \<Rightarrow> world \<Rightarrow> u8 list" where
  "reportable_columns E fid order w = filter (reportable E fid order w) (map of_nat [1..<Suc (columns E)])"

lemma suc_loop_exact:
  assumes "suc_loop E fid order idx n acc w = Some r" and "unat idx + n \<le> columns E"
  shows "r = acc @ filter (reportable E fid order w) (map of_nat [Suc (unat idx)..<Suc (unat idx + n)])"
  using assms
proof (induction n arbitrary: idx acc)
  case (Suc n)
  have idx: "unat (idx + 1) = Suc (unat idx)"
    using Suc.prems(2) columns_bound [of E] by (simp add: unat_word_ariths)
  then have next_idx: "of_nat (Suc (unat idx)) = idx + 1" by (simp add: add.commute)
  have full: "column_complete E fid order w (unat idx) \<longleftrightarrow>
      column_count E fid (unat idx) (so_SegmentList order) 0 w = Some (length (so_SegmentList order))"
    using column_count_full [of E fid "unat idx" "so_SegmentList order" 0 w "so_CompleteList order"]
    by (simp add: column_complete_def)
  obtain k where k: "column_count E fid (unat idx) (so_SegmentList order) 0 w = Some k"
    using Suc.prems(1) by (auto split: option.splits)
  have col: "reportable E fid order w (idx + 1) \<longleftrightarrow> k = length (so_SegmentList order)
      \<and> \<not> list_ex (\<lambda>v. ci_Index v = idx + 1) (so_CompleteList order) \<and> k > 0"
    using Suc.prems(2) full k idx by (auto simp: reportable_def)
  have range: "[Suc (unat idx)..<Suc (unat idx + Suc n)] = Suc (unat idx) # [Suc (unat (idx + 1))..<Suc (unat (idx + 1) + n)]"
    by (simp add: idx upt_conv_Cons del: upt_Suc)
  show ?case
    using Suc.IH [of "idx + 1" "if reportable E fid order w (idx + 1) then acc @ [idx + 1] else acc"] Suc.prems k idx
    unfolding range by (auto simp: next_idx col simp del: upt_Suc of_nat_Suc split: if_splits)
qed simp

text \<open>The reports that are tried: all of the given columns in order, up to the first that is accepted.\<close>

definition tried :: "u8 list \<Rightarrow> (u8 \<times> string \<times> goerr option) list \<Rightarrow> bool" where
  "tried vs ts \<longleftrightarrow> prefix (map fst ts) vs \<and> list_all (\<lambda>t. snd (snd t) \<noteq> None) (butlast ts)
     \<and> (map fst ts = vs \<or> (ts \<noteq> [] \<and> snd (snd (last ts)) = None))"

lemma tried_Cons: "tried vs ts \<Longrightarrow> tried (v # vs) ((v, tx, Some e) # ts)"
  by (auto simp: tried_def)

lemma transfer_loop_trace:
  "\<exists>ts. w_hist (transfer_loop E fid vs w) = w_hist w @ map (\<lambda>(v, r). EvTransferReport v fid r) ts \<and> tried vs ts"
proof (induction vs arbitrary: w)
  case (Cons v vs)
  obtain tx err where x: "x_TransferReport E (w_hist w) v fid = (tx, err)" by fastforce
  let ?e = "EvTransferReport v fid (tx, err)"
  show ?case
  proof (cases err)
    case None
    then show ?thesis
      by (intro exI [of _ "[(v, tx, None)]"]) (simp add: TransferReport_def Let_def x frame_simps tried_def)
  next
    case (Some e)
    from Cons [of "log_event ?e w"] obtain ts where
      "w_hist (transfer_loop E fid vs (log_event ?e w)) = w_hist (log_event ?e w) @ map (\<lambda>(v, r). EvTransferReport v fid r) ts"
      "tried vs ts" by blast
    then show ?thesis using Some
      by (intro exI [of _ "(v, tx, err) # ts"]) (auto simp: TransferReport_def Let_def x frame_simps tried_Cons)
  qed
qed (intro exI [of _ "[]"], simp add: tried_def)

text \<open>
  C19. Reporting a storage order asks for the order first. When it is known and does not list this miner as done, the miner tries
  to report exactly the numbers of the columns that are complete (every segment's fragment lies in the
  report directory with the right size) and that nobody has completed yet, in increasing order, until one report
  is accepted: it stops only then or after the last of them. Otherwise nothing is reported.
\<close>

theorem reportfile_sound:
  assumes "reportfile E fid w = Ret err w'"
  shows "\<exists>q ts. w_hist w' = w_hist w @ EvQueryDealMap fid q # map (\<lambda>(v, r). EvTransferReport v fid r) ts
    \<and> (case q of
         Inl _ \<Rightarrow> ts = []
       | Inr order \<Rightarrow>
           if list_ex (\<lambda>c. CompareSlice (e_sdk E) (ci_Miner c) (e_acc E)) (so_CompleteList order) then ts = []
           else tried (reportable_columns E fid order w) ts)"
proof -
  let ?q = "x_QueryDealMap E (w_hist w) fid"
  let ?w1 = "log_event (EvQueryDealMap fid ?q) w"
  have same: "reportable E fid o' ?w1 = reportable E fid o' w" for o'
    by (auto simp: fun_eq_iff reportable_def column_complete_def frame_simps)
  show ?thesis
  proof (cases "\<exists>order. ?q = Inr order \<and> \<not> list_ex (\<lambda>c. CompareSlice (e_sdk E) (ci_Miner c) (e_acc E)) (so_CompleteList order)")
    case False
    then show ?thesis using assms
      by (intro exI [of _ ?q] exI [of _ "[]"]) (auto simp: reportfile_def QueryDealMap_def Let_def frame_simps split: sum.splits)
  next
    case True
    then obtain order vs where q: "?q = Inr order" and vs: "suc_loop E fid order 0 (columns E) [] ?w1 = Some vs"
      and w': "w' = transfer_loop E fid vs ?w1"
      and new: "\<not> list_ex (\<lambda>c. CompareSlice (e_sdk E) (ci_Miner c) (e_acc E)) (so_CompleteList order)"
      using assms by (auto simp: reportfile_def QueryDealMap_def Let_def split: option.splits)
    have "vs = reportable_columns E fid order w" using suc_loop_exact [OF vs] by (simp add: same reportable_columns_def)
    then show ?thesis using transfer_loop_trace [of E fid vs ?w1] q w' new
      by (auto simp: frame_simps intro!: exI [of _ ?q])
  qed
qed

definition report_env :: env where
  "report_env = demo_env\<lparr>x_QueryDealMap := \<lambda>_ _. Inr \<lparr>so_SegmentList = [\<lparr>ds_FragmentHash = [''aa'', ''bb'', ''cc'']\<rparr>],
     so_CompleteList = [\<lparr>ci_Index = 3, ci_Miner = ''other''\<rparr>]\<rparr>,
     x_TransferReport := \<lambda>_ _ _. (''0x1'', None)\<rparr>"

definition report_world :: world where
  "report_world = demo_world\<lparr>w_fs := \<lparr>fnodes = [([], DirNode), ([''w''], DirNode), ([''w'', ''report''], DirNode),
     ([''w'', ''report'', ''fi''], DirNode), ([''w'', ''report'', ''fi'', ''bb''], FileNode ''data''),
     ([''w'', ''report'', ''fi'', ''cc''], FileNode ''data''), ([''w'', ''file''], DirNode)], ffault = \<lambda>_ _. False\<rparr>\<rparr>"

definition reportfile_run :: "(world, goerr option) outcome" where
  "reportfile_run = reportfile report_env ''fi'' report_world"

definition demo_order :: storageOrder where
  "demo_order = \<lparr>so_SegmentList = [\<lparr>ds_FragmentHash = [''aa'', ''bb'', ''cc'']\<rparr>], so_CompleteList = [\<lparr>ci_Index = 3, ci_Miner = ''other''\<rparr>]\<rparr>"

text \<open>Of the three columns the first is not there and the third is somebody else's; the second is reported.\<close>

theorem reportfile_sound_witness:
  "reportable_columns report_env ''fi'' demo_order report_world = [2]
    \<and> w_hist (outcome_state reportfile_run) = w_hist report_world
        @ [EvQueryDealMap ''fi'' (Inr demo_order), EvTransferReport 2 ''fi'' (''0x1'', None)]
    \<and> tried (reportable_columns report_env ''fi'' demo_order report_world) [(2, ''0x1'', None)]"
proof -
  have run: "returned reportfile_run = Some None \<and> reportable_columns report_env ''fi'' demo_order report_world = [2]
      \<and> w_hist (outcome_state reportfile_run) = [EvQueryDealMap ''fi'' (Inr demo_order), EvTransferReport 2 ''fi'' (''0x1'', None)]
      \<and> w_hist report_world = [] \<and> \<not> list_ex (\<lambda>c. CompareSlice (e_sdk report_env) (ci_Miner c) (e_acc report_env)) (so_CompleteList demo_order)"
    by code_simp
  then have "reportfile report_env ''fi'' report_world = Ret None (outcome_state reportfile_run)"
    using returned_Some [of reportfile_run None] by (simp add: reportfile_run_def)
  from reportfile_sound [OF this] obtain q ts where h: "w_hist (outcome_state reportfile_run) = w_hist report_world
      @ EvQueryDealMap ''fi'' q # map (\<lambda>(v, r). EvTransferReport v ''fi'' r) ts"
    and ts: "case q of Inl _ \<Rightarrow> ts = [] | Inr order \<Rightarrow>
      if list_ex (\<lambda>c. CompareSlice (e_sdk report_env) (ci_Miner c) (e_acc report_env)) (so_CompleteList order) then ts = []
      else tried (reportable_columns report_env ''fi'' order report_world) ts" by blast
  have "q = Inr demo_order" "ts = [(2, ''0x1'', None)]" using h run by (auto simp: map_eq_Cons_conv)
  then show ?thesis using ts run by simp
qed

subsection \<open>No fragment is lost\<close>

text \<open>A fragment of this miner is kept while it lies, with its bytes, in the file directory or in the report directory, and
  nothing else lies at either place.\<close>

definition kept :: "workspace \<Rightarrow> string \<Rightarrow> string \<Rightarrow> bytes \<Rightarrow> fs \<Rightarrow> bool" where
  "kept ws fid g d fs \<longleftrightarrow>
     (let places = map (node_at fs) [resolve (Join [GetFileDir ws, fid, g]), resolve (Join [GetReportDir ws, fid, g])] in
        list_all (\<lambda>n. n = None \<or> n = Some (FileNode d)) places \<and> list_ex (\<lambda>n. n = Some (FileNode d)) places)"

text \<open>The two directories lie apart, names are single path components, and what waits in the report directory are files.\<close>

definition report_layout :: "workspace \<Rightarrow> string \<Rightarrow> string list \<Rightarrow> bool" where
  "report_layout ws fid gs \<longleftrightarrow> rooted (GetFileDir ws) \<and> rooted (GetReportDir ws) \<and> safe_name fid \<and> list_all safe_name gs
     \<and> \<not> prefix (resolve (GetReportDir ws)) (resolve (GetFileDir ws)) \<and> \<not> prefix (resolve (GetFileDir ws)) (resolve (GetReportDir ws))"

lemma parallel_not_eq: "\<not> prefix p q \<Longrightarrow> \<not> prefix q p \<Longrightarrow> p @ xs \<noteq> q @ ys"
  by (metis append_eq_append_conv2 prefixI)

definition no_dirs :: "workspace \<Rightarrow> string \<Rightarrow> string list \<Rightarrow> fs \<Rightarrow> bool" where
  "no_dirs ws fid gs fs \<longleftrightarrow> list_all (\<lambda>f. \<not> is_dir fs (resolve (Join [GetReportDir ws, fid, f]))) gs"

definition present :: "workspace \<Rightarrow> string \<Rightarrow> fs \<Rightarrow> string \<Rightarrow> bool" where
  "present ws fid fs g \<longleftrightarrow> node_at fs (resolve (Join [GetFileDir ws, fid, g])) \<noteq> None"

lemma layout_apart:
  assumes "report_layout ws fid gs" and "x \<in> set gs" and "y \<in> set gs"
  shows "resolve (Join [GetFileDir ws, fid, x]) \<noteq> resolve (Join [GetReportDir ws, fid, y])"
    "resolve (Join [GetFileDir ws, fid, x]) = resolve (Join [GetFileDir ws, fid, y]) \<longleftrightarrow> x = y"
    "resolve (Join [GetReportDir ws, fid, x]) = resolve (Join [GetReportDir ws, fid, y]) \<longleftrightarrow> x = y"
  using assms parallel_not_eq [of "resolve (GetFileDir ws)" "resolve (GetReportDir ws)"]
  by (auto simp: report_layout_def list_all_iff)

lemma rename_step:
  assumes "report_layout ws fid gs" and "f \<in> set gs" and "no_dirs ws fid gs fs"
    and "os_Rename fs (Join [GetReportDir ws, fid, f]) (Join [GetFileDir ws, fid, f]) = (fs1, e)"
  shows "no_dirs ws fid gs fs1" and "g \<in> set gs \<Longrightarrow> kept ws fid g d fs \<Longrightarrow> kept ws fid g d fs1"
    and "g \<in> set gs \<Longrightarrow> present ws fid fs g \<Longrightarrow> present ws fid fs1 g" and "e = None \<Longrightarrow> present ws fid fs1 f"
proof -
  let ?R = "\<lambda>x. resolve (Join [GetReportDir ws, fid, x])" and ?F = "\<lambda>x. resolve (Join [GetFileDir ws, fid, x])"
  have nd: "\<not> is_dir fs (?R f)" using assms(2,3) by (simp add: no_dirs_def list_all_iff)
  have ap: "?F x \<noteq> ?R y" "?F x = ?F y \<longleftrightarrow> x = y" "?R x = ?R y \<longleftrightarrow> x = y" if "x \<in> set gs" "y \<in> set gs" for x y
    using layout_apart [OF assms(1)] that by simp_all
  have step: "fs1 = fs \<and> e \<noteq> None \<or> node_at fs (?R f) \<noteq> None \<and> fs1 = put_node (del_nodes fs (\<lambda>r. r = ?R f)) (?F f) (FileNode (the (file_at fs (?R f)))) \<and> e = None"
    using assms(4) nd ap(1) [OF assms(2,2)] by (auto simp: os_Rename_def Let_def split: if_splits)
  then have cases: "(\<And>q. node_at fs1 q = (if e = None \<and> q = ?F f then Some (FileNode (the (file_at fs (?R f))))
      else if e = None \<and> q = ?R f then None else node_at fs q))"
    by (auto simp: fs_simps)
  have there: "node_at fs (?R f) \<noteq> None" if "e = None" using step that by auto
  show "no_dirs ws fid gs fs1" using assms(2,3) ap
    by (fastforce simp: no_dirs_def list_all_iff is_dir_def cases)
  show "kept ws fid g d fs1" if "g \<in> set gs" "kept ws fid g d fs"
    using that ap [OF that(1) assms(2)] ap [OF assms(2) that(1)] there by (auto simp: kept_def file_at_def cases)
  show "present ws fid fs1 g" if "g \<in> set gs" "present ws fid fs g"
    using that ap [OF that(1) assms(2)] by (auto simp: present_def cases)
  show "present ws fid fs1 f" if "e = None" using that by (simp add: present_def cases)
qed

lemma move_fragments_keeps:
  assumes "move_fragments fid fs w = (e, w')" and "report_layout (w_ws w) fid gs" and "set fs \<subseteq> set gs"
    and "no_dirs (w_ws w) fid gs (w_fs w)"
  shows "w_ws w' = w_ws w \<and> (\<forall>g \<in> set gs. \<forall>d. kept (w_ws w) fid g d (w_fs w) \<longrightarrow> kept (w_ws w) fid g d (w_fs w'))
    \<and> (\<forall>g \<in> set gs. present (w_ws w) fid (w_fs w) g \<longrightarrow> present (w_ws w) fid (w_fs w') g)
    \<and> (e = None \<longrightarrow> list_all (present (w_ws w) fid (w_fs w')) fs)"
  using assms
proof (induction fs arbitrary: w)
  case (Cons f fs)
  show ?case
  proof (cases "os_Stat (w_fs w) (Join [GetFileDir (w_ws w), fid, f])")
    case (Inr i)
    then have "present (w_ws w) fid (w_fs w) f"
      by (auto simp: present_def os_Stat_def Let_def split: if_splits option.splits)
    then show ?thesis using Cons.IH [of w] Cons.prems Inr by auto
  next
    case (Inl er)
    obtain fs1 e1 where rn: "os_Rename (w_fs w) (Join [GetReportDir (w_ws w), fid, f]) (Join [GetFileDir (w_ws w), fid, f]) = (fs1, e1)"
      by fastforce
    have f: "f \<in> set gs" using Cons.prems(3) by simp
    note st = rename_step [OF Cons.prems(2) f Cons.prems(4) rn]
    show ?thesis
    proof (cases e1)
      case None
      then have mv: "move_fragments fid fs (w\<lparr>w_fs := fs1\<rparr>) = (e, w')" using Cons.prems(1) Inl rn by (simp add: on_fs_def)
      from Cons.IH [OF mv] Cons.prems st None f show ?thesis by auto
    next
      case (Some e2)
      then have "w' = w\<lparr>w_fs := fs1\<rparr>" "e = Some e2" using Cons.prems(1) Inl rn by (auto simp: on_fs_def)
      then show ?thesis using st by auto
    qed
  qed
qed simp

lemma remove_report_present:
  assumes "report_layout (w_ws w) fid gs" and "g \<in> set gs" and "present (w_ws w) fid (w_fs w) g"
  shows "present (w_ws w) fid (w_fs (remove_report fid w)) g"
proof -
  have "\<not> prefix (resolve (Join [GetReportDir (w_ws w), fid])) (resolve (Join [GetFileDir (w_ws w), fid, g]))"
    using assms(1,2) parallel_not_eq [of "resolve (GetFileDir (w_ws w))" "resolve (GetReportDir (w_ws w))"]
    by (auto simp: report_layout_def list_all_iff elim!: prefixE)
  then show ?thesis
    using assms(3) os_RemoveAll_other [of "w_fs w" "Join [GetReportDir (w_ws w), fid]"]
    by (auto simp: remove_report_def present_def on_fs_def split: prod.split)
qed

lemma mkdir_kept:
  assumes "os_Mkdir fs p = (fs1, e)"
  shows "node_at fs q \<noteq> None \<Longrightarrow> node_at fs1 q = node_at fs q" and "node_at fs1 q = node_at fs q \<or> q = resolve p"
  using assms by (auto simp: os_Mkdir_def fs_simps Let_def split: if_splits)

lemma remove_report_kept:
  assumes "report_layout (w_ws w) fid gs" and "g \<in> set gs" and "present (w_ws w) fid (w_fs w) g"
    and "kept (w_ws w) fid g d (w_fs w)"
  shows "kept (w_ws w) fid g d (w_fs (remove_report fid w))"
proof -
  let ?F = "resolve (Join [GetFileDir (w_ws w), fid, g])" and ?R = "resolve (Join [GetReportDir (w_ws w), fid, g])" and ?D = "Join [GetReportDir (w_ws w), fid]"
  have "\<not> prefix (resolve ?D) ?F"
    using assms(1,2) parallel_not_eq [of "resolve (GetFileDir (w_ws w))" "resolve (GetReportDir (w_ws w))"]
    by (auto simp: report_layout_def list_all_iff elim!: prefixE)
  then have "node_at (fst (os_RemoveAll (w_fs w) ?D)) ?F = node_at (w_fs w) ?F"
    using os_RemoveAll_cases [of "w_fs w" ?D ?F] by blast
  moreover have "node_at (fst (os_RemoveAll (w_fs w) ?D)) ?R \<in> {None, node_at (w_fs w) ?R}"
    using os_RemoveAll_cases [of "w_fs w" ?D ?R] by blast
  ultimately show ?thesis using assms(3,4)
    by (auto simp: remove_report_def kept_def present_def on_fs_def split: prod.split)
qed

lemma kept_stored: "kept ws fid g d fs \<Longrightarrow> present ws fid fs g \<Longrightarrow> file_at fs (resolve (Join [GetFileDir ws, fid, g])) = Some d"
  by (auto simp: kept_def present_def file_at_Some)

text \<open>
  C15. \<^verbatim>\<open>checkfile\<close> never loses a fragment of this miner: if the chain's metadata for the file lists it as this
  miner's and it waits in the report directory, or is stored already, then afterwards its bytes are in the file directory or
  still wait in the report directory, and nothing else is at either place, whichever file operation failed on the way; and when the
  call succeeds the file directory has it, with these bytes.
\<close>

theorem checkfile_keeps_fragments:
  assumes "checkfile E fid w = ((r, err), w')" and "x_QueryFile E (w_hist w) fid (-1) = Inr m"
    and "report_layout (w_ws w) fid (own_fragments E m)" and "no_dirs (w_ws w) fid (own_fragments E m) (w_fs w)"
    and "g \<in> set (own_fragments E m)" and "kept (w_ws w) fid g d (w_fs w)"
  shows "kept (w_ws w) fid g d (w_fs w')
    \<and> (err = None \<longrightarrow> file_at (w_fs w') (resolve (Join [GetFileDir (w_ws w), fid, g])) = Some d)"
proof -
  let ?w1 = "log_event (EvQueryFile fid (-1) (Inr m)) w" and ?gs = "own_fragments E m"
  have "?gs \<noteq> []" using assms(5) by auto
  then have run: "keep_fragments fid ?gs ?w1 = ((r, err), w')"
    using assms(1,2) by (simp add: checkfile_def QueryFile_def Let_def)
  define mk where "mk = (case os_Stat (w_fs ?w1) (Join [GetFileDir (w_ws ?w1), fid]) of
      Inr _ \<Rightarrow> (None, ?w1) | Inl _ \<Rightarrow> on_fs (\<lambda>fs. os_Mkdir fs (Join [GetFileDir (w_ws ?w1), fid])) ?w1)"
  obtain e1 w2 where mk2: "mk = (e1, w2)" by fastforce
  have ws: "w_ws w2 = w_ws w"
    using mk2 by (auto simp: mk_def on_fs_def frame_simps split: sum.splits prod.splits)
  have node: "(\<forall>q. node_at (w_fs w) q \<noteq> None \<longrightarrow> node_at (w_fs w2) q = node_at (w_fs w) q)
      \<and> (\<forall>q. node_at (w_fs w2) q = node_at (w_fs w) q \<or> q = resolve (Join [GetFileDir (w_ws w), fid]))"
    using mk2 mkdir_kept by (auto simp: mk_def on_fs_def frame_simps split: sum.splits prod.splits) blast+
  have apart: "resolve (Join [GetReportDir (w_ws w), fid, f]) \<noteq> resolve (Join [GetFileDir (w_ws w), fid])"
    "resolve (Join [GetFileDir (w_ws w), fid, f]) \<noteq> resolve (Join [GetFileDir (w_ws w), fid])" if "f \<in> set ?gs" for f
    using that assms(3) parallel_not_eq [of "resolve (GetReportDir (w_ws w))" "resolve (GetFileDir (w_ws w))"]
    by (auto simp: report_layout_def list_all_iff)
  have kept2: "kept (w_ws w) fid g d (w_fs w2)"
  proof -
    have "node_at (w_fs w2) q = node_at (w_fs w) q" if "q \<noteq> resolve (Join [GetFileDir (w_ws w), fid])" for q
      using node that by blast
    then show ?thesis using assms(6) apart [OF assms(5)] by (simp add: kept_def)
  qed
  have nd2: "no_dirs (w_ws w) fid ?gs (w_fs w2)"
  proof -
    have "node_at (w_fs w2) (resolve (Join [GetReportDir (w_ws w), fid, f])) = node_at (w_fs w) (resolve (Join [GetReportDir (w_ws w), fid, f]))"
      if "f \<in> set ?gs" for f using node apart(1) [OF that] by blast
    then show ?thesis using assms(4) by (simp add: no_dirs_def list_all_iff is_dir_def)
  qed
  show ?thesis
  proof (cases e1)
    case (Some e)
    then have "w' = w2 \<and> err \<noteq> None" using run mk2 by (auto simp: keep_fragments_def mk_def)
    then show ?thesis using kept2 by auto
  next
    case None
    obtain e3 w3 where mv: "move_fragments fid ?gs w2 = (e3, w3)" by fastforce
    have keeps: "w_ws w3 = w_ws w" "kept (w_ws w) fid g d (w_fs w3)" "e3 = None \<Longrightarrow> present (w_ws w) fid (w_fs w3) g"
      using move_fragments_keeps [OF mv, of ?gs] ws assms(3,5) nd2 kept2 by (auto simp: list_all_iff)
    have w': "if e3 = None then w' = remove_report fid w3 \<and> err = None else w' = w3 \<and> err \<noteq> None"
      using run mk2 None mv by (auto simp: keep_fragments_def mk_def split: option.splits)
    show ?thesis
    proof (cases e3)
      case None
      then have "present (w_ws w) fid (w_fs w') g" "kept (w_ws w) fid g d (w_fs w')"
        using w' keeps remove_report_present [of w3 fid ?gs g] remove_report_kept [of w3 fid ?gs g d] assms(3,5) by auto
      then show ?thesis using kept_stored by blast
    qed (use w' keeps in auto)
  qed
qed

definition keep_env :: env where
  "keep_env = demo_env\<lparr>x_QueryFile := \<lambda>_ _ _. Inr \<lparr>fm_SegmentList = [\<lparr>si_FragmentList =
     [\<lparr>fi_Hash = ''bb'', fi_Miner = ''me'', fi_Tag = None\<rparr>, \<lparr>fi_Hash = ''xx'', fi_Miner = ''ot'', fi_Tag = None\<rparr>]\<rparr>]\<rparr>\<rparr>"

theorem checkfile_keeps_fragments_witness:
  "kept (w_ws report_world) ''fi'' ''bb'' ''data'' (w_fs (snd (checkfile keep_env ''fi'' report_world)))
    \<and> file_at (w_fs (snd (checkfile keep_env ''fi'' report_world))) (resolve (Join [GetFileDir (w_ws report_world), ''fi'', ''bb''])) = Some ''data''"
proof -
  let ?m = "\<lparr>fm_SegmentList = [\<lparr>si_FragmentList =
     [\<lparr>fi_Hash = ''bb'', fi_Miner = ''me'', fi_Tag = None\<rparr>, \<lparr>fi_Hash = ''xx'', fi_Miner = ''ot'', fi_Tag = None\<rparr>]\<rparr>]\<rparr>"
  have q: "x_QueryFile keep_env (w_hist report_world) ''fi'' (-1) = Inr ?m" by (simp add: keep_env_def)
  have own: "own_fragments keep_env ?m = [''bb'']" by code_simp
  have res: "snd (fst (checkfile keep_env ''fi'' report_world)) = None" by code_simp
  obtain r w' where run: "checkfile keep_env ''fi'' report_world = ((r, None), w')"
    using res by (metis prod.collapse)
  have "report_layout (w_ws report_world) ''fi'' [''bb'']" "no_dirs (w_ws report_world) ''fi'' [''bb''] (w_fs report_world)"
    "kept (w_ws report_world) ''fi'' ''bb'' ''data'' (w_fs report_world)" by code_simp+
  with checkfile_keeps_fragments [OF run q] own show ?thesis by (simp add: run)
qed

end
