(* ===== verification/Restore.thy ===== *)
theory Restore
  imports Report
begin

text \<open>
  Restoring fragments (\<^verbatim>\<open>src/node/restore.go\<close>): the miner's own missing ones, and those of restoral orders it
  claims from the chain. A lost fragment is looked for in the other files the miner stores.
\<close>

subsection \<open>Operations\<close>

definition frag_path :: "world \<Rightarrow> string \<Rightarrow> string \<Rightarrow> string" where
  "frag_path w fid fragment = Join [GetFileDir (w_ws w), fid, fragment]"

text \<open>Lines 215 to 220: the first stored file with the fragment is copied; without one nothing is done, and that
  is no error.\<close>

fun restore_search :: "string \<Rightarrow> string \<Rightarrow> string list \<Rightarrow> world \<Rightarrow> goerr option \<times> world" where
  "restore_search roothash fragmentHash [] w = (None, w)"
| "restore_search roothash fragmentHash (v # vs) w =
     (case os_Stat (w_fs w) (Join [v, fragmentHash]) of
        Inr _ \<Rightarrow> on_fs (\<lambda>fs. CopyFile fs (frag_path w roothash fragmentHash) (Join [v, fragmentHash])) w
      | Inl _ \<Rightarrow> restore_search roothash fragmentHash vs w)"

definition restoreFragment :: "env \<Rightarrow> string \<Rightarrow> string \<Rightarrow> world \<Rightarrow> goerr option \<times> world" where
  "restoreFragment E roothash fragmentHash w =
     (case (case os_Stat (w_fs w) (Join [GetFileDir (w_ws w), roothash]) of
              Inr _ \<Rightarrow> (None, w)
            | Inl _ \<Rightarrow> on_fs (\<lambda>fs. os_MkdirAll fs (Join [GetFileDir (w_ws w), roothash])) w) of
        (Some e, w1) \<Rightarrow> (Some e, w1)
      | (None, w1) \<Rightarrow>
          (if fragmentHash = ZeroFileHash_8M (e_sdk E)
           then on_fs (\<lambda>fs. os_WriteFile fs (frag_path w1 roothash fragmentHash)
                  (replicate (FragmentSize (e_sdk E)) (char_of (0 :: nat)))) w1
           else
             (case Dirs (w_fs w1) (GetFileDir (w_ws w1)) of
                Inl e \<Rightarrow> (Some e, w1)
              | Inr roothashes \<Rightarrow> restore_search roothash fragmentHash roothashes w1)))"

text \<open>Lines 152 to 184, for the fragments the chain assigns to this miner.\<close>

definition needs_restore :: "env \<Rightarrow> string \<Rightarrow> string \<Rightarrow> world \<Rightarrow> bool" where
  "needs_restore E fid v w =
     ((case os_Stat (w_fs w) (frag_path w fid v) of
         Inl e \<Rightarrow> Contains (err_msg e) ''no such file''
       | Inr fstat \<Rightarrow> fi_size fstat \<noteq> FragmentSize (e_sdk E))
      \<and> v \<notin> set (w_failed w))"

fun restore_missing :: "env \<Rightarrow> string \<Rightarrow> string list \<Rightarrow> world \<Rightarrow> world" where
  "restore_missing E fid [] w = w"
| "restore_missing E fid (v # vs) w =
     (if \<not> needs_restore E fid v w then restore_missing E fid vs w
      else
        (case restoreFragment E fid v w of
           (None, w1) \<Rightarrow> restore_missing E fid vs w1
         | (Some e, w1) \<Rightarrow>
             restore_missing E fid vs (snd (GenerateRestoralOrder E fid v (w1\<lparr>w_failed := v # w_failed w1\<rparr>)))))"

definition restoreFile :: "env \<Rightarrow> string \<Rightarrow> world \<Rightarrow> goerr option \<times> world" where
  "restoreFile E fid w =
     (case QueryFile E fid (-1) w of
        (Inl e, w1) \<Rightarrow> (Some e, w1)
      | (Inr metadata, w1) \<Rightarrow> (None, restore_missing E fid (own_fragments E metadata) w1))"

fun restore_files :: "env \<Rightarrow> string list \<Rightarrow> world \<Rightarrow> world" where
  "restore_files E [] w = w"
| "restore_files E (v # vs) w = restore_files E vs (snd (restoreFile E (Base v) w))"

definition RestoreLocalFiles :: "env \<Rightarrow> world \<Rightarrow> goerr option \<times> world" where
  "RestoreLocalFiles E w =
     (case Dirs (w_fs w) (GetFileDir (w_ws w)) of
        Inl e \<Rightarrow> (Some e, w)
      | Inr roothashes \<Rightarrow> (None, restore_files E roothashes w))"

text \<open>Lines 84 to 127. An order is taken over when its deadline has passed.\<close>

fun restore_orders :: "env \<Rightarrow> restoralOrder list \<Rightarrow> world \<Rightarrow> goerr option \<times> world" where
  "restore_orders E [] w = (None, w)"
| "restore_orders E (v # vs) w =
     (if ro_FragmentHash v \<in> set (w_failed w) then restore_orders E vs w
      else
        (case QueryRestoralOrder E (ro_FragmentHash v) w of
           (Inl e, w1) \<Rightarrow> restore_orders E vs w1
         | (Inr rsOrder, w1) \<Rightarrow>
             (case QueryBlockNumber E [] w1 of
                (Inl e, w2) \<Rightarrow> restore_orders E vs w2
              | (Inr latestBlock, w2) \<Rightarrow>
                  (if latestBlock \<le> ro_Deadline rsOrder then restore_orders E vs w2
                   else
                     (case ClaimRestoralOrder E (ro_FragmentHash v) w2 of
                        ((_, Some e), w3) \<Rightarrow> restore_orders E vs w3
                      | ((_, None), w3) \<Rightarrow>
                          (case restoreFragment E (ro_FileHash v) (ro_FragmentHash v) w3 of
                             (Some e, w4) \<Rightarrow> restore_orders E vs (w4\<lparr>w_failed := ro_FragmentHash v # w_failed w4\<rparr>)
                           | (None, w4) \<Rightarrow>
                               (case RestoralOrderComplete E (ro_FragmentHash v) w4 of
                                  ((_, Some e), w5) \<Rightarrow> (Some e, w5)
                                | ((_, None), w5) \<Rightarrow> restore_orders E vs w5)))))))"

text \<open>\<open>rnd\<close> is the random source of \<^verbatim>\<open>RandSlice\<close>.\<close>

definition RestoreOtherFiles :: "env \<Rightarrow> (nat \<Rightarrow> nat) \<Rightarrow> world \<Rightarrow> goerr option \<times> world" where
  "RestoreOtherFiles E rnd w =
     (case QueryAllRestoralOrder E w of
        (Inl e, w1) \<Rightarrow> (Some e, w1)
      | (Inr restoreOrderList, w1) \<Rightarrow> restore_orders E (RandSlice rnd restoreOrderList) w1)"

definition RestoreFiles :: "env \<Rightarrow> (nat \<Rightarrow> nat) \<Rightarrow> world \<Rightarrow> world" where
  "RestoreFiles E rnd w =
     (if GetState (w_run w) \<noteq> MINER_STATE_POSITIVE (e_sdk E) then w
      else snd (RestoreOtherFiles E rnd (snd (RestoreLocalFiles E w))))"

subsection \<open>What restoring a fragment does\<close>

definition has_fragment :: "fs \<Rightarrow> string \<Rightarrow> string \<Rightarrow> bool" where
  "has_fragment fs fragment v \<longleftrightarrow> (case os_Stat fs (Join [v, fragment]) of Inr _ \<Rightarrow> True | Inl _ \<Rightarrow> False)"

lemma restore_search_result:
  "restore_search fid g vs w = (err, w') \<Longrightarrow>
     (case find (has_fragment (w_fs w) g) vs of
        None \<Rightarrow> err = None \<and> w' = w
      | Some v \<Rightarrow> CopyFile (w_fs w) (frag_path w fid g) (Join [v, g]) = (w_fs w', err))"
proof (induction fid g vs w rule: restore_search.induct)
  case (2 fid g v vs w)
  then show ?case
    by (cases "os_Stat (w_fs w) (Join [v, g])") (auto simp: has_fragment_def on_fs_def split: prod.splits)
qed simp

text \<open>The disk after the first step, which makes the directory of the file when it is missing.\<close>

definition with_dir :: "workspace \<Rightarrow> string \<Rightarrow> fs \<Rightarrow> fs \<times> goerr option" where
  "with_dir ws fid fs = (case os_Stat fs (Join [GetFileDir ws, fid]) of
     Inr _ \<Rightarrow> (fs, None) | Inl _ \<Rightarrow> os_MkdirAll fs (Join [GetFileDir ws, fid]))"

lemma with_dir_file: "with_dir ws fid fs = (fs1, e) \<Longrightarrow> file_at fs1 q = file_at fs q"
  by (auto simp: with_dir_def intro: os_MkdirAll_file split: sum.splits)

text \<open>
  C30. Once the directory of the file is there and the stored files are listed, the call looks for the fragment in them, in the order of
  the list. When none has it, nothing more is done, and that is no error. Otherwise, if the call ends without error, the fragment's own
  path holds the bytes of the first copy found, or is emptied when that copy is the damaged file itself, and nothing
  else on the disk has changed.
\<close>

theorem restoreFragment_result:
  assumes "restoreFragment E fid g w = (err, w')" and "g \<noteq> ZeroFileHash_8M (e_sdk E)"
    and "with_dir (w_ws w) fid (w_fs w) = (fs1, None)" and "Dirs fs1 (GetFileDir (w_ws w)) = Inr vs"
  shows "let p = resolve (frag_path w fid g) in
    case find (has_fragment fs1 g) vs of
      None \<Rightarrow> err = None \<and> w' = w\<lparr>w_fs := fs1\<rparr>
    | Some v \<Rightarrow> err = None \<longrightarrow>
        (if resolve (Join [v, g]) = p then file_at (w_fs w') p = Some []
         else \<exists>d. file_at (w_fs w) (resolve (Join [v, g])) = Some d \<and> file_at (w_fs w') p = Some d)
        \<and> (\<forall>q. q \<noteq> p \<longrightarrow> node_at (w_fs w') q = node_at fs1 q)"
proof -
  let ?w1 = "w\<lparr>w_fs := fs1\<rparr>"
  have "(case os_Stat (w_fs w) (Join [GetFileDir (w_ws w), fid]) of
      Inr _ \<Rightarrow> (None, w) | Inl _ \<Rightarrow> on_fs (\<lambda>fs. os_MkdirAll fs (Join [GetFileDir (w_ws w), fid])) w) = (None, ?w1)"
    using assms(3) by (auto simp: with_dir_def on_fs_def split: sum.splits)
  then have search: "restore_search fid g vs ?w1 = (err, w')" using assms(1,2,4) by (simp add: restoreFragment_def)
  have path: "frag_path ?w1 fid g = frag_path w fid g" by (simp add: frag_path_def)
  note result = restore_search_result [OF search, simplified, unfolded path]
  show ?thesis
  proof (cases "find (has_fragment fs1 g) vs")
    case None
    then show ?thesis using result by simp
  next
    case (Some v)
    then have copy: "CopyFile fs1 (frag_path w fid g) (Join [v, g]) = (w_fs w', err)" using result by simp
    show ?thesis
    proof (cases err)
      case None
      note c = CopyFile_copies [OF copy [unfolded None], unfolded with_dir_file [OF assms(3)]]
      show ?thesis unfolding Let_def Some option.case
      proof (intro impI conjI)
        show "if resolve (Join [v, g]) = resolve (frag_path w fid g) then file_at (w_fs w') (resolve (frag_path w fid g)) = Some []
            else \<exists>d. file_at (w_fs w) (resolve (Join [v, g])) = Some d \<and> file_at (w_fs w') (resolve (frag_path w fid g)) = Some d"
          using conjunct1 [OF c] conjunct1 [OF conjunct2 [OF c]] by (simp only: eq_commute split: if_split)
      qed (use conjunct2 [OF conjunct2 [OF c]] in blast)
    qed (simp add: Some Let_def)
  qed
qed

definition damaged_world :: world where
  "damaged_world = demo_world\<lparr>w_fs := (w_fs demo_world)\<lparr>fnodes := fnodes (w_fs demo_world) @
     [([''w'', ''file''], DirNode), ([''w'', ''file'', ''f1''], DirNode), ([''w'', ''file'', ''f1'', ''ab''], FileNode ''x''),
      ([''w'', ''file'', ''f2''], DirNode), ([''w'', ''file'', ''f2'', ''cd''], FileNode ''good'')]\<rparr>\<rparr>"

theorem restoreFragment_result_witness:
  "file_at (w_fs (snd (restoreFragment demo_env ''f1'' ''cd'' damaged_world))) [''w'', ''file'', ''f1'', ''cd''] = Some ''good''"
proof -
  let ?d = "with_dir (w_ws damaged_world) ''f1'' (w_fs damaged_world)" and ?r = "restoreFragment demo_env ''f1'' ''cd'' damaged_world"
  have run: "fst ?r = None \<and> ''cd'' \<noteq> ZeroFileHash_8M (e_sdk demo_env) \<and> snd ?d = None
      \<and> Dirs (fst ?d) (GetFileDir (w_ws damaged_world)) = Inr [''/w/file/f1'', ''/w/file/f2'']
      \<and> find (has_fragment (fst ?d) ''cd'') [''/w/file/f1'', ''/w/file/f2''] = Some ''/w/file/f2''
      \<and> resolve (Join [''/w/file/f2'', ''cd'']) = [''w'', ''file'', ''f2'', ''cd'']
      \<and> resolve (frag_path damaged_world ''f1'' ''cd'') = [''w'', ''file'', ''f1'', ''cd'']
      \<and> file_at (w_fs damaged_world) [''w'', ''file'', ''f2'', ''cd''] = Some ''good''" by code_simp
  have "?r = (None, snd ?r)" "?d = (fst ?d, None)" using run by (simp_all add: prod_eq_iff)
  from restoreFragment_result [OF this(1) _ this(2)] run show ?thesis by (auto simp: Let_def)
qed

subsection \<open>Orders\<close>

text \<open>Every completion follows a claim the chain accepted; \<open>cs\<close> are the fragments claimed before.\<close>

fun completes_claimed :: "string list \<Rightarrow> event list \<Rightarrow> bool" where
  "completes_claimed cs [] = True"
| "completes_claimed cs (EvClaimRestoralOrder g (t, None) # h) = completes_claimed (g # cs) h"
| "completes_claimed cs (EvRestoralOrderComplete g r # h) = (g \<in> set cs \<and> completes_claimed cs h)"
| "completes_claimed cs (e # h) = completes_claimed cs h"

lemma completes_claimed_mono: "completes_claimed cs h \<Longrightarrow> set cs \<subseteq> set ds \<Longrightarrow> completes_claimed ds h"
proof (induction cs h arbitrary: ds rule: completes_claimed.induct)
  case (2 cs g t h)
  then show ?case by (auto intro!: "2.IH" dest: subsetD)
qed auto

lemma completes_claimed_append: "completes_claimed cs h \<Longrightarrow> completes_claimed [] h' \<Longrightarrow> completes_claimed cs (h @ h')"
  by (induction cs h rule: completes_claimed.induct) (auto intro: completes_claimed_mono)

interpretation claims: trace_property "\<lambda>h d. completes_claimed [] h"
  by unfold_locales (auto intro: completes_claimed_append)

lemma restoreFragment_silent: "w_hist (snd (restoreFragment E fid g w)) = w_hist w \<and> w_db (snd (restoreFragment E fid g w)) = w_db w"
proof -
  have s: "w_hist (snd (restore_search fid g vs v)) = w_hist v \<and> w_db (snd (restore_search fid g vs v)) = w_db v" for vs v
    by (induction fid g vs v rule: restore_search.induct) (auto simp: on_fs_def split: sum.split prod.split)
  show ?thesis
    using s by (auto simp: restoreFragment_def on_fs_def split: sum.split prod.split option.split)
qed

lemma claims_query: "completes_claimed [] [e] \<Longrightarrow> adds (\<lambda>h d. completes_claimed [] h) w (log_event e w)"
  by (rule claims.adds_event)

lemma claims_more:
  assumes "adds (\<lambda>h d. completes_claimed [] h) w w'" and "w_hist w'' = w_hist w'" "w_db w'' = w_db w'"
  shows "adds (\<lambda>h d. completes_claimed [] h) w w''"
  using claims.adds_trans [OF assms(1) claims.adds_same [OF assms(2,3)]] .

lemma restore_orders_claims: "adds (\<lambda>h d. completes_claimed [] h) w (snd (restore_orders E vs w))"
proof (induction vs arbitrary: w)
  case (Cons v vs)
  let ?P = "\<lambda>h (d :: dblog). completes_claimed [] h" and ?g = "ro_FragmentHash v"
  define q where "q = x_QueryRestoralOrder E (w_hist w) ?g"
  define w1 where "w1 = log_event (EvQueryRestoralOrder ?g q) w"
  define b where "b = x_QueryBlockNumber E (w_hist w1) []"
  define w2 where "w2 = log_event (EvQueryBlockNumber [] b) w1"
  obtain t ce where c: "x_ClaimRestoralOrder E (w_hist w2) ?g = (t, ce)" by fastforce
  define w3 where "w3 = log_event (EvClaimRestoralOrder ?g (t, ce)) w2"
  obtain re w4 where r: "restoreFragment E (ro_FileHash v) ?g w3 = (re, w4)" by fastforce
  obtain t' ke where k: "x_RestoralOrderComplete E (w_hist w4) ?g = (t', ke)" by fastforce
  define w5 where "w5 = log_event (EvRestoralOrderComplete ?g (t', ke)) w4"
  have w4: "w_hist w4 = w_hist w3" "w_db w4 = w_db w3"
    using restoreFragment_silent [of E "ro_FileHash v" ?g w3] r by simp_all
  have a1: "adds ?P w w1" by (simp add: w1_def claims_query)
  have a2: "adds ?P w w2" using claims.adds_trans [OF a1 claims_query [of "EvQueryBlockNumber [] b" w1]] by (simp add: w2_def)
  have "completes_claimed [] [EvClaimRestoralOrder ?g (t, ce)]" by (cases ce) auto
  then have a3: "adds ?P w w3" using claims.adds_trans [OF a2 claims_query [of "EvClaimRestoralOrder ?g (t, ce)" w2]] by (simp add: w3_def)
  have a4: "adds ?P w (w4\<lparr>w_failed := x\<rparr>)" for x using claims_more [OF a3] w4 by simp
  have a5: "adds ?P w w5" if "ce = None"
  proof -
    have "w_hist w5 = w_hist w2 @ [EvClaimRestoralOrder ?g (t, None), EvRestoralOrderComplete ?g (t', ke)]" "w_db w5 = w_db w2"
      using w4 that by (simp_all add: w5_def w3_def frame_simps)
    then have "adds ?P w2 w5" by (auto simp: adds_def)
    then show ?thesis by (rule claims.adds_trans [OF a2])
  qed
  have n: "adds ?P w (snd (restore_orders E vs w'))" if "adds ?P w w'" for w' by (rule claims.adds_trans [OF that Cons.IH])
  have e1: "QueryRestoralOrder E ?g w = (q, w1)" by (simp add: QueryRestoralOrder_def Let_def q_def w1_def)
  have e2: "QueryBlockNumber E [] w1 = (b, w2)" by (simp add: QueryBlockNumber_def Let_def b_def w2_def)
  have e3: "ClaimRestoralOrder E ?g w2 = ((t, ce), w3)" by (simp add: ClaimRestoralOrder_def Let_def c w3_def)
  have e4: "RestoralOrderComplete E ?g w4 = ((t', ke), w5)" by (simp add: RestoralOrderComplete_def Let_def k w5_def)
  show ?case
    using n [OF a1] n [OF a2] n [OF a3] n [OF a4] n [OF a5] a5 Cons.IH [of w]
    by (cases q; cases b; cases ce; cases re; cases ke) (simp_all add: e1 e2 e3 e4 r)
qed (simp add: claims.adds_refl)

text \<open>
  C29. Working off the restoral orders, the miner reports an order complete only after the chain accepted its claim on
  the same fragment in the same run.
\<close>

theorem RestoreOtherFiles_claims:
  "\<exists>h. w_hist (snd (RestoreOtherFiles E rnd w)) = w_hist w @ h \<and> completes_claimed [] h"
proof -
  have "adds (\<lambda>h d. completes_claimed [] h) w (snd (RestoreOtherFiles E rnd w))"
    by (auto simp: RestoreOtherFiles_def QueryAllRestoralOrder_def Let_def claims_query
        intro: claims.adds_trans [OF claims_query restore_orders_claims] split: sum.split)
  then show ?thesis by (auto simp: adds_def)
qed

definition order_env :: env where
  "order_env = demo_env\<lparr>x_QueryAllRestoralOrder := \<lambda>_. Inr [\<lparr>ro_FileHash = ''f1'', ro_FragmentHash = ''ef'', ro_Deadline = 1\<rparr>],
     x_QueryRestoralOrder := \<lambda>_ g. Inr \<lparr>ro_FileHash = ''f1'', ro_FragmentHash = g, ro_Deadline = 1\<rparr>,
     x_QueryBlockNumber := \<lambda>_ _. Inr 5, x_ClaimRestoralOrder := \<lambda>_ _. (''t'', None), x_RestoralOrderComplete := \<lambda>_ _. (''u'', None)\<rparr>"

text \<open>
  A fragment found nowhere counts as restored: an order is claimed and reported complete, with success, while the
  miner does not have the fragment.
\<close>

theorem restore_completes_without_data:
  "\<exists>E w fid g t. EvRestoralOrderComplete g (t, None) \<in> set (w_hist (snd (RestoreOtherFiles E (\<lambda>_. 0) w)))
     \<and> fst (RestoreOtherFiles E (\<lambda>_. 0) w) = None
     \<and> filter (\<lambda>p. suffix [g] (fst p)) (fnodes (w_fs (snd (RestoreOtherFiles E (\<lambda>_. 0) w)))) = []"
proof -
  let ?r = "RestoreOtherFiles order_env (\<lambda>_. 0) damaged_world"
  have "last (w_hist (snd ?r)) = EvRestoralOrderComplete ''ef'' (''u'', None)" by code_simp
  moreover have "w_hist (snd ?r) \<noteq> []" by code_simp
  ultimately have "EvRestoralOrderComplete ''ef'' (''u'', None) \<in> set (w_hist (snd ?r))" by (metis last_in_set)
  moreover have "fst ?r = None" by code_simp
  moreover have "filter (\<lambda>p. suffix [''ef''] (fst p)) (fnodes (w_fs (snd ?r))) = []" by code_simp
  ultimately show ?thesis by blast
qed

end
