(* ===== verification/Scheduler.thy ===== *)
theory Scheduler
  imports NodeTypes RunStatus
begin

text \<open>
  The main loop (\<^verbatim>\<open>Start\<close> in \<^verbatim>\<open>src/node/node.go\<close>) and the challenge manager (\<^verbatim>\<open>src/node/challenge.go\<close>), as a
  step relation on the goroutines of the node.

  Every worker has a channel of capacity one. A token in it means that the worker may be started; who
  starts it receives the token, and the worker's deferred \<^verbatim>\<open>ch <- true\<close> sends it back when it returns or
  panics. The main loop takes one clock reading per round and then passes eight blocks, each of which
  tests the length of a channel before it receives. It is the only receiver of the channels of its
  workers, so between test and receive a token can only be added and a block is one step. The
  managers, several of which may run at once, compete for the other three channels; their tests and
  receives are separate steps.
\<close>

subsection \<open>State\<close>

datatype worker = SyncMinerW | SyncTeeW | ReportW | GenIdleW | CertIdleW | CalcTagW | IdleChallW | ServiceChallW
  | ReplaceIdleW | RestoreW

text \<open>Where a running manager is; the snapshot it has read and the height it has read after it.\<close>

datatype mpc =
    MQuery
  | MIdle challengeSnapshot u32 | MIdleTee challengeSnapshot u32 | MIdleTeeRecv challengeSnapshot u32
  | MIdleRecv challengeSnapshot u32
  | MService challengeSnapshot u32 | MServiceTee challengeSnapshot u32 | MServiceTeeRecv challengeSnapshot u32
  | MServiceRecv challengeSnapshot u32

text \<open>What a manager's two queries answered: the challenge of the miner, with a flag whether there is one, and the height.\<close>

type_synonym answers = "(bool \<times> challengeSnapshot) result \<times> u32 result"

text \<open>What was started: by the main loop, with the clock reading and the status then; by a manager.\<close>

datatype started =
    Periodic worker int runstatus
  | TeeStarted
  | IdleStarted challengeSnapshot u32
  | ServiceStarted challengeSnapshot u32

record sched =
  sc_tNow :: int
  sc_tOld_12s :: int
  sc_tOld :: "worker \<Rightarrow> int"
  sc_block :: nat
  sc_ch :: "worker \<Rightarrow> nat"
  sc_run :: "worker \<Rightarrow> nat"
  sc_mgr :: "mpc list"
  sc_status :: runstatus
  sc_log :: "started list"
  sc_answers :: "answers list"

subsection \<open>Starting and ending workers\<close>

definition launch :: "worker \<Rightarrow> started \<Rightarrow> sched \<Rightarrow> sched" where
  "launch w x s = s\<lparr>sc_ch := (sc_ch s)(w := sc_ch s w - 1), sc_run := (sc_run s)(w := sc_run s w + 1),
     sc_log := sc_log s @ [x]\<rparr>"

definition finish :: "worker \<Rightarrow> sched \<Rightarrow> sched" where
  "finish w s = s\<lparr>sc_ch := (sc_ch s)(w := sc_ch s w + 1), sc_run := (sc_run s)(w := sc_run s w - 1)\<rparr>"

text \<open>A block of the main loop: period over, token there, and a condition on the status.\<close>

definition periodic :: "worker \<Rightarrow> int \<Rightarrow> (runstatus \<Rightarrow> bool) \<Rightarrow> sched \<Rightarrow> sched" where
  "periodic w period guard s =
     (if sc_tNow s - sc_tOld s w \<ge> period \<and> sc_ch s w > 0 \<and> guard (sc_status s)
      then (launch w (Periodic w (sc_tNow s) (sc_status s)) s)\<lparr>sc_tOld := (sc_tOld s)(w := sc_tNow s)\<rparr>
      else s)"

definition challenge_block :: "sched \<Rightarrow> sched" where
  "challenge_block s =
     (if sc_tNow s - sc_tOld_12s s \<ge> 12 \<and> (sc_ch s IdleChallW > 0 \<or> sc_ch s ServiceChallW > 0)
      then s\<lparr>sc_mgr := sc_mgr s @ [MQuery], sc_tOld_12s := sc_tNow s\<rparr>
      else s)"

definition no_challenge :: "runstatus \<Rightarrow> bool" where
  "no_challenge rs \<longleftrightarrow> \<not> GetIdleChallenging rs \<and> \<not> GetServiceChallenging rs"

text \<open>Worker, period in seconds and condition of the blocks after the first.\<close>

definition blocks :: "(worker \<times> int \<times> (runstatus \<Rightarrow> bool)) list" where
  "blocks = [(SyncMinerW, 20, \<lambda>_. True), (ReportW, 30, \<lambda>_. True), (GenIdleW, 40, no_challenge),
     (CertIdleW, 50, \<lambda>_. True), (CalcTagW, 60, \<lambda>_. True), (ReplaceIdleW, 180, \<lambda>_. True),
     (RestoreW, 3600, \<lambda>_. True)]"

definition main_block :: "nat \<Rightarrow> sched \<Rightarrow> sched" where
  "main_block i s =
     (if i = 0 then challenge_block s
      else case blocks ! (i - 1) of (w, period, guard) \<Rightarrow> periodic w period guard s)"

text \<open>The state when the loop is entered, before its first round: the two synchronisations are already
  running.\<close>

definition Start :: "int \<Rightarrow> runstatus \<Rightarrow> sched" where
  "Start tNow rs = \<lparr>sc_tNow = tNow, sc_tOld_12s = tNow, sc_tOld = (\<lambda>_. tNow), sc_block = 8,
     sc_ch = (\<lambda>w. if w = SyncMinerW \<or> w = SyncTeeW then 0 else 1),
     sc_run = (\<lambda>w. if w = SyncMinerW \<or> w = SyncTeeW then 1 else 0),
     sc_mgr = [], sc_status = rs, sc_log = [], sc_answers = []\<rparr>"

subsection \<open>The challenge manager\<close>

text \<open>Lines 23 to 42: after the two queries.\<close>

definition ChallengeMgt :: "(bool \<times> challengeSnapshot) result \<Rightarrow> u32 result \<Rightarrow> mpc option" where
  "ChallengeMgt snapshot latestBlock =
     (case snapshot of
        Inl _ \<Rightarrow> None
      | Inr (haveChall, challenge) \<Rightarrow>
          (if \<not> haveChall then None
           else (case latestBlock of Inl _ \<Rightarrow> None | Inr b \<Rightarrow> Some (MIdle challenge b))))"

text \<open>Lines 52 to 100 and 102 to 150: is there something to do, and is there still time?\<close>

definition wanted :: "bool option option \<Rightarrow> u32 \<Rightarrow> u32 \<Rightarrow> u32 \<Rightarrow> bool" where
  "wanted prove slip verifySlip latestBlock =
     (if HasValue prove
      then (case Unwrap None prove of (_, verifyResult) \<Rightarrow> \<not> HasValue verifyResult \<and> verifySlip > latestBlock)
      else slip > latestBlock)"

definition idle_wanted :: "challengeSnapshot \<Rightarrow> u32 \<Rightarrow> bool" where
  "idle_wanted c b = wanted (cs_IdleProve c) (cs_IdleSlip c) (cs_VerifySlip c) b"

definition service_wanted :: "challengeSnapshot \<Rightarrow> u32 \<Rightarrow> bool" where
  "service_wanted c b = wanted (cs_ServiceProve c) (cs_ServiceSlip c) (cs_VerifySlip c) b"

text \<open>One step of a manager: \<open>None\<close> when it is blocked in a receive, otherwise where it is next (\<open>None\<close>:
  it has returned) and the new state.\<close>

fun mgr_step :: "mpc \<Rightarrow> sched \<Rightarrow> (mpc option \<times> sched) option" where
  "mgr_step MQuery s = None"
| "mgr_step (MIdle c b) s =
     Some (Some (if idle_wanted c b \<and> sc_ch s IdleChallW > 0 then MIdleTee c b else MService c b), s)"
| "mgr_step (MIdleTee c b) s = Some (Some (if sc_ch s SyncTeeW > 0 then MIdleTeeRecv c b else MIdleRecv c b), s)"
| "mgr_step (MIdleTeeRecv c b) s =
     (if sc_ch s SyncTeeW > 0 then Some (Some (MIdleRecv c b), launch SyncTeeW TeeStarted s) else None)"
| "mgr_step (MIdleRecv c b) s =
     (if sc_ch s IdleChallW > 0 then Some (Some (MService c b), launch IdleChallW (IdleStarted c b) s) else None)"
| "mgr_step (MService c b) s =
     Some (if service_wanted c b \<and> sc_ch s ServiceChallW > 0 then Some (MServiceTee c b) else None, s)"
| "mgr_step (MServiceTee c b) s = Some (Some (if sc_ch s SyncTeeW > 0 then MServiceTeeRecv c b else MServiceRecv c b), s)"
| "mgr_step (MServiceTeeRecv c b) s =
     (if sc_ch s SyncTeeW > 0 then Some (Some (MServiceRecv c b), launch SyncTeeW TeeStarted s) else None)"
| "mgr_step (MServiceRecv c b) s =
     (if sc_ch s ServiceChallW > 0 then Some (None, launch ServiceChallW (ServiceStarted c b) s) else None)"

definition put_mgr :: "nat \<Rightarrow> mpc option \<Rightarrow> mpc list \<Rightarrow> mpc list" where
  "put_mgr i p ms = (case p of Some q \<Rightarrow> ms[i := q] | None \<Rightarrow> take i ms @ drop (Suc i) ms)"

subsection \<open>Steps\<close>

text \<open>
  A new round with a new clock reading (the clock may jump either way); a block of the round; a manager's queries with
  any answers; a step of a manager; a worker that ends, for which its deferred send needs room in the
  channel; a change of the shared status by some worker. The answers to the queries are kept for the
  statements below; no step looks at them.
\<close>

inductive sched_step :: "sched \<Rightarrow> sched \<Rightarrow> bool" where
  Round: "sc_block s = 8 \<Longrightarrow> sched_step s (s\<lparr>sc_tNow := t, sc_block := 0\<rparr>)"
| Block: "sc_block s = i \<Longrightarrow> i < 8 \<Longrightarrow> sched_step s ((main_block i s)\<lparr>sc_block := Suc i\<rparr>)"
| Query: "i < length (sc_mgr s) \<Longrightarrow> sc_mgr s ! i = MQuery \<Longrightarrow>
    sched_step s (s\<lparr>sc_mgr := put_mgr i (ChallengeMgt snapshot latestBlock) (sc_mgr s),
       sc_answers := sc_answers s @ [(snapshot, latestBlock)]\<rparr>)"
| Manager: "i < length (sc_mgr s) \<Longrightarrow> mgr_step (sc_mgr s ! i) s = Some (p, s') \<Longrightarrow>
    sched_step s (s'\<lparr>sc_mgr := put_mgr i p (sc_mgr s)\<rparr>)"
| Finish: "sc_run s w > 0 \<Longrightarrow> sc_ch s w < 1 \<Longrightarrow> sched_step s (finish w s)"
| Status: "sched_step s (s\<lparr>sc_status := rs\<rparr>)"

inductive_cases sched_stepE: "sched_step s s'"

inductive sched_reach :: "sched \<Rightarrow> bool" where
  Init: "sched_reach (Start t rs)"
| Step: "sched_reach s \<Longrightarrow> sched_step s s' \<Longrightarrow> sched_reach s'"

text \<open>What holds when the loop is entered and is kept by every step holds in every reachable state.\<close>

locale sched_invariant =
  fixes I :: "sched \<Rightarrow> bool"
  assumes start: "I (Start t rs)"
    and step: "sched_step s s' \<Longrightarrow> I s \<Longrightarrow> I s'"
begin

lemma reach: "sched_reach s \<Longrightarrow> I s"
  by (induction rule: sched_reach.induct) (auto intro: start step)

end

subsection \<open>One instance of each worker\<close>

definition tokens :: "sched \<Rightarrow> bool" where
  "tokens s \<longleftrightarrow> (\<forall>w. sc_ch s w + sc_run s w = 1)"

lemma launch_tokens: "tokens s \<Longrightarrow> sc_ch s w > 0 \<Longrightarrow> tokens (launch w x s)"
  unfolding tokens_def launch_def by (auto dest: spec [of _ w])

lemma tokens_upd [simp]:
  "tokens (s\<lparr>sc_tNow := t\<rparr>) = tokens s" "tokens (s\<lparr>sc_block := n\<rparr>) = tokens s" "tokens (s\<lparr>sc_mgr := m\<rparr>) = tokens s"
  "tokens (s\<lparr>sc_answers := a\<rparr>) = tokens s" "tokens (s\<lparr>sc_status := r\<rparr>) = tokens s" "tokens (s\<lparr>sc_tOld := f\<rparr>) = tokens s" "tokens (s\<lparr>sc_tOld_12s := t\<rparr>) = tokens s"
  by (simp_all add: tokens_def)

lemma periodic_tokens: "tokens s \<Longrightarrow> tokens (periodic w p g s)"
  by (simp add: periodic_def launch_tokens)

lemma main_block_tokens: "tokens s \<Longrightarrow> tokens (main_block i s)"
  by (simp add: main_block_def challenge_block_def periodic_tokens split: prod.split)

lemma mgr_step_tokens: "mgr_step m s = Some (p, s') \<Longrightarrow> tokens s \<Longrightarrow> tokens s'"
  by (cases "(m, s)" rule: mgr_step.cases) (auto simp: launch_tokens split: if_splits)

lemma finish_tokens: "tokens s \<Longrightarrow> sc_run s w > 0 \<Longrightarrow> tokens (finish w s)"
  unfolding tokens_def finish_def by (auto dest: spec [of _ w])

interpretation tokens: sched_invariant tokens
proof
  show "tokens (Start t rs)" for t rs by (simp add: tokens_def Start_def)
  show "tokens s'" if "sched_step s s'" "tokens s" for s s'
    using that by cases (auto simp: main_block_tokens finish_tokens dest: mgr_step_tokens)
qed

subsection \<open>When workers are started\<close>

fun start_times :: "worker \<Rightarrow> started list \<Rightarrow> int list" where
  "start_times w [] = []"
| "start_times w (Periodic w' t rs # xs) = (if w' = w then t # start_times w xs else start_times w xs)"
| "start_times w (x # xs) = start_times w xs"

fun spaced :: "int \<Rightarrow> int list \<Rightarrow> bool" where
  "spaced p (s # t # ts) = (t - s \<ge> p \<and> spaced p (t # ts))"
| "spaced p ts = True"

fun start_ok :: "started \<Rightarrow> bool" where
  "start_ok (Periodic w t rs) = (w = GenIdleW \<longrightarrow> no_challenge rs)"
| "start_ok (IdleStarted c b) = idle_wanted c b"
| "start_ok (ServiceStarted c b) = service_wanted c b"
| "start_ok TeeStarted = True"

fun mgr_ok :: "mpc \<Rightarrow> bool" where
  "mgr_ok (MIdleTee c b) = idle_wanted c b"
| "mgr_ok (MIdleTeeRecv c b) = idle_wanted c b"
| "mgr_ok (MIdleRecv c b) = idle_wanted c b"
| "mgr_ok (MServiceTee c b) = service_wanted c b"
| "mgr_ok (MServiceTeeRecv c b) = service_wanted c b"
| "mgr_ok (MServiceRecv c b) = service_wanted c b"
| "mgr_ok _ = True"

lemma start_times_append: "start_times w (xs @ ys) = start_times w xs @ start_times w ys"
  by (induction w xs rule: start_times.induct) auto

lemma spaced_snoc: "spaced p (s # ts) \<Longrightarrow> t - last (s # ts) \<ge> p \<Longrightarrow> spaced p (s # ts @ [t])"
  by (induction ts arbitrary: s) auto

text \<open>The blocks other than a worker's own do not touch its times; its own block keeps the distance.\<close>

definition paced :: "worker \<Rightarrow> int \<Rightarrow> sched \<Rightarrow> bool" where
  "paced w p s \<longleftrightarrow> (\<exists>t0. spaced p (t0 # start_times w (sc_log s)) \<and> sc_tOld s w = last (t0 # start_times w (sc_log s)))"

lemma paced_upd [simp]:
  "paced w p (s\<lparr>sc_tNow := t\<rparr>) = paced w p s" "paced w p (s\<lparr>sc_block := n\<rparr>) = paced w p s"
  "paced w p (s\<lparr>sc_answers := a\<rparr>) = paced w p s" "paced w p (s\<lparr>sc_mgr := m\<rparr>) = paced w p s" "paced w p (s\<lparr>sc_status := r\<rparr>) = paced w p s"
  "paced w p (s\<lparr>sc_tOld_12s := t\<rparr>) = paced w p s" "paced w p (finish v s) = paced w p s"
  by (simp_all add: paced_def finish_def)

lemma paced_log:
  "sc_log s' = sc_log s @ [x] \<Longrightarrow> start_times w [x] = [] \<Longrightarrow> sc_tOld s' w = sc_tOld s w \<Longrightarrow> paced w p s \<Longrightarrow> paced w p s'"
  by (simp add: paced_def start_times_append)

lemma periodic_paced:
  assumes "paced w p s" "v = w \<Longrightarrow> q = p"
  shows "paced w p (periodic v q g s)"
proof (cases "sc_tNow s - sc_tOld s v \<ge> q \<and> sc_ch s v > 0 \<and> g (sc_status s)")
  case run: True
  show ?thesis
  proof (cases "v = w")
    case True
    from assms(1) obtain t0 where t0: "spaced p (t0 # start_times w (sc_log s))" "sc_tOld s w = last (t0 # start_times w (sc_log s))"
      by (auto simp: paced_def)
    have "spaced p (t0 # start_times w (sc_log s) @ [sc_tNow s])"
      using t0 run True assms(2) by (intro spaced_snoc) auto
    then show ?thesis using run True by (auto simp: periodic_def launch_def paced_def start_times_append)
  next
    case False
    then show ?thesis using run assms(1) by (simp add: periodic_def launch_def paced_def start_times_append)
  qed
qed (use assms(1) in \<open>auto simp: periodic_def\<close>)

lemma block_period: "0 < i \<Longrightarrow> i < 8 \<Longrightarrow> blocks ! (i - 1) \<in> set blocks"
  by (rule nth_mem) (simp add: blocks_def)

lemma blocks_period: "(w, p, g) \<in> set blocks \<Longrightarrow> (w, q, h) \<in> set blocks \<Longrightarrow> q = p \<and> h = g"
  by (auto simp: blocks_def)

lemma main_block_paced:
  assumes "(w, p, g) \<in> set blocks" "i < 8" "paced w p s"
  shows "paced w p (main_block i s)"
proof (cases "i = 0")
  case True
  then show ?thesis using assms(3) by (simp add: main_block_def challenge_block_def)
next
  case False
  obtain v q h where b: "blocks ! (i - 1) = (v, q, h)" by (cases "blocks ! (i - 1)") auto
  then have "v = w \<Longrightarrow> q = p" using block_period [of i] False assms(1,2) blocks_period by auto
  then show ?thesis using False b assms(3) by (simp add: main_block_def periodic_paced)
qed

lemma mgr_step_log:
  assumes "mgr_step m s = Some (p, s')" "mgr_ok m"
  shows "(sc_log s' = sc_log s \<or> (\<exists>x. sc_log s' = sc_log s @ [x] \<and> start_ok x \<and> (\<forall>w. start_times w [x] = [])))
    \<and> sc_tOld s' = sc_tOld s \<and> (\<forall>q. p = Some q \<longrightarrow> mgr_ok q)"
  using assms by (cases "(m, s)" rule: mgr_step.cases) (auto simp: launch_def split: if_splits)

lemma mgr_step_paced: "mgr_step m s = Some (r, s') \<Longrightarrow> mgr_ok m \<Longrightarrow> paced w p s \<Longrightarrow> paced w p s'"
  using mgr_step_log [of m s r s'] by (auto simp: paced_def start_times_append)

lemma put_mgr_set: "set (put_mgr i p ms) \<subseteq> set ms \<union> set_option p"
  by (auto simp: put_mgr_def dest: in_set_takeD in_set_dropD set_update_subset_insert [THEN subsetD] split: option.splits)

definition starts_inv :: "sched \<Rightarrow> bool" where
  "starts_inv s \<longleftrightarrow> list_all start_ok (sc_log s) \<and> list_all mgr_ok (sc_mgr s)
     \<and> (\<forall>(w, p, g) \<in> set blocks. paced w p s)"

lemma main_block_start_ok:
  assumes "list_all start_ok (sc_log s)" "i < 8"
  shows "list_all start_ok (sc_log (main_block i s))"
proof (cases "i = 0")
  case True
  then show ?thesis using assms by (simp add: main_block_def challenge_block_def)
next
  case False
  obtain v q h where b: "blocks ! (i - 1) = (v, q, h)" by (cases "blocks ! (i - 1)") auto
  then have "v = GenIdleW \<Longrightarrow> h = no_challenge" using block_period [of i] False assms(2) by (auto simp: blocks_def)
  then show ?thesis using False b assms by (auto simp: main_block_def periodic_def launch_def)
qed

lemma main_block_mgr: "sc_mgr (main_block i s) = sc_mgr s \<or> sc_mgr (main_block i s) = sc_mgr s @ [MQuery]"
  by (simp add: main_block_def challenge_block_def periodic_def launch_def split: prod.split)

lemma put_mgr_ok: "list_all mgr_ok ms \<Longrightarrow> (\<And>q. p = Some q \<Longrightarrow> mgr_ok q) \<Longrightarrow> list_all mgr_ok (put_mgr i p ms)"
  using put_mgr_set [of i p ms] by (auto simp: list_all_iff)

lemma finish_frame [simp]: "sc_log (finish w s) = sc_log s" "sc_mgr (finish w s) = sc_mgr s"
  by (simp_all add: finish_def)

interpretation starts: sched_invariant starts_inv
proof
  show "starts_inv (Start t rs)" for t rs by (auto simp: starts_inv_def Start_def paced_def)
  show "starts_inv s'" if "sched_step s s'" "starts_inv s" for s s'
    using that(1)
  proof cases
    case (Block i)
    then show ?thesis using that(2) main_block_mgr [of i s] main_block_start_ok [of s i]
      by (auto simp: starts_inv_def intro: main_block_paced)
  next
    case (Query i snapshot b)
    then show ?thesis using that(2)
      by (auto simp: starts_inv_def ChallengeMgt_def intro!: put_mgr_ok split: sum.splits if_splits)
  next
    case (Manager i p t)
    have m: "mgr_ok (sc_mgr s ! i)" using that(2) Manager by (auto simp: starts_inv_def list_all_length)
    show ?thesis using that(2) Manager mgr_step_log [OF Manager(3) m] mgr_step_paced [OF Manager(3) m]
      by (auto simp: starts_inv_def intro!: put_mgr_ok)
  qed (use that(2) in \<open>auto simp: starts_inv_def\<close>)
qed

text \<open>What a manager holds, and what a handler is started with, is what the chain answered.\<close>

fun held :: "mpc \<Rightarrow> (challengeSnapshot \<times> u32) option" where
  "held MQuery = None"
| "held (MIdle c b) = Some (c, b)"
| "held (MIdleTee c b) = Some (c, b)"
| "held (MIdleTeeRecv c b) = Some (c, b)"
| "held (MIdleRecv c b) = Some (c, b)"
| "held (MService c b) = Some (c, b)"
| "held (MServiceTee c b) = Some (c, b)"
| "held (MServiceTeeRecv c b) = Some (c, b)"
| "held (MServiceRecv c b) = Some (c, b)"

fun handed :: "started \<Rightarrow> (challengeSnapshot \<times> u32) option" where
  "handed (IdleStarted c b) = Some (c, b)"
| "handed (ServiceStarted c b) = Some (c, b)"
| "handed _ = None"

text \<open>The chain reported the challenge to a manager, and the height was the one that manager read next.\<close>

definition reported :: "sched \<Rightarrow> challengeSnapshot \<Rightarrow> u32 \<Rightarrow> bool" where
  "reported s c b \<longleftrightarrow> (Inr (True, c), Inr b) \<in> set (sc_answers s)"

definition answers_inv :: "sched \<Rightarrow> bool" where
  "answers_inv s \<longleftrightarrow> (\<forall>(c, b) \<in> (\<Union>m \<in> set (sc_mgr s). set_option (held m)) \<union> (\<Union>x \<in> set (sc_log s). set_option (handed x)). reported s c b)"

lemma answers_invI:
  assumes "answers_inv s" and "set (sc_answers s) \<subseteq> set (sc_answers s')"
    and "\<And>m. m \<in> set (sc_mgr s') \<Longrightarrow> held m = None \<or> m \<in> set (sc_mgr s) \<or> (\<exists>n \<in> set (sc_mgr s). held m = held n)
      \<or> (\<exists>c b. held m = Some (c, b) \<and> reported s' c b)"
    and "\<And>x. x \<in> set (sc_log s') \<Longrightarrow> handed x = None \<or> x \<in> set (sc_log s) \<or> (\<exists>n \<in> set (sc_mgr s). handed x = held n)"
  shows "answers_inv s'"
proof -
  have old: "reported s' c b" if "reported s c b" for c b using that assms(2) by (auto simp: reported_def)
  have "reported s' c b" if "m \<in> set (sc_mgr s')" "held m = Some (c, b)" for m c b
    using assms(1) assms(3) [OF that(1)] that(2) old by (fastforce simp: answers_inv_def)
  moreover have "reported s' c b" if "x \<in> set (sc_log s')" "handed x = Some (c, b)" for x c b
    using assms(1) assms(4) [OF that(1)] that(2) old by (fastforce simp: answers_inv_def)
  ultimately show ?thesis by (auto simp: answers_inv_def)
qed

lemma main_block_answers: "sc_answers (main_block i s) = sc_answers s"
  "x \<in> set (sc_log (main_block i s)) \<Longrightarrow> handed x = None \<or> x \<in> set (sc_log s)"
  by (auto simp: main_block_def challenge_block_def periodic_def launch_def split: prod.splits if_splits)

lemma mgr_step_answers:
  assumes "mgr_step m s = Some (p, s')"
  shows "sc_answers s' = sc_answers s" "p = Some q \<Longrightarrow> held q = held m"
    "x \<in> set (sc_log s') \<Longrightarrow> handed x = None \<or> x \<in> set (sc_log s) \<or> handed x = held m"
  using assms by (cases "(m, s)" rule: mgr_step.cases; auto simp: launch_def split: if_splits)+

lemma finish_answers [simp]: "sc_answers (finish w s) = sc_answers s"
  by (simp add: finish_def)

interpretation answers: sched_invariant answers_inv
proof
  show "answers_inv (Start t rs)" for t rs by (simp add: answers_inv_def Start_def)
  show "answers_inv s'" if "sched_step s s'" "answers_inv s" for s s'
    using that(1)
  proof cases
    case (Block i)
    then show ?thesis using main_block_mgr [of i s]
      by (intro answers_invI [OF that(2)]) (auto simp: main_block_answers(1) dest: main_block_answers(2))
  next
    case (Query i snapshot b)
    then show ?thesis using put_mgr_set [of i "ChallengeMgt snapshot b" "sc_mgr s"]
      by (intro answers_invI [OF that(2)])
        (auto simp: ChallengeMgt_def reported_def split: sum.splits if_splits prod.splits)
  next
    case (Manager i p t)
    have m: "sc_mgr s ! i \<in> set (sc_mgr s)" using Manager(2) by simp
    have mgr: "n \<in> set (sc_mgr s) \<or> held n = held (sc_mgr s ! i)" if "n \<in> set (sc_mgr s')" for n
      using that put_mgr_set [of i p "sc_mgr s"] mgr_step_answers(2) [OF Manager(3)] Manager(1) by (cases p) auto
    have log: "handed x = None \<or> x \<in> set (sc_log s) \<or> handed x = held (sc_mgr s ! i)" if "x \<in> set (sc_log s')" for x
      using that mgr_step_answers(3) [OF Manager(3)] Manager(1) by simp
    show ?thesis
    proof (rule answers_invI [OF that(2)])
      show "set (sc_answers s) \<subseteq> set (sc_answers s')" using mgr_step_answers(1) [OF Manager(3)] Manager(1) by simp
    qed (use mgr log m in blast)+
  qed (auto intro!: answers_invI [OF that(2)])
qed

subsection \<open>Executions\<close>

text \<open>Moves that name the step to take, to run the relation on concrete schedules.\<close>

datatype move = NewRound int | NextBlock | Answer nat "(bool \<times> challengeSnapshot) result" "u32 result" | Move nat | End worker

fun do_move :: "sched \<Rightarrow> move \<Rightarrow> sched option" where
  "do_move s (NewRound t) = (if sc_block s = 8 then Some (s\<lparr>sc_tNow := t, sc_block := 0\<rparr>) else None)"
| "do_move s NextBlock =
     (if sc_block s < 8 then Some ((main_block (sc_block s) s)\<lparr>sc_block := Suc (sc_block s)\<rparr>) else None)"
| "do_move s (Answer i snapshot b) =
     (if i < length (sc_mgr s) \<and> sc_mgr s ! i = MQuery
      then Some (s\<lparr>sc_mgr := put_mgr i (ChallengeMgt snapshot b) (sc_mgr s), sc_answers := sc_answers s @ [(snapshot, b)]\<rparr>) else None)"
| "do_move s (Move i) =
     (if i < length (sc_mgr s)
      then (case mgr_step (sc_mgr s ! i) s of None \<Rightarrow> None | Some (p, s') \<Rightarrow> Some (s'\<lparr>sc_mgr := put_mgr i p (sc_mgr s)\<rparr>))
      else None)"
| "do_move s (End w) = (if sc_run s w > 0 \<and> sc_ch s w < 1 then Some (finish w s) else None)"

fun do_moves :: "sched \<Rightarrow> move list \<Rightarrow> sched option" where
  "do_moves s [] = Some s"
| "do_moves s (m # ms) = (case do_move s m of None \<Rightarrow> None | Some s' \<Rightarrow> do_moves s' ms)"

lemma do_move_step: "do_move s m = Some s' \<Longrightarrow> sched_step s s'"
  by (cases m) (auto split: if_splits option.splits prod.splits intro: sched_step.intros)

lemma do_moves_reach: "sched_reach s \<Longrightarrow> do_moves s ms = Some s' \<Longrightarrow> sched_reach s'"
  by (induction ms arbitrary: s) (auto split: option.splits dest: do_move_step intro: sched_reach.Step)

definition demo_challenge :: challengeSnapshot where
  "demo_challenge = \<lparr>cs_Start = 1, cs_IdleSlip = 9, cs_ServiceSlip = 9, cs_VerifySlip = 12, cs_SpaceParam = [],
     cs_ServiceIndex = [], cs_ServiceValue = [], cs_IdleProve = None, cs_ServiceProve = Some None, cs_Front = 0,
     cs_Rear = 0, cs_Accumulator = [], cs_TeeSig = []\<rparr>"

definition one_round :: "int \<Rightarrow> move list" where
  "one_round t = NewRound t # replicate 8 NextBlock"

text \<open>Two managers see the same challenge; the second waits in its receive while the first one's handler runs.\<close>

definition race :: "move list" where
  "race = End SyncMinerW # one_round 12 @ one_round 24
     @ [Answer 0 (Inr (True, demo_challenge)) (Inr 5), Answer 1 (Inr (True, demo_challenge)) (Inr 5),
        Move 0, Move 1, Move 0, Move 1, Move 0, End IdleChallW, Move 1]"

definition raced :: sched where
  "raced = the (do_moves (Start 0 NewRunstatus) race)"

lemma raced_run: "do_moves (Start 0 NewRunstatus) race \<noteq> None"
  by code_simp

lemma raced_reach: "sched_reach raced"
  using raced_run by (auto simp: raced_def intro: do_moves_reach sched_reach.Init)

lemma raced_log: "sc_log raced = [Periodic SyncMinerW 24 NewRunstatus, IdleStarted demo_challenge 5, IdleStarted demo_challenge 5]"
  by code_simp

subsection \<open>Properties of the schedule\<close>

text \<open>
  C10. In every reachable state at most one instance of each worker runs, whatever the interleaving of the
  main loop, any number of managers and the workers; a running worker can always hand its token back,
  so no deferred send blocks; and a worker that does not run can be started.
\<close>

theorem sched_one_instance:
  assumes "sched_reach s"
  shows "sc_run s w \<le> 1 \<and> (sc_run s w > 0 \<longrightarrow> sched_step s (finish w s)) \<and> (sc_run s w = 0 \<longrightarrow> sc_ch s w = 1)"
proof -
  have "sc_ch s w + sc_run s w = 1" using tokens.reach [OF assms] by (simp add: tokens_def)
  then show ?thesis by (auto intro: sched_step.Finish)
qed

theorem sched_one_instance_witness:
  "sched_reach raced \<and> sc_run raced IdleChallW \<le> 1 \<and> sched_step raced (finish IdleChallW raced)"
proof -
  have "sc_run raced IdleChallW > 0" by code_simp
  then show ?thesis using sched_one_instance [OF raced_reach, of IdleChallW] raced_reach by simp
qed

text \<open>
  C31. Two starts of a worker by the main loop are at least its period apart on the clock the loop reads,
  even if that clock jumps; and idle files are generated only when neither challenge was being
  handled.
\<close>

theorem sched_spacing:
  assumes "sched_reach s" and "(w, p, g) \<in> set blocks"
  shows "spaced p (start_times w (sc_log s)) \<and> list_all (\<lambda>x. case x of Periodic GenIdleW t rs \<Rightarrow> no_challenge rs | _ \<Rightarrow> True) (sc_log s)"
proof -
  have I: "starts_inv s" using starts.reach [OF assms(1)] .
  then obtain t0 where "spaced p (t0 # start_times w (sc_log s))" using assms(2) by (auto simp: starts_inv_def paced_def)
  then have "spaced p (start_times w (sc_log s))" by (cases "start_times w (sc_log s)") auto
  moreover have "start_ok x \<Longrightarrow> (case x of Periodic GenIdleW t rs \<Rightarrow> no_challenge rs | _ \<Rightarrow> True)" for x
    by (cases x) (auto split: worker.split)
  ultimately show ?thesis using I by (auto simp: starts_inv_def list_all_iff)
qed

theorem sched_spacing_witness:
  "sched_reach raced \<and> start_times SyncMinerW (sc_log raced) = [24] \<and> spaced 20 (start_times SyncMinerW (sc_log raced))"
proof -
  have "(SyncMinerW, 20, \<lambda>_. True) \<in> set blocks" by (simp add: blocks_def)
  from sched_spacing [OF raced_reach this] show ?thesis by (simp add: raced_reach raced_log)
qed

text \<open>
  C12. A handler is started only for a challenge that the chain reported to a manager, and that was open at the
  height this manager read from the chain: not proved yet with the proof deadline ahead, or proved but not verified with the
  verification deadline ahead.
\<close>

theorem challenge_started_open:
  assumes "sched_reach s"
  shows "list_all (\<lambda>x. case x of
      IdleStarted c b \<Rightarrow> (Inr (True, c), Inr b) \<in> set (sc_answers s) \<and>
        ((cs_IdleProve c = None \<and> b < cs_IdleSlip c) \<or> (cs_IdleProve c = Some None \<and> b < cs_VerifySlip c))
    | ServiceStarted c b \<Rightarrow> (Inr (True, c), Inr b) \<in> set (sc_answers s) \<and>
        ((cs_ServiceProve c = None \<and> b < cs_ServiceSlip c) \<or> (cs_ServiceProve c = Some None \<and> b < cs_VerifySlip c))
    | _ \<Rightarrow> True) (sc_log s)"
proof -
  have w: "wanted pr sl vs b \<longleftrightarrow> (pr = None \<and> b < sl) \<or> (pr = Some None \<and> b < vs)" for pr sl vs b
    by (auto simp: wanted_def HasValue_def Unwrap_def split: option.splits)
  have ok: "start_ok x" if "x \<in> set (sc_log s)" for x
    using starts.reach [OF assms] that by (simp add: starts_inv_def list_all_iff)
  have seen: "(Inr (True, c), Inr b) \<in> set (sc_answers s)" if "x \<in> set (sc_log s)" "handed x = Some (c, b)" for x c b
    using answers.reach [OF assms] that by (fastforce simp: answers_inv_def reported_def)
  show ?thesis unfolding list_all_iff
  proof
    fix x assume x: "x \<in> set (sc_log s)"
    show "case x of
        IdleStarted c b \<Rightarrow> (Inr (True, c), Inr b) \<in> set (sc_answers s) \<and>
          ((cs_IdleProve c = None \<and> b < cs_IdleSlip c) \<or> (cs_IdleProve c = Some None \<and> b < cs_VerifySlip c))
      | ServiceStarted c b \<Rightarrow> (Inr (True, c), Inr b) \<in> set (sc_answers s) \<and>
          ((cs_ServiceProve c = None \<and> b < cs_ServiceSlip c) \<or> (cs_ServiceProve c = Some None \<and> b < cs_VerifySlip c))
      | _ \<Rightarrow> True"
      using ok [OF x] seen [OF x] by (cases x) (simp_all add: idle_wanted_def service_wanted_def w)
  qed
qed

theorem challenge_started_open_witness:
  "sched_reach raced \<and> IdleStarted demo_challenge 5 \<in> set (sc_log raced)
    \<and> (Inr (True, demo_challenge), Inr 5) \<in> set (sc_answers raced)
    \<and> (cs_IdleProve demo_challenge = None \<and> 5 < cs_IdleSlip demo_challenge
       \<or> cs_IdleProve demo_challenge = Some None \<and> 5 < cs_VerifySlip demo_challenge)"
  using challenge_started_open [OF raced_reach] raced_reach by (simp add: raced_log)

text \<open>
  The length test of a manager does not protect its receive: two managers can pass the test, the second
  then waits until the first one's handler has ended and starts the handler again for a snapshot taken
  before, so the same unfinished challenge is handed out twice.
\<close>

theorem challenge_started_twice:
  "\<exists>s c b. sched_reach s \<and> filter (\<lambda>x. x = IdleStarted c b) (sc_log s) = [IdleStarted c b, IdleStarted c b]"
proof -
  have "filter (\<lambda>x. x = IdleStarted demo_challenge 5) (sc_log raced)
      = [IdleStarted demo_challenge 5, IdleStarted demo_challenge 5]" by (simp add: raced_log)
  then show ?thesis using raced_reach by blast
qed

end
