(* ===== verification/ChainSync.thy ===== *)
theory ChainSync
  imports Runs
begin

text \<open>
  Keeping the node in step with the chain (\<^verbatim>\<open>src/node/chainsync.go\<close>, and \<^verbatim>\<open>Reconnectrpc\<close> and \<^verbatim>\<open>CheckPois\<close> of
  \<^verbatim>\<open>src/node/node.go\<close>): the record of TEE workers, the miner's own status, the connection and the space
  prover.
\<close>

subsection \<open>Operations\<close>

definition on_tee :: "(teeRecord \<Rightarrow> teeRecord \<times> goerr option) \<Rightarrow> world \<Rightarrow> goerr option \<times> world" where
  "on_tee f w = (case f (w_tee w) of (t, r) \<Rightarrow> (r, w\<lparr>w_tee := t\<rparr>))"

text \<open>Lines 80 to 102: the configured workers get the endpoint and the role the chain has for them.\<close>

definition sync_priority_one :: "env \<Rightarrow> string \<Rightarrow> world \<Rightarrow> world" where
  "sync_priority_one E pubkeyhex w =
     (case hex_DecodeString pubkeyhex of
        None \<Rightarrow> w
      | Some pubkey \<Rightarrow>
          (case BytesToWorkPublickey (e_sdk E) pubkey of
             (_, Some e) \<Rightarrow> w
           | (teeWorkPubkey, None) \<Rightarrow>
               (case QueryEndpoints E teeWorkPubkey w of
                  (Inl e, w1) \<Rightarrow> w1
                | (Inr endpoint, w1) \<Rightarrow>
                    (case QueryWorkers E teeWorkPubkey w1 of
                       (Inl e, w2) \<Rightarrow> w2
                     | (Inr workinfo, w2) \<Rightarrow>
                         snd (on_tee (\<lambda>t. SaveTee (e_sdk E) t pubkeyhex endpoint (wi_Role workinfo)) w2)))))"

text \<open>Lines 111 to 163: a worker of the chain's list is saved when it answers with its own key, dropped
  when it answers with another one, and left as it is when it does not answer.\<close>

definition sync_tee_one :: "env \<Rightarrow> workerInfo \<Rightarrow> world \<Rightarrow> world" where
  "sync_tee_one E v w =
     (let pubkeyhex = hex_EncodeToString (wi_Pubkey v) in
      case QueryEndpoints E (wi_Pubkey v) w of
        (Inl e, w1) \<Rightarrow> w1
      | (Inr ep, w1) \<Rightarrow>
          (let endpoint = ProcessTeeEndpoint ep in
           case GetIdentityPubkey E endpoint (use_tls endpoint) (e_acc E) w1 of
             (Inl e, w2) \<Rightarrow> w2
           | (Inr pubkey, w2) \<Rightarrow>
               (if length pubkey \<noteq> WorkerPublicKeyLen (e_sdk E) then w2\<lparr>w_tee := DeleteTee (w_tee w2) pubkeyhex\<rparr>
                else if \<not> CompareSlice (e_sdk E) pubkey (wi_Pubkey v) then w2\<lparr>w_tee := DeleteTee (w_tee w2) pubkeyhex\<rparr>
                else snd (on_tee (\<lambda>t. SaveTee (e_sdk E) t pubkeyhex endpoint (wi_Role v)) w2))))"

fun sync_tees :: "env \<Rightarrow> workerInfo list \<Rightarrow> world \<Rightarrow> world" where
  "sync_tees E [] w = w"
| "sync_tees E (v # vs) w = sync_tees E vs (sync_tee_one E v w)"

definition SyncTeeInfo :: "env \<Rightarrow> world \<Rightarrow> world" where
  "SyncTeeInfo E w =
     (let st = GetState (w_run w) in
      if st \<noteq> MINER_STATE_POSITIVE (e_sdk E) \<and> st \<noteq> MINER_STATE_FROZEN (e_sdk E) then w
      else if ReadPriorityTeeList (e_conf E) \<noteq> []
      then fold (sync_priority_one E) (GetAllTeePubkeyHex (e_ord E) (w_tee w)) w
      else
        (case QueryAllWorkers E w of
           (Inl e, w1) \<Rightarrow> w1
         | (Inr teelist, w1) \<Rightarrow> sync_tees E teelist w1))"

definition set_acc :: "env \<Rightarrow> bytes \<Rightarrow> (string \<Rightarrow> runstatus \<Rightarrow> runstatus) \<Rightarrow> runstatus \<Rightarrow> runstatus" where
  "set_acc E pk f rs = (case EncodePublicKeyAsCessAccount (e_sdk E) pk of Inl _ \<Rightarrow> rs | Inr a \<Rightarrow> f a rs)"

definition syncMinerStatus :: "env \<Rightarrow> world \<Rightarrow> world" where
  "syncMinerStatus E w =
     (let st = GetState (w_run w) in
      if st = MINER_STATE_EXIT (e_sdk E) \<or> st = MINER_STATE_OFFLINE (e_sdk E) then w
      else
        (case QueryMinerItems E w of
           (Inl e, w1) \<Rightarrow>
             (if err_msg e = ERR_Empty (e_sdk E) then on_run (SetState (MINER_STATE_EXIT (e_sdk E))) w1 else w1)
         | (Inr m, w1) \<Rightarrow>
             on_run (\<lambda>rs.
               SetSpaceInfo (mi_DeclarationSpace m, mi_IdleSpace m, mi_ServiceSpace m, mi_LockSpace m)
                 (set_acc E (mi_BeneficiaryAccount m) SetEarningsAcc
                   (set_acc E (mi_StakingAccount m) SetStakingAcc (SetState (mi_State m) rs)))) w1))"

text \<open>Node.go, lines 240 to 267.\<close>

definition Reconnectrpc :: "env \<Rightarrow> world \<Rightarrow> world" where
  "Reconnectrpc E w =
     (let w1 = on_run (SetCurrentRpcst False) w in
      case GetAndSetRpcConnecting (w_run w1) of
        (True, rs) \<Rightarrow> w1\<lparr>w_run := rs\<rparr>
      | (False, rs) \<Rightarrow>
          (case ReconnectRpc E (w1\<lparr>w_run := rs\<rparr>) of
             (Some e, w2) \<Rightarrow> on_run (SetRpcConnecting False) w2
           | (None, w2) \<Rightarrow>
               (case GetCurrentRpcAddr E w2 of
                  (rpc, w3) \<Rightarrow>
                    on_run (SetRpcConnecting False) (on_run (SetCurrentRpcst True) (on_run (SetCurrentRpc rpc) w3)))))"

text \<open>Node.go, lines 269 to 325. The panics are in a goroutine without \<^verbatim>\<open>recover\<close>.\<close>

definition check_done :: "(world, unit) outcome \<Rightarrow> (world, unit) outcome" where
  "check_done r =
     (let f = on_run (SetCheckPois False) in
      case r of Ret x w \<Rightarrow> Ret x (f w) | Panic w \<Rightarrow> Panic (f w) | Spin w \<Rightarrow> Spin w)"

definition CheckPois :: "env \<Rightarrow> int \<Rightarrow> world \<Rightarrow> (world, unit) outcome" where
  "CheckPois E cpus w =
     (let w0 = on_run (SetCheckPois True) w; front = mpi_Front (w_pois w); rear = mpi_Rear (w_pois w) in
      check_done
        (if GetRegister (w_run w0) then
           (case prover_Init E w0 of (Some e, w1) \<Rightarrow> Panic w1 | (None, w1) \<Rightarrow> Ret () w1)
         else
           (case prover_Recovery E front rear w0 of
              (None, w1) \<Rightarrow> Ret () w1
            | (Some e, w1) \<Rightarrow>
                (if Contains (err_msg e) ''read element data'' then
                   (case prover_CheckAndRestoreIdleData E front rear (if cpus > 1 then cpus else 1) w1 of
                      (Some e', w2) \<Rightarrow> Panic w2
                    | (None, w2) \<Rightarrow>
                        (case prover_Recovery E front rear w2 of (Some e', w3) \<Rightarrow> Panic w3 | (None, w3) \<Rightarrow> Ret () w3))
                 else Panic w1))))"

subsection \<open>Only workers that proved their key are recorded\<close>

text \<open>The calls \<open>h\<close> vouch for an entry: the chain lists a worker with the key \<open>k\<close> and the role recorded, names an endpoint for
  it, and whoever was asked at that endpoint answered with the key of the worker.\<close>

definition vouched_by :: "workerInfo list \<Rightarrow> event list \<Rightarrow> string \<Rightarrow> teeInfo \<Rightarrow> bool" where
  "vouched_by vs h k i \<longleftrightarrow> (\<exists>v \<in> set vs. \<exists>ep me. k = hex_EncodeToString (wi_Pubkey v) \<and> Type i = wi_Role v
     \<and> EvQueryEndpoints (wi_Pubkey v) (Inr ep) \<in> set h
     \<and> EvGetIdentityPubkey (ProcessTeeEndpoint ep) (use_tls (ProcessTeeEndpoint ep)) me (Inr (wi_Pubkey v)) \<in> set h
     \<and> EndPoint i = ProcessTeeEndpoint (ProcessTeeEndpoint ep))"

definition vouched :: "event list \<Rightarrow> string \<Rightarrow> teeInfo \<Rightarrow> bool" where
  "vouched h k i \<longleftrightarrow> (\<exists>vs. EvQueryAllWorkers (Inr vs) \<in> set h \<and> vouched_by vs h k i)"

text \<open>With configured workers: the chain has this endpoint and this role for the key, and nobody was asked.\<close>

definition looked_up :: "sdk \<Rightarrow> event list \<Rightarrow> string \<Rightarrow> teeInfo \<Rightarrow> bool" where
  "looked_up K h k i \<longleftrightarrow> (\<exists>buf pk ep v. hex_DecodeString k = Some buf \<and> BytesToWorkPublickey K buf = (pk, None)
     \<and> EvQueryEndpoints pk (Inr ep) \<in> set h \<and> EvQueryWorkers pk (Inr v) \<in> set h
     \<and> EndPoint i = ProcessTeeEndpoint ep \<and> Type i = wi_Role v)"

text \<open>A change of the record whose new entries have a reason \<open>R\<close>.\<close>

definition only_new :: "(event list \<Rightarrow> string \<Rightarrow> teeInfo \<Rightarrow> bool) \<Rightarrow> world \<Rightarrow> event list \<Rightarrow> world \<Rightarrow> bool" where
  "only_new R w h w' \<longleftrightarrow> tees_ok (w_tee w') \<and> w_hist w' = w_hist w @ h
     \<and> (\<forall>k i. tee_look (w_tee w') k = Some i \<longrightarrow> tee_look (w_tee w) k = Some i \<or> R h k i)"

definition more_reason :: "(event list \<Rightarrow> string \<Rightarrow> teeInfo \<Rightarrow> bool) \<Rightarrow> bool" where
  "more_reason R \<longleftrightarrow> (\<forall>h h' k i. R h k i \<or> R h' k i \<longrightarrow> R (h @ h') k i)"

lemma more_reasons: "more_reason (vouched_by vs)" "more_reason (looked_up K)"
  by (auto simp: more_reason_def vouched_by_def looked_up_def; blast)+

lemma only_new_trans:
  "more_reason R \<Longrightarrow> only_new R w h w' \<Longrightarrow> only_new R w' h' w'' \<Longrightarrow> only_new R w (h @ h') w''"
  unfolding only_new_def more_reason_def by (metis append_assoc)

lemma only_new_event: "tees_ok (w_tee w) \<Longrightarrow> only_new R w [e] (log_event e w)"
  by (simp add: only_new_def frame_simps)

lemma only_new_delete: "only_new R w h w' \<Longrightarrow> only_new R w h (w'\<lparr>w_tee := DeleteTee (w_tee w') k\<rparr>)"
  using recorder.remove_look [of "w_tee w'" k] by (simp add: only_new_def)

lemma only_new_save:
  assumes "only_new R w h w'" and "R h k \<lparr>EndPoint = ProcessTeeEndpoint e, Type = ty\<rparr>"
  shows "only_new R w h (snd (on_tee (\<lambda>t. SaveTee K t k e ty) w'))"
proof (cases "SaveTee K (w_tee w') k e ty")
  case (Pair t x)
  have ok: "tees_ok (w_tee w')" using assms(1) by (simp add: only_new_def)
  show ?thesis
    using assms recorder.save_ok [OF ok, of K k e ty t] SaveTee_fail [of K "w_tee w'" k e ty t] Pair
    by (cases x) (auto simp: on_tee_def only_new_def)
qed

lemma sync_tee_one_vouched:
  assumes K: "\<And>a b. CompareSlice (e_sdk E) a b \<Longrightarrow> a = b" and t: "tees_ok (w_tee w)" and v: "v \<in> set vs"
  shows "\<exists>h. only_new (vouched_by vs) w h (sync_tee_one E v w)"
proof (cases "x_QueryEndpoints E (w_hist w) (wi_Pubkey v)")
  case (Inl e)
  then show ?thesis using only_new_event [OF t] by (auto simp: sync_tee_one_def QueryEndpoints_def Let_def)
next
  case (Inr ep)
  define w1 where "w1 = log_event (EvQueryEndpoints (wi_Pubkey v) (Inr ep)) w"
  define x where "x = ProcessTeeEndpoint ep"
  define r where "r = x_rpc_GetIdentityPubkey E (w_hist w1) x (use_tls x) (e_acc E)"
  define w2 where "w2 = log_event (EvGetIdentityPubkey x (use_tls x) (e_acc E) r) w1"
  let ?h = "[EvQueryEndpoints (wi_Pubkey v) (Inr ep), EvGetIdentityPubkey x (use_tls x) (e_acc E) r]"
  have w1: "only_new (vouched_by vs) w [EvQueryEndpoints (wi_Pubkey v) (Inr ep)] w1"
    using only_new_event [OF t] by (simp add: w1_def)
  have "tees_ok (w_tee w1)" using t by (simp add: w1_def frame_simps)
  from only_new_trans [OF more_reasons(1) w1 only_new_event [OF this]] have w2: "only_new (vouched_by vs) w ?h w2"
    by (simp add: w2_def)
  note step = sync_tee_one_def QueryEndpoints_def GetIdentityPubkey_def rpc_GetIdentityPubkey_def Let_def Inr
    w1_def [symmetric] x_def [symmetric] r_def [symmetric]
  show ?thesis
  proof (cases "e_dial E x (use_tls x)")
    case (Some e)
    then show ?thesis using w1 by (auto simp: step)
  next
    case None
    show ?thesis
    proof (cases r)
      case (Inl e)
      then show ?thesis using w2 None by (auto simp: step w2_def)
    next
      case pk: (Inr pk)
      let ?k = "hex_EncodeToString (wi_Pubkey v)"
      have save: "only_new (vouched_by vs) w ?h (snd (on_tee (\<lambda>t. SaveTee (e_sdk E) t ?k x (wi_Role v)) w2))" if "pk = wi_Pubkey v"
        using v that pk by (intro only_new_save [OF w2]) (auto simp: vouched_by_def x_def)
      show ?thesis using None pk save only_new_delete [OF w2, of ?k] K [of pk "wi_Pubkey v"] by (auto simp: step w2_def)
    qed
  qed
qed

lemma sync_tees_vouched:
  assumes K: "\<And>a b. CompareSlice (e_sdk E) a b \<Longrightarrow> a = b"
  shows "tees_ok (w_tee w) \<Longrightarrow> set us \<subseteq> set vs \<Longrightarrow> \<exists>h. only_new (vouched_by vs) w h (sync_tees E us w)"
proof (induction us arbitrary: w)
  case (Cons v us)
  have "v \<in> set vs" using Cons.prems(2) by simp
  then obtain h where h: "only_new (vouched_by vs) w h (sync_tee_one E v w)"
    using sync_tee_one_vouched [where E = E, OF K Cons.prems(1)] by blast
  then have "tees_ok (w_tee (sync_tee_one E v w))" by (simp add: only_new_def)
  from Cons.IH [OF this] Cons.prems(2) show ?case using only_new_trans [OF more_reasons(1) h] by auto
qed (auto simp: only_new_def)

lemma sync_priority_one_looked_up:
  assumes t: "tees_ok (w_tee w)"
  shows "\<exists>h. only_new (looked_up (e_sdk E)) w h (sync_priority_one E k w)"
proof -
  have none: "\<exists>h. only_new (looked_up (e_sdk E)) w h w" using t by (auto simp: only_new_def)
  show ?thesis
  proof (cases "\<exists>buf pk. hex_DecodeString k = Some buf \<and> BytesToWorkPublickey (e_sdk E) buf = (pk, None)")
    case True
    then obtain buf pk where k: "hex_DecodeString k = Some buf" "BytesToWorkPublickey (e_sdk E) buf = (pk, None)" by blast
    define q where "q = x_QueryEndpoints E (w_hist w) pk"
    define w1 where "w1 = log_event (EvQueryEndpoints pk q) w"
    define r where "r = x_QueryWorkers E (w_hist w1) pk"
    define w2 where "w2 = log_event (EvQueryWorkers pk r) w1"
    have w1: "only_new (looked_up (e_sdk E)) w [EvQueryEndpoints pk q] w1" using only_new_event [OF t] by (simp add: w1_def)
    have "tees_ok (w_tee w1)" using t by (simp add: w1_def frame_simps)
    from only_new_trans [OF more_reasons(2) w1 only_new_event [OF this]]
    have w2: "only_new (looked_up (e_sdk E)) w [EvQueryEndpoints pk q, EvQueryWorkers pk r] w2" by (simp add: w2_def)
    have save: "only_new (looked_up (e_sdk E)) w [EvQueryEndpoints pk q, EvQueryWorkers pk r]
        (snd (on_tee (\<lambda>t. SaveTee (e_sdk E) t k ep (wi_Role v)) w2))" if "q = Inr ep" "r = Inr v" for ep v
      using k that by (intro only_new_save [OF w2]) (auto simp: looked_up_def)
    have run: "QueryEndpoints E pk w = (q, w1)" "QueryWorkers E pk w1 = (r, w2)"
      by (simp_all add: QueryEndpoints_def QueryWorkers_def Let_def q_def w1_def r_def w2_def)
    show ?thesis using w1 w2 save by (cases q; cases r) (auto simp: sync_priority_one_def k run)
  next
    case False
    then show ?thesis using none by (auto simp: sync_priority_one_def split: option.split prod.split)
  qed
qed

lemma sync_priority_looked_up:
  "tees_ok (w_tee w) \<Longrightarrow> \<exists>h. only_new (looked_up (e_sdk E)) w h (fold (sync_priority_one E) ks w)"
proof (induction ks arbitrary: w)
  case (Cons k ks)
  obtain h where h: "only_new (looked_up (e_sdk E)) w h (sync_priority_one E k w)"
    using sync_priority_one_looked_up [OF Cons.prems] by blast
  then have "tees_ok (w_tee (sync_priority_one E k w))" by (simp add: only_new_def)
  from Cons.IH [OF this] show ?case using only_new_trans [OF more_reasons(2) h] by auto
qed (auto simp: only_new_def)

text \<open>
  C22. However the chain and the workers behave, a synchronisation keeps the record a map and gives every entry it adds or
  changes a reason. Without configured workers: the chain lists a worker with this key and role and names its
  endpoint, and the worker that was asked there answered with this very key. With configured workers nobody is asked: the entry
  is what the chain has, as endpoint and role, for the key.
\<close>

theorem SyncTeeInfo_vouched:
  assumes "\<And>a b. CompareSlice (e_sdk E) a b \<Longrightarrow> a = b" and "tees_ok (w_tee w)"
  shows "tees_ok (w_tee (SyncTeeInfo E w)) \<and> (\<exists>h. w_hist (SyncTeeInfo E w) = w_hist w @ h
     \<and> (\<forall>k i. tee_look (w_tee (SyncTeeInfo E w)) k = Some i \<longrightarrow> tee_look (w_tee w) k = Some i
            \<or> (if ReadPriorityTeeList (e_conf E) = [] then vouched h k i else looked_up (e_sdk E) h k i)))"
proof -
  let ?R = "\<lambda>h k i. if ReadPriorityTeeList (e_conf E) = [] then vouched h k i else looked_up (e_sdk E) h k i"
  have refl: "only_new ?R w [] w" using assms(2) by (simp add: only_new_def)
  have "\<exists>h. only_new ?R w h (SyncTeeInfo E w)"
  proof (cases "ReadPriorityTeeList (e_conf E) = []")
    case configured: False
    then show ?thesis using refl sync_priority_looked_up [OF assms(2), of E] by (auto simp: SyncTeeInfo_def only_new_def Let_def)
  next
    case none: True
    show ?thesis
    proof (cases "x_QueryAllWorkers E (w_hist w)")
      case (Inl e)
      then show ?thesis using refl only_new_event [OF assms(2), of ?R] none
        by (auto simp: SyncTeeInfo_def QueryAllWorkers_def Let_def)
    next
      case (Inr vs)
      let ?w = "log_event (EvQueryAllWorkers (Inr vs)) w"
      have "tees_ok (w_tee ?w)" using assms(2) by (simp add: frame_simps)
      from sync_tees_vouched [where E = E and us = vs and vs = vs, OF assms(1) this] obtain h where
        h: "only_new (vouched_by vs) ?w h (sync_tees E vs ?w)" by auto
      have "only_new ?R w (EvQueryAllWorkers (Inr vs) # h) (sync_tees E vs ?w)"
        using h none by (fastforce simp: only_new_def frame_simps vouched_def vouched_by_def)
      then show ?thesis using Inr refl none by (auto simp: SyncTeeInfo_def QueryAllWorkers_def Let_def)
    qed
  qed
  then show ?thesis by (auto simp: only_new_def)
qed

definition sync_env :: env where
  "sync_env = demo_env\<lparr>x_QueryAllWorkers := \<lambda>_. Inr [\<lparr>wi_Pubkey = ''ab'', wi_Role = 1\<rparr>, \<lparr>wi_Pubkey = ''cd'', wi_Role = 1\<rparr>],
     x_QueryEndpoints := \<lambda>_ k. Inr (''http://'' @ k), x_rpc_GetIdentityPubkey := \<lambda>_ _ _ _. Inr ''ab''\<rparr>"

definition sync_world :: world where
  "sync_world = demo_world\<lparr>w_run := SetState ''positive'' NewRunstatus, w_tee := NewTeeRecord\<rparr>"

theorem SyncTeeInfo_vouched_witness:
  "teeList (w_tee (SyncTeeInfo sync_env sync_world)) = [(''6162'', \<lparr>EndPoint = ''ab:80'', Type = 1\<rparr>)]
    \<and> (\<exists>h. w_hist (SyncTeeInfo sync_env sync_world) = w_hist sync_world @ h
        \<and> vouched h ''6162'' \<lparr>EndPoint = ''ab:80'', Type = 1\<rparr>)"
proof -
  have l: "teeList (w_tee (SyncTeeInfo sync_env sync_world)) = [(''6162'', \<lparr>EndPoint = ''ab:80'', Type = 1\<rparr>)]"
    by code_simp
  have "CompareSlice (e_sdk sync_env) a b \<Longrightarrow> a = b" for a b by (simp add: sync_env_def demo_env_def demo_sdk_def)
  moreover have none: "ReadPriorityTeeList (e_conf sync_env) = []" and "tees_ok (w_tee sync_world)"
    by (simp_all add: sync_env_def demo_env_def ReadPriorityTeeList_def NewConfigFile_def sync_world_def tees_ok_def NewTeeRecord_def)
  ultimately obtain h where "w_hist (SyncTeeInfo sync_env sync_world) = w_hist sync_world @ h"
    "\<forall>k i. tee_look (w_tee (SyncTeeInfo sync_env sync_world)) k = Some i \<longrightarrow> tee_look (w_tee sync_world) k = Some i \<or> vouched h k i"
    using SyncTeeInfo_vouched [of sync_env sync_world] by (auto simp only: none simp_thms if_True)
  then show ?thesis using l by (auto simp: tee_look_def sync_world_def NewTeeRecord_def)
qed

subsection \<open>The record stays well-typed\<close>

text \<open>What the code assumes of a stored worker: a key, an address with a port, and one of the known roles; no key twice.\<close>

definition typed_tees :: "sdk \<Rightarrow> teeRecord \<Rightarrow> bool" where
  "typed_tees K t \<longleftrightarrow> tees_ok t
     \<and> (\<forall>(k, i) \<in> set (teeList t). k \<noteq> [] \<and> CHR '':'' \<in> set (EndPoint i) \<and> Type i \<le> TeeType_Marker K)"

lemma typed_tees_look:
  "typed_tees K t \<longleftrightarrow> tees_ok t
     \<and> (\<forall>k i. tee_look t k = Some i \<longrightarrow> k \<noteq> [] \<and> CHR '':'' \<in> set (EndPoint i) \<and> Type i \<le> TeeType_Marker K)"
  unfolding typed_tees_def tees_ok_def tee_look_def
  by (rule conj_cong [OF refl]) (simp add: Ball_def split_paired_All)

lemma typed_SaveTee: "typed_tees K t \<Longrightarrow> typed_tees K (fst (SaveTee K t k e ty))"
proof (cases "SaveTee K t k e ty")
  case (Pair t' x)
  assume t: "typed_tees K t"
  show ?thesis
  proof (cases x)
    case None
    with Pair have s: "SaveTee K t k e ty = (t', None)" by simp
    then have "k \<noteq> []" "ty \<le> TeeType_Marker K" by (simp_all add: SaveTee_endpoint)
    then show ?thesis using recorder.save_ok [OF _ s] t ProcessTeeEndpoint_port [of e] by (auto simp: s typed_tees_look)
  next
    case (Some y)
    with Pair SaveTee_fail t show ?thesis by fastforce
  qed
qed

lemma typed_DeleteTee: "typed_tees K t \<Longrightarrow> typed_tees K (DeleteTee t k)"
  using recorder.remove_look [of t k] by (auto simp: typed_tees_look)

lemma typed_on_tee [simp]: "typed_tees K (w_tee w) \<Longrightarrow> typed_tees K (w_tee (snd (on_tee (\<lambda>t. SaveTee K t k e ty) w)))"
  using typed_SaveTee [of K "w_tee w" k e ty] by (auto simp: on_tee_def split: prod.split)

lemma sync_priority_one_typed:
  "typed_tees (e_sdk E) (w_tee w) \<Longrightarrow> typed_tees (e_sdk E) (w_tee (sync_priority_one E k w))"
  by (auto simp: sync_priority_one_def QueryEndpoints_def QueryWorkers_def Let_def frame_simps split: option.split prod.split sum.split)

lemma sync_tee_one_typed:
  "typed_tees (e_sdk E) (w_tee w) \<Longrightarrow> typed_tees (e_sdk E) (w_tee (sync_tee_one E v w))"
  by (auto simp: sync_tee_one_def QueryEndpoints_def GetIdentityPubkey_def rpc_GetIdentityPubkey_def Let_def frame_simps typed_DeleteTee
    split: option.split prod.split sum.split)

lemma sync_tees_typed: "typed_tees (e_sdk E) (w_tee w) \<Longrightarrow> typed_tees (e_sdk E) (w_tee (sync_tees E vs w))"
  by (induction E vs w rule: sync_tees.induct) (simp_all add: sync_tee_one_typed)

lemma sync_priority_typed: "typed_tees (e_sdk E) (w_tee w) \<Longrightarrow> typed_tees (e_sdk E) (w_tee (fold (sync_priority_one E) ks w))"
  by (induction ks arbitrary: w) (simp_all add: sync_priority_one_typed)

text \<open>
  C23. Whatever the chain and the workers answer, with configured workers or without, a synchronisation leaves a record of TEE
  workers that is well-typed: no key twice, no empty key, only known roles, and every address with a port, so that every
  endpoint handed to the challenges, for whatever order the map is visited in, can be dialled.
\<close>

theorem SyncTeeInfo_typed:
  assumes "typed_tees (e_sdk E) (w_tee w)" and ord: "\<And>kvs. mset (e_ord E kvs) = mset kvs"
  shows "(let t = w_tee (SyncTeeInfo E w) in typed_tees (e_sdk E) t
    \<and> (\<forall>a \<in> set (GetAllVerifierTeeEndpoint (e_sdk E) (e_ord E) t) \<union> set (GetAllMarkerTeeEndpoint (e_sdk E) (e_ord E) t).
         CHR '':'' \<in> set a))"
proof -
  have t: "typed_tees (e_sdk E) (w_tee (SyncTeeInfo E w))"
    using assms(1) sync_tees_typed sync_priority_typed
    by (auto simp: SyncTeeInfo_def QueryAllWorkers_def Let_def frame_simps split: sum.split)
  moreover have "set (e_ord E kvs) = set kvs" for kvs by (metis ord set_mset_mset)
  ultimately show ?thesis
    by (auto simp: Let_def typed_tees_def GetAllVerifierTeeEndpoint_def GetAllMarkerTeeEndpoint_def)
qed

theorem SyncTeeInfo_typed_witness:
  "typed_tees (e_sdk sync_env) (w_tee (SyncTeeInfo sync_env sync_world))
   \<and> teeList (w_tee (SyncTeeInfo sync_env sync_world)) \<noteq> []"
proof -
  have "typed_tees (e_sdk sync_env) (w_tee sync_world)"
    by (simp add: typed_tees_def tees_ok_def sync_world_def NewTeeRecord_def)
  moreover have "mset (e_ord sync_env kvs) = mset kvs" for kvs by (simp add: sync_env_def demo_env_def)
  moreover have "teeList (w_tee (SyncTeeInfo sync_env sync_world)) \<noteq> []" by code_simp
  ultimately show ?thesis using SyncTeeInfo_typed [of sync_env sync_world] by (simp add: Let_def)
qed

subsection \<open>The miner's status and the connection\<close>

lemmas status_defs = SetState_def GetState_def SetSpaceInfo_def GetMinerSpaceInfo_def SetEarningsAcc_def SetStakingAcc_def
  SetCurrentRpcst_def GetCurrentRpcst_def SetRpcConnecting_def GetRpcConnecting_def GetAndSetRpcConnecting_def
  SetCurrentRpc_def GetCurrentRpc_def SetCheckPois_def GetCheckPois_def GetIdleChallenging_def GetServiceChallenging_def
  GetRegister_def

text \<open>
  The status follows the chain: a miner the chain does not know any more is \<^verbatim>\<open>exit\<close>, a state the node never leaves again by
  synchronising; otherwise state and space are those of the chain, and a failed query changes nothing.
  The challenge flags are never touched.
\<close>

theorem syncMinerStatus_follows:
  "(let w' = syncMinerStatus E w; gone = (\<lambda>s. s = MINER_STATE_EXIT (e_sdk E) \<or> s = MINER_STATE_OFFLINE (e_sdk E)) in
     GetIdleChallenging (w_run w') = GetIdleChallenging (w_run w) \<and> GetServiceChallenging (w_run w') = GetServiceChallenging (w_run w)
     \<and> (if gone (GetState (w_run w)) then w' = w
        else case x_QueryMinerItems E (w_hist w) of
            Inl e \<Rightarrow> GetState (w_run w') = (if err_msg e = ERR_Empty (e_sdk E) then MINER_STATE_EXIT (e_sdk E) else GetState (w_run w))
              \<and> GetMinerSpaceInfo (w_run w') = GetMinerSpaceInfo (w_run w)
          | Inr m \<Rightarrow> GetState (w_run w') = mi_State m
              \<and> GetMinerSpaceInfo (w_run w') = (mi_DeclarationSpace m, mi_IdleSpace m, mi_ServiceSpace m, mi_LockSpace m)))"
  by (simp add: syncMinerStatus_def QueryMinerItems_def set_acc_def status_defs frame_simps Let_def split: sum.split)

text \<open>
  Whoever gets to reconnect leaves the lock released and the connection marked exactly as the attempt
  ended; who finds the lock taken calls nothing and leaves it taken.
\<close>

theorem Reconnectrpc_releases:
  "(let w' = Reconnectrpc E w in
     if GetRpcConnecting (w_run w)
     then w_hist w' = w_hist w \<and> GetRpcConnecting (w_run w') \<and> \<not> GetCurrentRpcst (w_run w')
     else \<not> GetRpcConnecting (w_run w') \<and> GetCurrentRpcst (w_run w') = (x_ReconnectRpc E (w_hist w) = None))"
  by (simp add: Reconnectrpc_def ReconnectRpc_def GetCurrentRpcAddr_def status_defs frame_simps Let_def split: option.split bool.split)

text \<open>
  When the check of the prover returns, the flag is cleared and the last thing it did was a successful
  initialisation (a fresh registration) or recovery from the chain's front and rear; otherwise the
  process dies.
\<close>

theorem CheckPois_ready:
  "(case CheckPois E cpus w of
      Ret _ w' \<Rightarrow> \<not> GetCheckPois (w_run w') \<and> w_hist w' \<noteq> w_hist w
        \<and> last (w_hist w') = (if GetRegister (w_run w) then EvProverInit None
             else EvProverRecovery (mpi_Front (w_pois w)) (mpi_Rear (w_pois w)) None)
    | Panic w' \<Rightarrow> \<not> GetCheckPois (w_run w')
    | Spin w' \<Rightarrow> False)"
  by (simp add: CheckPois_def check_done_def prover_Init_def prover_Recovery_def prover_CheckAndRestoreIdleData_def
      status_defs frame_simps Let_def split: option.split)

end
