(* ===== verification/Configs.thy ===== *)
theory Configs
  imports Prelude
begin

text \<open>
  Constants of \<^verbatim>\<open>src/configs/config.go\<close> and \<^verbatim>\<open>src/configs/system.go\<close> that decide what the node does: parts of error
  messages that the node looks for, the defaults of the command line, and the name of the program, which ends the
  path of the workspace.
\<close>

definition Err_ctx_exceeded :: string where "Err_ctx_exceeded = ''context deadline exceeded''"

definition Err_miner_not_exists :: string where "Err_miner_not_exists = ''the miner not exists''"

definition DefaultConfigFile :: string where "DefaultConfigFile = ''conf.yaml''"

definition DefaultWorkspace :: string where "DefaultWorkspace = ''/''"

definition DefaultServicePort :: u16 where "DefaultServicePort = 15001"

definition DefaultRpcAddr :: string where "DefaultRpcAddr = ''wss://testnet-rpc.cess.network/ws/''"

definition Name :: string where "Name = ''miner''"

definition TestNet :: string where "TestNet = ''testnet''"

definition ChainVersionStr :: "string list" where "ChainVersionStr = [''0'', ''7'', ''9'']"

definition ChainVersionInt :: "int list" where "ChainVersionInt = [0, 7, 9]"

end
