(* ===== verification/Init.thy ===== *)
theory Init
  imports ChainSync Configs
begin

text \<open>
  Starting the node (\<^verbatim>\<open>src/node/init.go\<close>, \<^verbatim>\<open>src/node/pois.go\<close>): the configured workers, the registration of the miner
  and of its space key on the chain, the workspace, the keys and the run status.

  \<^verbatim>\<open>os.Exit\<close> ends the process: a function that may exit gives an option, \<open>None\<close> being the exit. Errors that the source wraps
  keep the message of the wrapped error, without the text that is put in front. The accumulator key that
  \<^verbatim>\<open>InitAccRsaKey\<close> stores is \<open>rsaKey_G\<close> and \<open>rsaKey_N\<close> of the environment. Waiting loops take a number of rounds.
\<close>

subsection \<open>Configured workers\<close>

definition checkConfiguredTees_one :: "env \<Rightarrow> string \<Rightarrow> teeRecord \<Rightarrow> world \<Rightarrow> (world, teeRecord) outcome" where
  "checkConfiguredTees_one E t rec w =
     (case hex_DecodeString (TrimPrefix t ''0x'') of
        None \<Rightarrow> Ret rec w
      | Some pk \<Rightarrow>
          (if length pk < WorkerPublicKeyLen (e_sdk E) then Panic w
           else
             (case QueryWorkers E (take (WorkerPublicKeyLen (e_sdk E)) pk) w of
                (Inl e, w1) \<Rightarrow> Ret rec w1
              | (Inr workerInfo, w1) \<Rightarrow>
                  (case QueryEndpoints E (wi_Pubkey workerInfo) w1 of
                     (Inl e, w2) \<Rightarrow> Ret rec w2
                   | (Inr endpoint, w2) \<Rightarrow>
                       Ret (fst (SaveTee (e_sdk E) rec (TrimPrefix t ''0x'') endpoint (wi_Role workerInfo))) w2))))"

fun checkConfiguredTees_loop :: "env \<Rightarrow> string list \<Rightarrow> teeRecord \<Rightarrow> world \<Rightarrow> (world, teeRecord) outcome" where
  "checkConfiguredTees_loop E [] rec w = Ret rec w"
| "checkConfiguredTees_loop E (t # ts) rec w =
     andThen (checkConfiguredTees_one E t rec w) (\<lambda>rec' w'. checkConfiguredTees_loop E ts rec' w')"

definition checkConfiguredTees :: "env \<Rightarrow> world \<Rightarrow> (world, teeRecord option) outcome" where
  "checkConfiguredTees E w =
     (let ctees = ReadPriorityTeeList (e_conf E) in
      if ctees = [] then Ret (Some NewTeeRecord) w
      else andThen (checkConfiguredTees_loop E ctees NewTeeRecord w)
        (\<lambda>rec w'. Ret (if Length rec = 0 then None else Some rec) w'))"

subsection \<open>Where the miner stands\<close>

datatype regState = Unregistered | UnregisteredPoisKey | Registered

text \<open>Space in GiB to declared space in TiB, rounded up; and an amount of tokens with the chain's decimals. \<open>None\<close> is
  the nil \<^verbatim>\<open>big.Int\<close> of a string that is no number.\<close>

definition dec_tib :: "env \<Rightarrow> u64 \<Rightarrow> u64" where
  "dec_tib E useSpace = useSpace div SIZE_1KiB (e_reg E) + (if useSpace mod SIZE_1KiB (e_reg E) \<noteq> 0 then 1 else 0)"

definition token_text :: "env \<Rightarrow> u64 \<Rightarrow> string" where
  "token_text E token = show_nat (unat token) @ TokenPrecision_CESS (e_reg E)"

definition less_abs :: "int \<Rightarrow> int \<Rightarrow> bool" where
  "less_abs a b \<longleftrightarrow> \<bar>a\<bar> < \<bar>b\<bar>"

definition check_balance ::
  "env \<Rightarrow> u64 \<Rightarrow> int \<Rightarrow> string \<Rightarrow> world \<Rightarrow> (world, regState \<times> u64 \<times> minerItems option \<times> goerr option) outcome" where
  "check_balance E decTib free who w =
     (case SetString10 (token_text E (decTib * StakingStakePerTiB (e_reg E))) of
        None \<Rightarrow> Panic w
      | Some token_cess \<Rightarrow>
          Ret (Unregistered, decTib, None,
               if less_abs free token_cess then Some (mk_err (who @ '' account balance less'')) else None) w)"

text \<open>\<open>None\<close> in the place of the miner is the zero record of a query that failed.\<close>

definition checkRegistrationInfo :: "env \<Rightarrow> world \<Rightarrow> (world, regState \<times> u64 \<times> minerItems option \<times> goerr option) outcome" where
  "checkRegistrationInfo E w =
     (case QueryMinerItems E w of
        (Inr m, w1) \<Rightarrow> Ret (if mi_SpaceProofInfo m = None then UnregisteredPoisKey else Registered, 0, Some m, None) w1
      | (Inl e, w1) \<Rightarrow>
          (if err_msg e \<noteq> ERR_Empty (e_sdk E) then Ret (Unregistered, 0, None, Some e) w1
           else
             (let staking = ReadStakingAcc (e_conf E);
                  decTib = dec_tib E (ReadUseSpace (e_conf E)) in
              case reg_QueryAccountInfo E (e_signacc E) w1 of
                (Inl e', w2) \<Rightarrow>
                  Ret (Unregistered, decTib, None, Some (if err_msg e' \<noteq> ERR_Empty (e_sdk E) then e'
                    else mk_err ''signature account does not exist'')) w2
              | (Inr free, w2) \<Rightarrow>
                  (if staking = [] \<or> staking = ReadSignatureAccount (e_conflib E) (e_conf E)
                   then check_balance E decTib free ''signature'' w2
                   else
                     (case reg_QueryAccountInfo E staking w2 of
                        (Inl e', w3) \<Rightarrow>
                          Ret (Unregistered, decTib, None, Some (if err_msg e' \<noteq> ERR_Empty (e_sdk E) then e'
                            else mk_err ''staking account does not exist'')) w3
                      | (Inr staked, w3) \<Rightarrow> check_balance E decTib staked ''staking'' w3)))))"

subsection \<open>Registering\<close>

definition registerMiner :: "env \<Rightarrow> string \<Rightarrow> string \<Rightarrow> string \<Rightarrow> u64 \<Rightarrow> world \<Rightarrow> (string \<times> goerr option) \<times> world" where
  "registerMiner E staking earnings sip decTib w =
     (if staking \<noteq> [] \<and> staking \<noteq> e_signacc E
      then reg_RegnstkAssignStaking E earnings sip staking (ucast decTib) w
      else reg_RegnstkSminer E earnings sip (decTib * StakingStakePerTiB (e_reg E)) (ucast decTib) w)"

text \<open>Three transactions at most; after a failed one the chain may have the key all the same.\<close>

fun registerMinerPoisKey_loop ::
  "env \<Rightarrow> bytes \<times> bytes \<Rightarrow> bytes \<Rightarrow> bytes \<Rightarrow> bytes \<Rightarrow> nat \<Rightarrow> goerr option \<Rightarrow> world \<Rightarrow> goerr option \<times> world" where
  "registerMinerPoisKey_loop E key signWithAcc sign puk 0 err w = (err, w)"
| "registerMinerPoisKey_loop E key signWithAcc sign puk (Suc n) err w =
     (case reg_RegisterPoisKey E (fst key) (snd key) signWithAcc sign puk w of
        ((_, None), w1) \<Rightarrow> (None, w1)
      | ((_, Some e), w1) \<Rightarrow>
          (case QueryMinerItems E w1 of
             (Inl e', w2) \<Rightarrow> (Some e', w2)
           | (Inr m, w2) \<Rightarrow>
               (if mi_SpaceProofInfo m \<noteq> None then (None, w2)
                else registerMinerPoisKey_loop E key signWithAcc sign puk n (Some e) w2)))"

definition registerMinerPoisKey :: "env \<Rightarrow> bytes \<times> bytes \<Rightarrow> bytes \<Rightarrow> bytes \<Rightarrow> bytes \<Rightarrow> world \<Rightarrow> goerr option \<times> world" where
  "registerMinerPoisKey E key signWithAcc sign puk w = registerMinerPoisKey_loop E key signWithAcc sign puk 3 None w"

text \<open>The worker is asked three times, whether it has answered or not; the last answer counts.\<close>

fun identity_loop :: "env \<Rightarrow> string \<Rightarrow> nat \<Rightarrow> bytes result \<Rightarrow> world \<Rightarrow> bytes result \<times> world" where
  "identity_loop E ep 0 r w = (r, w)"
| "identity_loop E ep (Suc n) r w =
     (case GetIdentityPubkey E ep (use_tls ep) (e_acc E) w of
        (Inl e, w1) \<Rightarrow> (if Contains (err_msg e) ''not registered'' then identity_loop E ep n (Inl e) w1 else (Inl e, w1))
      | (Inr pk, w1) \<Rightarrow> identity_loop E ep n (Inr pk) w1)"

definition checkTee :: "env \<Rightarrow> bytes \<Rightarrow> world \<Rightarrow> string result \<times> world" where
  "checkTee E pubkey w =
     (case QueryEndpoints E pubkey w of
        (Inl e, w1) \<Rightarrow> (Inl e, w1)
      | (Inr ep, w1) \<Rightarrow>
          (let endPoint = ProcessTeeEndpoint ep in
           case identity_loop E endPoint 3 (Inr []) w1 of
             (Inl e, w2) \<Rightarrow> (Inl e, w2)
           | (Inr pk, w2) \<Rightarrow>
               (if length pk \<noteq> WorkerPublicKeyLen (e_sdk E) then (Inl (mk_err ''identity public key length err''), w2)
                else if \<not> CompareSlice (e_sdk E) pk pubkey then (Inl (mk_err ''invalid tee identity public key''), w2)
                else (Inr endPoint, w2))))"

text \<open>One worker, six tries: whether the key was registered, with the keys received so far.\<close>

fun new_key_try ::
  "env \<Rightarrow> string \<Rightarrow> nat \<Rightarrow> int option \<times> minerPoisInfo \<Rightarrow> world \<Rightarrow> (bool \<times> int option \<times> minerPoisInfo) \<times> world" where
  "new_key_try E ep 0 (rsakey, poisInfo) w = ((False, rsakey, poisInfo), w)"
| "new_key_try E ep (Suc n) (rsakey, poisInfo) w =
     (case RequestMinerGetNewKey E ep (use_tls ep) (e_acc E) w of
        (Inl e, w1) \<Rightarrow>
          (if Contains (err_msg e) Err_ctx_exceeded \<or> Contains (err_msg e) Err_miner_not_exists
           then new_key_try E ep n (rsakey, poisInfo) w1
           else ((False, rsakey, poisInfo), w1))
      | (Inr p, w1) \<Rightarrow>
          (case NewRsaKey (podr2_key (e_reg E)) (mip_Podr2Pbk p) of
             Inl e \<Rightarrow> ((False, None, poisInfo), w1)
           | Inr key \<Rightarrow>
               (let poisInfo' = \<lparr>mpi_Acc = mip_Acc p, mpi_Front = mip_Front p, mpi_Rear = mip_Rear p, mpi_KeyN = mip_KeyN p,
                      mpi_KeyG = mip_KeyG p, mpi_StatusTeeSign = mip_StatusTeeSign p\<rparr> in
                case GetTeePubkeyByEndpoint (e_ord E) (w_tee w1) ep of
                  Inl e \<Rightarrow> ((False, Some key, poisInfo'), w1)
                | Inr workpublickey \<Rightarrow>
                    (case BytesToPoISKeyInfo (e_reg E) (mip_KeyG p) (mip_KeyN p) of
                       Inl e \<Rightarrow> new_key_try E ep n (Some key, poisInfo') w1
                     | Inr poisKey \<Rightarrow>
                         (case BytesToWorkPublickey (e_sdk E) workpublickey of
                            (_, Some e) \<Rightarrow> new_key_try E ep n (Some key, poisInfo') w1
                          | (teeWorkPubkey, None) \<Rightarrow>
                              (case registerMinerPoisKey E poisKey (mip_SignatureWithTeeController p) (mip_StatusTeeSign p)
                                      teeWorkPubkey w1 of
                                 (r, w2) \<Rightarrow> ((r = None, Some key, poisInfo'), w2)))))))"

fun new_key_loop ::
  "env \<Rightarrow> string list \<Rightarrow> int option \<times> minerPoisInfo \<Rightarrow> world \<Rightarrow> (bool \<times> int option \<times> minerPoisInfo) \<times> world" where
  "new_key_loop E [] (rsakey, poisInfo) w = ((False, rsakey, poisInfo), w)"
| "new_key_loop E (ep # eps) (rsakey, poisInfo) w =
     (case new_key_try E ep 6 (rsakey, poisInfo) w of
        ((True, k, i), w1) \<Rightarrow> ((True, k, i), w1)
      | ((False, k, i), w1) \<Rightarrow> new_key_loop E eps (k, i) w1)"

text \<open>Lines 521 to 533: the workers of the chain, as soon as there are any.\<close>

fun await_workers :: "env \<Rightarrow> nat \<Rightarrow> world \<Rightarrow> (world, workerInfo list result) outcome" where
  "await_workers E 0 w = Spin w"
| "await_workers E (Suc n) w =
     (case QueryAllWorkers E w of
        (Inl e, w1) \<Rightarrow> (if err_msg e = ERR_Empty (e_sdk E) then await_workers E n w1 else Ret (Inl e) w1)
      | (Inr ws, w1) \<Rightarrow> Ret (Inr ws) w1)"

definition check_and_save :: "env \<Rightarrow> workerInfo \<Rightarrow> world \<Rightarrow> world" where
  "check_and_save E v w =
     (let pubkeyHex = hex_EncodeToString (wi_Pubkey v) in
      case GetTee (w_tee w) pubkeyHex of
        Inr t \<Rightarrow> w
      | Inl e \<Rightarrow>
          (case checkTee E (wi_Pubkey v) w of
             (Inl e, w1) \<Rightarrow> w1
           | (Inr endPoint, w1) \<Rightarrow> snd (on_tee (\<lambda>t. SaveTee (e_sdk E) t pubkeyHex endPoint (wi_Role v)) w1)))"

definition registerPoisKey :: "env \<Rightarrow> nat \<Rightarrow> world \<Rightarrow> (world, int option \<times> minerPoisInfo \<times> goerr option) outcome" where
  "registerPoisKey E fuel w =
     andThen
       (if Length (w_tee w) = 0
        then andThen (await_workers E fuel w) (\<lambda>r w1. case r of Inl e \<Rightarrow> Ret (Some e) w1
               | Inr workers \<Rightarrow> Ret None (fold (check_and_save E) workers w1))
        else Ret None w)
       (\<lambda>err w2.
         case err of
           Some e \<Rightarrow> Ret (None, zero_pois, Some e) w2
         | None \<Rightarrow>
             (case new_key_loop E (GetAllTeeEndpoint (e_ord E) (w_tee w2)) (None, zero_pois) w2 of
                ((done, k, i), w3) \<Rightarrow>
                  Ret (k, i, if done then None else Some (mk_err ''all tee nodes are busy or unavailable'')) w3))"

subsection \<open>The key for possession proofs\<close>

fun podr2_endpoints :: "env \<Rightarrow> string list \<Rightarrow> world \<Rightarrow> bytes option \<times> world" where
  "podr2_endpoints E [] w = (None, w)"
| "podr2_endpoints E (ep # eps) w =
     (case GetPodr2Pubkey E ep (use_tls ep) (e_acc E) w of
        (Inl e, w1) \<Rightarrow> podr2_endpoints E eps w1
      | (Inr pk, w1) \<Rightarrow> (Some pk, w1))"

text \<open>Lines 404 to 430: a failed query for the endpoint is written to the log, but the loggers are opened only after this start: the
  call goes through a nil interface and panics.\<close>

fun podr2_try :: "env \<Rightarrow> workerInfo \<Rightarrow> nat \<Rightarrow> world \<Rightarrow> (world, bytes option) outcome" where
  "podr2_try E v 0 w = Ret None w"
| "podr2_try E v (Suc n) w =
     (case QueryEndpoints E (wi_Pubkey v) w of
        (Inl e, w1) \<Rightarrow> Panic w1
      | (Inr ep, w1) \<Rightarrow>
          (let endpoint = ProcessTeeEndpoint ep in
           case GetPodr2Pubkey E endpoint (use_tls endpoint) (e_acc E) w1 of
             (Inl e, w2) \<Rightarrow> podr2_try E v n w2
           | (Inr pk, w2) \<Rightarrow>
               Ret (Some pk) (snd (on_tee (\<lambda>t. SaveTee (e_sdk E) t (hex_EncodeToString (wi_Pubkey v)) endpoint (wi_Role v)) w2))))"

fun podr2_workers :: "env \<Rightarrow> workerInfo list \<Rightarrow> world \<Rightarrow> (world, bytes option) outcome" where
  "podr2_workers E [] w = Ret None w"
| "podr2_workers E (v # vs) w =
     (case GetTee (w_tee w) (hex_EncodeToString (wi_Pubkey v)) of
        Inr t \<Rightarrow> podr2_workers E vs w
      | Inl e \<Rightarrow>
          andThen (podr2_try E v 4 w) (\<lambda>r w1.
            case r of Some pk \<Rightarrow> Ret (Some pk) w1 | None \<Rightarrow> podr2_workers E vs w1))"

definition queryPodr2KeyFromTee :: "env \<Rightarrow> world \<Rightarrow> (world, bytes result) outcome" where
  "queryPodr2KeyFromTee E w =
     (let ptee = GetAllTeeEndpoint (e_ord E) (w_tee w) in
      case podr2_endpoints E ptee w of
        (Some pk, w1) \<Rightarrow> Ret (Inr pk) w1
      | (None, w1) \<Rightarrow>
          (if ptee \<noteq> [] then Ret (Inl (mk_err ''all configured tees are unavailable'')) w1
           else
             (case QueryAllWorkers E w1 of
                (Inl e, w2) \<Rightarrow> Ret (Inl (mk_err ''rpc err: failed to query tee list'')) w2
              | (Inr teelist, w2) \<Rightarrow>
                  andThen (podr2_workers E teelist w2) (\<lambda>r w3.
                    case r of
                      Some pk \<Rightarrow> Ret (Inr pk) w3
                    | None \<Rightarrow> Ret (Inl (mk_err ''all tee nodes are busy or unavailable'')) w3))))"

subsection \<open>The registration is brought up to date\<close>

text \<open>Lines 443 to 446: the space declared so far, in TiB. When it is not whole, the source assigns \<open>+1\<close> to it.\<close>

definition old_dec_space :: "env \<Rightarrow> minerItems \<Rightarrow> u64" where
  "old_dec_space E m =
     (if mi_DeclarationSpace m mod SIZE_1TiB (e_reg E) \<noteq> 0 then 1 else mi_DeclarationSpace m div SIZE_1TiB (e_reg E))"

text \<open>Lines 452 to 485: more space is staked for and declared.\<close>

definition expand_space :: "env \<Rightarrow> minerItems \<Rightarrow> u64 \<Rightarrow> u64 \<Rightarrow> string \<Rightarrow> world \<Rightarrow> (world, goerr option option) outcome" where
  "expand_space E m olddecspace newDecSpace staking w =
     (let token = (newDecSpace - olddecspace) * StakingStakePerTiB (e_reg E) in
      andThen
        (if staking = [] \<or> staking = e_signacc E
         then
           (case reg_QueryAccountInfo E (e_signacc E) w of
              (Inl e, w1) \<Rightarrow> Ret None w1
            | (Inr free, w1) \<Rightarrow>
                (case SetString10 (token_text E token) of
                   None \<Rightarrow> Panic w1
                 | Some incToken \<Rightarrow>
                     (if less_abs free incToken then Ret (Some (Some (mk_err ''Failed to expand space''))) w1
                      else (case reg_IncreaseCollateral E (token_text E token) w1 of ((_, err), w2) \<Rightarrow> Ret (Some err) w2))))
         else
           (case SetString10 (token_text E (newDecSpace * StakingStakePerTiB (e_reg E))) of
              None \<Rightarrow> Panic w
            | Some newToken \<Rightarrow>
                Ret (Some (if less_abs (mi_Collaterals m) newToken
                   then Some (mk_err ''Please let the staking account add the staking for you first'') else None)) w))
        (\<lambda>r w1. case r of
           None \<Rightarrow> Ret None w1
         | Some (Some e) \<Rightarrow> Ret (Some (Some e)) w1
         | Some None \<Rightarrow>
             (case reg_IncreaseDeclarationSpace E (ucast (newDecSpace - olddecspace)) w1 of ((_, err), w2) \<Rightarrow> Ret (Some err) w2)))"

text \<open>Lines 488 to 505: the earnings account and the endpoint follow the configuration.\<close>

definition update_accounts :: "env \<Rightarrow> minerItems \<Rightarrow> string \<Rightarrow> string \<Rightarrow> world \<Rightarrow> goerr option \<times> world" where
  "update_accounts E m earnings addr' w =
     (case (case ParsingPublickey (e_reg E) earnings of
              Inl e \<Rightarrow> (None, w)
            | Inr newPublicKey \<Rightarrow>
                (if CompareSlice (e_sdk E) (mi_BeneficiaryAccount m) newPublicKey then (None, w)
                 else (case reg_UpdateBeneficiary E earnings w of ((_, err), w1) \<Rightarrow> (err, w1)))) of
        (Some e, w1) \<Rightarrow> (Some e, w1)
      | (None, w1) \<Rightarrow>
          (if addr' = mi_Endpoint m then (None, w1)
           else (case reg_UpdateSminerEndpoint E addr' w1 of ((_, err), w2) \<Rightarrow> (err, w2))))"

definition updateMinerRegistertionInfo ::
  "env \<Rightarrow> minerItems \<Rightarrow> u64 \<Rightarrow> string \<Rightarrow> string \<Rightarrow> string \<Rightarrow> world \<Rightarrow> (world, goerr option option) outcome" where
  "updateMinerRegistertionInfo E m useSpace staking earnings addr' w =
     (let olddecspace = old_dec_space E m; newDecSpace = dec_tib E useSpace in
      andThen
        (if newDecSpace > olddecspace then expand_space E m olddecspace newDecSpace staking w else Ret (Some None) w)
        (\<lambda>r w1. case r of
           None \<Rightarrow> Ret None w1
         | Some (Some e) \<Rightarrow> Ret (Some (Some e)) w1
         | Some None \<Rightarrow> (case update_accounts E m earnings addr' w1 of (err, w2) \<Rightarrow> Ret (Some err) w2)))"

subsection \<open>The three ways to start\<close>

definition on_ws :: "(fs \<Rightarrow> workspace \<Rightarrow> fs \<times> workspace \<times> goerr option) \<Rightarrow> world \<Rightarrow> goerr option \<times> world" where
  "on_ws f w = (case f (w_fs w) (w_ws w) of (fs, ws, err) \<Rightarrow> (err, w\<lparr>w_fs := fs, w_ws := ws\<rparr>))"

definition NewPoisProver :: "env \<Rightarrow> u64 \<Rightarrow> world \<Rightarrow> goerr option \<times> world" where
  "NewPoisProver E freeSpace w = reg_NewProver E freeSpace w"

text \<open>What a start gives: the key for possession proofs, the state of the space proofs, whether the miner was registered
  just now, and the error.\<close>

type_synonym start = "int option \<times> minerPoisInfo \<times> bool \<times> goerr option"

fun register_key_retry :: "env \<Rightarrow> nat \<Rightarrow> nat \<Rightarrow> int option \<times> minerPoisInfo \<times> goerr option \<Rightarrow> world
    \<Rightarrow> (world, int option \<times> minerPoisInfo \<times> goerr option) outcome" where
  "register_key_retry E fuel 0 r w = Ret r w"
| "register_key_retry E fuel (Suc n) r w =
     andThen (registerPoisKey E fuel w) (\<lambda>(k, i, err) w1.
       case err of
         None \<Rightarrow> Ret (k, i, None) w1
       | Some e \<Rightarrow>
           (if Contains (err_msg e) ''storage miner is not registered'' then register_key_retry E fuel n (k, i, Some e) w1
            else Ret (k, i, Some e) w1))"

definition start_prover :: "env \<Rightarrow> int option \<times> minerPoisInfo \<Rightarrow> bool \<Rightarrow> world \<Rightarrow> start \<times> world" where
  "start_prover E ki reg w =
     (case NewPoisProver E (ReadUseSpace (e_conf E) * 1024) w of (err, w1) \<Rightarrow> ((fst ki, snd ki, reg, err), w1))"

definition start_unregistered :: "env \<Rightarrow> nat \<Rightarrow> string \<Rightarrow> u64 \<Rightarrow> world \<Rightarrow> (world, start option) outcome" where
  "start_unregistered E fuel apiEndpoint decTib w =
     (case registerMiner E (ReadStakingAcc (e_conf E)) (ReadEarningsAcc (e_conf E)) apiEndpoint decTib w of
        ((_, Some e), w1) \<Rightarrow> Ret (Some (None, zero_pois, True, Some e)) w1
      | ((_, None), w1) \<Rightarrow>
          (case on_ws RemoveAndBuild w1 of
             (Some e, w2) \<Rightarrow> Ret (Some (None, zero_pois, True, Some e)) w2
           | (None, w2) \<Rightarrow>
               andThen (register_key_retry E fuel 3 (None, zero_pois, None) w2) (\<lambda>(k, i, err) w3.
                 case err of
                   Some e \<Rightarrow> Ret (Some (k, i, True, Some e)) w3
                 | None \<Rightarrow> (case start_prover E (k, i) True w3 of (r, w4) \<Rightarrow> Ret (Some r) w4))))"

definition start_unkeyed :: "env \<Rightarrow> nat \<Rightarrow> string \<Rightarrow> minerItems \<Rightarrow> world \<Rightarrow> (world, start option) outcome" where
  "start_unkeyed E fuel apiEndpoint m w =
     (case on_ws Build w of
        (Some e, w1) \<Rightarrow> Ret (Some (None, zero_pois, True, Some e)) w1
      | (None, w1) \<Rightarrow>
          andThen (register_key_retry E fuel 3 (None, zero_pois, None) w1) (\<lambda>(k, i, err) w2.
            case err of
              Some e \<Rightarrow> Ret (Some (k, i, True, Some e)) w2
            | None \<Rightarrow>
                andThen (updateMinerRegistertionInfo E m (ReadUseSpace (e_conf E)) (ReadStakingAcc (e_conf E))
                   (ReadEarningsAcc (e_conf E)) apiEndpoint w2) (\<lambda>u w3.
                  case u of
                    None \<Rightarrow> Ret None w3
                  | Some (Some e) \<Rightarrow> Ret (Some (k, i, True, Some e)) w3
                  | Some None \<Rightarrow> (case start_prover E (k, i) True w3 of (r, w4) \<Rightarrow> Ret (Some r) w4))))"

definition start_registered :: "env \<Rightarrow> string \<Rightarrow> minerItems \<Rightarrow> world \<Rightarrow> (world, start option) outcome" where
  "start_registered E apiEndpoint m w =
     (case on_ws Build w of
        (Some e, w1) \<Rightarrow> Ret (Some (None, zero_pois, False, Some e)) w1
      | (None, w1) \<Rightarrow>
          andThen (updateMinerRegistertionInfo E m (ReadUseSpace (e_conf E)) (ReadStakingAcc (e_conf E))
             (ReadEarningsAcc (e_conf E)) apiEndpoint w1) (\<lambda>u w2.
            case u of
              None \<Rightarrow> Ret None w2
            | Some (Some e) \<Rightarrow> Ret (Some (None, zero_pois, False, Some e)) w2
            | Some None \<Rightarrow>
                (case mi_SpaceProofInfo m of
                   None \<Rightarrow> Ret (Some (None, zero_pois, False, Some (mk_err ''SpaceProofInfo unwrap failed''))) w2
                 | Some s \<Rightarrow>
                     (let i = \<lparr>mpi_Acc = spi_Accumulator s, mpi_Front = spi_Front s, mpi_Rear = spi_Rear s,
                            mpi_KeyN = spi_KeyN s, mpi_KeyG = spi_KeyG s, mpi_StatusTeeSign = mi_TeeSig m\<rparr> in
                      case NewPoisProver E (ReadUseSpace (e_conf E) * 1024) w2 of
                        (Some e, w3) \<Rightarrow> Ret (Some (None, i, False, Some e)) w3
                      | (None, w3) \<Rightarrow>
                          andThen (queryPodr2KeyFromTee E w3) (\<lambda>q w4.
                            case q of
                              Inl e \<Rightarrow> Ret (Some (None, i, False, Some e)) w4
                            | Inr buf \<Rightarrow>
                                Ret (Some (case NewRsaKey (podr2_key (e_reg E)) buf of
                                    Inl e \<Rightarrow> (None, i, False, Some e) | Inr key \<Rightarrow> (Some key, i, False, None))) w4)))))"

definition checkMiner :: "env \<Rightarrow> nat \<Rightarrow> string \<Rightarrow> world \<Rightarrow> (world, (string \<times> start) option) outcome" where
  "checkMiner E fuel apiEndpoint w =
     andThen (checkRegistrationInfo E w) (\<lambda>(reg, decTib, old, err) w1.
       let st = (case old of None \<Rightarrow> [] | Some m \<Rightarrow> mi_State m) in
       andThen
         (case err of
            Some e \<Rightarrow> Ret (Some (None, zero_pois, False, Some e)) w1
          | None \<Rightarrow>
              (case old of
                 None \<Rightarrow> start_unregistered E fuel apiEndpoint decTib w1
               | Some m \<Rightarrow>
                   (if reg = UnregisteredPoisKey then start_unkeyed E fuel apiEndpoint m w1
                    else start_registered E apiEndpoint m w1)))
         (\<lambda>r w2. Ret (map_option (\<lambda>s. (st, s)) r) w2))"

subsection \<open>The node\<close>

fun checkRpcSynchronization :: "env \<Rightarrow> nat \<Rightarrow> world \<Rightarrow> (world, goerr option) outcome" where
  "checkRpcSynchronization E 0 w = Spin w"
| "checkRpcSynchronization E (Suc n) w =
     (case reg_SystemSyncState E w of
        (Inl e, w1) \<Rightarrow> Ret (Some e) w1
      | (Inr (current, highest), w1) \<Rightarrow> (if current = highest then Ret None w1 else checkRpcSynchronization E n w1))"

definition InitRunStatus :: "env \<Rightarrow> int \<Rightarrow> string \<Rightarrow> string \<Rightarrow> string \<Rightarrow> bool \<Rightarrow> world \<Rightarrow> world" where
  "InitRunStatus E pid' st apiEndpoint t reg w =
     (case GetCurrentRpcAddr E w of
        (rpc, w1) \<Rightarrow>
          (case reg_GetRpcState E w1 of
             (rpcst, w2) \<Rightarrow>
               (let staking = ReadStakingAcc (e_conf E);
                    rt = SetStartTime t (SetEarningsAcc (ReadEarningsAcc (e_conf E))
                      (SetStakingAcc (if staking = [] then e_signacc E else staking)
                      (SetRegister reg (SetComAddr apiEndpoint (SetState st (SetSignAcc (e_signacc E)
                      (SetCurrentRpcst rpcst (SetCurrentRpc rpc (SetCpucores (uint (ReadUseCpu (e_conf E)))
                      (SetPID pid' NewRunstatus))))))))))
                in w2\<lparr>w_run := rt\<rparr>)))"

text \<open>
  The client of the chain is given: whether the port was free and which of the calls that set it up failed are
  arguments, in the order of the code. Every failure ends the process.
\<close>

definition InitChainClient ::
  "env \<Rightarrow> nat \<Rightarrow> int \<Rightarrow> string \<Rightarrow> (string \<Rightarrow> goerr option) \<Rightarrow> goerr option \<Rightarrow> goerr option \<Rightarrow> goerr option \<Rightarrow> world \<Rightarrow> (world, unit option) outcome" where
  "InitChainClient E fuel pid' t dialLocal newClient extrinsics expenders w =
     (if \<not> FreeLocalPort dialLocal (ReadServicePort (e_conf E)) \<or> newClient \<noteq> None then Ret None w
      else
        (let w0 = w\<lparr>w_ws := NewWorkspace (Join [ReadWorkspace (e_conf E), e_signacc E, Name])\<rparr> in
         andThen (checkRpcSynchronization E fuel w0) (\<lambda>err w1.
           if err \<noteq> None \<or> extrinsics \<noteq> None \<or> expenders \<noteq> None then Ret None w1
           else
             andThen (checkConfiguredTees E w1) (\<lambda>rec w2. case rec of
                 None \<Rightarrow> Ret None w2
               | Some tees \<Rightarrow>
                   andThen (checkMiner E fuel (ReadApiEndpoint (e_conf E)) (w2\<lparr>w_tee := tees\<rparr>)) (\<lambda>r w3. case r of
                       None \<Rightarrow> Ret None w3
                     | Some (st, (k, i, reg, e)) \<Rightarrow>
                         (if e \<noteq> None then Ret None w3
                          else Ret (Some ()) (InitRunStatus E pid' st (ReadApiEndpoint (e_conf E)) t reg (w3\<lparr>w_pois := i\<rparr>))))))))"

subsection \<open>What most of the start leaves alone\<close>

text \<open>No files and no registration of the miner: calls are added, and the record of workers may change.\<close>

fun is_register :: "reg_event \<Rightarrow> bool" where
  "is_register (RegnstkAssignStaking_ev a b c d r) = True"
| "is_register (RegnstkSminer_ev a b c d r) = True"
| "is_register _ = False"

definition registers :: "event \<Rightarrow> bool" where
  "registers e \<longleftrightarrow> (case e of RegEvent r \<Rightarrow> is_register r | _ \<Rightarrow> False)"

definition bystander :: "world \<Rightarrow> world \<Rightarrow> bool" where
  "bystander w w' \<longleftrightarrow> w_fs w' = w_fs w \<and> w_ws w' = w_ws w \<and> (\<exists>es. w_hist w' = w_hist w @ es \<and> list_all (\<lambda>e. \<not> registers e) es)"

lemma by_refl [simp]: "bystander w w"
  by (simp add: bystander_def)

lemma by_trans: "bystander w1 w2 \<Longrightarrow> bystander w2 w3 \<Longrightarrow> bystander w1 w3"
  by (auto simp: bystander_def)

lemma by_event: "\<not> registers e \<Longrightarrow> bystander w0 w \<Longrightarrow> bystander w0 (log_event e w)"
  by (auto simp: bystander_def frame_simps)

lemma by_tee: "bystander w0 w \<Longrightarrow> bystander w0 (w\<lparr>w_tee := t\<rparr>)" "bystander w0 w \<Longrightarrow> bystander w0 (snd (on_tee f w))"
  by (auto simp: bystander_def on_tee_def split: prod.split)

lemma by_calls [simp]:
  "bystander w (snd (QueryMinerItems E w))" "bystander w (snd (QueryEndpoints E pk w))" "bystander w (snd (QueryAllWorkers E w))"
  "bystander w (snd (reg_QueryAccountInfo E a w))" "bystander w (snd (reg_IncreaseCollateral E s w))"
  "bystander w (snd (reg_IncreaseDeclarationSpace E k w))" "bystander w (snd (reg_UpdateBeneficiary E a w))"
  "bystander w (snd (reg_UpdateSminerEndpoint E a w))" "bystander w (snd (reg_RegisterPoisKey E g n x y z w))"
  "bystander w (snd (NewPoisProver E f w))" "bystander w (snd (GetIdentityPubkey E ep tls a w))"
  "bystander w (snd (GetPodr2Pubkey E ep tls a w))" "bystander w (snd (RequestMinerGetNewKey E ep tls a w))"
  by (auto simp: ext_defs com_defs NewPoisProver_def Let_def registers_def intro!: by_event split: option.split)

text \<open>A call whose two halves are named.\<close>

lemma by_pair: "f = (r, w') \<Longrightarrow> bystander w (snd f) \<Longrightarrow> bystander w0 w \<Longrightarrow> bystander w0 w'"
  using by_trans by fastforce

lemma registerMinerPoisKey_by: "bystander w (snd (registerMinerPoisKey_loop E key a s k n err w))"
proof (induction n arbitrary: err w)
  case (Suc n)
  obtain h e w1 where r: "reg_RegisterPoisKey E (fst key) (snd key) a s k w = ((h, e), w1)" by (metis prod.collapse)
  obtain q w2 where q: "QueryMinerItems E w1 = (q, w2)" by fastforce
  have "bystander w w1" "bystander w w2" using by_pair [OF r, of w w] by_pair [OF q, of w1 w] by auto
  then show ?case using by_trans [OF _ Suc.IH] by (auto simp: r q split: option.split sum.split)
qed simp

lemma identity_loop_by: "bystander w (snd (identity_loop E ep n r w))"
proof (induction n arbitrary: r w)
  case (Suc n)
  obtain q w1 where q: "GetIdentityPubkey E ep (use_tls ep) (e_acc E) w = (q, w1)" by fastforce
  have "bystander w w1" using by_pair [OF q, of w w] by simp
  then show ?case using by_trans [OF _ Suc.IH] by (auto simp: q split: sum.split)
qed simp

lemma checkTee_by: "bystander w (snd (checkTee E pk w))"
proof -
  obtain q w1 where q: "QueryEndpoints E pk w = (q, w1)" by fastforce
  have w1: "bystander w w1" using by_pair [OF q, of w w] by simp
  have "bystander w (snd (identity_loop E ep n r w1))" for ep n r using by_trans [OF w1 identity_loop_by] .
  then show ?thesis using w1 by (auto simp: checkTee_def q Let_def split: sum.split prod.split) (metis snd_conv)+
qed

lemma new_key_try_by: "bystander w (snd (new_key_try E ep n ki w))"
proof (induction n arbitrary: ki w)
  case (Suc n)
  obtain rk i where ki: "ki = (rk, i)" by fastforce
  obtain q w1 where q: "RequestMinerGetNewKey E ep (use_tls ep) (e_acc E) w = (q, w1)" by fastforce
  have w1: "bystander w w1" using by_pair [OF q, of w w] by simp
  have "bystander w (snd (registerMinerPoisKey E key a s k w1))" for key a s k
    unfolding registerMinerPoisKey_def by (rule by_trans [OF w1 registerMinerPoisKey_by])
  then have "bystander w w2" if "registerMinerPoisKey E key a s k w1 = (r, w2)" for key a s k r w2
    using that by (metis snd_conv)
  then show ?case using w1 by_trans [OF w1 Suc.IH] by (auto simp: ki q Let_def split: sum.split prod.split option.split)
qed (simp add: split_paired_all)

lemma new_key_loop_by: "bystander w (snd (new_key_loop E eps ki w))"
proof (induction eps arbitrary: ki w)
  case (Cons ep eps)
  obtain rk i where ki: "ki = (rk, i)" by fastforce
  obtain d k i' w1 where t: "new_key_try E ep 6 (rk, i) w = ((d, k, i'), w1)" by (metis prod.collapse)
  have "bystander w w1" using new_key_try_by [of w E ep 6 "(rk, i)"] by (simp add: t)
  then show ?case using by_trans [OF _ Cons.IH] by (cases d) (simp_all add: ki t)
qed (simp add: split_paired_all)

lemma await_workers_by: "bystander w (outcome_state (await_workers E n w))"
proof (induction n arbitrary: w)
  case (Suc n)
  obtain q w1 where q: "QueryAllWorkers E w = (q, w1)" by fastforce
  have "bystander w w1" using by_pair [OF q, of w w] by simp
  then show ?case using by_trans [OF _ Suc.IH] by (auto simp: q split: sum.split)
qed simp

lemma check_and_save_by: "bystander w (check_and_save E v w)"
proof -
  obtain q w1 where q: "checkTee E (wi_Pubkey v) w = (q, w1)" by fastforce
  have "bystander w w1" using by_pair [OF q, of w w] checkTee_by by simp
  then show ?thesis by (auto simp: check_and_save_def q Let_def intro: by_tee split: sum.split)
qed

lemma fold_by: "bystander w (fold (check_and_save E) vs w)"
  by (induction vs arbitrary: w) (auto intro: by_trans [OF check_and_save_by])

lemma by_bind:
  "bystander w (outcome_state m) \<Longrightarrow> (\<And>a w1. m = Ret a w1 \<Longrightarrow> bystander w w1 \<Longrightarrow> bystander w (outcome_state (f a w1)))
     \<Longrightarrow> bystander w (outcome_state (andThen m f))"
  by (cases m) auto

lemma registerPoisKey_by: "bystander w (outcome_state (registerPoisKey E fuel w))"
proof -
  have w1: "bystander w (outcome_state (andThen (await_workers E fuel w) (\<lambda>r w1. case r of Inl e \<Rightarrow> Ret (Some e) w1
      | Inr vs \<Rightarrow> Ret None (fold (check_and_save E) vs w1))))"
    by (rule by_bind [OF await_workers_by]) (auto intro: by_trans [OF _ fold_by] split: sum.split)
  have "bystander w (outcome_state (case new_key_loop E eps ki w2 of ((done, k, i), w3) \<Rightarrow> Ret (k, i, g done) w3))"
    if "bystander w w2" for eps ki w2 and g :: "bool \<Rightarrow> goerr option"
    using by_trans [OF that new_key_loop_by, of E eps ki] by (cases "new_key_loop E eps ki w2") (simp split: prod.split)
  then show ?thesis unfolding registerPoisKey_def using w1
    by (intro by_bind) (auto split: option.split)
qed

lemma register_key_retry_by: "bystander w (outcome_state (register_key_retry E fuel n r w))"
proof (induction n arbitrary: r w)
  case (Suc n)
  show ?case unfolding register_key_retry.simps
    by (rule by_bind [OF registerPoisKey_by]) (auto intro: by_trans [OF _ Suc.IH] split: option.split)
qed simp

lemma expand_space_by: "bystander w (outcome_state (expand_space E m a b st w))"
proof -
  obtain q w1 where q: "reg_QueryAccountInfo E (e_signacc E) w = (q, w1)" by fastforce
  obtain c w2 where c: "reg_IncreaseCollateral E (token_text E ((b - a) * StakingStakePerTiB (e_reg E))) w1 = (c, w2)" by fastforce
  have "bystander w w1" "bystander w w2" using by_pair [OF q, of w w] by_pair [OF c, of w1 w] by auto
  moreover have "bystander w w4" if "reg_IncreaseDeclarationSpace E k w3 = (d, w4)" "bystander w w3" for k w3 d w4
    using by_pair [OF that(1), of w3 w] that(2) by simp
  ultimately show ?thesis unfolding expand_space_def Let_def
    by (intro by_bind) (auto simp: q c split: sum.split option.split prod.split)
qed

lemma update_accounts_by: "bystander w (snd (update_accounts E m ea ad w))"
proof -
  obtain q w1 where q: "reg_UpdateBeneficiary E ea w = (q, w1)" by fastforce
  have w1: "bystander w w1" using by_pair [OF q, of w w] by simp
  have "bystander w w3" if "reg_UpdateSminerEndpoint E a w2 = (d, w3)" "bystander w w2" for a w2 d w3
    using by_pair [OF that(1), of w2 w] that(2) by simp
  with w1 show ?thesis by (auto simp: update_accounts_def q split: sum.split option.split prod.split)
qed

lemma update_by: "bystander w (outcome_state (updateMinerRegistertionInfo E m us st ea ad w))"
proof -
  have "bystander w w2" if "update_accounts E m ea ad w1 = (d, w2)" "bystander w w1" for w1 d w2
    using by_pair [OF that(1), of w1 w] that(2) update_accounts_by by simp
  then show ?thesis unfolding updateMinerRegistertionInfo_def Let_def
    by (intro by_bind) (auto simp: expand_space_by split: option.split prod.split)
qed

lemma podr2_endpoints_by: "bystander w (snd (podr2_endpoints E eps w))"
proof (induction eps arbitrary: w)
  case (Cons ep eps)
  obtain q w1 where q: "GetPodr2Pubkey E ep (use_tls ep) (e_acc E) w = (q, w1)" by fastforce
  have "bystander w w1" using by_pair [OF q, of w w] by simp
  then show ?case using by_trans [OF _ Cons.IH] by (auto simp: q split: sum.split)
qed simp

lemma podr2_try_by: "bystander w (outcome_state (podr2_try E v n w))"
proof (induction n arbitrary: w)
  case (Suc n)
  obtain q w1 where q: "QueryEndpoints E (wi_Pubkey v) w = (q, w1)" by fastforce
  have w1: "bystander w w1" using by_pair [OF q, of w w] by simp
  have "bystander w w2" if "GetPodr2Pubkey E ep tls a w1 = (k, w2)" for ep tls a k w2
    using by_pair [OF that, of w1 w] w1 by simp
  with w1 show ?case using by_trans [OF _ Suc.IH] by (auto simp: q Let_def intro: by_tee split: sum.split prod.split)
qed simp

lemma podr2_workers_by: "bystander w (outcome_state (podr2_workers E vs w))"
proof (induction vs arbitrary: w)
  case (Cons v vs)
  have "bystander w (outcome_state (andThen (podr2_try E v 4 w) (\<lambda>r w1.
      case r of Some pk \<Rightarrow> Ret (Some pk) w1 | None \<Rightarrow> podr2_workers E vs w1)))"
    by (rule by_bind [OF podr2_try_by]) (auto intro: by_trans [OF _ Cons.IH] split: option.split)
  then show ?case using Cons.IH by (auto split: sum.split)
qed simp

lemma queryPodr2_by: "bystander w (outcome_state (queryPodr2KeyFromTee E w))"
proof -
  obtain q w1 where q: "podr2_endpoints E (GetAllTeeEndpoint (e_ord E) (w_tee w)) w = (q, w1)" by fastforce
  obtain a w2 where a: "QueryAllWorkers E w1 = (a, w2)" by fastforce
  have w1: "bystander w w1" using by_pair [OF q, of w w] podr2_endpoints_by by simp
  have w2: "bystander w w2" using by_pair [OF a, of w1 w] w1 by simp
  have "bystander w (outcome_state (podr2_workers E vs w2))" for vs using by_trans [OF w2 podr2_workers_by] .
  with w1 w2 show ?thesis
    by (auto simp: queryPodr2KeyFromTee_def q a Let_def intro!: by_bind split: sum.split option.split)
qed

text \<open>A node that the chain names a worker for, and then fails to give its endpoint, does not start with an error but with a panic.\<close>

theorem queryPodr2_panics:
  assumes "GetAllTeeEndpoint (e_ord E) (w_tee w) = []" and "x_QueryAllWorkers E (w_hist w) = Inr (v # vs)"
    and "\<And>h. x_QueryEndpoints E h (wi_Pubkey v) = Inl e" and "GetTee (w_tee w) (hex_EncodeToString (wi_Pubkey v)) = Inl e'"
  shows "\<exists>w'. queryPodr2KeyFromTee E w = Panic w'"
proof -
  have "podr2_try E v 4 w1 = Panic (log_event (EvQueryEndpoints (wi_Pubkey v) (Inl e)) w1)" for w1
    by (simp add: eval_nat_numeral QueryEndpoints_def Let_def assms(3))
  then show ?thesis
    using assms(1,2,4) by (simp add: queryPodr2KeyFromTee_def Let_def QueryAllWorkers_def frame_simps)
qed

subsection \<open>A known miner keeps its files\<close>

text \<open>Everything after the building of the workspace is a bystander, and a start without an error has built it.\<close>

lemma start_registered_build:
  assumes b: "on_ws Build w = (be, w1)"
  shows "bystander w1 (outcome_state (start_registered E ep m w))"
    and "start_registered E ep m w = Ret (Some (k, i, r, None)) w' \<Longrightarrow> be = None"
proof -
  have p: "bystander w1 w3" if "NewPoisProver E f w2 = (d, w3)" "bystander w1 w2" for f w2 d w3
    using by_pair [OF that(1), of w2 w1] that(2) by simp
  have q: "bystander w1 (outcome_state (queryPodr2KeyFromTee E w2))" if "bystander w1 w2" for w2
    using by_trans [OF that queryPodr2_by] .
  show "bystander w1 (outcome_state (start_registered E ep m w))"
    by (cases be; auto simp: start_registered_def b Let_def intro!: by_bind [OF update_by] by_bind [OF q]
        split: option.split sum.split prod.split; blast intro: p)
  show "start_registered E ep m w = Ret (Some (k, i, r, None)) w' \<Longrightarrow> be = None"
    by (cases be) (simp_all add: start_registered_def b)
qed

lemma start_unkeyed_build:
  assumes b: "on_ws Build w = (be, w1)"
  shows "bystander w1 (outcome_state (start_unkeyed E fuel ep m w))"
    and "start_unkeyed E fuel ep m w = Ret (Some (k, i, r, None)) w' \<Longrightarrow> be = None"
proof -
  have p: "bystander w1 w3" if "start_prover E ki x w2 = (d, w3)" "bystander w1 w2" for ki x w2 d w3
    using that(1) by_trans [OF that(2) by_calls(10), of E "ReadUseSpace (e_conf E) * 1024"]
    by (auto simp: start_prover_def split: prod.splits)
  have u: "bystander w1 (outcome_state (updateMinerRegistertionInfo E m us st ea ad w2))" if "bystander w1 w2" for us st ea ad w2
    using by_trans [OF that update_by] .
  show "bystander w1 (outcome_state (start_unkeyed E fuel ep m w))"
    by (cases be; auto simp: start_unkeyed_def b intro!: by_bind [OF register_key_retry_by] by_bind [OF u]
        split: option.split prod.split; blast intro: p)
  show "start_unkeyed E fuel ep m w = Ret (Some (k, i, r, None)) w' \<Longrightarrow> be = None"
    by (cases be) (simp_all add: start_unkeyed_def b)
qed

lemma checkMiner_known_files:
  assumes known: "fst (QueryMinerItems E w) = Inr m" and wf: "wf_fs (w_fs w)" and root: "rooted (rootDir (w_ws w))"
    and run: "checkMiner E fuel ep w = Ret (Some (st, k, i, r, None)) w'"
    and p: "nm = ''file'' \<or> nm = ''space''"
  shows "file_at (w_fs w') (resolve (rootDir (w_ws w)) @ nm # q) = file_at (w_fs w) (resolve (rootDir (w_ws w)) @ nm # q)"
proof -
  obtain w1 where q: "QueryMinerItems E w = (Inr m, w1)" using known by (cases "QueryMinerItems E w") auto
  then have w1: "w_fs w1 = w_fs w" "w_ws w1 = w_ws w" by (auto simp: QueryMinerItems_def Let_def frame_simps)
  obtain be w2 where b: "on_ws Build w1 = (be, w2)" by fastforce
  from run have s: "start_unkeyed E fuel ep m w1 = Ret (Some (k, i, r, None)) w' \<or> start_registered E ep m w1 = Ret (Some (k, i, r, None)) w'"
    by (auto simp: checkMiner_def checkRegistrationInfo_def q andThen_eq_Ret split: if_splits)
  then have be: "be = None" using start_unkeyed_build(2) [OF b] start_registered_build(2) [OF b] by blast
  have "bystander w2 w'"
    using s start_unkeyed_build(1) [OF b, of E fuel ep m] start_registered_build(1) [OF b, of E ep m] by auto
  then have "w_fs w' = w_fs w2" by (simp add: bystander_def)
  moreover obtain ws where "Build (w_fs w) (w_ws w) = (w_fs w2, ws, None)"
    using b be w1 by (auto simp: on_ws_def split: prod.splits)
  ultimately show ?thesis using Build_tree [OF _ wf root, of "w_fs w2" ws] p
    by (auto simp: stale_names_def image_iff dest!: spec [where x = "resolve (rootDir (w_ws w)) @ nm # q"])
qed

text \<open>
  When the chain knows the miner, a start that succeeds leaves every file under the directory of the service files and
  under the directory of the space proofs as it was.
\<close>
theorem checkMiner_keeps_files:
  assumes known: "fst (QueryMinerItems E w) = Inr m" and wf: "wf_fs (w_fs w)" and root: "rooted (rootDir (w_ws w))"
    and run: "checkMiner E fuel ep w = Ret (Some (st, k, i, r, None)) w'"
    and p: "nm = ''file'' \<or> nm = ''space''"
  shows "file_at (w_fs w') (resolve (rootDir (w_ws w)) @ nm # q) = file_at (w_fs w) (resolve (rootDir (w_ws w)) @ nm # q)"
  using assms by (rule checkMiner_known_files)

definition start_env :: env where
  "start_env = demo_env\<lparr>e_reg := demo_reg\<lparr>x_reg_GetPodr2Pubkey := \<lambda>_ _ _ _. Inr ''k''\<rparr>,
     x_QueryMinerItems := \<lambda>_. Inr \<lparr>mi_State = ''positive'', mi_StakingAccount = [], mi_BeneficiaryAccount = [], mi_DeclarationSpace = 16,
       mi_IdleSpace = 0, mi_ServiceSpace = 0, mi_LockSpace = 0, mi_Collaterals = 0, mi_Endpoint = [],
       mi_SpaceProofInfo = Some \<lparr>spi_Miner = [], spi_Front = 0, spi_Rear = 2, spi_KeyG = [], spi_KeyN = [], spi_Accumulator = ''ac''\<rparr>,
       mi_TeeSig = ''st''\<rparr>\<rparr>"

definition start_world :: world where
  "start_world = demo_world\<lparr>w_fs := \<lparr>fnodes = [([], DirNode), ([''w''], DirNode), ([''w'', ''file''], DirNode),
     ([''w'', ''file'', ''f''], FileNode ''x'')], ffault = \<lambda>_ _. False\<rparr>\<rparr>"

theorem checkMiner_keeps_files_witness:
  "\<exists>st k i r w'. checkMiner start_env 1 [] start_world = Ret (Some (st, k, i, r, None)) w'
     \<and> file_at (w_fs w') [''w'', ''file'', ''f''] = Some ''x''"
proof -
  have q: "\<exists>m. fst (QueryMinerItems start_env start_world) = Inr m" by (simp add: start_env_def QueryMinerItems_def Let_def)
  have wf: "wf_fs (w_fs start_world)" by (simp add: start_world_def wf_fs_def is_dir_def node_at_def)
  have ro: "rooted (rootDir (w_ws start_world))" "resolve (rootDir (w_ws start_world)) = [''w'']" by code_simp+
  have "(case returned (checkMiner start_env 1 [] start_world) of Some (Some (st, k, i, r, None)) \<Rightarrow> True | _ \<Rightarrow> False)" by code_simp
  then obtain st k i r where "returned (checkMiner start_env 1 [] start_world) = Some (Some (st, k, i, r, None))"
    by (auto split: option.splits prod.splits)
  note c = returned_Some [OF this]
  have "file_at (w_fs start_world) [''w'', ''file'', ''f''] = Some ''x''" by code_simp
  with checkMiner_keeps_files [OF _ wf ro(1) c, of _ "''file''" "[''f'']"] q c show ?thesis by (force simp: ro(2))
qed

subsection \<open>Who is registered\<close>

definition payer :: "env \<Rightarrow> string" where
  "payer E = (if ReadStakingAcc (e_conf E) = [] \<or> ReadStakingAcc (e_conf E) = ReadSignatureAccount (e_conflib E) (e_conf E)
     then e_signacc E else ReadStakingAcc (e_conf E))"

definition can_pay :: "env \<Rightarrow> event list \<Rightarrow> bool" where
  "can_pay E es \<longleftrightarrow> (\<exists>free stake. EvQueryAccountInfo (payer E) (Inr free) \<in> set es
     \<and> SetString10 (token_text E (dec_tib E (ReadUseSpace (e_conf E)) * StakingStakePerTiB (e_reg E))) = Some stake
     \<and> \<bar>stake\<bar> \<le> \<bar>free\<bar>)"

lemma check_balance_Ret:
  "check_balance E d free who w = Ret (reg, d', old, err) w' \<Longrightarrow> w' = w \<and> old = None \<and>
     (err = None \<longrightarrow> (\<exists>stake. SetString10 (token_text E (d * StakingStakePerTiB (e_reg E))) = Some stake \<and> \<bar>stake\<bar> \<le> \<bar>free\<bar>))"
  by (auto simp: check_balance_def less_abs_def split: option.splits if_splits)

lemma check_balance_state [simp]: "outcome_state (check_balance E d free who w) = w"
  by (simp add: check_balance_def split: option.split)

lemma checkRegistrationInfo_by: "bystander w (outcome_state (checkRegistrationInfo E w))"
  by (auto simp: checkRegistrationInfo_def QueryMinerItems_def reg_QueryAccountInfo_def registers_def Let_def
      intro!: by_event split: sum.split)

lemma checkRegistrationInfo_new:
  assumes "checkRegistrationInfo E w = Ret (reg, d, None, None) w1"
  shows "(\<exists>e. fst (QueryMinerItems E w) = Inl e \<and> err_msg e = ERR_Empty (e_sdk E))
    \<and> (\<exists>es. w_hist w1 = w_hist w @ es \<and> can_pay E es)"
proof -
  let ?q = "x_QueryMinerItems E (w_hist w)" and ?d = "dec_tib E (ReadUseSpace (e_conf E))"
  let ?w1 = "log_event (EvQueryMinerItems ?q) w"
  let ?a = "x_reg_QueryAccountInfo (e_reg E) (w_hist ?w1) (e_signacc E)"
  let ?w2 = "log_event (EvQueryAccountInfo (e_signacc E) ?a) ?w1"
  let ?b = "x_reg_QueryAccountInfo (e_reg E) (w_hist ?w2) (ReadStakingAcc (e_conf E))"
  obtain e where e: "?q = Inl e" "err_msg e = ERR_Empty (e_sdk E)"
    using assms by (auto simp: checkRegistrationInfo_def QueryMinerItems_def Let_def split: sum.splits if_splits)
  obtain free where a: "?a = Inr free"
    using assms e by (auto simp: checkRegistrationInfo_def QueryMinerItems_def reg_QueryAccountInfo_def Let_def split: sum.splits)
  show ?thesis
  proof (cases "payer E = e_signacc E \<and> (ReadStakingAcc (e_conf E) = [] \<or> ReadStakingAcc (e_conf E) = ReadSignatureAccount (e_conflib E) (e_conf E))")
    case True
    then have "check_balance E ?d free ''signature'' ?w2 = Ret (reg, d, None, None) w1"
      using assms e a by (auto simp: checkRegistrationInfo_def QueryMinerItems_def reg_QueryAccountInfo_def Let_def)
    from check_balance_Ret [OF this] have "w_hist w1 = w_hist w @ [EvQueryMinerItems ?q, EvQueryAccountInfo (payer E) (Inr free)]"
      "can_pay E [EvQueryMinerItems ?q, EvQueryAccountInfo (payer E) (Inr free)]"
      using True a by (auto simp: frame_simps can_pay_def)
    then show ?thesis using e by (auto simp: QueryMinerItems_def Let_def)
  next
    case False
    then have n: "\<not> (ReadStakingAcc (e_conf E) = [] \<or> ReadStakingAcc (e_conf E) = ReadSignatureAccount (e_conflib E) (e_conf E))"
      by (auto simp: payer_def)
    then obtain free' where b: "?b = Inr free'"
      using assms e a by (auto simp: checkRegistrationInfo_def QueryMinerItems_def reg_QueryAccountInfo_def Let_def split: sum.splits)
    then have "check_balance E ?d free' ''staking'' (log_event (EvQueryAccountInfo (payer E) (Inr free')) ?w2) = Ret (reg, d, None, None) w1"
      using assms e a n by (auto simp: checkRegistrationInfo_def QueryMinerItems_def reg_QueryAccountInfo_def payer_def Let_def)
    from check_balance_Ret [OF this]
    have "w_hist w1 = w_hist w @ [EvQueryMinerItems ?q, EvQueryAccountInfo (e_signacc E) ?a, EvQueryAccountInfo (payer E) (Inr free')]"
      "can_pay E [EvQueryMinerItems ?q, EvQueryAccountInfo (e_signacc E) ?a, EvQueryAccountInfo (payer E) (Inr free')]"
      by (auto simp: frame_simps can_pay_def)
    then show ?thesis using e by (auto simp: QueryMinerItems_def Let_def)
  qed
qed

lemma on_ws_hist [simp]: "w_hist (snd (on_ws f w)) = w_hist w"
  by (simp add: on_ws_def split: prod.split)

lemma start_unregistered_hist: "\<exists>es. w_hist (outcome_state (start_unregistered E fuel ep d w)) = w_hist w @ es"
proof -
  obtain h err w1 where r: "registerMiner E (ReadStakingAcc (e_conf E)) (ReadEarningsAcc (e_conf E)) ep d w = ((h, err), w1)"
    by (metis prod.collapse)
  obtain be w2 where b: "on_ws RemoveAndBuild w1 = (be, w2)" by fastforce
  have w1: "\<exists>es. w_hist w1 = w_hist w @ es"
    using r by (auto simp: registerMiner_def ext_defs Let_def frame_simps split: if_splits)
  have w2: "w_hist w2 = w_hist w1" using on_ws_hist [of RemoveAndBuild w1] by (simp add: b)
  have p: "bystander w2 w4" if "start_prover E ki x w3 = (v, w4)" "bystander w2 w3" for ki x w3 v w4
    using that(1) by_trans [OF that(2) by_calls(10), of E "ReadUseSpace (e_conf E) * 1024"]
    by (auto simp: start_prover_def split: prod.splits)
  have "bystander w2 (outcome_state (andThen (register_key_retry E fuel 3 (None, zero_pois, None) w2) (\<lambda>(k, i, err) w3.
                 case err of
                   Some e \<Rightarrow> Ret (Some (k, i, True, Some e)) w3
                 | None \<Rightarrow> (case start_prover E (k, i) True w3 of (r, w4) \<Rightarrow> Ret (Some r) w4))))" (is "bystander _ (outcome_state ?m)")
    by (rule by_bind [OF register_key_retry_by]; auto split: option.split prod.split; blast intro: p)
  then have m: "\<exists>es. w_hist (outcome_state ?m) = w_hist w2 @ es" by (auto simp: bystander_def)
  have "w_hist (outcome_state (start_unregistered E fuel ep d w)) =
      w_hist (if err \<noteq> None then w1 else if be \<noteq> None then w2 else outcome_state ?m)"
    by (cases err; cases be) (simp_all add: start_unregistered_def r b)
  then show ?thesis using w1 w2 m by auto
qed

lemma known_registers_nothing:
  assumes "fst (QueryMinerItems E w) = Inr m"
  shows "\<exists>es. w_hist (outcome_state (checkMiner E fuel ep w)) = w_hist w @ es \<and> list_all (\<lambda>e. \<not> registers e) es"
proof -
  obtain w1 where q: "QueryMinerItems E w = (Inr m, w1)" using assms by (cases "QueryMinerItems E w") auto
  have w1: "bystander w w1" using by_pair [OF q, of w w] by simp
  obtain be w2 where b: "on_ws Build w1 = (be, w2)" by fastforce
  have "w_hist w2 = w_hist w1" using on_ws_hist [of Build w1] by (simp add: b)
  with w1 have "\<exists>es. w_hist v = w_hist w @ es \<and> list_all (\<lambda>e. \<not> registers e) es" if "bystander w2 v" for v
    using that by (auto simp: bystander_def)
  moreover have "outcome_state (checkMiner E fuel ep w) = outcome_state (start_unkeyed E fuel ep m w1)
      \<or> outcome_state (checkMiner E fuel ep w) = outcome_state (start_registered E ep m w1)"
    by (cases "start_unkeyed E fuel ep m w1"; cases "start_registered E ep m w1")
      (auto simp: checkMiner_def checkRegistrationInfo_def q)
  ultimately show ?thesis using start_unkeyed_build(1) [OF b] start_registered_build(1) [OF b] by metis
qed

text \<open>
  C20. The miner is registered (and staked for) on the chain only when the chain has no entry for it and the account that pays
  was seen with at least the stake for the configured space, rounded up to whole TiB.
\<close>
theorem checkMiner_registers_new:
  assumes h: "w_hist (outcome_state (checkMiner E fuel ep w)) = w_hist w @ es" and reg: "list_ex registers es"
  shows "(\<exists>e. fst (QueryMinerItems E w) = Inl e \<and> err_msg e = ERR_Empty (e_sdk E)) \<and> can_pay E es"
proof (cases "fst (QueryMinerItems E w)")
  case (Inr m)
  then show ?thesis using known_registers_nothing [OF Inr, of fuel ep] h reg by (auto simp: list_ex_iff list_all_iff)
next
  case (Inl e)
  obtain es1 where es1: "w_hist (outcome_state (checkRegistrationInfo E w)) = w_hist w @ es1" "list_all (\<lambda>e. \<not> registers e) es1"
    using checkRegistrationInfo_by [of w E] by (auto simp: bystander_def)
  have old: "old = None" if "checkRegistrationInfo E w = Ret (reg, d, old, err) w1" for reg d old err w1
    using that Inl by (cases "QueryMinerItems E w")
      (auto simp: checkRegistrationInfo_def Let_def split: if_splits sum.splits prod.splits dest: check_balance_Ret)
  have "\<exists>reg d w1. checkRegistrationInfo E w = Ret (reg, d, None, None) w1"
  proof (rule ccontr)
    assume "\<not> ?thesis"
    then have "w_hist (outcome_state (checkMiner E fuel ep w)) = w_hist w @ es1"
      using es1(1) old by (cases "checkRegistrationInfo E w") (auto simp: checkMiner_def Let_def split: prod.splits option.splits)
    then show False using h reg es1(2) by (auto simp: list_ex_iff list_all_iff)
  qed
  then obtain r d w1 where c: "checkRegistrationInfo E w = Ret (r, d, None, None) w1" by blast
  note n = checkRegistrationInfo_new [OF c]
  obtain es2 where "w_hist (outcome_state (start_unregistered E fuel ep d w1)) = w_hist w1 @ es2"
    using start_unregistered_hist by blast
  moreover have "outcome_state (checkMiner E fuel ep w) = outcome_state (start_unregistered E fuel ep d w1)"
    by (cases "start_unregistered E fuel ep d w1") (simp_all add: checkMiner_def c)
  ultimately obtain es3 where "es = es3 @ es2" "can_pay E es3" using n h by auto
  with n show ?thesis by (auto simp: can_pay_def)
qed

definition fresh_env :: env where
  "fresh_env = demo_env\<lparr>x_QueryMinerItems := \<lambda>_. Inl (mk_err ''empty''), e_reg := demo_reg\<lparr>
     x_reg_QueryAccountInfo := \<lambda>_ _. Inr 40, x_reg_RegnstkSminer := \<lambda>_ _ _ _ _. (''tx'', None)\<rparr>,
     e_conf := NewConfigFile\<lparr>cf_Maxusespace := 7\<rparr>\<rparr>"

theorem checkMiner_registers_new_witness:
  "let es = w_hist (outcome_state (checkMiner fresh_env 1 [] start_world))
   in list_ex registers es \<and> can_pay fresh_env es"
proof -
  have h: "w_hist (outcome_state (checkMiner fresh_env 1 [] start_world)) =
      w_hist start_world @ w_hist (outcome_state (checkMiner fresh_env 1 [] start_world))"
    by (simp add: start_world_def demo_world_def)
  have r: "list_ex registers (w_hist (outcome_state (checkMiner fresh_env 1 [] start_world)))" by code_simp
  from checkMiner_registers_new [OF h r] r show ?thesis by (simp add: Let_def)
qed

text \<open>
  The space to be added is computed wrongly when the declared space is not a whole number of TiB: here 3 TiB (rounded up from
  two and a half) are declared and 3 are configured, and still two more are staked for and declared.
\<close>
theorem update_expands_again:
  "let E = start_env\<lparr>e_reg := demo_reg\<lparr>x_reg_QueryAccountInfo := \<lambda>_ _. Inr 100,
         x_reg_IncreaseCollateral := \<lambda>_ _. (''tx'', None), x_reg_IncreaseDeclarationSpace := \<lambda>_ _. (''tx'', None)\<rparr>\<rparr>;
       m = (case x_QueryMinerItems start_env [] of Inr m \<Rightarrow> m\<lparr>mi_DeclarationSpace := 40\<rparr>)
   in SIZE_1TiB (e_reg E) = 16 \<and> dec_tib E 12 = 3
     \<and> returned (updateMinerRegistertionInfo E m 12 [] [] [] demo_world) = Some (Some None)
     \<and> w_hist (outcome_state (updateMinerRegistertionInfo E m 12 [] [] [] demo_world)) =
         [EvQueryAccountInfo ''acc'' (Inr 100), EvIncreaseCollateral ''40'' (''tx'', None), EvIncreaseDeclarationSpace 2 (''tx'', None)]"
  by code_simp

subsection \<open>The version of the chain\<close>

text \<open>\<open>chainVersion\<close> is what \<^verbatim>\<open>SystemVersion\<close> answers, \<open>network\<close> the environment. Nothing calls \<^verbatim>\<open>checkVersion\<close>.\<close>

fun version_loop :: "string list \<Rightarrow> goerr option" where
  "version_loop [] = None"
| "version_loop (v # vs) =
     (if Contains v ''.'' then
        (let values = Split v (CHR ''.'') in
         if length values = 3 then
           (if values ! 0 \<noteq> ChainVersionStr ! 0 \<or> values ! 1 \<noteq> ChainVersionStr ! 1
            then Some (mk_err ''chain version number is not v0.7'')
            else case Atoi (values ! 2) of
              None \<Rightarrow> version_loop vs
            | Some versionI \<Rightarrow> (if versionI < ChainVersionInt ! 2 then Some (mk_err ''chain version number is lower than v0.7.9'')
                else version_loop vs))
         else version_loop vs)
      else version_loop vs)"

definition checkVersion :: "string result \<Rightarrow> string \<Rightarrow> goerr option" where
  "checkVersion chainVersion network =
     (case chainVersion of
        Inl e \<Rightarrow> Some (mk_err ''failed to query the chain version: rpc connection is down'')
      | Inr version \<Rightarrow> (if Contains network TestNet then version_loop (Split version (CHR ''-'')) else None))"

text \<open>A part of the version that is no obstacle: not three numbers, or at least 0.7.9.\<close>

definition version_part :: "string \<Rightarrow> bool" where
  "version_part v \<longleftrightarrow> (\<forall>a b c. Contains v ''.'' \<and> Split v (CHR ''.'') = [a, b, c] \<longrightarrow>
     a = ''0'' \<and> b = ''7'' \<and> (\<forall>n. Atoi c = Some n \<longrightarrow> 9 \<le> n))"

lemma version_loop_Cons: "version_loop (v # vs) = None \<longleftrightarrow> version_part v \<and> version_loop vs = None"
proof (cases "Contains v ''.'' \<and> length (Split v (CHR ''.'')) = 3")
  case True
  then obtain a b c where "Split v (CHR ''.'') = [a, b, c]" by (auto simp: length_Suc_conv numeral_3_eq_3)
  with True show ?thesis
    by (auto simp: version_part_def Let_def ChainVersionStr_def ChainVersionInt_def not_less split: option.splits)
next
  case False
  then have "Split v (CHR ''.'') \<noteq> [a, b, c]" if "Contains v ''.''" for a b c using that by auto
  with False show ?thesis by (auto simp: version_part_def Let_def)
qed

lemma version_loop_None: "version_loop vs = None \<longleftrightarrow> list_all version_part vs"
  by (induction vs) (simp_all add: version_loop_Cons del: version_loop.simps(2))

text \<open>Outside the test network every version is taken.\<close>

theorem checkVersion_passes:
  "checkVersion (Inr version) network = None \<longleftrightarrow>
     (Contains network ''testnet'' \<longrightarrow> list_all version_part (Split version (CHR ''-'')))"
  by (simp add: checkVersion_def TestNet_def version_loop_None)

end
