(* ===== verification/Web.thy ===== *)
theory Web
  imports NodeWorld Utils
begin

text \<open>
  The HTTP interface (\<^verbatim>\<open>src/node/web/fragment.go\<close>, \<^verbatim>\<open>status.go\<close>): uploading and downloading fragments behind
  a signature check, the status report and the access to the files of the workspace.

  A request is given by the headers and query values the code reads; a response is one of the three
  kinds the code produces: a JSON body with its code and message, a file, raw data. The signature
  schemes are third-party code, the record \<open>signLib\<close>.
\<close>

datatype resp = RespJson int string | RespFile string | RespData int bytes

definition OK :: string where "OK = ''ok''"
definition ERR_SystemErr :: string where "ERR_SystemErr = ''system error''"
definition ERR_RPCConnection :: string where "ERR_RPCConnection = ''failed to connect to rpc, please try again later.''"
definition ERR_FragmentSize :: string where "ERR_FragmentSize = ''the fragment size is wrong''"
definition ERR_FragmentHash :: string where "ERR_FragmentHash = ''the fragment hash is wrong''"
definition ERR_FragmentNotMatchFid :: string where "ERR_FragmentNotMatchFid = ''fragment does not match fid''"
definition ERR_NotFound :: string where "ERR_NotFound = ''not found''"
definition ERR_HashLength :: string where "ERR_HashLength = ''invalid fid or fragment''"
definition ERR_EmptyHashName :: string where "ERR_EmptyHashName = ''empty fid or fragment''"
definition ERR_InvalidSignature :: string where "ERR_InvalidSignature = ''invalid signature''"
definition ERR_InvalidRangeValue :: string where "ERR_InvalidRangeValue = ''invalid range request''"
definition ERR_InvalidRangeStart :: string where "ERR_InvalidRangeStart = ''invalid range start''"
definition ERR_InvalidRangeEnd :: string where "ERR_InvalidRangeEnd = ''invalid range end''"

subsection \<open>The signature check\<close>

record signLib =
  VerifySR25519WithPublickey :: "string \<Rightarrow> bytes \<Rightarrow> string \<Rightarrow> bool \<times> goerr option"
  VerifyPolkadotJsHexSign :: "string \<Rightarrow> string \<Rightarrow> string \<Rightarrow> bool \<times> goerr option"

definition VerifySignature :: "signLib \<Rightarrow> string \<Rightarrow> string \<Rightarrow> string \<Rightarrow> bool \<times> goerr option" where
  "VerifySignature L account message signature =
     (case hex_DecodeString (TrimPrefix signature ''0x'') of
        None \<Rightarrow> (False, Some (mk_err ''encoding/hex''))
      | Some sign \<Rightarrow>
          (case VerifySR25519WithPublickey L message sign account of
             (ok, _) \<Rightarrow> if \<not> ok then VerifyPolkadotJsHexSign L account message signature else (ok, None)))"

text \<open>The middleware in front of both fragment handlers.\<close>

definition guarded :: "signLib \<Rightarrow> string \<Rightarrow> string \<Rightarrow> string \<Rightarrow> (world \<Rightarrow> (world, resp) outcome) \<Rightarrow> world \<Rightarrow> (world, resp) outcome" where
  "guarded L account message signature handler w =
     (case VerifySignature L account message signature of
        (ok, err) \<Rightarrow> if \<not> ok \<or> err \<noteq> None then Ret (RespJson 403 ERR_InvalidSignature) w else handler w)"

subsection \<open>Downloading\<close>

definition findFragment :: "fs \<Rightarrow> workspace \<Rightarrow> string \<Rightarrow> string \<Rightarrow> string result" where
  "findFragment fs ws fid fragment =
     (let p = Join [GetFileDir ws, fid, fragment]; q = Join [GetReportDir ws, fid, fragment] in
      case os_Stat fs p of
        Inr _ \<Rightarrow> Inr p
      | Inl _ \<Rightarrow> (case os_Stat fs q of Inr _ \<Rightarrow> Inr q | Inl _ \<Rightarrow> Inl (mk_err ERR_NotFound)))"

definition range_after :: "char \<Rightarrow> string \<Rightarrow> string option" where
  "range_after sep rng = (case Split rng sep of [u, r] \<Rightarrow> if u = ''bytes'' then Some r else None | _ \<Rightarrow> None)"

text \<open>Lines 322 to 359: the bounds, or the message of the 416 response.\<close>

definition parse_range :: "string \<Rightarrow> nat \<Rightarrow> string + nat \<times> nat" where
  "parse_range rng fsize =
     (case (case range_after (CHR ''='') rng of None \<Rightarrow> range_after (CHR '' '') rng | r \<Rightarrow> r) of
        None \<Rightarrow> Inl ERR_InvalidRangeValue
      | Some r \<Rightarrow>
          (case Split r (CHR ''/'') of
             [bounds, _] \<Rightarrow>
               (case Split bounds (CHR ''-'') of
                  [s, e] \<Rightarrow>
                    (case ParseInt 64 s of
                       None \<Rightarrow> Inl ERR_InvalidRangeStart
                     | Some start \<Rightarrow>
                         (if start < 0 then Inl ERR_InvalidRangeStart
                          else
                            (case ParseInt 64 e of
                               None \<Rightarrow> Inl ERR_InvalidRangeEnd
                             | Some stop \<Rightarrow>
                                 (if stop < start \<or> stop > int fsize then Inl ERR_InvalidRangeEnd
                                  else Inr (nat start, nat stop)))))
                | _ \<Rightarrow> Inl ERR_InvalidRangeValue)
           | _ \<Rightarrow> Inl ERR_InvalidRangeValue))"

text \<open>\<^verbatim>\<open>Seek\<close> and one \<^verbatim>\<open>Read\<close> into a buffer of \<open>n\<close> bytes: an empty buffer reads nothing, the end of the file is an
  error, and what is not filled stays zero.\<close>

definition read_at :: "fs \<Rightarrow> string \<Rightarrow> nat \<Rightarrow> nat \<Rightarrow> (bytes \<times> nat) option" where
  "read_at fs file off n =
     (if n = 0 then Some ([], 0)
      else
        (case os_ReadFile fs file of
           Inl _ \<Rightarrow> None
         | Inr d \<Rightarrow>
             (if off \<ge> length d then None
              else (let got = take n (drop off d) in Some (got @ replicate (n - length got) (char_of (0 :: nat)), length got)))))"

definition ReturnFileRangeStream :: "fs \<Rightarrow> string \<Rightarrow> string \<Rightarrow> resp" where
  "ReturnFileRangeStream fs rng file =
     (case os_Open fs file of
        Some e \<Rightarrow> RespJson 500 ERR_SystemErr
      | None \<Rightarrow>
          (case os_Stat fs file of
             Inl e \<Rightarrow> RespJson 500 ERR_SystemErr
           | Inr st \<Rightarrow>
               (case parse_range rng (fi_size st) of
                  Inl m \<Rightarrow> RespJson 416 m
                | Inr (start, stop) \<Rightarrow>
                    (case read_at fs file start (stop - start) of
                       None \<Rightarrow> RespJson 500 ERR_SystemErr
                     | Some (buf, _) \<Rightarrow> RespData 206 buf))))"

definition getfragment :: "env \<Rightarrow> string \<Rightarrow> string \<Rightarrow> string \<Rightarrow> world \<Rightarrow> resp" where
  "getfragment E fid fragment rangedata w =
     (if fid = [] \<or> fragment = [] then RespJson 400 ERR_EmptyHashName
      else if length fid \<noteq> FileHashLen (e_sdk E) \<or> length fragment \<noteq> FileHashLen (e_sdk E) then RespJson 400 ERR_HashLength
      else
        (case findFragment (w_fs w) (w_ws w) fid fragment of
           Inl e \<Rightarrow> RespJson 404 ERR_NotFound
         | Inr fragmentpath \<Rightarrow>
             (if rangedata \<noteq> [] then ReturnFileRangeStream (w_fs w) rangedata fragmentpath else RespFile fragmentpath)))"

subsection \<open>Uploading\<close>

definition findUnreportedFragment :: "fs \<Rightarrow> workspace \<Rightarrow> string \<Rightarrow> string \<Rightarrow> string result" where
  "findUnreportedFragment fs ws fid fragment =
     (let p = Join [GetTmpDir ws, fid, fragment]; q = Join [GetReportDir ws, fid, fragment] in
      case os_Stat fs p of
        Inr _ \<Rightarrow> Inr p
      | Inl _ \<Rightarrow> (case os_Stat fs q of Inr _ \<Rightarrow> Inr q | Inl _ \<Rightarrow> Inl (mk_err ERR_NotFound)))"

definition checkFragment :: "env \<Rightarrow> string \<Rightarrow> string \<Rightarrow> world \<Rightarrow> bool result \<times> world" where
  "checkFragment E fid fragment w =
     (case QueryDealMap E fid w of
        (Inl e, w1) \<Rightarrow> (if \<not> is_empty_value e then Inl e else Inr False, w1)
      | (Inr forder, w1) \<Rightarrow>
          (Inr (list_ex (\<lambda>s. list_ex (\<lambda>h. h = fragment) (ds_FragmentHash s)) (so_SegmentList forder)), w1))"

text \<open>A fresh name in the temporary directory; the loop ends when the name does not exist.\<close>

fun fresh_tmp :: "env \<Rightarrow> nat \<Rightarrow> string \<Rightarrow> world \<Rightarrow> (world, string) outcome" where
  "fresh_tmp E 0 fid w = Spin w"
| "fresh_tmp E (Suc fuel) fid w =
     (case NewUuid E w of
        (Inl e, w1) \<Rightarrow> fresh_tmp E fuel fid w1
      | (Inr uid, w1) \<Rightarrow>
          (let tmpPath = Join [GetTmpDir (w_ws w1), fid, uid] in
           case os_Stat (w_fs w1) tmpPath of Inl _ \<Rightarrow> Ret tmpPath w1 | Inr _ \<Rightarrow> fresh_tmp E fuel fid w1))"

text \<open>The form file of the request: missing, or its bytes and whether reading breaks off after them.\<close>

type_synonym formfile = "(bytes \<times> bool) result"

definition saveFormFile :: "env \<Rightarrow> nat \<Rightarrow> string \<Rightarrow> formfile \<Rightarrow> world \<Rightarrow> (world, (int \<times> string) + (string \<times> nat)) outcome" where
  "saveFormFile E fuel fid form w =
     andThen (fresh_tmp E fuel fid w) (\<lambda>tmpPath w1.
       case on_fs (\<lambda>fs. os_OpenTrunc fs tmpPath) w1 of
         (Some e, w2) \<Rightarrow> Ret (Inl (500, ''[OpenFile]'')) w2
       | (None, w2) \<Rightarrow>
           (case form of
              Inl e \<Rightarrow> Ret (Inl (400, ''[FormFile]'')) w2
            | Inr (data, broken) \<Rightarrow>
                (let p = resolve tmpPath in
                 if ffault (w_fs w2) OpWrite p then Ret (Inl (400, ''[Copy]'')) w2
                 else
                   (let w3 = w2\<lparr>w_fs := put_node (w_fs w2) p (FileNode data)\<rparr> in
                    if broken then Ret (Inl (400, ''[Copy]'')) w3
                    else if ffault (w_fs w3) OpStat p then Ret (Inl (500, ''[Stat]'')) w3
                    else if ffault (w_fs w3) OpSync p then Ret (Inl (500, ''[Sync]'')) w3
                    else Ret (Inr (tmpPath, length data)) w3))))"

text \<open>Lines 149 to 195: the checks on what was uploaded, and the move to the report directory.\<close>

definition accept_upload :: "env \<Rightarrow> string \<Rightarrow> string \<Rightarrow> string \<Rightarrow> nat \<Rightarrow> world \<Rightarrow> resp \<times> world" where
  "accept_upload E fid fragment fragmentpath n w =
     (case CalcPathSHA256 (e_sdk E) (w_fs w) fragmentpath of
        Inl e \<Rightarrow> (RespJson 500 ERR_SystemErr, w)
      | Inr fragment_upload \<Rightarrow>
          (if n \<noteq> FragmentSize (e_sdk E) then (RespJson 400 ERR_FragmentSize, w)
           else if fragment \<noteq> [] \<and> fragment_upload \<noteq> fragment then (RespJson 400 ERR_FragmentHash, w)
           else
             (case checkFragment E fid fragment w of
                (Inl e, w1) \<Rightarrow> (RespJson 403 ERR_RPCConnection, w1)
              | (Inr False, w1) \<Rightarrow> (RespJson 400 ERR_FragmentNotMatchFid, w1)
              | (Inr True, w1) \<Rightarrow>
                  (case on_fs (\<lambda>fs. os_MkdirAll fs (Join [GetReportDir (w_ws w1), fid])) w1 of
                     (Some e, w2) \<Rightarrow> (RespJson 500 ERR_SystemErr, w2)
                   | (None, w2) \<Rightarrow>
                       (case on_fs (\<lambda>fs. os_Rename fs fragmentpath (Join [GetReportDir (w_ws w2), fid, fragment])) w2 of
                          (Some e, w3) \<Rightarrow> (RespJson 500 ERR_SystemErr, w3)
                        | (None, w3) \<Rightarrow> (RespJson 200 OK, w3))))))"

text \<open>Lines 123 to 140: the fragment of zeros needs no upload.\<close>

definition put_zero :: "env \<Rightarrow> string \<Rightarrow> string \<Rightarrow> world \<Rightarrow> resp \<times> world" where
  "put_zero E fid fragment w =
     (case on_fs (\<lambda>fs. os_MkdirAll fs (Join [GetReportDir (w_ws w), fid])) w of
        (Some e, w1) \<Rightarrow> (RespJson 500 ERR_SystemErr, w1)
      | (None, w1) \<Rightarrow>
          (case on_fs (\<lambda>fs. WriteBufToFile (e_sdk E) fs (replicate (FragmentSize (e_sdk E)) (char_of (0 :: nat)))
                 (Join [GetReportDir (w_ws w1), fid, fragment])) w1 of
             (Some e, w2) \<Rightarrow> (RespJson 500 ERR_SystemErr, w2)
           | (None, w2) \<Rightarrow> (RespJson 200 OK, w2)))"

definition putfragment :: "env \<Rightarrow> nat \<Rightarrow> string \<Rightarrow> string \<Rightarrow> formfile \<Rightarrow> world \<Rightarrow> (world, resp) outcome" where
  "putfragment E fuel fid fragment form w =
     (if fragment \<noteq> [] \<and> (case findUnreportedFragment (w_fs w) (w_ws w) fid fragment of Inr _ \<Rightarrow> True | Inl _ \<Rightarrow> False)
      then Ret (RespJson 200 OK) w
      else
        (case on_fs (\<lambda>fs. os_MkdirAll fs (Join [GetTmpDir (w_ws w), fid])) w of
           (Some e, w1) \<Rightarrow> Ret (RespJson 500 ERR_SystemErr) w1
         | (None, w1) \<Rightarrow>
             (if fragment = ZeroFileHash_8M (e_sdk E) then rets (put_zero E fid fragment w1)
              else
                andThen (saveFormFile E fuel fid form w1) (\<lambda>r w2.
                  case r of
                    Inl (code, msg) \<Rightarrow> Ret (RespJson code msg) w2
                  | Inr (fragmentpath, n) \<Rightarrow> rets (accept_upload E fid fragment fragmentpath n w2)))))"

subsection \<open>Status and files of the workspace\<close>

record statusData =
  sd_PID :: int
  sd_Version :: string
  sd_Cores :: int
  sd_Endpoint :: string
  sd_CurrentRpc :: string
  sd_CurrentRpcStatus :: bool
  sd_IsConnectingRpc :: bool
  sd_StartTime :: string
  sd_State :: string
  sd_SignatureAcc :: string
  sd_StakingAcc :: string
  sd_EarningsAcc :: string
  sd_DeclarationSpace :: u64
  sd_IdleSpace :: u64
  sd_ServiceSpace :: u64
  sd_LockSpace :: u64
  sd_IdleChallenging :: bool
  sd_ServiceChallenging :: bool
  sd_GeneratingIdle :: bool
  sd_CertifyingIdle :: bool
  sd_CheckingIdle :: bool

definition Version :: string where "Version = ''v0.8.3 2505161039-1747363150''"

definition getStatus :: "runstatus \<Rightarrow> statusData" where
  "getStatus rs =
     (case GetMinerSpaceInfo rs of
        (declaration_space, idle_space, service_space, locked_space) \<Rightarrow>
          \<lparr>sd_PID = GetPID rs, sd_Version = Version, sd_Cores = GetCpucores rs, sd_Endpoint = GetComAddr rs,
           sd_CurrentRpc = GetCurrentRpc rs, sd_CurrentRpcStatus = GetCurrentRpcst rs,
           sd_IsConnectingRpc = GetRpcConnecting rs, sd_StartTime = GetStartTime rs, sd_State = GetState rs,
           sd_SignatureAcc = GetSignAcc rs, sd_StakingAcc = GetStakingAcc rs, sd_EarningsAcc = GetEarningsAcc rs,
           sd_DeclarationSpace = declaration_space, sd_IdleSpace = idle_space, sd_ServiceSpace = service_space,
           sd_LockSpace = locked_space, sd_IdleChallenging = GetIdleChallenging rs,
           sd_ServiceChallenging = GetServiceChallenging rs, sd_GeneratingIdle = GetGeneratingIdle rs,
           sd_CertifyingIdle = GetCertifyingIdle rs, sd_CheckingIdle = GetCheckPois rs\<rparr>)"

definition getfilelist :: "(string \<Rightarrow> string) \<Rightarrow> fs \<Rightarrow> workspace \<Rightarrow> string option \<Rightarrow> fileDetail list result" where
  "getfilelist mtime fs ws pathq =
     DirFileDetail mtime fs (Join [GetRootDir ws, case pathq of None \<Rightarrow> ''/'' | Some p \<Rightarrow> p]) 0"

text \<open>A query value that must be a number: \<open>Inl\<close> the error, absent is 0.\<close>

definition size_query :: "string option \<Rightarrow> int option" where
  "size_query q = (case q of None \<Rightarrow> Some 0 | Some s \<Rightarrow> Atoi s)"

definition send_bytes :: "(bytes \<times> nat) option \<Rightarrow> resp" where
  "send_bytes r = (case r of None \<Rightarrow> RespJson 500 ERR_SystemErr | Some (buf, n) \<Rightarrow> RespData 200 buf)"

definition getfile :: "fs \<Rightarrow> workspace \<Rightarrow> string \<Rightarrow> string option \<Rightarrow> string option \<Rightarrow> resp" where
  "getfile fs ws fp headq tailq =
     (case size_query headq of
        None \<Rightarrow> RespJson 400 ''invalid head number''
      | Some headsize \<Rightarrow>
          (case size_query tailq of
             None \<Rightarrow> RespJson 400 ''invalid tail number''
           | Some tailsize \<Rightarrow>
               (let file = Join [GetRootDir ws, fp] in
                case os_Stat fs file of
                  Inl e \<Rightarrow> RespJson 500 ERR_SystemErr
                | Inr fstat \<Rightarrow>
                    (case os_Open fs file of
                       Some e \<Rightarrow> RespJson 500 ERR_SystemErr
                     | None \<Rightarrow>
                         (if headsize > 0 then send_bytes (read_at fs file 0 (min (nat headsize) (fi_size fstat)))
                          else if tailsize > 0 then
                            (if tailsize \<ge> int (fi_size fstat) then send_bytes (read_at fs file 0 (fi_size fstat))
                             else send_bytes (read_at fs file (fi_size fstat - nat tailsize) (nat tailsize)))
                          else RespFile file)))))"

subsection \<open>Ranges\<close>

lemma show_nat_no_char: "\<not> is_digit c \<Longrightarrow> c \<notin> set (show_nat n)"
  using show_nat_digits by blast

lemma not_digit_sep [simp]: "\<not> is_digit (CHR ''='')" "\<not> is_digit (CHR ''/'')"
  by (simp_all add: is_digit_def)

lemma range_after_bytes: "sep \<notin> set r \<Longrightarrow> sep \<notin> set ''bytes'' \<Longrightarrow> range_after sep (''bytes'' @ sep # r) = Some r"
  by (simp only: range_after_def Split_append_sep Split_single list.case if_True refl not_False_eq_True)

lemma ParseInt_show_nat: "int n < 2 ^ 63 \<Longrightarrow> ParseInt 64 (show_nat n) = Some (int n)"
  by (simp add: ParseInt_def)

lemma parse_range_show:
  assumes "start \<le> stop" "stop \<le> fsize" "int fsize < 2 ^ 63" "CHR ''='' \<notin> set t" "CHR ''/'' \<notin> set t"
  shows "parse_range (''bytes'' @ CHR ''='' # show_nat start @ CHR ''-'' # show_nat stop @ CHR ''/'' # t) fsize = Inr (start, stop)"
proof -
  let ?b = "show_nat start @ CHR ''-'' # show_nat stop"
  have n: "CHR ''='' \<notin> set ?b" "CHR ''/'' \<notin> set ?b" by (simp_all add: show_nat_no_char)
  have r: "range_after (CHR ''='') (''bytes'' @ CHR ''='' # ?b @ CHR ''/'' # t) = Some (?b @ CHR ''/'' # t)"
    using n assms(4) by (intro range_after_bytes) auto
  have s1: "Split (?b @ CHR ''/'' # t) (CHR ''/'') = [?b, t]" using n assms(5) by (simp only: Split_append_sep Split_single not_False_eq_True)
  have s2: "Split ?b (CHR ''-'') = [show_nat start, show_nat stop]"
    by (simp add: Split_append_sep Split_single show_nat_no_char)
  have "int start < 2 ^ 63" "int stop < 2 ^ 63" using assms(1-3) by linarith+
  then show ?thesis using assms(1,2) r s1 s2
    by (simp add: parse_range_def ParseInt_show_nat)
qed

lemma parse_range_bounds: "parse_range rng n = Inr (a, b) \<Longrightarrow> a \<le> b \<and> b \<le> n"
  by (auto simp: parse_range_def split: option.splits list.splits if_splits)

lemma read_at_slice:
  assumes "a \<le> b" "b \<le> length d" "os_ReadFile fs file = Inr d"
  shows "read_at fs file a (b - a) = Some (take (b - a) (drop a d), b - a)"
  using assms by (auto simp: read_at_def Let_def)

text \<open>
  C35. Downloading by ranges is faithful: for every range within the file, written as the code expects it, the
  answer is exactly those bytes of the file; and whatever the range header says, data that is sent is a
  contiguous piece of the file.
\<close>

theorem range_download:
  assumes "os_Open fs file = None" "os_Stat fs file = Inr st" "os_ReadFile fs file = Inr d" "int (length d) < 2 ^ 63"
  shows "(\<forall>start stop t. start \<le> stop \<and> stop \<le> length d \<and> CHR ''='' \<notin> set t \<and> CHR ''/'' \<notin> set t \<longrightarrow>
      ReturnFileRangeStream fs (''bytes'' @ CHR ''='' # show_nat start @ CHR ''-'' # show_nat stop @ CHR ''/'' # t) file
        = RespData 206 (take (stop - start) (drop start d)))
    \<and> (\<forall>rng code buf. ReturnFileRangeStream fs rng file = RespData code buf \<longrightarrow> code = 206 \<and> (\<exists>a c. d = a @ buf @ c))"
proof -
  have sz: "fi_size st = length d"
    using assms(2,3) by (auto simp: os_Stat_def os_ReadFile_def Let_def split: if_splits option.splits node.splits)
  have "code = 206 \<and> (\<exists>a c. d = a @ buf @ c)" if r: "ReturnFileRangeStream fs rng file = RespData code buf" for rng code buf
  proof -
    obtain a b where p: "parse_range rng (length d) = Inr (a, b)"
      using r assms(1,2) sz by (auto simp: ReturnFileRangeStream_def split: sum.splits)
    note ab = parse_range_bounds [OF p]
    have "code = 206" "buf = take (b - a) (drop a d)"
      using r assms(1,2) sz p read_at_slice [OF _ _ assms(3), of a b] ab by (auto simp: ReturnFileRangeStream_def)
    moreover have "d = take a d @ take (b - a) (drop a d) @ drop (b - a) (drop a d)"
      by (simp only: append_take_drop_id)
    ultimately show ?thesis by blast
  qed
  moreover have "ReturnFileRangeStream fs (''bytes'' @ CHR ''='' # show_nat start @ CHR ''-'' # show_nat stop @ CHR ''/'' # t) file
      = RespData 206 (take (stop - start) (drop start d))"
    if "start \<le> stop" "stop \<le> length d" "CHR ''='' \<notin> set t" "CHR ''/'' \<notin> set t" for start stop t
    using assms(1,2) sz parse_range_show [OF that(1,2) assms(4) that(3,4)] read_at_slice [OF that(1,2) assms(3)]
    by (simp only: ReturnFileRangeStream_def option.case sum.case prod.case sz)
  ultimately show ?thesis by blast
qed

definition range_fs :: fs where
  "range_fs = \<lparr>fnodes = [([], DirNode), ([''f''], FileNode ''abcdef'')], ffault = \<lambda>_ _. False\<rparr>"

theorem range_download_witness:
  "ReturnFileRangeStream range_fs (''bytes'' @ CHR ''='' # show_nat 1 @ CHR ''-'' # show_nat 4 @ CHR ''/'' # ''6'') ''/f'' = RespData 206 ''bcd''"
proof -
  have "os_Open range_fs ''/f'' = None" "os_Stat range_fs ''/f'' = Inr \<lparr>fi_size = 6, fi_isdir = False\<rparr>"
    "os_ReadFile range_fs ''/f'' = Inr ''abcdef''" by code_simp+
  from range_download [OF this] show ?thesis by simp
qed

subsection \<open>Only checked fragments are stored\<close>

lemma fresh_tmp_frame:
  "fresh_tmp E fuel fid w = Ret p w' \<Longrightarrow> w_fs w' = w_fs w \<and> w_ws w' = w_ws w \<and> prefix (w_hist w) (w_hist w')"
proof (induction fuel arbitrary: w)
  case (Suc fuel)
  obtain u w1 where u: "NewUuid E w = (u, w1)" by fastforce
  then have "w_fs w1 = w_fs w" "w_ws w1 = w_ws w" "prefix (w_hist w) (w_hist w1)"
    by (auto simp: NewUuid_def Let_def frame_simps)
  then show ?case using Suc.IH [of w1] Suc.prems u
    by (auto simp: Let_def split: sum.splits intro: prefix_order.trans)
qed simp

lemma saveFormFile_saved:
  assumes "saveFormFile E fuel fid form w = Ret (Inr (p, n)) w'"
  shows "\<exists>d. form = Inr (d, False) \<and> n = length d \<and> file_at (w_fs w') (resolve p) = Some d \<and> w_ws w' = w_ws w
    \<and> prefix (w_hist w) (w_hist w')"
proof -
  obtain p0 w1 where t: "fresh_tmp E fuel fid w = Ret p0 w1"
    using assms by (cases "fresh_tmp E fuel fid w") (auto simp: saveFormFile_def)
  then show ?thesis using assms fresh_tmp_frame [OF t]
    by (auto simp: saveFormFile_def on_fs_def fs_simps Let_def split: prod.splits option.splits sum.splits if_splits)
qed

lemma rets_Ret: "rets p = Ret a w \<longleftrightarrow> p = (a, w)"
  by (cases p) (simp add: rets_def)

lemma sf_code: "saveFormFile E fuel fid form w = Ret (Inl (code, msg)) w' \<Longrightarrow> code \<noteq> 200"
  by (cases "fresh_tmp E fuel fid w")
    (auto simp: saveFormFile_def on_fs_def Let_def split: prod.splits option.splits sum.splits if_splits)

text \<open>What the chain's deal lists.\<close>

definition dealt :: "event list \<Rightarrow> string \<Rightarrow> string \<Rightarrow> bool" where
  "dealt h fid fragment \<longleftrightarrow> (\<exists>order. EvQueryDealMap fid (Inr order) \<in> set h
     \<and> list_ex (\<lambda>s. list_ex (\<lambda>x. x = fragment) (ds_FragmentHash s)) (so_SegmentList order))"

lemma checkFragment_true:
  "checkFragment E fid fragment w = (Inr True, w1) \<Longrightarrow>
     (\<exists>h. w_hist w1 = w_hist w @ h \<and> dealt h fid fragment) \<and> w_fs w1 = w_fs w \<and> w_ws w1 = w_ws w"
  by (auto simp: checkFragment_def QueryDealMap_def dealt_def Let_def frame_simps split: sum.splits if_splits)

lemma accept_upload_stored:
  assumes "accept_upload E fid fragment p n w = (RespJson 200 OK, w')" and "file_at (w_fs w) (resolve p) = Some d"
    and hash: "\<And>fs s h. CalcPathSHA256 (e_sdk E) fs s = Inr h \<Longrightarrow> \<exists>d. os_ReadFile fs s = Inr d \<and> h = H d"
  shows "n = FragmentSize (e_sdk E) \<and> (fragment \<noteq> [] \<longrightarrow> H d = fragment) \<and> (\<exists>h. w_hist w' = w_hist w @ h \<and> dealt h fid fragment)
    \<and> file_at (w_fs w') (resolve (Join [GetReportDir (w_ws w), fid, fragment])) = Some d"
proof -
  obtain h where h: "CalcPathSHA256 (e_sdk E) (w_fs w) p = Inr h" "n = FragmentSize (e_sdk E)" "fragment \<noteq> [] \<longrightarrow> h = fragment"
    using assms(1) by (auto simp: accept_upload_def split: sum.splits if_splits)
  obtain w1 where c: "checkFragment E fid fragment w = (Inr True, w1)"
    using assms(1) h by (auto simp: accept_upload_def split: prod.splits sum.splits bool.splits if_splits)
  note c1 = checkFragment_true [OF c]
  have chk: "\<not> (fragment \<noteq> [] \<and> h \<noteq> fragment)" using h(3) by blast
  obtain fs2 where m: "os_MkdirAll (w_fs w1) (Join [GetReportDir (w_ws w1), fid]) = (fs2, None)"
    using assms(1) h(1,2) chk c by (auto simp: accept_upload_def on_fs_def split: prod.splits option.splits)
  obtain fs3 where r: "os_Rename fs2 p (Join [GetReportDir (w_ws w1), fid, fragment]) = (fs3, None)" "w' = w1\<lparr>w_fs := fs3\<rparr>"
    using assms(1) h(1,2) chk c m by (auto simp: accept_upload_def on_fs_def split: prod.splits option.splits)
  have "file_at fs2 (resolve p) = Some d" using os_MkdirAll_file [OF m] c1 assms(2) by simp
  then have "file_at (w_fs w') (resolve (Join [GetReportDir (w_ws w), fid, fragment])) = Some d"
    using os_Rename_file [OF r(1)] r(2) c1 by simp
  moreover have "fragment \<noteq> [] \<longrightarrow> H d = fragment" using hash [OF h(1)] h(3) assms(2) by (auto dest: os_ReadFile_Inr)
  ultimately show ?thesis using h c1 r by simp
qed

lemma put_zero_stored:
  assumes "put_zero E fid fragment w = (RespJson 200 OK, w')" and "write_buf (WriteBufToFile (e_sdk E))"
  shows "file_at (w_fs w') (resolve (Join [GetReportDir (w_ws w), fid, fragment]))
    = Some (replicate (FragmentSize (e_sdk E)) (char_of (0 :: nat)))"
  using assms(1) write_buf.wb_ok [OF assms(2)]
  by (auto simp: put_zero_def on_fs_def split: prod.splits option.splits)

text \<open>
  C17. What an upload that is answered with success has done. A fragment that is there already, announced by name and not
  yet reported, is left as it is. The fragment of zeros is written to the report directory by the miner itself, without a
  look at the deal. Any other fragment is what the client sent: it has the fragment size, its hash is the announced name
  (if there was one), the chain's deal for the file, asked for in this run, lists it, and its bytes lie in the report directory.
\<close>

theorem putfragment_checked:
  assumes "putfragment E fuel fid fragment form w = Ret (RespJson 200 OK) w'"
    and "\<And>fs s h. CalcPathSHA256 (e_sdk E) fs s = Inr h \<Longrightarrow> \<exists>d. os_ReadFile fs s = Inr d \<and> h = H d"
    and "write_buf (WriteBufToFile (e_sdk E))"
  shows "let stored = file_at (w_fs w') (resolve (Join [GetReportDir (w_ws w), fid, fragment])) in
    if fragment \<noteq> [] \<and> (case findUnreportedFragment (w_fs w) (w_ws w) fid fragment of Inr _ \<Rightarrow> True | Inl _ \<Rightarrow> False) then w' = w
    else if fragment = ZeroFileHash_8M (e_sdk E) then stored = Some (replicate (FragmentSize (e_sdk E)) (char_of (0 :: nat)))
    else (\<exists>d. form = Inr (d, False) \<and> stored = Some d \<and> length d = FragmentSize (e_sdk E)
            \<and> (fragment \<noteq> [] \<longrightarrow> H d = fragment) \<and> (\<exists>h. w_hist w' = w_hist w @ h \<and> dealt h fid fragment))"
proof (cases "fragment \<noteq> [] \<and> (case findUnreportedFragment (w_fs w) (w_ws w) fid fragment of Inr _ \<Rightarrow> True | Inl _ \<Rightarrow> False)")
  case True
  then show ?thesis using assms(1) by (simp add: putfragment_def)
next
  case new: False
  obtain w1 where m: "on_fs (\<lambda>fs. os_MkdirAll fs (Join [GetTmpDir (w_ws w), fid])) w = (None, w1)"
    using assms(1) new by (auto simp: putfragment_def ERR_SystemErr_def split: prod.splits option.splits)
  then have w1: "w_ws w1 = w_ws w" "w_hist w1 = w_hist w" by (auto simp: on_fs_def split: prod.splits)
  show ?thesis
  proof (cases "fragment = ZeroFileHash_8M (e_sdk E)")
    case True
    then have "put_zero E fid fragment w1 = (RespJson 200 OK, w')"
      using assms(1) new m by (simp add: putfragment_def rets_Ret split: if_splits)
    from put_zero_stored [OF this assms(3)] show ?thesis using True new w1 by (auto simp: Let_def)
  next
    case False
    then obtain p n w2 where sv: "saveFormFile E fuel fid form w1 = Ret (Inr (p, n)) w2"
        and ac: "accept_upload E fid fragment p n w2 = (RespJson 200 OK, w')"
      using assms(1) new m
      by (cases "saveFormFile E fuel fid form w1") (auto simp: putfragment_def rets_Ret dest: sf_code split: sum.splits)
    from saveFormFile_saved [OF sv] obtain d g where d: "form = Inr (d, False)" "n = length d"
      "file_at (w_fs w2) (resolve p) = Some d" "w_ws w2 = w_ws w1" "w_hist w2 = w_hist w @ g"
      using w1(2) by (auto simp: prefix_def)
    from accept_upload_stored [OF ac d(3) assms(2)] obtain h where "w_hist w' = w_hist w2 @ h" "dealt h fid fragment" by blast
    then have "\<exists>h. w_hist w' = w_hist w @ h \<and> dealt h fid fragment" using d(5) by (auto simp: dealt_def intro!: exI [of _ "g @ h"])
    then show ?thesis using accept_upload_stored [OF ac d(3) assms(2)] d w1 False new by auto
  qed
qed

definition deal_env :: env where
  "deal_env = demo_env\<lparr>x_NewUuid := \<lambda>_. Inr ''u'',
     x_QueryDealMap := \<lambda>_ _. Inr \<lparr>so_SegmentList = [\<lparr>ds_FragmentHash = [''abcd'']\<rparr>], so_CompleteList = []\<rparr>\<rparr>"

definition upload_run :: "(world, resp) outcome" where
  "upload_run = putfragment deal_env 1 ''f1'' ''abcd'' (Inr (''abcd'', False)) demo_world"

theorem putfragment_checked_witness:
  "\<exists>w' h. upload_run = Ret (RespJson 200 OK) w' \<and> w_hist w' = w_hist demo_world @ h \<and> dealt h ''f1'' ''abcd''
     \<and> file_at (w_fs w') [''w'', ''report'', ''f1'', ''abcd''] = Some ''abcd''"
proof -
  have "returned upload_run = Some (RespJson 200 OK)" by code_simp
  then obtain w' where r: "upload_run = Ret (RespJson 200 OK) w'" by (blast dest: returned_Some)
  have e: "\<not> (case findUnreportedFragment (w_fs demo_world) (w_ws demo_world) ''f1'' ''abcd'' of Inr _ \<Rightarrow> True | Inl _ \<Rightarrow> False)"
    by code_simp
  have "CalcPathSHA256 (e_sdk deal_env) fs s = Inr h \<Longrightarrow> \<exists>d. os_ReadFile fs s = Inr d \<and> h = id d" for fs s h
    by (simp add: deal_env_def demo_env_def demo_sdk_def)
  moreover have "write_buf (WriteBufToFile (e_sdk deal_env))"
    using os_write.write_buf_axioms by (simp add: deal_env_def demo_env_def demo_sdk_def)
  moreover have "resolve (Join [GetReportDir (w_ws demo_world), ''f1'', ''abcd'']) = [''w'', ''report'', ''f1'', ''abcd'']"
    and "ZeroFileHash_8M (e_sdk deal_env) = ''zz''" by code_simp+
  ultimately show ?thesis
    using putfragment_checked [OF r [unfolded upload_run_def], of id] e r by (auto simp: Let_def)
qed

end
