(* ===== verification/IdleGen.thy ===== *)
theory IdleGen
  imports NodeWorld Utils
begin

text \<open>
  Generating idle files (\<^verbatim>\<open>src/node/idlegen.go\<close>): when a set of idle files is generated, and what is
  thrown away when the disk is full. Space is counted in bytes as \<^verbatim>\<open>uint64\<close>, which wraps. The pauses
  between attempts are not modelled. A panic while the free space is asked is caught by the deferred function, and the
  state is the one then reached.
\<close>

subsection \<open>Operations\<close>

definition removeZipLogs :: "world \<Rightarrow> world" where
  "removeZipLogs w =
     (case DirFiles (w_fs w) (GetLogDir (w_ws w)) 0 of
        Inl e \<Rightarrow> w
      | Inr files \<Rightarrow> w\<lparr>w_fs := fold (\<lambda>v fs. if Contains v ''.gz'' then fst (os_Remove fs v) else fs) files (w_fs w)\<rparr>)"

text \<open>A file of challenge randoms is dropped unless its name is \<^verbatim>\<open>x.n\<close> with \<open>n\<close> at least \<open>removed\<close>.\<close>

definition stale_random :: "int \<Rightarrow> string \<Rightarrow> bool" where
  "stale_random removed v =
     (case Split (Base v) (CHR ''.'') of
        [_, n] \<Rightarrow> (case Atoi n of None \<Rightarrow> True | Some blocknumber \<Rightarrow> blocknumber < removed)
      | _ \<Rightarrow> True)"

definition removeRandoms :: "env \<Rightarrow> world \<Rightarrow> world" where
  "removeRandoms E w =
     (case DirFiles (w_fs w) (GetChallRndomDir (w_ws w)) 0 of
        Inl e \<Rightarrow> w
      | Inr files \<Rightarrow>
          (case cert_GetHeaderLatest E w of
             (Inl e, w1) \<Rightarrow> w1
           | (Inr number, w1) \<Rightarrow>
               (let removed = uint number * 4 div 5
                in w1\<lparr>w_fs := fold (\<lambda>v fs. if stale_random removed v then fst (os_Remove fs v) else fs) files (w_fs w1)\<rparr>)))"

definition GenIdle :: "env \<Rightarrow> world \<Rightarrow> world" where
  "GenIdle E w =
     (if GetCheckPois (w_run w) then w
      else if GetState (w_run w) \<noteq> MINER_STATE_POSITIVE (e_sdk E) then w
      else
        (case GetMinerSpaceInfo (w_run w) of
           (dec, valid, used, lock) \<Rightarrow>
             (if valid + used + lock \<ge> dec then w
              else
                (let configSpace = ReadUseSpace (e_conf E) * SIZE_1GiB (e_sdk E) in
                 if configSpace < minSpace (e_space E) then w
                 else if valid + used + lock > configSpace - minSpace (e_space E) then w
                 else
                   (case disk_Usage E (GetRootDir (w_ws w)) w of (r, w1) \<Rightarrow>
                      (case GetDirFreeSpace r of
                         None \<Rightarrow> w1
                       | Some (_, Some e) \<Rightarrow> w1
                       | Some (dirfreeSpace, None) \<Rightarrow>
                        (if dirfreeSpace < SIZE_1GiB (e_sdk E) then removeRandoms E (removeZipLogs w1)
                         else if dirfreeSpace < minSpace (e_space E) then w1
                         else
                           (case prover_GenerateIdleFileSet E (on_run (SetGeneratingIdle True) w1) of
                              (err, w2) \<Rightarrow> on_run (SetGeneratingIdle False) w2))))))))"

subsection \<open>Within the declared and the configured space\<close>

fun is_generate :: "event \<Rightarrow> bool" where
  "is_generate (ProverEvent (ProverGenerateIdleFileSet_ev r)) = True"
| "is_generate _ = False"

text \<open>
  C33. A set of idle files is generated at most once per call, and only if the miner is in good standing and, as long as
  the byte counts fit in 64 bits, the space it has is below what it declared and leaves the minimal set within what is configured, and the disk
  has room for it. The flag is down afterwards unless it was up already.
\<close>

theorem GenIdle_within_space:
  assumes "GetMinerSpaceInfo (w_run w) = (dec, valid, used, lock)"
    and "unat valid + unat used + unat lock < 2 ^ 64"
    and "unat (ReadUseSpace (e_conf E)) * unat (SIZE_1GiB (e_sdk E)) < 2 ^ 64"
  shows "\<exists>h. w_hist (GenIdle E w) = w_hist w @ h \<and> length (filter is_generate h) \<le> 1
    \<and> (GetGeneratingIdle (w_run (GenIdle E w)) \<longrightarrow> GetGeneratingIdle (w_run w))
    \<and> (list_ex is_generate h \<longrightarrow> GetState (w_run w) = MINER_STATE_POSITIVE (e_sdk E) \<and> \<not> GetCheckPois (w_run w)
        \<and> unat valid + unat used + unat lock < unat dec
        \<and> unat valid + unat used + unat lock + unat (minSpace (e_space E)) \<le> unat (ReadUseSpace (e_conf E)) * unat (SIZE_1GiB (e_sdk E))
        \<and> (\<exists>free. EvDiskUsage (GetRootDir (w_ws w)) (Some free, None) \<in> set h \<and> minSpace (e_space E) \<le> free))"
proof -
  have s: "unat (valid + used + lock) = unat valid + unat used + unat lock"
    using assms(2) by (simp add: unat_word_ariths)
  have c: "unat (ReadUseSpace (e_conf E) * SIZE_1GiB (e_sdk E)) = unat (ReadUseSpace (e_conf E)) * unat (SIZE_1GiB (e_sdk E))"
    using assms(3) by (simp add: unat_word_ariths)
  have rr: "\<exists>h. w_hist (removeRandoms E v) = w_hist v @ h \<and> filter is_generate h = [] \<and> w_run (removeRandoms E v) = w_run v" for v
    by (auto simp: removeRandoms_def cert_GetHeaderLatest_def Let_def frame_simps split: sum.split)
  have rz: "w_hist (removeZipLogs v) = w_hist v \<and> w_run (removeZipLogs v) = w_run v" for v
    by (simp add: removeZipLogs_def split: sum.split)
  let ?q = "EvDiskUsage (GetRootDir (w_ws w)) (x_disk_Usage (e_space E) (w_hist w) (GetRootDir (w_ws w)))"
  obtain h1 where h1: "w_hist (removeRandoms E (removeZipLogs (log_event ?q w))) = w_hist w @ ?q # h1" "filter is_generate h1 = []"
      "w_run (removeRandoms E (removeZipLogs (log_event ?q w))) = w_run w"
    using rr [of "removeZipLogs (log_event ?q w)"] rz [of "log_event ?q w"] by (auto simp: frame_simps)
  let ?w1 = "log_event ?q w"
  define w3 where "w3 = on_run (SetGeneratingIdle False) (snd (prover_GenerateIdleFileSet E (on_run (SetGeneratingIdle True) ?w1)))"
  have hist: "w_hist w3 = w_hist w @ [?q, EvProverGenerateIdleFileSet (x_prover_GenerateIdleFileSet (e_space E) (w_hist ?w1))]"
      and flag: "\<not> GetGeneratingIdle (w_run w3)"
    by (simp_all add: w3_def prover_GenerateIdleFileSet_def SetGeneratingIdle_def GetGeneratingIdle_def Let_def frame_simps)
  have "GenIdle E w = w \<or> GenIdle E w = ?w1 \<or> GenIdle E w = removeRandoms E (removeZipLogs ?w1)
    \<or> (GenIdle E w = w3 \<and> GetState (w_run w) = MINER_STATE_POSITIVE (e_sdk E) \<and> \<not> GetCheckPois (w_run w)
        \<and> valid + used + lock < dec \<and> \<not> ReadUseSpace (e_conf E) * SIZE_1GiB (e_sdk E) < minSpace (e_space E)
        \<and> \<not> valid + used + lock > ReadUseSpace (e_conf E) * SIZE_1GiB (e_sdk E) - minSpace (e_space E)
        \<and> (\<exists>free. x_disk_Usage (e_space E) (w_hist w) (GetRootDir (w_ws w)) = (Some free, None) \<and> minSpace (e_space E) \<le> free))"
    by (auto simp: GenIdle_def assms(1) disk_Usage_def GetDirFreeSpace_def w3_def Let_def not_less not_le
      split: option.split prod.split)
  then consider (skip) "GenIdle E w = w" | (asked) "GenIdle E w = ?w1" | (full) "GenIdle E w = removeRandoms E (removeZipLogs ?w1)"
    | (gen) free where "GenIdle E w = w3" "GetState (w_run w) = MINER_STATE_POSITIVE (e_sdk E)" "\<not> GetCheckPois (w_run w)"
        "valid + used + lock < dec" "\<not> ReadUseSpace (e_conf E) * SIZE_1GiB (e_sdk E) < minSpace (e_space E)"
        "\<not> valid + used + lock > ReadUseSpace (e_conf E) * SIZE_1GiB (e_sdk E) - minSpace (e_space E)"
        "x_disk_Usage (e_space E) (w_hist w) (GetRootDir (w_ws w)) = (Some free, None)" "minSpace (e_space E) \<le> free"
    by blast
  then show ?thesis
  proof cases
    case full
    have "\<not> list_ex is_generate h1" using h1(2) by (auto simp: filter_empty_conv list_ex_iff)
    then show ?thesis using full h1 by (intro exI [of _ "?q # h1"]) (auto simp: list_ex_iff)
  next
    case gen
    have "unat (ReadUseSpace (e_conf E) * SIZE_1GiB (e_sdk E) - minSpace (e_space E))
        = unat (ReadUseSpace (e_conf E)) * unat (SIZE_1GiB (e_sdk E)) - unat (minSpace (e_space E))"
      using gen(5) c by (simp add: unat_sub not_less)
    then have "unat valid + unat used + unat lock < unat dec"
      "unat valid + unat used + unat lock + unat (minSpace (e_space E)) \<le> unat (ReadUseSpace (e_conf E)) * unat (SIZE_1GiB (e_sdk E))"
      using gen(4,5,6) s c by (auto simp: word_less_nat_alt not_less word_le_nat_alt)
    then show ?thesis using gen hist flag by auto
  qed (auto simp: frame_simps)
qed

definition gen_world :: world where
  "gen_world = demo_world\<lparr>w_run := SetSpaceInfo (100, 1, 2, 3) (SetState ''positive'' NewRunstatus)\<rparr>"

definition gen_env :: env where
  "gen_env = demo_env\<lparr>e_conf := SetUseSpace 3 NewConfigFile, e_sdk := demo_sdk\<lparr>SIZE_1GiB := 4\<rparr>,
     e_space := demo_space\<lparr>x_disk_Usage := \<lambda>_ _. (Some 50, None)\<rparr>\<rparr>"

theorem GenIdle_within_space_witness:
  "\<exists>h. w_hist (GenIdle gen_env gen_world) = w_hist gen_world @ h \<and> list_ex is_generate h
     \<and> (\<exists>free. EvDiskUsage (GetRootDir (w_ws gen_world)) (Some free, None) \<in> set h \<and> minSpace (e_space gen_env) \<le> free)"
proof -
  have i: "GetMinerSpaceInfo (w_run gen_world) = (100, 1, 2, 3)" by code_simp
  have b: "unat (1 :: u64) + unat (2 :: u64) + unat (3 :: u64) < 2 ^ 64" by simp
  have "ReadUseSpace (e_conf gen_env) = 3" "SIZE_1GiB (e_sdk gen_env) = 4" by code_simp+
  then have c: "unat (ReadUseSpace (e_conf gen_env)) * unat (SIZE_1GiB (e_sdk gen_env)) < 2 ^ 64" by simp
  have e: "w_hist gen_world = [] \<and> list_ex is_generate (w_hist (GenIdle gen_env gen_world))" by code_simp
  from GenIdle_within_space [OF i b c] e show ?thesis by auto
qed

end
