(* ===== verification/IdleCert.thy ===== *)
theory IdleCert
  imports Runs Configs
begin

text \<open>
  Certifying idle files (\<^verbatim>\<open>src/node/idlecert.go\<close>): the commitments of the prover are challenged and verified by
  a TEE worker, and the new front, rear and accumulator are registered on the chain.

  The prover works in transactions: \<^verbatim>\<open>GetIdleFileSetCommits\<close> opens one, which \<^verbatim>\<open>CommitRollback\<close>,
  \<^verbatim>\<open>AccRollback\<close> or \<^verbatim>\<open>UpdateStatus\<close> ends. Waiting loops take a number of rounds; time-outs of calls and calls made
  only to log are not modelled. The proofs of the prover are given in the form of the messages, with
  their indices at 32 bits; errors that are wrapped keep the message of the wrapped error.
\<close>

subsection \<open>Arrays\<close>

text \<open>Filling a fixed array from a slice: index by index over the slice, or over the array. \<open>None\<close> is an index
  out of range.\<close>

definition fill_array :: "nat \<Rightarrow> bytes \<Rightarrow> bytes option" where
  "fill_array n b = (if length b > n then None else Some (b @ replicate (n - length b) (char_of (0 :: nat))))"

definition cut_array :: "nat \<Rightarrow> bytes \<Rightarrow> bytes option" where
  "cut_array n b = (if length b < n then None else Some (take n b))"

text \<open>Three nodes of a witness chain are copied.\<close>

definition witness3 :: "accWitness \<Rightarrow> accWitness option" where
  "witness3 a =
     Option.bind (aw_Acc a) (\<lambda>b. Option.bind (aw_Acc b) (\<lambda>c.
       Some (AccWitness (aw_Elem a) (aw_Wit a) (Some (AccWitness (aw_Elem b) (aw_Wit b)
         (Some (AccWitness (aw_Elem c) (aw_Wit c) None)))))))"

subsection \<open>Asking the workers\<close>

text \<open>Up to three calls to one worker; only a time-out is tried again.\<close>

fun gen_chall_try :: "env \<Rightarrow> string \<Rightarrow> requestCommitGenChall \<Rightarrow> nat \<Rightarrow> world \<Rightarrow> i64 list list option \<times> world" where
  "gen_chall_try E t req 0 w = (None, w)"
| "gen_chall_try E t req (Suc n) w =
     (case RequestMinerCommitGenChall E t (use_tls t) req w of
        (Inl e, w1) \<Rightarrow> (if Contains (err_msg e) Err_ctx_exceeded then gen_chall_try E t req n w1 else (None, w1))
      | (Inr rows, w1) \<Rightarrow> (Some rows, w1))"

text \<open>The challenge, the worker used and its key; a key that cannot be looked up does not end the loop.\<close>

fun gen_chall_loop ::
  "env \<Rightarrow> requestCommitGenChall \<Rightarrow> string list \<Rightarrow> i64 list list option \<times> string \<times> bytes option \<Rightarrow> world
     \<Rightarrow> (i64 list list option \<times> string \<times> bytes option) \<times> world" where
  "gen_chall_loop E req [] st w = (st, w)"
| "gen_chall_loop E req (t # ts) (chall, ep, puk) w =
     (case gen_chall_try E t req 3 w of
        (None, w1) \<Rightarrow> gen_chall_loop E req ts (None, ep, puk) w1
      | (Some rows, w1) \<Rightarrow>
          (case GetTeePubkeyByEndpoint (e_ord E) (w_tee w1) t of
             Inl e \<Rightarrow> gen_chall_loop E req ts (Some rows, t, None) w1
           | Inr k \<Rightarrow> (if t \<noteq> [] then ((Some rows, t, Some k), w1) else gen_chall_loop E req ts (Some rows, t, Some k) w1)))"

text \<open>Five calls at most; busy workers and time-outs are tried again.\<close>

fun verify_commit_loop ::
  "env \<Rightarrow> string \<Rightarrow> requestVerifyCommit \<Rightarrow> nat \<Rightarrow> goerr option \<Rightarrow> world \<Rightarrow> (goerr option + responseVerifyCommitOrDeletion) \<times> world" where
  "verify_commit_loop E ep req 0 err w = (Inl err, snd (prover_AccRollback E False w))"
| "verify_commit_loop E ep req (Suc n) err w =
     (case RequestVerifyCommitProof E ep (use_tls ep) req w of
        (Inr resp, w1) \<Rightarrow> (Inr resp, w1)
      | (Inl e, w1) \<Rightarrow>
          (if Contains (err_msg e) ''busy'' \<or> Contains (err_msg e) Err_ctx_exceeded
           then verify_commit_loop E ep req n (Some e) w1
           else (Inl (Some e), snd (prover_AccRollback E False w1))))"

subsection \<open>One round\<close>

text \<open>The result of a part of the round: \<open>Inl\<close> is a return of \<^verbatim>\<open>attestationidle\<close> with its error.\<close>

type_synonym 'a part = "(world, goerr option + 'a) outcome"

definition and_part :: "'a part \<Rightarrow> ('a \<Rightarrow> world \<Rightarrow> 'b part) \<Rightarrow> 'b part" where
  "and_part m f = andThen m (\<lambda>r w. case r of Inl e \<Rightarrow> Ret (Inl e) w | Inr a \<Rightarrow> f a w)"

definition roll_acc :: "env \<Rightarrow> goerr option \<Rightarrow> world \<Rightarrow> 'a part" where
  "roll_acc E e w = Ret (Inl e) (snd (prover_AccRollback E False w))"

definition roll_commit :: "env \<Rightarrow> goerr option \<Rightarrow> world \<Rightarrow> 'a part" where
  "roll_commit E e w = Ret (Inl e) (snd (prover_CommitRollback E w))"

text \<open>The value of the record before the chain's is unwrapped: arrays of zeros of their fixed lengths.\<close>

definition zero_array :: "nat \<Rightarrow> bytes" where
  "zero_array n = replicate n (char_of (0 :: nat))"

definition zero_space_info :: "env \<Rightarrow> spaceProofInfo" where
  "zero_space_info E = \<lparr>spi_Miner = zero_array 32, spi_Front = 0, spi_Rear = 0,
     spi_KeyG = zero_array (PoISKeyLen (e_space E)), spi_KeyN = zero_array (PoISKeyLen (e_space E)),
     spi_Accumulator = zero_array (AccumulatorLen (e_sdk E))\<rparr>"

text \<open>Lines 67 to 79: the prover catches up with the chain.\<close>

definition sync_rear :: "env \<Rightarrow> minerItems \<Rightarrow> world \<Rightarrow> goerr option \<times> world" where
  "sync_rear E m w =
     (case mi_SpaceProofInfo m of
        None \<Rightarrow> (None, w)
      | Some s \<Rightarrow>
          (case prover_GetRear E w of
             (rear, w1) \<Rightarrow>
               (if spi_Rear s > rear then prover_SyncChainPoisStatus E (spi_Front s) (spi_Rear s) w1 else (None, w1))))"

text \<open>Lines 87 to 165: the commitments and the challenge for them.\<close>

definition cert_commit :: "env \<Rightarrow> idleCommits \<Rightarrow> world \<Rightarrow> (string \<times> bytes \<times> i64 list list) part" where
  "cert_commit E commits w =
     (if ic_FileIndexs commits = [] then Panic w
      else
        (let req = \<lparr>rcg_MinerId = e_acc E, rcg_Commit = commits, rcg_MinerSign = []\<rparr> in
         case marshal_commit (e_space E) req of
           Inl e \<Rightarrow> roll_commit E (Some e) w
         | Inr buf \<Rightarrow>
             (case Sign E buf w of
                (Inl e, w1) \<Rightarrow> roll_commit E (Some e) w1
              | (Inr sig, w1) \<Rightarrow>
                  (case gen_chall_loop E (req\<lparr>rcg_MinerSign := sig\<rparr>)
                          (GetAllMarkerTeeEndpoint (e_sdk E) (e_ord E) (w_tee w1)) (None, [], None) w1 of
                     ((chall, ep, puk), w2) \<Rightarrow>
                       (case puk of
                          None \<Rightarrow> roll_commit E (Some (mk_err ''no worked tee'')) w2
                        | Some k \<Rightarrow>
                            (if ep = [] then roll_commit E (Some (mk_err ''no worked tee'')) w2
                             else (case chall of None \<Rightarrow> Panic w2 | Some rows \<Rightarrow> Ret (Inr (ep, k, rows)) w2)))))))"

definition set_pois :: "spaceProofInfo \<Rightarrow> bytes \<Rightarrow> world \<Rightarrow> world" where
  "set_pois s sig w = w\<lparr>w_pois := (w_pois w)\<lparr>mpi_Front := spi_Front s, mpi_Rear := spi_Rear s,
     mpi_Acc := spi_Accumulator s, mpi_StatusTeeSign := sig\<rparr>\<rparr>"

text \<open>Lines 169 to 202: the proofs, and the accumulator state they are checked against.\<close>

definition cert_prove ::
  "env \<Rightarrow> minerItems \<Rightarrow> i64 list list \<Rightarrow> world \<Rightarrow> (commitProof list list option \<times> accProof option) part" where
  "cert_prove E m rows w =
     (let s = (case mi_SpaceProofInfo m of None \<Rightarrow> zero_space_info E | Some s \<Rightarrow> s) in
      case prover_ProveCommitAndAcc E rows w of
        (Inl e, w1) \<Rightarrow> roll_acc E (Some e) w1
      | (Inr (commitProofs, accProof), w1) \<Rightarrow>
          (if commitProofs = None \<and> accProof = None
           then roll_acc E (Some (mk_err ''other programs are updating the data of the prover object'')) w1
           else
             (case prover_GetFront E w1 of
                (front, w2) \<Rightarrow>
                  (if spi_Front s = front then Ret (Inr (commitProofs, accProof)) (set_pois s (mi_TeeSig m) w2)
                   else
                     (case QueryMinerItems E w2 of
                        (Inl e, w3) \<Rightarrow> Ret (Inl (Some e)) w3
                      | (Inr m', w3) \<Rightarrow>
                          (case mi_SpaceProofInfo m' of
                             None \<Rightarrow> Ret (Inr (commitProofs, accProof)) w3
                           | Some s' \<Rightarrow> Ret (Inr (commitProofs, accProof)) (set_pois s' (mi_TeeSig m') w3)))))))"

text \<open>Lines 204 to 309: the worker verifies the proofs.\<close>

definition cert_verify ::
  "env \<Rightarrow> string \<Rightarrow> commitProof list list option \<times> accProof option \<Rightarrow> world \<Rightarrow> responseVerifyCommitOrDeletion part" where
  "cert_verify E ep proofs w =
     (case proofs of
        (_, None) \<Rightarrow> Panic w
      | (commitProofs, Some a) \<Rightarrow>
          (case Option.bind (ap_WitChains a) witness3 of
             None \<Rightarrow> Panic w
           | Some wit \<Rightarrow>
               (let req = \<lparr>rvc_CommitProofGroup = (case commitProofs of None \<Rightarrow> [] | Some ps \<Rightarrow> ps),
                     rvc_AccProof = a\<lparr>ap_WitChains := Some wit\<rparr>, rvc_MinerId = e_acc E,
                     rvc_PoisInfo = w_pois w, rvc_MinerSign = []\<rparr> in
                case marshal_verify_commit (e_space E) req of
                  Inl e \<Rightarrow> roll_acc E (Some e) w
                | Inr buf \<Rightarrow>
                    (case Sign E buf w of
                       (Inl e, w1) \<Rightarrow> roll_acc E (Some e) w1
                     | (Inr sig, w1) \<Rightarrow> rets (verify_commit_loop E ep (req\<lparr>rvc_MinerSign := sig\<rparr>) 5 None w1)))))"

text \<open>Lines 314 to 360: the checks on the answer, and the record for the chain. A wrong length returns the nil error
  that was wrapped.\<close>

definition cert_info ::
  "env \<Rightarrow> bytes \<Rightarrow> responseVerifyCommitOrDeletion \<Rightarrow> world
     \<Rightarrow> (spaceProofInfo \<times> bytes \<times> bytes \<times> bytes \<times> poisStatus) part" where
  "cert_info E puk resp w =
     (if length (rcd_StatusTeeSign resp) \<noteq> TeeSigLen (e_sdk E) then roll_acc E None w
      else
        (case cut_array (TeeSigLen (e_sdk E)) (rcd_SignatureWithTeeController resp) of
           None \<Rightarrow> Panic w
         | Some signWithAcc \<Rightarrow>
             (case rcd_PoisStatus resp of
                None \<Rightarrow> Panic w
              | Some ps \<Rightarrow>
                  (if length (ps_Acc ps) \<noteq> AccumulatorLen (e_sdk E) then roll_acc E None w
                   else
                     (case (fill_array (PoISKeyLen (e_space E)) (rsaKey_G (e_space E)),
                            fill_array (PoISKeyLen (e_space E)) (rsaKey_N (e_space E)),
                            cut_array (WorkerPublicKeyLen (e_sdk E)) puk) of
                        (Some g, Some n, Some wpuk) \<Rightarrow>
                          Ret (Inr (\<lparr>spi_Miner = e_acc E, spi_Front = ps_Front ps, spi_Rear = ps_Rear ps,
                              spi_KeyG = g, spi_KeyN = n, spi_Accumulator = ps_Acc ps\<rparr>,
                              signWithAcc, rcd_StatusTeeSign resp, wpuk, ps)) w
                      | _ \<Rightarrow> Panic w)))))"

text \<open>Lines 361 to 378: the transaction, and when it failed, a look whether the chain has moved on.\<close>

definition cert_submit :: "env \<Rightarrow> spaceProofInfo \<Rightarrow> bytes \<Rightarrow> bytes \<Rightarrow> bytes \<Rightarrow> world \<Rightarrow> unit part" where
  "cert_submit E info signWithAcc sign wpuk w =
     (case cert_CertIdleSpace E info signWithAcc sign wpuk w of
        ((txhash, err), w1) \<Rightarrow>
          (if err = None \<and> txhash \<noteq> [] then Ret (Inr ()) w1
           else
             (case QueryMinerItems E w1 of
                (Inl e, w2) \<Rightarrow> roll_acc E (Some e) w2
              | (Inr m, w2) \<Rightarrow>
                  (case mi_SpaceProofInfo m of
                     None \<Rightarrow> Ret (Inr ()) w2
                   | Some s \<Rightarrow>
                       (case prover_GetRear E w2 of
                          (rear, w3) \<Rightarrow>
                            (if sint (spi_Rear s) \<le> sint rear then roll_acc E (Some (mk_err ''AccRollbak'')) w3
                             else Ret (Inr ()) w3))))))"

definition cert_update :: "env \<Rightarrow> responseVerifyCommitOrDeletion \<Rightarrow> poisStatus \<Rightarrow> world \<Rightarrow> unit part" where
  "cert_update E resp ps w =
     (case prover_UpdateStatus E (DEFAULT_ELEMS_NUM (e_space E)) False w of
        (Some e, w1) \<Rightarrow> Ret (Inl (Some e)) w1
      | (None, w1) \<Rightarrow>
          Ret (Inr ()) (w1\<lparr>w_pois := (w_pois w1)\<lparr>mpi_Front := ps_Front ps, mpi_Rear := ps_Rear ps, mpi_Acc := ps_Acc ps,
             mpi_StatusTeeSign := rcd_StatusTeeSign resp\<rparr>\<rparr>))"

text \<open>From the open transaction on.\<close>

definition cert_transaction :: "env \<Rightarrow> minerItems \<Rightarrow> idleCommits \<Rightarrow> world \<Rightarrow> unit part" where
  "cert_transaction E m commits w =
     and_part (cert_commit E commits w) (\<lambda>(ep, puk, rows) w1.
       and_part (cert_prove E m rows w1) (\<lambda>proofs w2.
         and_part (cert_verify E ep proofs w2) (\<lambda>resp w3.
           and_part (cert_info E puk resp w3) (\<lambda>(info, signWithAcc, sign, wpuk, ps) w4.
             and_part (cert_submit E info signWithAcc sign wpuk w4) (\<lambda>_ w5. cert_update E resp ps w5)))))"

definition cert_round :: "env \<Rightarrow> world \<Rightarrow> unit part" where
  "cert_round E w =
     (case QueryMinerItems E w of
        (Inl e, w1) \<Rightarrow> Ret (Inr ()) w1
      | (Inr m, w1) \<Rightarrow>
          (case sync_rear E m w1 of
             (Some e, w2) \<Rightarrow> Ret (Inl (Some e)) w2
           | (None, w2) \<Rightarrow>
               (case prover_GetIdleFileSetCommits E w2 of
                  (Inl e, w3) \<Rightarrow> Ret (Inl (Some e)) w3
                | (Inr commits, w3) \<Rightarrow> cert_transaction E m commits w3)))"

subsection \<open>The worker\<close>

fun wait_commit :: "env \<Rightarrow> nat \<Rightarrow> world \<Rightarrow> (world, unit) outcome" where
  "wait_commit E 0 w = Spin w"
| "wait_commit E (Suc n) w = (case prover_CommitDataIsReady E w of (True, w1) \<Rightarrow> Ret () w1 | (False, w1) \<Rightarrow> wait_commit E n w1)"

fun attestationidle :: "env \<Rightarrow> nat \<Rightarrow> nat \<Rightarrow> world \<Rightarrow> (world, goerr option) outcome" where
  "attestationidle E fuel 0 w = Spin w"
| "attestationidle E fuel (Suc n) w =
     andThen (wait_commit E fuel w) (\<lambda>_ w1.
       andThen (cert_round E (on_run (SetCertifyingIdle True) w1)) (\<lambda>r w2.
         case r of Inl e \<Rightarrow> Ret e w2 | Inr _ \<Rightarrow> attestationidle E fuel n w2))"

definition CertIdle :: "env \<Rightarrow> nat \<Rightarrow> world \<Rightarrow> (world, unit) outcome" where
  "CertIdle E fuel w =
     (if GetState (w_run w) \<noteq> MINER_STATE_POSITIVE (e_sdk E) then Ret () w
      else if GetCheckPois (w_run w) then Ret () w
      else andThen (attestationidle E fuel fuel w) (\<lambda>_ w1. Ret () (on_run (SetCertifyingIdle False) w1)))"

subsection \<open>Judging a part\<close>

text \<open>What holds when a part leaves the function, when it goes on with a value, and when it does neither.\<close>

definition part_sat :: "(world \<Rightarrow> bool) \<Rightarrow> ('a \<Rightarrow> world \<Rightarrow> bool) \<Rightarrow> (world \<Rightarrow> bool) \<Rightarrow> 'a part \<Rightarrow> bool" where
  "part_sat L Q C m \<longleftrightarrow> (case m of
      Ret (Inl e) w \<Rightarrow> L w
    | Ret (Inr a) w \<Rightarrow> Q a w
    | Panic w \<Rightarrow> C w
    | Spin w \<Rightarrow> C w)"

lemma part_sat_simps [simp]:
  "part_sat L Q C (Ret (Inl e) w) = L w" "part_sat L Q C (Ret (Inr a) w) = Q a w"
  "part_sat L Q C (Panic w) = C w" "part_sat L Q C (Spin w) = C w"
  by (simp_all add: part_sat_def)

lemma part_sat_bind:
  "part_sat L Q C m \<Longrightarrow> (\<And>a w. Q a w \<Longrightarrow> part_sat L R C (f a w)) \<Longrightarrow> part_sat L R C (and_part m f)"
proof (cases m)
  case (Ret r w)
  assume "part_sat L Q C m" "\<And>a w. Q a w \<Longrightarrow> part_sat L R C (f a w)"
  then show ?thesis using Ret by (cases r) (simp_all add: and_part_def)
qed (simp_all add: and_part_def)

lemma part_sat_state: "part_sat L Q C m \<Longrightarrow> (\<And>w. L w \<Longrightarrow> P w) \<Longrightarrow> (\<And>a w. Q a w \<Longrightarrow> P w) \<Longrightarrow> (\<And>w. C w \<Longrightarrow> P w) \<Longrightarrow> P (outcome_state m)"
  by (cases m; cases "returned m") (auto simp: part_sat_def split: sum.splits)

subsection \<open>Transactions are ended\<close>

text \<open>Whether the prover is inside a transaction after a call.\<close>

fun in_transaction :: "bool \<Rightarrow> event \<Rightarrow> bool" where
  "in_transaction b (ProverEvent (ProverGetIdleFileSetCommits_ev (Inr c))) = True"
| "in_transaction b (ProverEvent (ProverProveDeletion_ev k r)) = True"
| "in_transaction b (ProverEvent (ProverCommitRollback_ev r)) = False"
| "in_transaction b (ProverEvent (ProverAccRollback_ev d r)) = False"
| "in_transaction b (ProverEvent (ProverUpdateStatus_ev k d r)) = False"
| "in_transaction b _ = b"

definition prover_open :: "event list \<Rightarrow> bool" where
  "prover_open h = foldl in_transaction False h"

abbreviation w_open :: "world \<Rightarrow> bool" where
  "w_open w \<equiv> prover_open (w_hist w)"

lemma prover_open_simps [simp]: "prover_open [] = False" "prover_open (h @ es) = foldl in_transaction (prover_open h) es"
  by (simp_all add: prover_open_def)

text \<open>The last call was a failed query for the miner, in which case the round is left without a rollback.\<close>

definition left_open :: "world \<Rightarrow> bool" where
  "left_open w \<longleftrightarrow> w_hist w \<noteq> [] \<and> (\<exists>e. last (w_hist w) = EvQueryMinerItems (Inl e))"

definition part_ends :: "bool \<Rightarrow> 'a part \<Rightarrow> bool" where
  "part_ends b = part_sat (\<lambda>w. w_open w \<longrightarrow> left_open w) (\<lambda>_ w. w_open w = b) (\<lambda>_. True)"

lemma part_ends_simps [simp]:
  "part_ends b (Ret (Inl e) w) \<longleftrightarrow> (w_open w \<longrightarrow> left_open w)" "part_ends b (Ret (Inr a) w) \<longleftrightarrow> w_open w = b"
  "part_ends b (Panic w)" "part_ends b (Spin w)"
  by (simp_all add: part_ends_def)


lemma roll_ends [simp]: "part_ends b (roll_acc E e w)" "part_ends b (roll_commit E e w)"
  by (simp_all add: roll_acc_def roll_commit_def prover_AccRollback_def prover_CommitRollback_def Let_def frame_simps)

text \<open>What a question for a challenge does not change, the search for a worker does not change.\<close>

locale call_insensitive =
  fixes P :: "event list \<Rightarrow> bool"
  assumes call: "P h \<Longrightarrow> P (h @ [EvMinerCommitGenChall t tls req r])"
begin

lemma gen_try: "P (w_hist w) \<Longrightarrow> P (w_hist (snd (gen_chall_try E t req n w)))"
  by (induction n arbitrary: w)
    (auto simp: RequestMinerCommitGenChall_def cert_MinerCommitGenChall_def Let_def frame_simps call split: option.split sum.split)

lemma gen_loop: "P (w_hist w) \<Longrightarrow> P (w_hist (snd (gen_chall_loop E req ts st w)))"
proof (induction ts arbitrary: st w)
  case (Cons t ts)
  obtain chall ep puk where st: "st = (chall, ep, puk)" by (cases st) auto
  obtain r w1 where t: "gen_chall_try E t req 3 w = (r, w1)" by fastforce
  then have "P (w_hist w1)" using gen_try [of w E t req 3] Cons.prems by simp
  then show ?case using Cons.IH by (simp add: st t split: option.split sum.split)
qed simp

end














text \<open>A node in the positive state whose prover has commitments for two files, at a chain that knows the miner.\<close>

definition cert_miner :: minerItems where
  "cert_miner = \<lparr>mi_State = ''positive'', mi_StakingAccount = [], mi_BeneficiaryAccount = [], mi_DeclarationSpace = 0,
     mi_IdleSpace = 0, mi_ServiceSpace = 0, mi_LockSpace = 0, mi_Collaterals = 0, mi_Endpoint = [],
     mi_SpaceProofInfo = Some \<lparr>spi_Miner = [], spi_Front = 0, spi_Rear = 0, spi_KeyG = [], spi_KeyN = [], spi_Accumulator = []\<rparr>,
     mi_TeeSig = ''st''\<rparr>"

definition cert_space :: spaceEnv where
  "cert_space = demo_space\<lparr>x_prover_GetIdleFileSetCommits := \<lambda>h. Inr \<lparr>ic_FileIndexs = [1, 2], ic_Roots = [''r'']\<rparr>,
     x_cert_MinerCommitGenChall := \<lambda>_ _ _ _. Inr [[3]], 
     x_prover_ProveCommitAndAcc := \<lambda>_ _. Inr (Some [], Some \<lparr>ap_Indexs = [1], ap_Labels = [], ap_WitChains =
       Some (AccWitness [] [] (Some (AccWitness [] [] (Some (AccWitness [] [] None))))), ap_AccPath = []\<rparr>),
     x_cert_VerifyCommitProof := \<lambda>_ _ _ _. Inr \<lparr>rcd_PoisStatus = Some \<lparr>ps_Acc = ''ac'', ps_Front = 0, ps_Rear = 2\<rparr>,
       rcd_StatusTeeSign = ''si'', rcd_SignatureWithTeeController = ''wa''\<rparr>,
     x_cert_CertIdleSpace := \<lambda>_ _ _ _ _. (''tx'', None),
     x_prover_UpdateStatus := \<lambda>_ _ _. Some (mk_err ''full'')\<rparr>"

definition cert_env :: env where
  "cert_env = demo_env\<lparr>e_space := cert_space, x_QueryMinerItems := \<lambda>_. Inr cert_miner, x_Sign := \<lambda>_ _. Inr ''sg''\<rparr>"

definition cert_world :: world where
  "cert_world = (on_run (SetState ''positive'') demo_world)\<lparr>w_tee := \<lparr>priorityTeeEndpoints = [],
     teeList = [(''abcd'', \<lparr>EndPoint = ''y:80'', Type = 2\<rparr>)]\<rparr>\<rparr>"


text \<open>
  When the chain cannot be asked again after the proofs were made, certifying returns with the transaction still open.
\<close>
theorem CertIdle_left_open:
  "let E = cert_env\<lparr>x_QueryMinerItems := \<lambda>h. if length h < 3 then Inr cert_miner else Inl (mk_err ''rpc''),
         e_space := cert_space\<lparr>x_prover_GetFront := \<lambda>_. 1\<rparr>\<rparr>; m = CertIdle E 3 cert_world
   in \<not> w_open cert_world \<and> returned m = Some () \<and> w_open (outcome_state m)"
  by code_simp

subsection \<open>Only verified space is claimed\<close>

text \<open>An answer a worker gave to a commit proof; and what a certificate carries of it.\<close>

definition answered :: "event list \<Rightarrow> responseVerifyCommitOrDeletion \<Rightarrow> bool" where
  "answered h r \<longleftrightarrow> (\<exists>t tls req. EvVerifyCommitProof t tls req (Inr r) \<in> set h)"

definition claim_of :: "env \<Rightarrow> responseVerifyCommitOrDeletion \<Rightarrow> spaceProofInfo \<Rightarrow> bytes \<Rightarrow> bytes \<Rightarrow> bool" where
  "claim_of E r info signWithAcc sign \<longleftrightarrow>
     (case rcd_PoisStatus r of
        None \<Rightarrow> False
      | Some ps \<Rightarrow> spi_Miner info = e_acc E \<and> spi_Front info = ps_Front ps \<and> spi_Rear info = ps_Rear ps
          \<and> spi_Accumulator info = ps_Acc ps \<and> length (ps_Acc ps) = AccumulatorLen (e_sdk E))
     \<and> sign = rcd_StatusTeeSign r \<and> length sign = TeeSigLen (e_sdk E)
     \<and> signWithAcc = take (TeeSigLen (e_sdk E)) (rcd_SignatureWithTeeController r)"

definition backed :: "env \<Rightarrow> event list \<Rightarrow> bool" where
  "backed E h \<longleftrightarrow> (\<forall>i a s k x. EvCertIdleSpace i a s k x \<in> set h \<longrightarrow> (\<exists>r. answered h r \<and> claim_of E r i a s))"

fun is_claim :: "event \<Rightarrow> bool" where
  "is_claim (EvCertIdleSpace i a s k x) = True"
| "is_claim _ = False"

lemma answered_append [simp]: "answered h r \<Longrightarrow> answered (h @ es) r"
  by (auto simp: answered_def)

lemma answered_now [simp]: "answered (h @ [EvVerifyCommitProof t tls req (Inr r)]) r"
  by (auto simp: answered_def)

lemma backed_claim: "backed E h \<Longrightarrow> answered h r \<Longrightarrow> claim_of E r i a s \<Longrightarrow> backed E (h @ [EvCertIdleSpace i a s k x])"
  unfolding backed_def set_append Un_iff by (simp del: split_paired_All split_paired_Ex) (metis answered_append)

lemma backed_append [simp]: "backed E h \<Longrightarrow> list_all (\<lambda>e. \<not> is_claim e) es \<Longrightarrow> backed E (h @ es)"
  unfolding backed_def by (auto simp: list_all_iff) (metis answered_append is_claim.simps(1))+

definition keeps_backed :: "env \<Rightarrow> ('a \<Rightarrow> event list \<Rightarrow> bool) \<Rightarrow> 'a part \<Rightarrow> bool" where
  "keeps_backed E Q = part_sat (\<lambda>w. backed E (w_hist w)) (\<lambda>a w. backed E (w_hist w) \<and> Q a (w_hist w)) (\<lambda>w. backed E (w_hist w))"

lemma keeps_backed_simps [simp]:
  "keeps_backed E Q (Ret (Inl e) w) \<longleftrightarrow> backed E (w_hist w)"
  "keeps_backed E Q (Ret (Inr a) w) \<longleftrightarrow> backed E (w_hist w) \<and> Q a (w_hist w)"
  "keeps_backed E Q (Panic w) \<longleftrightarrow> backed E (w_hist w)" "keeps_backed E Q (Spin w) \<longleftrightarrow> backed E (w_hist w)"
  by (simp_all add: keeps_backed_def)

lemma keeps_backed_bind:
  "keeps_backed E Q m \<Longrightarrow> (\<And>a w. backed E (w_hist w) \<Longrightarrow> Q a (w_hist w) \<Longrightarrow> keeps_backed E R (f a w))
     \<Longrightarrow> keeps_backed E R (and_part m f)"
  unfolding keeps_backed_def by (erule part_sat_bind) blast

lemma roll_backed [simp]:
  "backed E (w_hist w) \<Longrightarrow> keeps_backed E Q (roll_acc E e w)" "backed E (w_hist w) \<Longrightarrow> keeps_backed E Q (roll_commit E e w)"
  by (simp_all add: roll_acc_def roll_commit_def prover_AccRollback_def prover_CommitRollback_def Let_def frame_simps)

interpretation backs: call_insensitive "backed E" for E
  by unfold_locales simp

lemma cert_commit_backed:
  assumes "backed E (w_hist w)"
  shows "keeps_backed E (\<lambda>_ _. True) (cert_commit E commits w)"
proof -
  define req where "req = \<lparr>rcg_MinerId = e_acc E, rcg_Commit = commits, rcg_MinerSign = []\<rparr>"
  have gen: "keeps_backed E (\<lambda>_ _. True) (case gen_chall_loop E r ts st w1 of ((chall, ep, puk), w2) \<Rightarrow>
        (case puk of None \<Rightarrow> roll_commit E (Some e) w2
         | Some k \<Rightarrow> if ep = [] then roll_commit E (Some e) w2
                     else (case chall of None \<Rightarrow> Panic w2 | Some rows \<Rightarrow> Ret (Inr (ep, k, rows)) w2)))"
    if "backed E (w_hist w1)" for r ts st e w1
  proof -
    obtain chall ep puk w2 where g: "gen_chall_loop E r ts st w1 = ((chall, ep, puk), w2)" by (metis prod.collapse)
    then have "backed E (w_hist w2)" using that backs.gen_loop [of E w1 E r ts st] by simp
    then show ?thesis by (simp add: g split: option.split)
  qed
  show ?thesis
  proof (cases "marshal_commit (e_space E) req")
    case (Inr buf)
    have "backed E (w_hist (snd (Sign E buf w)))" using assms by (simp add: Sign_def Let_def frame_simps)
    with gen show ?thesis using Inr assms
      by (cases "Sign E buf w"; cases "fst (Sign E buf w)") (simp_all add: cert_commit_def req_def [symmetric])
  qed (simp add: cert_commit_def req_def [symmetric] assms)
qed

lemma cert_prove_backed: "backed E (w_hist w) \<Longrightarrow> keeps_backed E (\<lambda>_ _. True) (cert_prove E m rows w)"
  by (simp add: cert_prove_def prover_ProveCommitAndAcc_def prover_GetFront_def QueryMinerItems_def set_pois_def
      Let_def frame_simps split: sum.split option.split prod.split)

lemma verify_commit_loop_backed:
  "backed E (w_hist w) \<Longrightarrow> keeps_backed E (\<lambda>r h. answered h r) (rets (verify_commit_loop E ep req n err w))"
proof (induction n arbitrary: err w)
  case 0
  then show ?case by (simp add: rets_def prover_AccRollback_def Let_def frame_simps)
next
  case (Suc n)
  obtain r w1 where v: "RequestVerifyCommitProof E ep (use_tls ep) req w = (r, w1)" by fastforce
  then have "backed E (w_hist w1)" "\<And>x. r = Inr x \<Longrightarrow> answered (w_hist w1) x" using Suc.prems
    by (auto simp: RequestVerifyCommitProof_def cert_VerifyCommitProof_def Let_def frame_simps split: option.splits)
  then show ?case using v Suc.IH
    by (cases r) (simp_all add: rets_def prover_AccRollback_def Let_def frame_simps)
qed

lemma cert_verify_backed:
  assumes "backed E (w_hist w)"
  shows "keeps_backed E (\<lambda>r h. answered h r) (cert_verify E ep proofs w)"
proof -
  have "keeps_backed E (\<lambda>r h. answered h r) (rets (verify_commit_loop E ep r 5 None (log_event (EvSign b x) w)))" for r b x
    by (rule verify_commit_loop_backed) (simp add: assms frame_simps)
  then show ?thesis
    by (simp add: cert_verify_def Sign_def Let_def assms frame_simps split: sum.split option.split prod.split)
qed

lemma cert_info_backed:
  "backed E (w_hist w) \<Longrightarrow> answered (w_hist w) resp \<Longrightarrow>
     keeps_backed E (\<lambda>(info, a, s, k, ps) h. \<exists>r. answered h r \<and> claim_of E r info a s) (cert_info E puk resp w)"
  by (auto simp: cert_info_def claim_of_def cut_array_def split: option.split)

lemma cert_submit_backed:
  assumes "backed E (w_hist w)" and "answered (w_hist w) r" and "claim_of E r info a s"
  shows "keeps_backed E (\<lambda>_ _. True) (cert_submit E info a s k w)"
proof -
  obtain txhash err w1 where c: "cert_CertIdleSpace E info a s k w = ((txhash, err), w1)" by (metis prod.collapse)
  then have "backed E (w_hist w1)"
    using backed_claim [OF assms] by (auto simp: cert_CertIdleSpace_def Let_def frame_simps)
  then show ?thesis
    by (simp add: cert_submit_def c QueryMinerItems_def prover_GetRear_def Let_def frame_simps
        split: sum.split option.split prod.split)
qed

lemma cert_update_backed: "backed E (w_hist w) \<Longrightarrow> keeps_backed E (\<lambda>_ _. True) (cert_update E resp ps w)"
  by (simp add: cert_update_def prover_UpdateStatus_def Let_def frame_simps split: option.split)

lemma cert_transaction_backed:
  "backed E (w_hist w) \<Longrightarrow> keeps_backed E (\<lambda>_ _. True) (cert_transaction E m commits w)"
  unfolding cert_transaction_def
  by (auto intro!: cert_commit_backed [THEN keeps_backed_bind] cert_prove_backed [THEN keeps_backed_bind]
      cert_verify_backed [THEN keeps_backed_bind] cert_info_backed [THEN keeps_backed_bind]
      cert_update_backed dest: cert_submit_backed [THEN keeps_backed_bind] intro: cert_submit_backed [THEN keeps_backed_bind] simp: split_beta)

lemma sync_rear_backed: "backed E (w_hist w) \<Longrightarrow> backed E (w_hist (snd (sync_rear E m w)))"
  by (simp add: sync_rear_def prover_GetRear_def prover_SyncChainPoisStatus_def Let_def frame_simps split: option.split)

lemma cert_round_backed:
  assumes "backed E (w_hist w)"
  shows "backed E (w_hist (outcome_state (cert_round E w)))"
proof (cases "QueryMinerItems E w")
  case (Pair q w1)
  then have v: "backed E (w_hist w1)" using assms by (auto simp: QueryMinerItems_def Let_def frame_simps)
  show ?thesis
  proof (cases q)
    case (Inr m)
    obtain e w2 where s: "sync_rear E m w1 = (e, w2)" by fastforce
    obtain g w3 where g: "prover_GetIdleFileSetCommits E w2 = (g, w3)" by fastforce
    have w2: "backed E (w_hist w2)" using sync_rear_backed [OF v, of m] by (simp add: s)
    then have "backed E (w_hist w3)" using g by (auto simp: prover_GetIdleFileSetCommits_def Let_def frame_simps)
    then have "backed E (w_hist (outcome_state (cert_transaction E m commits w3)))" for commits
      by (rule cert_transaction_backed [unfolded keeps_backed_def, THEN part_sat_state]) auto
    with w2 \<open>backed E (w_hist w3)\<close> show ?thesis
      by (cases e; cases g) (simp_all add: cert_round_def Pair Inr s g)
  qed (use v in \<open>simp add: cert_round_def Pair\<close>)
qed

lemma wait_commit_backed: "backed E (w_hist w) \<Longrightarrow> backed E (w_hist (outcome_state (wait_commit E n w)))"
  by (induction n arbitrary: w) (auto simp: prover_CommitDataIsReady_def Let_def frame_simps split: prod.splits bool.splits)

text \<open>
  C14. Every certificate sent to the chain carries the front, rear, accumulator and signatures of one answer of a worker that
  verified the commit proof, with signature and accumulator of the required lengths, whatever way the run ends.
\<close>
theorem attestationidle_backed:
  assumes "backed E (w_hist w)"
  shows "backed E (w_hist (outcome_state (attestationidle E fuel n w)))"
  using assms
proof (induction n arbitrary: w)
  case (Suc n)
  note w = wait_commit_backed [OF Suc.prems, of fuel]
  show ?case unfolding attestationidle.simps
  proof (rule andThen_state [where R = "\<lambda>_ v. backed E (w_hist v)", OF w], rule andThen_state [where R = "\<lambda>_ v. backed E (w_hist v)"])
    fix a w1 assume "wait_commit E fuel w = Ret a w1"
    with w have w1: "backed E (w_hist (on_run (SetCertifyingIdle True) w1))" by (simp add: frame_simps)
    show "backed E (w_hist (outcome_state (cert_round E (on_run (SetCertifyingIdle True) w1))))"
      by (rule cert_round_backed [OF w1])
    fix r w2 assume "cert_round E (on_run (SetCertifyingIdle True) w1) = Ret r w2"
    with cert_round_backed [OF w1] have "backed E (w_hist w2)" by simp
    then show "backed E (w_hist (outcome_state (case r of Inl e \<Rightarrow> Ret e w2 | Inr _ \<Rightarrow> attestationidle E fuel n w2)))"
      using Suc.IH by (cases r) auto
  qed
qed simp

theorem attestationidle_backed_witness:
  "list_ex is_claim (w_hist (outcome_state (attestationidle cert_env 3 3 cert_world)))
   \<and> backed cert_env (w_hist (outcome_state (attestationidle cert_env 3 3 cert_world)))"
proof -
  have "w_hist cert_world = []" by code_simp
  then have "backed cert_env (w_hist cert_world)" by (simp add: backed_def)
  moreover have "list_ex is_claim (w_hist (outcome_state (attestationidle cert_env 3 3 cert_world)))" by code_simp
  ultimately show ?thesis using attestationidle_backed by blast
qed

end
