(* ===== verification/IdleRepl.thy ===== *)
theory IdleRepl
  imports IdleCert "HOL-Library.Signed_Division"
begin

text \<open>
  Replacing idle files by service files (\<^verbatim>\<open>src/node/idlerepl.go\<close>): the chain tells how much idle space has to go, the
  prover proves the deletion of that many files, a TEE worker verifies it, the chain is told, and only then the files are
  deleted. Every return of \<^verbatim>\<open>ReplaceIdle\<close> is \<open>Inl None\<close>: its errors go to the log only. Time-outs of calls and calls made
  only to log are not modelled.
\<close>

subsection \<open>Operations\<close>

text \<open>Go's \<^verbatim>\<open>%\<close> on \<^verbatim>\<open>int64\<close> truncates towards zero.\<close>

definition go_rem :: "i64 \<Rightarrow> i64 \<Rightarrow> i64" where
  "go_rem a b = word_of_int (sint a smod sint b)"

definition leave :: "world \<Rightarrow> 'a part" where
  "leave w = Ret (Inl None) w"

definition roll_del :: "env \<Rightarrow> world \<Rightarrow> 'a part" where
  "roll_del E w = leave (snd (prover_AccRollback E True w))"

text \<open>Lines 38 to 64: how many files have to go. The front is asked for again when it limits the number.\<close>

definition repl_number :: "env \<Rightarrow> world \<Rightarrow> u64 part" where
  "repl_number E w =
     (let D = DEFAULT_ELEMS_NUM (e_space E) in
      case cert_QueryPendingReplacements E w of
        (Inl e, w1) \<Rightarrow> leave w1
      | (Inr replaceSize, w1) \<Rightarrow>
          (if \<bar>replaceSize\<bar> \<le> 0 then leave w1
           else if \<not> (0 \<le> replaceSize \<and> replaceSize < 2 ^ 64) then leave w1
           else if pois_FileSize (e_space E) = 0 then Panic w1
           else
             (let num = (word_of_int replaceSize :: u64) div 1024 div 1024 div pois_FileSize (e_space E) in
              if num = 0 then leave w1
              else if D = 0 then Panic w1
              else
                (case prover_GetFront E w1 of
                   (front, w2) \<Rightarrow>
                     (if sint num > sint (D - go_rem front D)
                      then (case prover_GetFront E w2 of (front', w3) \<Rightarrow> Ret (Inr (D - go_rem front' D)) w3)
                      else Ret (Inr num) w2)))))"

text \<open>Lines 68 to 85: the deletion proof, with its three parts.\<close>

definition repl_proof :: "env \<Rightarrow> u64 \<Rightarrow> world \<Rightarrow> (bytes list \<times> bytes list \<times> accWitness) part" where
  "repl_proof E num w =
     (case prover_ProveDeletion E num w of
        (Inl e, w1) \<Rightarrow> roll_del E w1
      | (Inr None, w1) \<Rightarrow> roll_del E w1
      | (Inr (Some p), w1) \<Rightarrow>
          (case (dp_Roots p, dp_AccPath p, dp_WitChain p) of
             (Some roots, Some path, Some chain) \<Rightarrow> Ret (Inr (roots, path, chain)) w1
           | _ \<Rightarrow> roll_del E w1))"

text \<open>Lines 87 to 107: the accumulator state the proof is checked against.\<close>

definition repl_sync :: "env \<Rightarrow> world \<Rightarrow> unit part" where
  "repl_sync E w =
     (case QueryMinerItems E w of
        (Inl e, w1) \<Rightarrow> roll_del E w1
      | (Inr m, w1) \<Rightarrow>
          (case mi_SpaceProofInfo m of
             None \<Rightarrow> Ret (Inr ()) w1
           | Some s \<Rightarrow>
               (case prover_GetFront E w1 of
                  (front, w2) \<Rightarrow>
                    (if spi_Front s > front
                     then (case prover_SyncChainPoisStatus E (spi_Front s) (spi_Rear s) w2 of
                             (Some e, w3) \<Rightarrow> roll_del E w3
                           | (None, w3) \<Rightarrow> Ret (Inr ()) (set_pois s (mi_TeeSig m) w3))
                     else Ret (Inr ()) (set_pois s (mi_TeeSig m) w2)))))"

fun verify_del_try ::
  "env \<Rightarrow> string \<Rightarrow> requestVerifyDeletion \<Rightarrow> nat \<Rightarrow> world \<Rightarrow> responseVerifyCommitOrDeletion option \<times> world" where
  "verify_del_try E t req 0 w = (None, w)"
| "verify_del_try E t req (Suc n) w =
     (case RequestVerifyDeletionProof E t (use_tls t) req w of
        (Inl e, w1) \<Rightarrow> (if Contains (err_msg e) Err_ctx_exceeded then verify_del_try E t req n w1 else (None, w1))
      | (Inr r, w1) \<Rightarrow> (Some r, w1))"

fun verify_del_loop ::
  "env \<Rightarrow> requestVerifyDeletion \<Rightarrow> string list \<Rightarrow> responseVerifyCommitOrDeletion option \<times> string \<times> bytes option \<Rightarrow> world
     \<Rightarrow> (responseVerifyCommitOrDeletion option \<times> string \<times> bytes option) \<times> world" where
  "verify_del_loop E req [] st w = (st, w)"
| "verify_del_loop E req (t # ts) (resp, ep, puk) w =
     (case verify_del_try E t req 3 w of
        (None, w1) \<Rightarrow> verify_del_loop E req ts (None, ep, puk) w1
      | (Some r, w1) \<Rightarrow>
          (case GetTeePubkeyByEndpoint (e_ord E) (w_tee w1) t of
             Inl e \<Rightarrow> verify_del_loop E req ts (Some r, t, None) w1
           | Inr k \<Rightarrow> (if t \<noteq> [] then ((Some r, t, Some k), w1) else verify_del_loop E req ts (Some r, t, Some k) w1)))"

text \<open>Lines 109 to 191: a worker verifies the proof.\<close>

definition repl_verify ::
  "env \<Rightarrow> bytes list \<times> bytes list \<times> accWitness \<Rightarrow> world \<Rightarrow> (responseVerifyCommitOrDeletion \<times> bytes) part" where
  "repl_verify E proof' w =
     (case proof' of (roots, path, chain) \<Rightarrow>
       (case witness3 chain of
          None \<Rightarrow> Panic w
        | Some wit \<Rightarrow>
            (let req = \<lparr>rvd_Roots = roots, rvd_WitChain = wit, rvd_AccPath = path, rvd_MinerId = e_acc E,
                  rvd_PoisInfo = w_pois w, rvd_MinerSign = []\<rparr> in
             case marshal_verify_deletion (e_space E) req of
               Inl e \<Rightarrow> roll_del E w
             | Inr buf \<Rightarrow>
                 (case Sign E buf w of
                    (Inl e, w1) \<Rightarrow> roll_del E w1
                  | (Inr sig, w1) \<Rightarrow>
                      (case verify_del_loop E (req\<lparr>rvd_MinerSign := sig\<rparr>)
                              (GetAllMarkerTeeEndpoint (e_sdk E) (e_ord E) (w_tee w1)) (None, [], None) w1 of
                         ((resp, ep, puk), w2) \<Rightarrow>
                           (case puk of
                              None \<Rightarrow> roll_del E w2
                            | Some k \<Rightarrow>
                                (if ep = [] then roll_del E w2
                                 else (case resp of None \<Rightarrow> Panic w2 | Some r \<Rightarrow> Ret (Inr (r, k)) w2))))))))"

text \<open>Lines 193 to 245: the record for the chain and the transaction. A failed transaction is rolled back; an empty hash
  without an error then dereferences the nil error.\<close>

definition repl_info ::
  "env \<Rightarrow> responseVerifyCommitOrDeletion \<Rightarrow> bytes \<Rightarrow> world \<Rightarrow> (spaceProofInfo \<times> bytes \<times> bytes \<times> bytes) part" where
  "repl_info E resp puk w =
     (case rcd_PoisStatus resp of
        None \<Rightarrow> Panic w
      | Some ps \<Rightarrow>
          (if length (rcd_StatusTeeSign resp) \<noteq> TeeSigLen (e_sdk E) then roll_del E w
           else
             (case (fill_array (AccumulatorLen (e_sdk E)) (ps_Acc ps),
                    fill_array (PoISKeyLen (e_space E)) (rsaKey_G (e_space E)),
                    fill_array (PoISKeyLen (e_space E)) (rsaKey_N (e_space E)),
                    cut_array (TeeSigLen (e_sdk E)) (rcd_SignatureWithTeeController resp)) of
                (Some acc, Some g, Some n, Some signWithAcc) \<Rightarrow>
                  (case BytesToWorkPublickey (e_sdk E) puk of
                     (_, Some e) \<Rightarrow> roll_del E w
                   | (wpuk, None) \<Rightarrow>
                       Ret (Inr (\<lparr>spi_Miner = e_acc E, spi_Front = ps_Front ps, spi_Rear = ps_Rear ps,
                           spi_KeyG = g, spi_KeyN = n, spi_Accumulator = acc\<rparr>,
                           signWithAcc, rcd_StatusTeeSign resp, wpuk)) w)
              | _ \<Rightarrow> Panic w)))"

definition repl_submit :: "env \<Rightarrow> spaceProofInfo \<times> bytes \<times> bytes \<times> bytes \<Rightarrow> world \<Rightarrow> unit part" where
  "repl_submit E c w =
     (case c of (info, signWithAcc, sign, wpuk) \<Rightarrow>
       (case cert_ReplaceIdleSpace E info signWithAcc sign wpuk w of
          ((txhash, Some e), w1) \<Rightarrow> roll_del E w1
        | ((txhash, None), w1) \<Rightarrow>
            (if txhash = [] then Panic (snd (prover_AccRollback E True w1)) else Ret (Inr ()) w1)))"

text \<open>Lines 249 to 275: the prover follows, an open challenge is set up again, and the files go.\<close>

definition repl_finish :: "env \<Rightarrow> u64 \<Rightarrow> world \<Rightarrow> unit part" where
  "repl_finish E num w =
     (case prover_UpdateStatus E num True w of
        (_, w1) \<Rightarrow>
          (case QueryChallengeSnapShot E w1 of
             (Inl e, w2) \<Rightarrow>
               (if err_msg e \<noteq> ERR_Empty (e_sdk E) then leave w2 else Ret (Inr ()) (snd (prover_DeleteFiles E w2)))
           | (Inr (ok, c), w2) \<Rightarrow>
               (if ok
                then (case SetChallengeState E (cs_Accumulator c) (cs_Front c) (cs_Rear c) w2 of
                        (Some e, w3) \<Rightarrow> leave w3
                      | (None, w3) \<Rightarrow> Ret (Inr ()) (snd (prover_DeleteFiles E w3)))
                else Ret (Inr ()) (snd (prover_DeleteFiles E w2)))))"

definition ReplaceIdle :: "env \<Rightarrow> world \<Rightarrow> (world, unit) outcome" where
  "ReplaceIdle E w =
     andThen
       (and_part (repl_number E w) (\<lambda>num w1.
         and_part (repl_proof E num w1) (\<lambda>p w2.
           and_part (repl_sync E w2) (\<lambda>_ w3.
             and_part (repl_verify E p w3) (\<lambda>(resp, puk) w4.
               and_part (repl_info E resp puk w4) (\<lambda>c w5.
                 and_part (repl_submit E c w5) (\<lambda>_ w6. repl_finish E num w6)))))))
       (\<lambda>_ w'. Ret () w')"

subsection \<open>The protocol\<close>

text \<open>
  The protocol as an automaton over the calls the node makes. The phases: nothing is under way; a deletion of so many files is
  proved; a worker has verified it; the chain has accepted it; the prover was told to follow, and did so or failed; an open
  challenge has to be set up again; the files may go, have to stay because the challenge could not be read or set up, or were told
  to go, with or without success. The flag of the last phases is whether the prover followed: the code logs its failure and goes
  on. A call that is out of order has no next phase; in particular nothing is rolled back once the chain has accepted.
\<close>

datatype phase = Resting | Proved u64 | Verified u64 | Accepted u64 | Told bool | Reopening bool challengeSnapshot
  | Ready bool | Kept bool | Deleted bool bool

fun undoable :: "phase \<Rightarrow> bool" where
  "undoable Resting = True"
| "undoable (Proved k) = True"
| "undoable (Verified k) = True"
| "undoable _ = False"

text \<open>Where a run may end: nothing done, or accepted by the chain and the files told to go, or kept for the challenge.\<close>

fun concluded :: "phase \<Rightarrow> bool" where
  "concluded Resting = True"
| "concluded (Kept followed) = True"
| "concluded (Deleted followed gone) = True"
| "concluded _ = False"

fun repl_prover :: "phase \<Rightarrow> prover_event \<Rightarrow> phase option" where
  "repl_prover p (ProverProveDeletion_ev k r) =
     (if p \<noteq> Resting then None else case r of Inr (Some d) \<Rightarrow> Some (Proved k) | _ \<Rightarrow> Some Resting)"
| "repl_prover p (ProverAccRollback_ev d r) = (if undoable p \<and> d then Some Resting else None)"
| "repl_prover p (ProverUpdateStatus_ev k d r) = (if p = Accepted k \<and> d then Some (Told (r = None)) else None)"
| "repl_prover p (ProverDeleteFiles_ev r) = (case p of Ready followed \<Rightarrow> Some (Deleted followed (r = None)) | _ \<Rightarrow> None)"
| "repl_prover p (ProverGetIdleFileSetCommits_ev r) = None"
| "repl_prover p (ProverCommitRollback_ev r) = None"
| "repl_prover p (ProverProveCommitAndAcc_ev rows r) = None"
| "repl_prover p _ = Some p"

fun repl_cert :: "phase \<Rightarrow> cert_event \<Rightarrow> phase option" where
  "repl_cert p (VerifyDeletionProof_ev t tls req r) =
     (case p of Proved k \<Rightarrow> Some (case r of Inr d \<Rightarrow> Verified k | Inl e \<Rightarrow> p) | Verified k \<Rightarrow> Some p | _ \<Rightarrow> None)"
| "repl_cert p (ReplaceIdleSpace_ev i a s k r) =
     (case p of Verified n \<Rightarrow> Some (if snd r = None \<and> fst r \<noteq> [] then Accepted n else p) | _ \<Rightarrow> None)"
| "repl_cert p (CertIdleSpace_ev i a s k r) = None"
| "repl_cert p _ = Some p"

text \<open>The challenge is looked for once the prover was told, and set up with what the chain reported.\<close>

fun repl_query :: "sdk \<Rightarrow> phase \<Rightarrow> query_event \<Rightarrow> phase option" where
  "repl_query K p (QueryChallengeSnapShot_ev r) =
     (case p of
        Told followed \<Rightarrow>
          Some (case r of
             Inl e \<Rightarrow> if err_msg e = ERR_Empty K then Ready followed else Kept followed
           | Inr (ok, c) \<Rightarrow> if ok then Reopening followed c else Ready followed)
      | _ \<Rightarrow> None)"
| "repl_query K p _ = Some p"

fun repl_setup :: "phase \<Rightarrow> misc_event \<Rightarrow> phase option" where
  "repl_setup p (SetChallengeState_ev acc front rear r) =
     (case p of
        Reopening followed c \<Rightarrow>
          (if acc = cs_Accumulator c \<and> front = cs_Front c \<and> rear = cs_Rear c
           then Some (if r = None then Ready followed else Kept followed) else None)
      | _ \<Rightarrow> None)"
| "repl_setup p _ = Some p"

definition repl_next :: "sdk \<Rightarrow> phase option \<Rightarrow> event \<Rightarrow> phase option" where
  "repl_next K q e = Option.bind q (\<lambda>p. case e of
     ProverEvent x \<Rightarrow> repl_prover p x | CertEvent x \<Rightarrow> repl_cert p x
   | QueryEvent x \<Rightarrow> repl_query K p x | MiscEvent x \<Rightarrow> repl_setup p x | _ \<Rightarrow> Some p)"

definition repl_phase :: "sdk \<Rightarrow> event list \<Rightarrow> phase option" where
  "repl_phase K es = foldl (repl_next K) (Some Resting) es"

text \<open>The calls since \<open>h\<close> have followed the protocol up to one of the phases \<open>S\<close>.\<close>

definition in_phase :: "sdk \<Rightarrow> event list \<Rightarrow> phase set \<Rightarrow> world \<Rightarrow> bool" where
  "in_phase K h S w \<longleftrightarrow> (\<exists>es p. w_hist w = h @ es \<and> repl_phase K es = Some p \<and> p \<in> S)"

lemma in_phase_start: "in_phase K (w_hist w) {Resting} w"
  by (auto simp: in_phase_def repl_phase_def)

lemma in_phase_event: "in_phase K h S w \<Longrightarrow> (\<And>p. p \<in> S \<Longrightarrow> \<exists>q \<in> T. repl_next K (Some p) e = Some q) \<Longrightarrow> in_phase K h T (log_event e w)"
  unfolding in_phase_def repl_phase_def
  by (auto simp: frame_simps) (metis append.assoc foldl_Cons foldl_Nil foldl_append)

lemma in_phase_mono: "in_phase K h S w \<Longrightarrow> S \<subseteq> T \<Longrightarrow> in_phase K h T w"
  by (auto simp: in_phase_def)

lemma in_phase_pois [simp]: "in_phase K h S (set_pois s sig w) = in_phase K h S w"
  by (simp add: in_phase_def set_pois_def)

text \<open>A part that goes on in the phases \<open>T\<close>: a return from the function is in a concluded phase, and
  a crash does not break the protocol either.\<close>

definition repl_part :: "sdk \<Rightarrow> event list \<Rightarrow> phase set \<Rightarrow> 'a part \<Rightarrow> bool" where
  "repl_part K h T = part_sat (in_phase K h (Collect concluded)) (\<lambda>_. in_phase K h T) (in_phase K h UNIV)"

lemma repl_part_simps [simp]:
  "repl_part K h T (Ret (Inl e) w) = in_phase K h (Collect concluded) w" "repl_part K h T (Ret (Inr a) w) = in_phase K h T w"
  "repl_part K h T (Panic w) = in_phase K h UNIV w" "repl_part K h T (leave w) = in_phase K h (Collect concluded) w"
  by (simp_all add: repl_part_def leave_def)

lemma repl_part_bind:
  "repl_part K h S m \<Longrightarrow> (\<And>a w. in_phase K h S w \<Longrightarrow> repl_part K h T (f a w)) \<Longrightarrow> repl_part K h T (and_part m f)"
  unfolding repl_part_def by (rule part_sat_bind)

lemma rollback_phase: "in_phase K h S w \<Longrightarrow> S \<subseteq> Collect undoable \<Longrightarrow> in_phase K h {Resting} (snd (prover_AccRollback E True w))"
  by (auto simp: prover_AccRollback_def Let_def repl_next_def elim!: in_phase_event)

lemma roll_del_part: "in_phase K h S w \<Longrightarrow> S \<subseteq> Collect undoable \<Longrightarrow> repl_part K h T (roll_del E w)"
  using rollback_phase [of K h S w E] by (auto simp: roll_del_def intro: in_phase_mono [of K h "{Resting}"])

lemma in_phase_calm [simp]:
  "in_phase K h S w \<Longrightarrow> in_phase K h S (log_event (EvProverGetFront r) w)"
  "in_phase K h S w \<Longrightarrow> in_phase K h S (log_event (EvProverSyncChainPoisStatus a b r') w)"
  "in_phase K h S w \<Longrightarrow> in_phase K h S (log_event (EvQueryMinerItems m) w)"
  "in_phase K h S w \<Longrightarrow> in_phase K h S (log_event (EvQueryPendingReplacements n) w)"
  "in_phase K h S w \<Longrightarrow> in_phase K h S (log_event (EvSign buf sig) w)"
  by (auto simp: repl_next_def elim!: in_phase_event)

lemma repl_number_part: "in_phase K h {Resting} w \<Longrightarrow> repl_part K h {Resting} (repl_number E w)"
proof -
  assume "in_phase K h {Resting} w"
  then have "in_phase K h {Resting} (snd (cert_QueryPendingReplacements E w))" by (simp add: cert_QueryPendingReplacements_def Let_def)
  moreover have "in_phase K h (Collect concluded) v" "in_phase K h UNIV v" if "in_phase K h {Resting} v" for v
    using that by (rule in_phase_mono; simp)+
  ultimately show ?thesis
    by (cases "cert_QueryPendingReplacements E w"; cases "fst (cert_QueryPendingReplacements E w)")
      (simp_all add: repl_number_def prover_GetFront_def Let_def)
qed

lemma repl_proof_part:
  assumes "in_phase K h {Resting} w"
  shows "repl_part K h {Proved num} (repl_proof E num w)"
proof -
  let ?r = "x_prover_ProveDeletion (e_space E) (w_hist w) num" let ?v = "log_event (EvProverProveDeletion num ?r) w"
  have c: "prover_ProveDeletion E num w = (?r, ?v)" by (simp add: prover_ProveDeletion_def Let_def)
  have "in_phase K h {Resting, Proved num} ?v"
    by (rule in_phase_event [OF assms]) (auto simp: repl_next_def split: sum.split option.split)
  then have roll: "repl_part K h {Proved num} (roll_del E ?v)" for T :: "phase set" by (rule roll_del_part) simp
  have "in_phase K h {Proved num} ?v" if "?r = Inr (Some p)" for p
    by (rule in_phase_event [OF assms]) (use that in \<open>auto simp: repl_next_def\<close>)
  with roll show ?thesis
    by (cases ?r) (auto simp: repl_proof_def c split: option.split)
qed

lemma repl_sync_part:
  assumes "in_phase K h S w" and "S \<subseteq> Collect undoable"
  shows "repl_part K h S (repl_sync E w)"
proof -
  have roll: "in_phase K h S v \<Longrightarrow> repl_part K h S (roll_del E v)" for v using assms(2) by (rule roll_del_part [rotated])
  show ?thesis
    by (auto simp: repl_sync_def QueryMinerItems_def prover_GetFront_def prover_SyncChainPoisStatus_def Let_def assms(1)
        intro!: roll split: sum.split option.split)
qed

lemma verify_del_try_phase:
  "in_phase K h S w \<Longrightarrow> S \<subseteq> {Proved k, Verified k} \<Longrightarrow> verify_del_try E t req n w = (r, w1) \<Longrightarrow>
     in_phase K h (if r = None then S else {Verified k}) w1"
proof (induction n arbitrary: w)
  case (Suc n)
  obtain q v where c: "RequestVerifyDeletionProof E t (use_tls t) req w = (q, v)" by fastforce
  have "in_phase K h (case q of Inl e \<Rightarrow> S | Inr x \<Rightarrow> {Verified k}) v"
  proof (cases "e_dial E t (use_tls t)")
    case None
    with c have v: "v = log_event (EvVerifyDeletionProof t (use_tls t) req q) w"
      by (auto simp: RequestVerifyDeletionProof_def cert_VerifyDeletionProof_def Let_def)
    show ?thesis unfolding v
      by (rule in_phase_event [OF Suc.prems(1)]) (use Suc.prems(2) in \<open>auto simp: repl_next_def split: sum.split\<close>)
  qed (use c Suc.prems in \<open>auto simp: RequestVerifyDeletionProof_def\<close>)
  then show ?case using Suc.IH [of v] Suc.prems(2,3) by (cases q) (auto simp: c split: if_splits)
qed simp

text \<open>A key in hand means that a worker has verified the deletion.\<close>

primrec search_phase :: "u64 \<Rightarrow> bytes option \<Rightarrow> phase set" where
  "search_phase k None = {Proved k, Verified k}"
| "search_phase k (Some puk) = {Verified k}"

lemma verify_del_loop_phase:
  "in_phase K h (search_phase k (snd (snd st))) w \<Longrightarrow> verify_del_loop E req ts st w = (st', w') \<Longrightarrow>
     in_phase K h (search_phase k (snd (snd st'))) w'"
proof (induction ts arbitrary: st w)
  case (Cons t ts)
  obtain resp ep puk where st: "st = (resp, ep, puk)" by (cases st) auto
  obtain r w1 where t: "verify_del_try E t req 3 w = (r, w1)" by fastforce
  have p: "in_phase K h (if r = None then search_phase k puk else {Verified k}) w1"
    using Cons.prems(1) by (intro verify_del_try_phase [OF _ _ t]) (cases puk; simp add: st)+
  moreover have "in_phase K h {Verified k} w1 \<Longrightarrow> in_phase K h {Proved k, Verified k} w1" by (erule in_phase_mono) simp
  ultimately show ?case
    using Cons.IH [of "(_, _, None)" w1] Cons.IH [of "(_, _, Some _)" w1] Cons.IH [of "(_, _, puk)" w1] Cons.prems(2)
    by (cases r; simp add: st t split: sum.splits if_splits) auto
qed simp

lemma repl_verify_part:
  assumes "in_phase K h S w" and S: "S = {Proved k, Verified k}" and "T = {Verified k}"
  shows "repl_part K h T (repl_verify E p w)"
proof -
  have roll: "in_phase K h S v \<Longrightarrow> repl_part K h T (roll_del E v)" for v using S by (auto intro: roll_del_part)
  have loop: "repl_part K h T (case verify_del_loop E r ts (None, [], None) v of
      ((resp, ep, puk), w2) \<Rightarrow>
        (case puk of None \<Rightarrow> roll_del E w2
         | Some key \<Rightarrow> if ep = [] then roll_del E w2 else (case resp of None \<Rightarrow> Panic w2 | Some r \<Rightarrow> Ret (Inr (r, key)) w2)))"
    if v: "in_phase K h S v" for r ts v
  proof -
    obtain resp ep puk w2 where g: "verify_del_loop E r ts (None, [], None) v = ((resp, ep, puk), w2)" by (metis prod.collapse)
    have "in_phase K h (search_phase k puk) w2" using v verify_del_loop_phase [OF _ g, of K h] by (simp add: assms(2))
    then have "in_phase K h S w2" "puk \<noteq> None \<Longrightarrow> in_phase K h T w2"
      using in_phase_mono [of K h T w2 S] by (cases puk; simp add: assms(2,3))+
    then show ?thesis using roll in_phase_mono [of K h S w2 UNIV] by (auto simp: g split: option.split)
  qed
  obtain roots path chain where pr: "p = (roots, path, chain)" by (cases p) auto
  have u: "in_phase K h UNIV w" using assms(1) in_phase_mono by blast
  have sg: "in_phase K h S (snd (Sign E buf w))" for buf using assms(1) by (simp add: Sign_def Let_def)
  show ?thesis
  proof (cases "witness3 chain")
    case (Some wit)
    define req where "req = \<lparr>rvd_Roots = roots, rvd_WitChain = wit, rvd_AccPath = path, rvd_MinerId = e_acc E,
      rvd_PoisInfo = w_pois w, rvd_MinerSign = []\<rparr>"
    show ?thesis
    proof (cases "marshal_verify_deletion (e_space E) req")
      case (Inr buf)
      show ?thesis using sg [of buf] roll loop
        by (cases "Sign E buf w"; cases "fst (Sign E buf w)")
          (simp_all add: repl_verify_def pr Some Inr req_def [symmetric])
    qed (simp add: repl_verify_def pr Some req_def [symmetric] roll assms(1))
  qed (simp add: repl_verify_def pr u)
qed

lemma repl_info_part:
  assumes "in_phase K h S w" and "S \<subseteq> Collect undoable"
  shows "repl_part K h S (repl_info E resp puk w)"
proof -
  have "in_phase K h UNIV w" using assms by (auto intro: in_phase_mono)
  then show ?thesis by (simp add: repl_info_def assms(1) roll_del_part [OF assms] split: option.split prod.split)
qed

lemma repl_submit_part:
  assumes "in_phase K h {Verified n} w"
  shows "repl_part K h {Accepted n} (repl_submit E c w)"
proof -
  obtain info a sg k where c: "c = (info, a, sg, k)" by (cases c) auto
  let ?r = "x_cert_ReplaceIdleSpace (e_space E) (w_hist w) info a sg k" let ?v = "log_event (EvReplaceIdleSpace info a sg k ?r) w"
  obtain tx err where r: "?r = (tx, err)" by fastforce
  have "in_phase K h (if err = None \<and> tx \<noteq> [] then {Accepted n} else {Verified n}) ?v"
    by (rule in_phase_event [OF assms]) (auto simp: r repl_next_def)
  then have "err = None \<Longrightarrow> tx \<noteq> [] \<Longrightarrow> in_phase K h {Accepted n} ?v" "err \<noteq> None \<or> tx = [] \<Longrightarrow> in_phase K h {Verified n} ?v"
    by (auto split: if_splits)
  then have "err = None \<Longrightarrow> tx \<noteq> [] \<Longrightarrow> in_phase K h {Accepted n} ?v" "err \<noteq> None \<or> tx = [] \<Longrightarrow> repl_part K h {Accepted n} (roll_del E ?v)"
    "err \<noteq> None \<or> tx = [] \<Longrightarrow> in_phase K h UNIV (snd (prover_AccRollback E True ?v))"
    by (auto intro: roll_del_part in_phase_mono [OF rollback_phase])
  then show ?thesis
    by (auto simp: repl_submit_def c cert_ReplaceIdleSpace_def Let_def r split: option.split)
qed

lemma repl_delete_part:
  assumes "in_phase K h {Ready followed} w"
  shows "repl_part K h (Collect concluded) (Ret (Inr ()) (snd (prover_DeleteFiles E w)))"
  by (auto simp: prover_DeleteFiles_def Let_def repl_next_def intro!: in_phase_event [OF assms])

lemma repl_finish_part:
  assumes "in_phase (e_sdk E) h {Accepted num} w"
  shows "repl_part (e_sdk E) h (Collect concluded) (repl_finish E num w)"
proof -
  let ?K = "e_sdk E"
  obtain u w1 where u: "prover_UpdateStatus E num True w = (u, w1)" by fastforce
  have w1: "in_phase ?K h {Told (u = None)} w1"
    using u by (auto simp: prover_UpdateStatus_def Let_def repl_next_def intro!: in_phase_event [OF assms])
  obtain q w2 where q: "QueryChallengeSnapShot E w1 = (q, w2)" by fastforce
  have w2: "in_phase ?K h {case q of Inl e \<Rightarrow> if err_msg e = ERR_Empty ?K then Ready (u = None) else Kept (u = None)
      | Inr (ok, c) \<Rightarrow> if ok then Reopening (u = None) c else Ready (u = None)} w2"
    using q by (auto simp: QueryChallengeSnapShot_def Let_def repl_next_def intro!: in_phase_event [OF w1] split: sum.split)
  have kept: "in_phase ?K h {Kept b} v \<Longrightarrow> repl_part ?K h (Collect concluded) (leave v)" for b v
    by (simp add: in_phase_mono [of ?K h "{Kept b}"])
  have set: "in_phase ?K h {if r = None then Ready b else Kept b} v'"
    if "in_phase ?K h {Reopening b c} v" "SetChallengeState E (cs_Accumulator c) (cs_Front c) (cs_Rear c) v = (r, v')" for b c v r v'
    using that(2) by (auto simp: SetChallengeState_def Let_def repl_next_def intro!: in_phase_event [OF that(1)])
  show ?thesis
  proof (cases q)
    case (Inl e)
    then show ?thesis using w2 by (auto simp: repl_finish_def u q intro: kept repl_delete_part simp del: repl_part_simps split: if_splits)
  next
    case (Inr x)
    obtain ok c where x: "x = (ok, c)" by fastforce
    obtain r w3 where r: "SetChallengeState E (cs_Accumulator c) (cs_Front c) (cs_Rear c) w2 = (r, w3)" by fastforce
    show ?thesis
      using w2 set [OF _ r, of "u = None"]
      by (cases r) (auto simp: repl_finish_def u q Inr x r intro: kept repl_delete_part simp del: repl_part_simps split: if_splits)
  qed
qed

text \<open>
  C13. Whatever the prover, the workers and the chain answer, the calls of a run are made in the order of the protocol: a deletion is
  reported to the chain only after a worker verified it; the prover is told to follow, with the number of files that was
  proved, only after the chain accepted it; the files are deleted only after that, and only once an open challenge was set up
  again with what the chain reported. Nothing is rolled back after the chain has accepted. A run that returns has undone or not begun the
  deletion, or the chain has accepted it, and then the files were told to go, or were kept because the challenge could not be read
  or set up. That the prover failed to follow is only logged: the files are deleted all the same.
\<close>
theorem ReplaceIdle_follows_protocol:
  "\<exists>es p. w_hist (outcome_state (ReplaceIdle E w)) = w_hist w @ es \<and> repl_phase (e_sdk E) es = Some p
     \<and> (returned (ReplaceIdle E w) = None \<or> concluded p)"
proof -
  have "repl_part (e_sdk E) (w_hist w) (Collect concluded) (and_part (repl_number E w) (\<lambda>num w1.
         and_part (repl_proof E num w1) (\<lambda>p w2.
           and_part (repl_sync E w2) (\<lambda>_ w3.
             and_part (repl_verify E p w3) (\<lambda>(resp, puk) w4.
               and_part (repl_info E resp puk w4) (\<lambda>c w5.
                 and_part (repl_submit E c w5) (\<lambda>_ w6. repl_finish E num w6)))))))" (is "repl_part ?K ?h _ ?m")
    by (rule repl_part_bind [OF repl_number_part [OF in_phase_start]], rule repl_part_bind [OF repl_proof_part], assumption,
        rule repl_part_bind [OF repl_sync_part], assumption, simp,
        rule repl_part_bind [OF repl_verify_part [OF in_phase_mono refl refl]], assumption, simp,
        clarsimp, rule repl_part_bind [OF repl_info_part], assumption, simp,
        rule repl_part_bind [OF repl_submit_part], assumption, rule repl_finish_part)
  then have "in_phase ?K ?h (if returned (ReplaceIdle E w) = None then UNIV else Collect concluded) (outcome_state (ReplaceIdle E w))"
    unfolding ReplaceIdle_def
    by (cases ?m; simp add: repl_part_def part_sat_def split: sum.splits)
  then show ?thesis by (auto simp: in_phase_def split: if_splits)
qed

text \<open>A failure of the prover to follow changes nothing but the flag: the files go all the same.\<close>

theorem ReplaceIdle_ignores_status:
  assumes "x_prover_UpdateStatus (e_space E) (w_hist w) num True = Some e"
    and "x_QueryChallengeSnapShot E (w_hist w @ [EvProverUpdateStatus num True (Some e)]) = Inr (False, c)"
  shows "repl_finish E num w = Ret (Inr ()) (snd (prover_DeleteFiles E
      (log_event (EvQueryChallengeSnapShot (Inr (False, c))) (log_event (EvProverUpdateStatus num True (Some e)) w))))"
  using assms by (simp add: repl_finish_def prover_UpdateStatus_def QueryChallengeSnapShot_def Let_def frame_simps)

subsection \<open>How many files\<close>

lemma sint_small: "- (2 ^ 63) \<le> k \<Longrightarrow> k < 2 ^ 63 \<Longrightarrow> sint (word_of_int k :: i64) = k"
  by (simp add: sint_sbintrunc' signed_take_bit_int_eq_self)

lemma go_rem_front:
  assumes "0 < sint D" and "0 \<le> sint front"
  shows "D - go_rem front D = word_of_int (sint D - sint front mod sint D)"
    and "sint (D - go_rem front D) = sint D - sint front mod sint D"
proof -
  have r: "sint front smod sint D = sint front mod sint D"
    using assms by (cases "sint front = 0") (simp_all add: smod_int_alt_def)
  then show eq: "D - go_rem front D = word_of_int (sint D - sint front mod sint D)"
    by (simp add: go_rem_def)
  have "sint D < 2 ^ 63" using sint_lt [of D] by simp
  moreover have "0 \<le> sint front mod sint D" "sint front mod sint D < sint D" using assms(1) by simp_all
  ultimately show "sint (D - go_rem front D) = sint D - sint front mod sint D"
    unfolding eq by (intro sint_small) linarith+
qed

lemma uint_size:
  assumes "0 \<le> size'" and "size' < 2 ^ 64" and "0 < sint fs"
  shows "uint ((word_of_int size' :: u64) div 1024 div 1024 div fs) = size' div (2 ^ 20 * sint fs)"
    and "sint ((word_of_int size' :: u64) div 1024 div 1024 div fs) = size' div (2 ^ 20 * sint fs)"
proof -
  have fs: "uint fs = sint fs" using assms(3) sint_lt [of fs] by (simp add: uint_sint take_bit_int_eq_self)
  have u: "uint ((word_of_int size' :: u64) div 1024 div 1024 div fs) = size' div 1024 div 1024 div sint fs"
    using assms(1,2) by (simp add: uint_div uint_word_of_int fs take_bit_int_eq_self)
  then show e: "uint ((word_of_int size' :: u64) div 1024 div 1024 div fs) = size' div (2 ^ 20 * sint fs)"
    using assms(3) zdiv_zmult2_eq [of 1024 size' 1024] by (simp add: zdiv_zmult2_eq)
  have "size' div (2 ^ 20 * sint fs) \<le> size' div 2 ^ 20" using assms(1,3) by (intro zdiv_mono2) simp_all
  moreover have "size' div 2 ^ 20 < 2 ^ 63" "0 \<le> size' div (2 ^ 20 * sint fs)"
    using assms by (simp_all add: pos_imp_zdiv_nonneg_iff)
  ultimately have "size' div (2 ^ 20 * sint fs) < 2 ^ 63" "- (2 ^ 63) \<le> size' div (2 ^ 20 * sint fs)" by linarith+
  with e show "sint ((word_of_int size' :: u64) div 1024 div 1024 div fs) = size' div (2 ^ 20 * sint fs)"
    by (simp only: sint_uint) (simp add: signed_take_bit_int_eq_self)
qed

text \<open>
  C32. The number of files replaced is the smaller of what the chain asks for, in whole files, and what is left of the current
  group of the prover: never none, never more than one group.
\<close>
theorem repl_number_bound:
  assumes fs: "0 < sint (pois_FileSize (e_space E))" and D: "0 < sint (DEFAULT_ELEMS_NUM (e_space E))"
    and front: "\<forall>h. 0 \<le> sint (x_prover_GetFront (e_space E) h)"
    and stable: "\<forall>h r. x_prover_GetFront (e_space E) (h @ [EvProverGetFront r]) = x_prover_GetFront (e_space E) h"
    and num: "repl_number E w = Ret (Inr num) w'"
  shows "\<exists>asked. fst (cert_QueryPendingReplacements E w) = Inr asked
    \<and> sint num = min (asked div (2 ^ 20 * sint (pois_FileSize (e_space E))))
        (sint (DEFAULT_ELEMS_NUM (e_space E))
           - sint (x_prover_GetFront (e_space E) (w_hist (snd (cert_QueryPendingReplacements E w)))) mod sint (DEFAULT_ELEMS_NUM (e_space E)))
    \<and> 0 < sint num"
proof -
  obtain q w1 where q: "cert_QueryPendingReplacements E w = (q, w1)" by fastforce
  let ?D = "DEFAULT_ELEMS_NUM (e_space E)" and ?f = "pois_FileSize (e_space E)" and ?x = "x_prover_GetFront (e_space E) (w_hist w1)"
  from num obtain asked where a: "q = Inr asked" "0 \<le> asked" "asked < 2 ^ 64"
    by (cases q) (auto simp: repl_number_def q leave_def Let_def split: if_splits)
  let ?n = "(word_of_int asked :: u64) div 1024 div 1024 div ?f"
  from num have n0: "?n \<noteq> 0" using a D fs by (auto simp: repl_number_def q leave_def Let_def split: if_splits)
  have "num = (if sint ?n > sint (?D - go_rem ?x ?D) then ?D - go_rem ?x ?D else ?n)"
    using num a n0 D fs stable
    by (auto simp: repl_number_def q leave_def prover_GetFront_def Let_def frame_simps split: if_splits)
  moreover note go_rem_front(2) [OF D front [rule_format, of "w_hist w1"]] uint_size(2) [OF a(2,3) fs]
  moreover have "0 < sint ?n"
    using uint_size [OF a(2,3) fs] n0 by (metis less_le uint_0_iff uint_ge_0)
  moreover have "0 < sint ?D - sint ?x mod sint ?D" using D by simp
  ultimately show ?thesis using a(1) by (auto simp: q)
qed

definition repl_env :: env where
  "repl_env = demo_env\<lparr>e_space := demo_space\<lparr>x_cert_QueryPendingReplacements := \<lambda>_. Inr 7340032, x_prover_GetFront := \<lambda>_. 5\<rparr>\<rparr>"

theorem repl_number_bound_witness: "\<exists>num w'. repl_number repl_env demo_world = Ret (Inr num) w' \<and> sint num = 3"
proof -
  have fs: "0 < sint (pois_FileSize (e_space repl_env))" and D: "0 < sint (DEFAULT_ELEMS_NUM (e_space repl_env))"
    and x: "\<forall>h. 0 \<le> sint (x_prover_GetFront (e_space repl_env) h)"
    and st: "\<forall>h r. x_prover_GetFront (e_space repl_env) (h @ [EvProverGetFront r]) = x_prover_GetFront (e_space repl_env) h"
    by (simp_all add: repl_env_def demo_env_def demo_space_def)
  have r: "returned (repl_number repl_env demo_world) = Some (Inr 3)" by code_simp
  from repl_number_bound [OF fs D x st returned_Some [OF r]] returned_Some [OF r] show ?thesis by fastforce
qed

end
