(* ===== verification/Console.thy ===== *)
theory Console
  imports Confile Configs
begin

text \<open>
  The configuration that the command line builds (\<^verbatim>\<open>src/cmd/console/start.go\<close>, \<^verbatim>\<open>src/cmd/console/run.go\<close>,
  \<^verbatim>\<open>src/configs/system.go\<close>): from flags, from the terminal, or from a file.

  What is typed is a list of reads, each a line or an error, and a second list for the mnemonic, which is read masked. A prompt
  that is not answered waits (\<open>Spin\<close>). \<open>None\<close> as a result is \<^verbatim>\<open>os.Exit\<close>. The flags are those that
  \<^verbatim>\<open>root.go\<close> declares, so reading one cannot fail.
\<close>

record flags =
  fl_config :: string
  fl_rpcs :: "string list"
  fl_workspace :: string
  fl_earnings :: string
  fl_port :: u16
  fl_space :: u64
  fl_tees :: "string list"
  fl_endpoint :: string
  fl_mnemonic :: string

record console =
  cn_conf :: confile
  cn_fs :: fs
  cn_lines :: "string result list"
  cn_pwds :: "string result list"

subsection \<open>Prompts\<close>

text \<open>\<^verbatim>\<open>strings.ReplaceAll(lines, "\n", "")\<close>\<close>

definition chomp :: "string \<Rightarrow> string" where
  "chomp s = filter (\<lambda>c. c \<noteq> CHR 0x0A) s"

text \<open>A loop that reads a line and tries it until it is taken; an error of the reader is reported and the loop goes on.\<close>

fun prompt :: "(string \<Rightarrow> confile \<times> fs \<Rightarrow> bool \<times> confile \<times> fs) \<Rightarrow> string result list \<Rightarrow> confile \<Rightarrow> fs
    \<Rightarrow> (string result list \<times> confile \<times> fs) option" where
  "prompt step [] c fs = None"
| "prompt step (Inl e # ls) c fs = prompt step ls c fs"
| "prompt step (Inr l # ls) c fs =
     (case step (chomp l) (c, fs) of
        (True, c', fs') \<Rightarrow> Some (ls, c', fs')
      | (False, c', fs') \<Rightarrow> prompt step ls c' fs')"

definition ask :: "(string \<Rightarrow> confile \<times> fs \<Rightarrow> bool \<times> confile \<times> fs) \<Rightarrow> console \<Rightarrow> (console, unit) outcome" where
  "ask step s =
     (case prompt step (cn_lines s) (cn_conf s) (cn_fs s) of
        None \<Rightarrow> Spin s
      | Some (ls, c, fs) \<Rightarrow> Ret () (s\<lparr>cn_lines := ls, cn_conf := c, cn_fs := fs\<rparr>))"

text \<open>The answers of the prompts, one definition for each loop of \<^verbatim>\<open>buildConfigItems\<close>: whether the answer is taken.\<close>

definition words :: "string \<Rightarrow> string list" where
  "words l = filter (\<lambda>t. t \<noteq> []) (Split l (CHR '' ''))"

definition rpc_step :: "string \<Rightarrow> confile \<times> fs \<Rightarrow> bool \<times> confile \<times> fs" where
  "rpc_step l s = (True, SetRpcAddr (if words l = [] then [DefaultRpcAddr] else words l) (fst s), snd s)"

definition workspace_step :: "string \<Rightarrow> confile \<times> fs \<Rightarrow> bool \<times> confile \<times> fs" where
  "workspace_step l s =
     (if l \<noteq> [] \<and> hd l \<noteq> hd DefaultWorkspace then (False, s)
      else (case SetWorkspace (if l = [] then DefaultWorkspace else l) (fst s) (snd s) of
              ((c, err), fs) \<Rightarrow> (err = None, c, fs)))"

definition earnings_step :: "confLib \<Rightarrow> string \<Rightarrow> confile \<times> fs \<Rightarrow> bool \<times> confile \<times> fs" where
  "earnings_step L l s = (case conf_SetEarningsAcc L l (fst s) of (c, err) \<Rightarrow> (err = None, c, snd s))"

text \<open>The number is cut to 16 bits before it is checked.\<close>

definition port_step :: "string \<Rightarrow> confile \<times> fs \<Rightarrow> bool \<times> confile \<times> fs" where
  "port_step l s =
     (case (if l = [] then Some DefaultServicePort else map_option (\<lambda>n. word_of_int n :: u16) (Atoi l)) of
        None \<Rightarrow> (False, s)
      | Some port \<Rightarrow>
          (if port < 1024 then (False, s)
           else (case SetServicePort port (fst s) of (c, err) \<Rightarrow> (err = None, c, snd s))))"

definition space_step :: "string \<Rightarrow> confile \<times> fs \<Rightarrow> bool \<times> confile \<times> fs" where
  "space_step l s =
     (if l = [] then (False, s)
      else (case ParseUint 64 l of
              None \<Rightarrow> (False, s)
            | Some n \<Rightarrow> (True, SetUseSpace (of_nat n) (fst s), snd s)))"

definition tees_step :: "string \<Rightarrow> confile \<times> fs \<Rightarrow> bool \<times> confile \<times> fs" where
  "tees_step l s = (True, SetPriorityTeeList (words l) (fst s), snd s)"

definition endpoint_step :: "string \<Rightarrow> confile \<times> fs \<Rightarrow> bool \<times> confile \<times> fs" where
  "endpoint_step l s = (True, SetEndpoint l (fst s), snd s)"

text \<open>The mnemonic is read masked; an interrupt ends the process.\<close>

fun ask_mnemonic :: "confLib \<Rightarrow> string result list \<Rightarrow> confile \<Rightarrow> (string result list \<times> confile option) option" where
  "ask_mnemonic L [] c = None"
| "ask_mnemonic L (Inl e # ps) c =
     (if err_msg e \<in> {''interrupted'', ''interrupt'', ''killed''} then Some (ps, None) else ask_mnemonic L ps c)"
| "ask_mnemonic L (Inr p # ps) c =
     (if p = [] then ask_mnemonic L ps c
      else (case SetMnemonic L p c of
              (c', None) \<Rightarrow> Some (ps, Some c')
            | (_, Some e) \<Rightarrow> ask_mnemonic L ps c))"

definition masked :: "confLib \<Rightarrow> console \<Rightarrow> (console, goerr option option) outcome" where
  "masked L s =
     (case ask_mnemonic L (cn_pwds s) (cn_conf s) of
        None \<Rightarrow> Spin s
      | Some (ps, None) \<Rightarrow> Ret None (s\<lparr>cn_pwds := ps\<rparr>)
      | Some (ps, Some c) \<Rightarrow> Ret (Some None) (s\<lparr>cn_pwds := ps, cn_conf := c\<rparr>))"

subsection \<open>From flags and the terminal\<close>

definition on_conf :: "(confile \<Rightarrow> confile) \<Rightarrow> console \<Rightarrow> console" where
  "on_conf f s = s\<lparr>cn_conf := f (cn_conf s)\<rparr>"

text \<open>A setting with a flag: the flag when it is given, which must be valid, else the prompt.\<close>

definition item :: "bool \<Rightarrow> (console \<Rightarrow> goerr option \<times> console) \<Rightarrow> (string \<Rightarrow> confile \<times> fs \<Rightarrow> bool \<times> confile \<times> fs) \<Rightarrow> console
    \<Rightarrow> (console, goerr option) outcome" where
  "item given setting step s =
     (if given then (case setting s of (err, s') \<Rightarrow> Ret err s')
      else andThen (ask step s) (\<lambda>_ s'. Ret None s'))"

definition set_checked :: "(confile \<Rightarrow> confile \<times> goerr option) \<Rightarrow> console \<Rightarrow> goerr option \<times> console" where
  "set_checked f s = (case f (cn_conf s) of (c, err) \<Rightarrow> (err, s\<lparr>cn_conf := c\<rparr>))"

definition set_workspace :: "string \<Rightarrow> console \<Rightarrow> goerr option \<times> console" where
  "set_workspace ws s = (case SetWorkspace ws (cn_conf s) (cn_fs s) of ((c, err), fs) \<Rightarrow> (err, s\<lparr>cn_conf := c, cn_fs := fs\<rparr>))"

text \<open>The items of \<^verbatim>\<open>buildConfigItems\<close> before the mnemonic, in its order; an error returns.\<close>

definition rpc_item :: "flags \<Rightarrow> console \<Rightarrow> (console, goerr option) outcome" where
  "rpc_item f = item (fl_rpcs f \<noteq> []) (\<lambda>s. (None, on_conf (SetRpcAddr (fl_rpcs f)) s)) rpc_step"

definition workspace_item :: "flags \<Rightarrow> console \<Rightarrow> (console, goerr option) outcome" where
  "workspace_item f = item (fl_workspace f \<noteq> []) (set_workspace (fl_workspace f)) workspace_step"

definition earnings_item :: "confLib \<Rightarrow> flags \<Rightarrow> console \<Rightarrow> (console, goerr option) outcome" where
  "earnings_item L f = item (fl_earnings f \<noteq> []) (set_checked (conf_SetEarningsAcc L (fl_earnings f))) (earnings_step L)"

definition port_item :: "flags \<Rightarrow> console \<Rightarrow> (console, goerr option) outcome" where
  "port_item f = item (fl_port f \<noteq> 0) (set_checked (SetServicePort (fl_port f))) port_step"

definition space_item :: "flags \<Rightarrow> console \<Rightarrow> (console, goerr option) outcome" where
  "space_item f = item (fl_space f \<noteq> 0) (\<lambda>s. (None, on_conf (SetUseSpace (fl_space f)) s)) space_step"

definition tees_item :: "flags \<Rightarrow> console \<Rightarrow> (console, goerr option) outcome" where
  "tees_item f = item (fl_tees f \<noteq> []) (\<lambda>s. (None, on_conf (SetPriorityTeeList (fl_tees f)) s)) tees_step"

definition endpoint_item :: "flags \<Rightarrow> console \<Rightarrow> (console, goerr option) outcome" where
  "endpoint_item f = item (fl_endpoint f \<noteq> []) (\<lambda>s. (None, on_conf (SetEndpoint (fl_endpoint f)) s)) endpoint_step"

lemmas item_defs = rpc_item_def workspace_item_def earnings_item_def port_item_def space_item_def tees_item_def endpoint_item_def

definition config_items :: "confLib \<Rightarrow> flags \<Rightarrow> (console \<Rightarrow> (console, goerr option) outcome) list" where
  "config_items L f =
     [rpc_item f, workspace_item f, earnings_item L f, port_item f, space_item f, tees_item f, endpoint_item f]"

fun run_items :: "(console \<Rightarrow> (console, goerr option) outcome) list \<Rightarrow> console \<Rightarrow> (console, goerr option) outcome" where
  "run_items [] s = Ret None s"
| "run_items (i # is) s = andThen (i s) (\<lambda>err s'. case err of Some e \<Rightarrow> Ret (Some e) s' | None \<Rightarrow> run_items is s')"

definition mnemonic_item :: "confLib \<Rightarrow> flags \<Rightarrow> console \<Rightarrow> (console, goerr option option) outcome" where
  "mnemonic_item L f s =
     (if fl_mnemonic f = [] then masked L s
      else (case set_checked (SetMnemonic L (fl_mnemonic f)) s of (err, s') \<Rightarrow> Ret (Some err) s'))"

definition buildConfigItems :: "confLib \<Rightarrow> flags \<Rightarrow> console \<Rightarrow> (console, goerr option option) outcome" where
  "buildConfigItems L f s =
     andThen (run_items (config_items L f) (s\<lparr>cn_conf := NewConfigFile\<rparr>)) (\<lambda>err s'. case err of
         Some e \<Rightarrow> Ret (Some (Some e)) s'
       | None \<Rightarrow> mnemonic_item L f s')"

subsection \<open>Starting the commands\<close>

text \<open>\<open>cpus\<close> is \<^verbatim>\<open>runtime.NumCPU\<close>; \<open>sane\<close> says that the system is Linux and the certificates could be read, without which the
  process ends.\<close>

definition SetCpuNumber :: "int \<Rightarrow> u32 \<Rightarrow> int" where
  "SetCpuNumber cpus n = (if n = 0 \<or> uint n \<ge> cpus then cpus else uint n)"

definition SysInit :: "bool \<Rightarrow> int \<Rightarrow> u32 \<Rightarrow> int option" where
  "SysInit sane cpus n = (if sane then Some (SetCpuNumber cpus n) else None)"

text \<open>After a configuration was made: exit on an error, else the processors are set.\<close>

definition finish_config :: "bool \<Rightarrow> int \<Rightarrow> goerr option option \<Rightarrow> console \<Rightarrow> (console, unit option) outcome" where
  "finish_config sane cpus r s =
     (case r of
        Some None \<Rightarrow>
          (case SysInit sane cpus (ReadUseCpu (cn_conf s)) of
             None \<Rightarrow> Ret None s
           | Some n \<Rightarrow> Ret (Some ()) (on_conf (SetCpuCores (word_of_int n)) s))
      | _ \<Rightarrow> Ret None s)"

definition buildConfigs :: "confLib \<Rightarrow> bool \<Rightarrow> int \<Rightarrow> flags \<Rightarrow> console \<Rightarrow> (console, unit option) outcome" where
  "buildConfigs L sane cpus f s = andThen (buildConfigItems L f s) (finish_config sane cpus)"

text \<open>\<^verbatim>\<open>GetString("c")\<close> asks for a flag that is not declared under this name (it is only the shorthand of \<^verbatim>\<open>config\<close>) and gives the
  empty string.\<close>

definition parseArgs_config :: "flags \<Rightarrow> fs \<Rightarrow> string result" where
  "parseArgs_config f fs =
     (let file = (if fl_config f \<noteq> [] then fl_config f else DefaultConfigFile) in
      case os_Stat fs file of Inl e \<Rightarrow> Inl e | Inr st \<Rightarrow> Inr file)"

definition parseConfigFile :: "confLib \<Rightarrow> string \<Rightarrow> console \<Rightarrow> (console, goerr option) outcome" where
  "parseConfigFile L file s =
     (case Parse L file NewConfigFile (cn_fs s) of
        Ret (c, err) fs \<Rightarrow> Ret err (s\<lparr>cn_conf := c, cn_fs := fs\<rparr>)
      | Panic fs \<Rightarrow> Panic (s\<lparr>cn_fs := fs\<rparr>)
      | Spin fs \<Rightarrow> Spin (s\<lparr>cn_fs := fs\<rparr>))"

definition InitConfigFile :: "confLib \<Rightarrow> bool \<Rightarrow> int \<Rightarrow> flags \<Rightarrow> console \<Rightarrow> (console, unit option) outcome" where
  "InitConfigFile L sane cpus f s =
     (case parseArgs_config f (cn_fs s) of
        Inl e \<Rightarrow> Ret None s
      | Inr file \<Rightarrow> andThen (parseConfigFile L file s) (\<lambda>err s'. finish_config sane cpus (Some err) s'))"

text \<open>For the commands that only sign transactions: a file when one is named or the default one is there, else nodes and
  mnemonic from flags and the terminal.\<close>

definition buildAuthenticationConfig :: "confLib \<Rightarrow> flags \<Rightarrow> console \<Rightarrow> (console, goerr option option) outcome" where
  "buildAuthenticationConfig L f s =
     andThen (parseConfigFile L (if fl_config f \<noteq> [] then fl_config f else DefaultConfigFile) s) (\<lambda>err s'.
       if err = None \<or> fl_config f \<noteq> [] then Ret (Some err) s'
       else andThen (rpc_item f s') (\<lambda>_ s''. masked L s''))"

subsection \<open>What has been built\<close>

text \<open>A property of configuration and disk that refused answers keep and the answer taken turns into another.\<close>

lemma prompt_gives:
  assumes "prompt step ls c fs = Some (ls', c', fs')" and "P (c, fs)"
    and refused: "\<And>l st st'. P st \<Longrightarrow> step l st = (False, st') \<Longrightarrow> P st'"
    and taken: "\<And>l st st'. P st \<Longrightarrow> step l st = (True, st') \<Longrightarrow> Q st'"
  shows "Q (c', fs')"
  using assms(1,2)
proof (induction ls arbitrary: c fs)
  case (Cons l ls)
  show ?case
  proof (cases l)
    case (Inr x)
    obtain b c1 fs1 where s: "step (chomp x) (c, fs) = (b, c1, fs1)" by (metis prod_cases3)
    show ?thesis
    proof (cases b)
      case True
      with s have "Q (c1, fs1)" using taken [OF Cons.prems(2)] by simp
      with True s Cons.prems(1) Inr show ?thesis by simp
    next
      case False
      with s have "P (c1, fs1)" using refused [OF Cons.prems(2)] by simp
      with False s Cons.prems(1) Inr show ?thesis using Cons.IH [of c1 fs1] by simp
    qed
  qed (use Cons in simp)
qed simp

text \<open>A setting establishes what its setter and its prompt establish.\<close>

definition establishes :: "(confile \<times> fs \<Rightarrow> bool) \<Rightarrow> (console \<Rightarrow> (console, goerr option) outcome) \<Rightarrow> (confile \<times> fs \<Rightarrow> bool) \<Rightarrow> bool" where
  "establishes P m Q \<longleftrightarrow> (\<forall>s s'. P (cn_conf s, cn_fs s) \<longrightarrow> m s = Ret None s' \<longrightarrow> Q (cn_conf s', cn_fs s'))"

lemma establishes_item:
  assumes "\<And>s s'. given \<Longrightarrow> P (cn_conf s, cn_fs s) \<Longrightarrow> setting s = (None, s') \<Longrightarrow> Q (cn_conf s', cn_fs s')"
    and "\<And>l st st'. P st \<Longrightarrow> step l st = (False, st') \<Longrightarrow> P st'"
    and "\<And>l st st'. P st \<Longrightarrow> step l st = (True, st') \<Longrightarrow> Q st'"
  shows "establishes P (item given setting step) Q"
proof -
  have "Q (cn_conf s', cn_fs s')" if p: "P (cn_conf s, cn_fs s)" and i: "item given setting step s = Ret None s'" for s s'
  proof (cases given)
    case True
    then show ?thesis using p i assms(1) [of s] by (auto simp: item_def split: prod.splits)
  next
    case False
    then obtain ls c f where pr: "prompt step (cn_lines s) (cn_conf s) (cn_fs s) = Some (ls, c, f)"
        and s': "s' = s\<lparr>cn_lines := ls, cn_conf := c, cn_fs := f\<rparr>"
      using i by (auto simp: item_def andThen_eq_Ret ask_def split: option.splits)
    from prompt_gives [OF pr, of P Q] p assms(2,3) show ?thesis by (simp add: s')
  qed
  then show ?thesis by (simp add: establishes_def)
qed

lemma establishes_run:
  "establishes P i R \<Longrightarrow> establishes R (run_items is) Q \<Longrightarrow> establishes P (run_items (i # is)) Q"
  unfolding establishes_def by (auto simp: andThen_eq_Ret split: option.splits)

lemma establishes_end: "(\<And>st. P st \<Longrightarrow> Q st) \<Longrightarrow> establishes P (run_items []) Q"
  by (auto simp: establishes_def)

text \<open>What is in place after so many settings, \<open>ws\<close> being the workspace of the flags; no file changes on the way.\<close>

definition stage :: "confLib \<Rightarrow> string \<Rightarrow> fs \<Rightarrow> nat \<Rightarrow> confile \<times> fs \<Rightarrow> bool" where
  "stage L ws fs0 k st \<longleftrightarrow> (\<forall>q. file_at (snd st) q = file_at fs0 q) \<and> (wf_fs fs0 \<longrightarrow> wf_fs (snd st)) \<and> cf_Stakingacc (fst st) = []
     \<and> (2 \<le> k \<longrightarrow> cf_Workspace (fst st) = ws \<and> ws \<noteq> [] \<or> rooted (cf_Workspace (fst st)))
     \<and> (1 \<le> k \<longrightarrow> cf_Rpcs (fst st) \<noteq> []) \<and> (2 \<le> k \<longrightarrow> is_dir (snd st) (resolve (cf_Workspace (fst st))))
     \<and> (3 \<le> k \<longrightarrow> cl_address L (cf_Earningsacc (fst st)) = None) \<and> (4 \<le> k \<longrightarrow> 1024 \<le> cf_Port (fst st))"

lemma ensure_dir_wf: "ensure_dir fs d = (fs', e) \<Longrightarrow> wf_fs fs \<Longrightarrow> wf_fs fs'"
  by (auto simp: ensure_dir_def split: sum.splits intro: wf_os_MkdirAll)

lemma SetWorkspace_taken:
  "SetWorkspace d c fs = ((c', None), fs') \<Longrightarrow> stage L ws fs0 1 (c, fs) \<Longrightarrow> d = ws \<and> ws \<noteq> [] \<or> rooted d \<Longrightarrow> stage L ws fs0 2 (c', fs')"
  using ensure_dir_ok [of fs d fs'] ensure_dir_keeps [of fs d fs' None] ensure_dir_wf [of fs d fs' None]
  by (auto simp: SetWorkspace_def stage_def split: prod.splits option.splits)

lemma SetWorkspace_refused: "SetWorkspace d c fs = ((c', Some e), fs') \<Longrightarrow> stage L ws fs0 1 (c, fs) \<Longrightarrow> stage L ws fs0 1 (c', fs')"
  using ensure_dir_keeps [of fs d fs' "Some e"] ensure_dir_wf [of fs d fs' "Some e"]
  by (auto simp: SetWorkspace_def stage_def split: prod.splits option.splits)

lemma workspace_answer:
  "workspace_step l (c, fs) = (b, c', fs') \<Longrightarrow> stage L ws fs0 1 (c, fs) \<Longrightarrow> stage L ws fs0 (if b then 2 else 1) (c', fs')"
  by (auto simp: workspace_step_def rooted_def DefaultWorkspace_def dest: SetWorkspace_refused intro: SetWorkspace_taken
    split: prod.splits if_splits)

lemma rpcs_stage: "establishes (stage L ws fs0 0) (item (rs \<noteq> []) (\<lambda>s. (None, on_conf (SetRpcAddr rs) s)) rpc_step) (stage L ws fs0 1)"
  by (rule establishes_item) (auto simp: stage_def on_conf_def SetRpcAddr_def rpc_step_def split: if_splits)

lemma workspace_stage: "establishes (stage L ws fs0 1) (item (ws \<noteq> []) (set_workspace ws) workspace_step) (stage L ws fs0 2)"
proof (rule establishes_item)
  show "stage L ws fs0 1 st'" if "stage L ws fs0 1 st" "workspace_step l st = (False, st')" for l st st'
    using that workspace_answer [of l "fst st" "snd st" False "fst st'" "snd st'"] by simp
  show "stage L ws fs0 2 st'" if "stage L ws fs0 1 st" "workspace_step l st = (True, st')" for l st st'
    using that workspace_answer [of l "fst st" "snd st" True "fst st'" "snd st'"] by simp
qed (auto simp: set_workspace_def intro: SetWorkspace_taken split: prod.splits)

lemma earnings_stage:
  "establishes (stage L ws fs0 2) (item (a \<noteq> []) (set_checked (conf_SetEarningsAcc L a)) (earnings_step L)) (stage L ws fs0 3)"
  by (rule establishes_item) (auto simp: set_checked_def earnings_step_def conf_SetEarningsAcc_def stage_def
    split: prod.splits option.splits)

lemma port_stage: "establishes (stage L ws fs0 3) (item (p \<noteq> 0) (set_checked (SetServicePort p)) port_step) (stage L ws fs0 4)"
  by (rule establishes_item) (auto simp: set_checked_def port_step_def SetServicePort_def stage_def not_less
    split: prod.splits option.splits if_splits)

lemma space_stage: "establishes (stage L ws fs0 4) (item (n \<noteq> 0) (\<lambda>s. (None, on_conf (SetUseSpace n) s)) space_step) (stage L ws fs0 4)"
  by (rule establishes_item) (auto simp: stage_def on_conf_def SetUseSpace_def space_step_def split: option.splits if_splits)

lemma tees_stage: "establishes (stage L ws fs0 4) (item (ts \<noteq> []) (\<lambda>s. (None, on_conf (SetPriorityTeeList ts) s)) tees_step) (stage L ws fs0 4)"
  by (rule establishes_item) (auto simp: stage_def on_conf_def SetPriorityTeeList_def tees_step_def)

lemma endpoint_stage: "establishes (stage L ws fs0 4) (item (e \<noteq> []) (\<lambda>s. (None, on_conf (SetEndpoint e) s)) endpoint_step) (stage L ws fs0 4)"
  by (rule establishes_item) (auto simp: stage_def on_conf_def SetEndpoint_def endpoint_step_def)

lemma config_items_stage:
  "establishes (stage L (fl_workspace f) fs0 0) (run_items (config_items L f)) (stage L (fl_workspace f) fs0 4)"
  unfolding config_items_def item_defs
  by (intro establishes_run [OF rpcs_stage] establishes_run [OF workspace_stage] establishes_run [OF earnings_stage]
    establishes_run [OF port_stage] establishes_run [OF space_stage] establishes_run [OF tees_stage]
    establishes_run [OF endpoint_stage] establishes_end)

lemma ask_mnemonic_key: "ask_mnemonic L ps c = Some (ps', Some c') \<Longrightarrow> \<exists>m k. cl_key L m = Inr k \<and> c' = c\<lparr>cf_Mnemonic := m\<rparr>"
  by (induction L ps c rule: ask_mnemonic.induct)
    (auto simp: SetMnemonic_def split: if_splits prod.splits option.splits sum.splits)

lemma mnemonic_set:
  assumes "mnemonic_item L f s = Ret (Some None) s'"
  shows "\<exists>m k. cl_key L m = Inr k \<and> cn_conf s' = (cn_conf s)\<lparr>cf_Mnemonic := m\<rparr> \<and> cn_fs s' = cn_fs s"
proof (cases "fl_mnemonic f = []")
  case True
  then obtain ps c where "ask_mnemonic L (cn_pwds s) (cn_conf s) = Some (ps, Some c)" "s' = s\<lparr>cn_pwds := ps, cn_conf := c\<rparr>"
    using assms by (auto simp: mnemonic_item_def masked_def split: option.splits)
  then show ?thesis using ask_mnemonic_key [of L "cn_pwds s" "cn_conf s" ps c] by auto
next
  case False
  then show ?thesis using assms by (auto simp: mnemonic_item_def set_checked_def SetMnemonic_def split: sum.splits)
qed

lemma buildConfigItems_built:
  assumes "buildConfigItems L f s = Ret (Some None) s'"
  shows "stage L (fl_workspace f) (cn_fs s) 4 (cn_conf s', cn_fs s') \<and> (\<exists>k. cl_key L (cf_Mnemonic (cn_conf s')) = Inr k)"
proof -
  obtain s1 where run: "run_items (config_items L f) (s\<lparr>cn_conf := NewConfigFile\<rparr>) = Ret None s1"
    and m: "mnemonic_item L f s1 = Ret (Some None) s'"
    using assms by (auto simp: buildConfigItems_def andThen_eq_Ret split: option.splits)
  have "stage L (fl_workspace f) (cn_fs s) 0 (NewConfigFile, cn_fs s)" by (simp add: stage_def NewConfigFile_def)
  then have "stage L (fl_workspace f) (cn_fs s) 4 (cn_conf s1, cn_fs s1)"
    using config_items_stage [of L f "cn_fs s"] run by (force simp: establishes_def)
  with mnemonic_set [OF m] show ?thesis by (auto simp: stage_def)
qed

text \<open>
  C36. A configuration that \<^verbatim>\<open>start\<close> builds from flags and answers passes the checks that \<^verbatim>\<open>Parse\<close> makes of a file, but for the
  endpoint, which may stay empty: a node of the chain, a mnemonic with a key, an unreserved port, a valid earnings account and
  a workspace that is a directory are in place, however often an answer was refused; no file on the disk is touched. The earnings
  account cannot be skipped, although the prompt (\<^verbatim>\<open>start.go:160\<close>) and the README say so.
\<close>
theorem buildConfigItems_valid:
  assumes "buildConfigItems L f s = Ret (Some None) s'"
  shows "(conf_valid L (cn_conf s', cn_fs s') \<longleftrightarrow> cf_ApiEndpoint (cn_conf s') \<noteq> [])
    \<and> cf_Rpcs (cn_conf s') \<noteq> [] \<and> (\<exists>k. cl_key L (cf_Mnemonic (cn_conf s')) = Inr k) \<and> 1024 \<le> cf_Port (cn_conf s')
    \<and> cl_address L (cf_Earningsacc (cn_conf s')) = None \<and> is_dir (cn_fs s') (resolve (cf_Workspace (cn_conf s')))
    \<and> file_at (cn_fs s') q = file_at (cn_fs s) q"
  using buildConfigItems_built [OF assms] by (auto simp: stage_def conf_valid_def conf_checks_None)

definition demo_flags :: flags where
  "demo_flags = \<lparr>fl_config = [], fl_rpcs = [], fl_workspace = [], fl_earnings = [], fl_port = 0, fl_space = 4, fl_tees = [],
     fl_endpoint = [], fl_mnemonic = []\<rparr>"

text \<open>Answers with an error of the terminal, a relative workspace, an invalid account, a reserved port and an empty mnemonic.\<close>

definition demo_console :: console where
  "demo_console = \<lparr>cn_conf = NewConfigFile, cn_fs = conf_fs,
     cn_lines = [Inl (mk_err ''e''), Inr ''r s'', Inr ''ws'', Inr ''/ws'', Inr [], Inr ''a'', Inr ''80'', Inr ''4001'', Inr [], Inr ''e''],
     cn_pwds = [Inr [], Inr ''m'']\<rparr>"

theorem buildConfigItems_valid_witness:
  "returned (buildConfigItems demo_read demo_flags demo_console) = Some (Some None)
     \<and> (let s = outcome_state (buildConfigItems demo_read demo_flags demo_console)
        in conf_valid demo_read (cn_conf s, cn_fs s) \<and> cf_Rpcs (cn_conf s) = [''r'', ''s''] \<and> 1024 \<le> cf_Port (cn_conf s)
          \<and> cf_Workspace (cn_conf s) = ''/ws'' \<and> file_at (cn_fs s) [''c.yaml''] = Some ''x'')"
proof -
  have r: "returned (buildConfigItems demo_read demo_flags demo_console) = Some (Some None)" by code_simp
  have c: "cf_ApiEndpoint (cn_conf (outcome_state (buildConfigItems demo_read demo_flags demo_console))) = ''e''"
    "cf_Rpcs (cn_conf (outcome_state (buildConfigItems demo_read demo_flags demo_console))) = [''r'', ''s'']"
    "cf_Workspace (cn_conf (outcome_state (buildConfigItems demo_read demo_flags demo_console))) = ''/ws''"
    "file_at (cn_fs demo_console) [''c.yaml''] = Some ''x''"
    by code_simp+
  from buildConfigItems_valid [OF returned_Some [OF r], of "[''c.yaml'']"] r c show ?thesis by (simp add: Let_def)
qed

text \<open>The prompt for the earnings account offers to skip it with Enter. The empty answer is checked as an address like any other,
  and refused when it is not one; the question is then asked again.\<close>

theorem earnings_not_skipped: "cl_address L [] = Some e \<Longrightarrow> earnings_step L [] (c, fs) = (False, c, fs)"
  by (simp add: earnings_step_def conf_SetEarningsAcc_def)

text \<open>The port typed at the prompt is cut to 16 bits before it is compared: 66560, which is beyond the range the prompt asks
  for, is taken as port 1024.\<close>

theorem port_answer_wraps:
  "port_step ''66560'' (NewConfigFile, conf_fs) = (True, NewConfigFile\<lparr>cf_Port := 1024\<rparr>, conf_fs)"
proof -
  have "Atoi ''66560'' = Some 66560"
    by (simp add: Atoi_def ParseInt_def SetString10_def parse_nat_def is_digit_def digit_val_def)
  then show ?thesis by (simp add: port_step_def SetServicePort_def)
qed

subsection \<open>Signing transactions\<close>

lemma Parse_checked: "Parse L fpath c fs = Ret (c1, None) fs1 \<Longrightarrow> conf_checks L c1 = None"
  by (auto simp: Parse_def split: sum.splits if_splits prod.splits option.splits)

text \<open>What signing needs: a node and a mnemonic with a key.\<close>

definition can_sign :: "confLib \<Rightarrow> confile \<Rightarrow> bool" where
  "can_sign L c \<longleftrightarrow> cf_Rpcs c \<noteq> [] \<and> (\<exists>k. cl_key L (cf_Mnemonic c) = Inr k)"

lemma buildConfigItems_signs: "buildConfigItems L f s = Ret (Some None) s' \<Longrightarrow> can_sign L (cn_conf s')"
  using buildConfigItems_built [of L f s s'] by (auto simp: can_sign_def stage_def)

lemma parseConfigFile_signs: "parseConfigFile L file s = Ret None s' \<Longrightarrow> can_sign L (cn_conf s')"
  by (auto simp: parseConfigFile_def can_sign_def conf_checks_None split: outcome.splits dest!: Parse_checked)

lemma masked_signs:
  "masked L s = Ret (Some None) s' \<Longrightarrow> cf_Rpcs (cn_conf s) \<noteq> [] \<Longrightarrow> can_sign L (cn_conf s')"
  by (auto simp: masked_def can_sign_def split: option.splits dest!: ask_mnemonic_key)

lemma buildAuthenticationConfig_signs:
  assumes "buildAuthenticationConfig L f s = Ret (Some None) s'"
  shows "can_sign L (cn_conf s')"
proof -
  obtain err s1 where p: "parseConfigFile L (if fl_config f \<noteq> [] then fl_config f else DefaultConfigFile) s = Ret err s1"
    using assms by (auto simp: buildAuthenticationConfig_def andThen_eq_Ret)
  show ?thesis
  proof (cases "err = None \<or> fl_config f \<noteq> []")
    case True
    then have e: "err = None" "s' = s1" using assms p by (auto simp: buildAuthenticationConfig_def)
    from parseConfigFile_signs [OF p [unfolded e(1)]] show ?thesis by (simp add: e(2))
  next
    case False
    then obtain r s2 where i: "item (fl_rpcs f \<noteq> []) (\<lambda>s. (None, on_conf (SetRpcAddr (fl_rpcs f)) s)) rpc_step s1 = Ret r s2"
        and m: "masked L s2 = Ret (Some None) s'"
      using assms p by (auto simp: buildAuthenticationConfig_def rpc_item_def andThen_eq_Ret)
    have "establishes (\<lambda>_. True) (item (fl_rpcs f \<noteq> []) (\<lambda>s. (None, on_conf (SetRpcAddr (fl_rpcs f)) s)) rpc_step)
        (\<lambda>st. cf_Rpcs (fst st) \<noteq> [])"
      by (rule establishes_item) (auto simp: on_conf_def SetRpcAddr_def rpc_step_def split: if_splits)
    moreover have "r = None" using i by (auto simp: item_def andThen_eq_Ret split: if_splits)
    ultimately show ?thesis using masked_signs [OF m] i by (fastforce simp: establishes_def)
  qed
qed

text \<open>The process is only ended by an interrupt at the mnemonic.\<close>

definition interrupts :: "console \<Rightarrow> bool" where
  "interrupts s \<longleftrightarrow> (\<exists>e. Inl e \<in> set (cn_pwds s) \<and> err_msg e \<in> {''interrupted'', ''interrupt'', ''killed''})"

lemma ask_mnemonic_interrupt:
  "ask_mnemonic L ps c = Some (ps', None) \<Longrightarrow> \<exists>e. Inl e \<in> set ps \<and> err_msg e \<in> {''interrupted'', ''interrupt'', ''killed''}"
  by (induction L ps c rule: ask_mnemonic.induct) (auto split: if_splits prod.splits option.splits)

lemma masked_interrupt: "masked L s = Ret None s' \<Longrightarrow> interrupts s"
  using ask_mnemonic_interrupt [of L "cn_pwds s" "cn_conf s"] by (auto simp: masked_def interrupts_def split: option.splits)

lemma item_pwds:
  assumes "item given setting step s = Ret r s'" and "\<And>s. cn_pwds (snd (setting s)) = cn_pwds s"
  shows "cn_pwds s' = cn_pwds s"
  using assms(1) assms(2) [of s] by (auto simp: item_def ask_def andThen_eq_Ret split: if_splits prod.splits option.splits)

lemma setting_pwds [simp]:
  "cn_pwds (on_conf g s) = cn_pwds s" "cn_pwds (snd (set_checked h s)) = cn_pwds s" "cn_pwds (snd (set_workspace ws s)) = cn_pwds s"
  by (simp_all add: on_conf_def set_checked_def set_workspace_def split: prod.split)

lemma run_items_pwds:
  "run_items is s = Ret r s' \<Longrightarrow> list_all (\<lambda>i. \<forall>s r s'. i s = Ret r s' \<longrightarrow> cn_pwds s' = cn_pwds s) is \<Longrightarrow> cn_pwds s' = cn_pwds s"
  by (induction "is" s arbitrary: r s' rule: run_items.induct) (fastforce simp: andThen_eq_Ret split: option.splits)+

lemma config_items_pwds: "run_items (config_items L f) s = Ret r s' \<Longrightarrow> cn_pwds s' = cn_pwds s"
  by (erule run_items_pwds) (auto simp: config_items_def item_defs dest!: item_pwds)

lemma buildConfigItems_interrupt: "buildConfigItems L f s = Ret None s' \<Longrightarrow> interrupts s"
  by (auto simp: buildConfigItems_def mnemonic_item_def andThen_eq_Ret interrupts_def split: option.splits if_splits prod.splits
    dest!: masked_interrupt config_items_pwds)

lemma buildAuthenticationConfig_interrupt: "buildAuthenticationConfig L f s = Ret None s' \<Longrightarrow> interrupts s"
  by (auto simp: buildAuthenticationConfig_def andThen_eq_Ret interrupts_def parseConfigFile_def rpc_item_def
    split: option.splits if_splits prod.splits outcome.splits dest!: masked_interrupt item_pwds)

subsection \<open>A configuration to start with\<close>

text \<open>What both ways to a configuration leave: it is sound but for the endpoint, and the disk has got directories only.\<close>

definition configured :: "confLib \<Rightarrow> console \<Rightarrow> console \<Rightarrow> bool" where
  "configured L s s' \<longleftrightarrow> can_sign L (cn_conf s') \<and> 1024 \<le> cf_Port (cn_conf s') \<and> cl_address L (cf_Earningsacc (cn_conf s')) = None
     \<and> is_dir (cn_fs s') (resolve (cf_Workspace (cn_conf s')))
     \<and> (\<forall>q. file_at (cn_fs s') q = file_at (cn_fs s) q) \<and> (wf_fs (cn_fs s) \<longrightarrow> wf_fs (cn_fs s'))"

lemma configured_cores [simp]: "configured L s (on_conf (SetCpuCores n) s') = configured L s s'"
  by (simp add: configured_def on_conf_def SetCpuCores_def can_sign_def)

lemma finish_config_Some:
  "finish_config sane cpus r s = Ret (Some ()) s' \<Longrightarrow> r = Some None \<and> (\<exists>n. s' = on_conf (SetCpuCores n) s)"
  by (auto simp: finish_config_def split: option.splits)

lemma buildConfigs_configured: "buildConfigs L sane cpus f s = Ret (Some ()) s' \<Longrightarrow> configured L s s'"
  by (auto simp: buildConfigs_def andThen_eq_Ret configured_def stage_def can_sign_def on_conf_def SetCpuCores_def
    dest!: finish_config_Some buildConfigItems_built)

lemma InitConfigFile_configured:
  assumes "InitConfigFile L sane cpus f s = Ret (Some ()) s'"
  shows "configured L s s'"
proof -
  obtain fp s1 n where p: "parseConfigFile L fp s = Ret None s1" and s': "s' = on_conf (SetCpuCores n) s1"
    using assms by (auto simp: InitConfigFile_def andThen_eq_Ret split: sum.splits dest!: finish_config_Some)
  obtain c1 fs1 where c: "Parse L fp NewConfigFile (cn_fs s) = Ret (c1, None) fs1" and s1: "s1 = s\<lparr>cn_conf := c1, cn_fs := fs1\<rparr>"
    using p by (auto simp: parseConfigFile_def split: outcome.splits)
  have d: "ensure_dir (cn_fs s) (cf_Workspace c1) = (fs1, None)"
    using c by (auto simp: Parse_def split: sum.splits if_splits prod.splits option.splits)
  have "configured L s s1" using Parse_checked [OF c] ensure_dir_ok [OF d] ensure_dir_keeps [OF d] ensure_dir_wf [OF d]
    by (auto simp: configured_def can_sign_def conf_checks_None s1)
  then show ?thesis by (simp add: s')
qed

end
