(* ===== verification/Commands.thy ===== *)
theory Commands
  imports Console NodeTypes "HOL-Library.Log_Nat"
begin

text \<open>
  The commands that send one transaction or print what the chain knows (\<^verbatim>\<open>src/cmd/console\<close>: \<^verbatim>\<open>exit.go\<close>,
  \<^verbatim>\<open>withdraw.go\<close>, \<^verbatim>\<open>claim.go\<close>, \<^verbatim>\<open>increase.go\<close>, \<^verbatim>\<open>update.go\<close>, \<^verbatim>\<open>stat.go\<close>, \<^verbatim>\<open>reward.go\<close>).

  A command is a function from what was typed to the exit status. The chain client of the SDK is the record \<open>chainClient\<close>; what
  was sent, with the block hash and error that came back, is kept in \<open>sh_sent\<close>, the table that is printed in \<open>sh_rows\<close>.
  Messages are not modelled.
\<close>

datatype transaction =
    IncreaseCollateralTx bytes string
  | IncreaseDeclarationSpaceTx u32
  | MinerExitPrepTx
  | MinerWithdrawTx
  | ReceiveRewardTx
  | UpdateBeneficiaryTx string
  | UpdateSminerEndpointTx bytes

text \<open>The fields of the chain's entry that \<^verbatim>\<open>stat\<close> prints; 128-bit numbers are natural numbers.\<close>

record minerStat =
  ms_Endpoint :: string
  ms_State :: string
  ms_Collaterals :: nat
  ms_Debt :: nat
  ms_DeclarationSpace :: nat
  ms_IdleSpace :: nat
  ms_ServiceSpace :: nat
  ms_LockSpace :: nat
  ms_Beneficiary :: bytes

text \<open>\<open>cc_New\<close> is \<^verbatim>\<open>cess.New\<close> with nodes and mnemonic, \<open>cc_Names\<close> is \<^verbatim>\<open>InitExtrinsicsNameForMiner\<close>; \<open>cc_Pubkey\<close> and
  \<open>cc_Account\<close> are the key and the account of the mnemonic; the rest are the chain's constants and queries.\<close>

record chainClient =
  cc_conf :: confLib
  cc_New :: "string list \<Rightarrow> string \<Rightarrow> goerr option"
  cc_Names :: "goerr option"
  cc_Pubkey :: "string \<Rightarrow> bytes"
  cc_Account :: "string \<Rightarrow> string"
  cc_Send :: "transaction \<Rightarrow> string \<times> goerr option"
  cc_Miner :: "bytes \<Rightarrow> minerItems result"
  cc_Stat :: "bytes \<Rightarrow> minerStat result"
  cc_Free :: "bytes \<Rightarrow> int result"
  cc_StartBlock :: "bytes \<Rightarrow> u32 result"
  cc_Rewards :: "bytes \<Rightarrow> (nat \<times> nat) result"
  cc_Encode :: "bytes \<Rightarrow> string"
  cc_Symbol :: string
  cc_Precision :: string
  cc_StakePerTiB :: i64
  cc_ERR_Empty :: string
  cc_KiB :: nat
  cc_MiB :: nat
  cc_GiB :: nat

record shell =
  sh_console :: console
  sh_sent :: "(transaction \<times> string \<times> goerr option) list"
  sh_rows :: "(string \<times> string) list"

subsection \<open>Getting a client\<close>

text \<open>\<open>None\<close> is the interrupt at the mnemonic, which exits with status 0; an error exits with 1.\<close>

definition with_config ::
  "(console \<Rightarrow> (console, goerr option option) outcome) \<Rightarrow> (confile \<Rightarrow> shell \<Rightarrow> (shell, nat) outcome) \<Rightarrow> shell \<Rightarrow> (shell, nat) outcome"
where
  "with_config build k s =
     (case build (sh_console s) of
        Ret None c \<Rightarrow> Ret 0 (s\<lparr>sh_console := c\<rparr>)
      | Ret (Some (Some e)) c \<Rightarrow> Ret 1 (s\<lparr>sh_console := c\<rparr>)
      | Ret (Some None) c \<Rightarrow> k (cn_conf c) (s\<lparr>sh_console := c\<rparr>)
      | Panic c \<Rightarrow> Panic (s\<lparr>sh_console := c\<rparr>)
      | Spin c \<Rightarrow> Spin (s\<lparr>sh_console := c\<rparr>))"

definition connect :: "chainClient \<Rightarrow> confile \<Rightarrow> (shell \<Rightarrow> (shell, nat) outcome) \<Rightarrow> shell \<Rightarrow> (shell, nat) outcome" where
  "connect C c k s = (if cc_New C (ReadRpcEndpoints c) (ReadMnemonic c) \<noteq> None then Ret 1 s else k s)"

definition named :: "chainClient \<Rightarrow> (shell \<Rightarrow> (shell, nat) outcome) \<Rightarrow> shell \<Rightarrow> (shell, nat) outcome" where
  "named C k s = (if cc_Names C \<noteq> None then Ret 1 s else k s)"

text \<open>A transaction; an error with a block hash is only a warning.\<close>

definition send :: "chainClient \<Rightarrow> transaction \<Rightarrow> shell \<Rightarrow> (shell, nat) outcome" where
  "send C tx s =
     (case cc_Send C tx of
        (blockhash, err) \<Rightarrow>
          Ret (if err \<noteq> None \<and> blockhash = [] then 1 else 0) (s\<lparr>sh_sent := sh_sent s @ [(tx, blockhash, err)]\<rparr>))"

subsection \<open>Transactions\<close>

definition exitCmdFunc :: "chainClient \<Rightarrow> flags \<Rightarrow> shell \<Rightarrow> (shell, nat) outcome" where
  "exitCmdFunc C f = with_config (buildAuthenticationConfig (cc_conf C) f) (\<lambda>c. connect C c (named C (send C MinerExitPrepTx)))"

definition withdrawCmdFunc :: "chainClient \<Rightarrow> flags \<Rightarrow> shell \<Rightarrow> (shell, nat) outcome" where
  "withdrawCmdFunc C f = with_config (buildAuthenticationConfig (cc_conf C) f) (\<lambda>c. connect C c (named C (send C MinerWithdrawTx)))"

definition claimCmdFunc :: "chainClient \<Rightarrow> flags \<Rightarrow> shell \<Rightarrow> (shell, nat) outcome" where
  "claimCmdFunc C f = with_config (buildAuthenticationConfig (cc_conf C) f) (\<lambda>c. connect C c (named C (send C ReceiveRewardTx)))"

text \<open>\<open>args\<close> is \<^verbatim>\<open>os.Args\<close>.\<close>

definition incstakingCmdFunc :: "chainClient \<Rightarrow> flags \<Rightarrow> string list \<Rightarrow> shell \<Rightarrow> (shell, nat) outcome" where
  "incstakingCmdFunc C f args s =
     (if length args < 4 then Ret 1 s
      else case ParseUint 64 (args ! 3) of
        None \<Rightarrow> Ret 1 s
      | Some _ \<Rightarrow> with_config (buildAuthenticationConfig (cc_conf C) f) (\<lambda>c. connect C c (named C
          (send C (IncreaseCollateralTx (cc_Pubkey C (ReadMnemonic c)) (args ! 3 @ cc_Precision C))))) s)"

text \<open>Two arguments pass the test for missing ones, and the third is then out of range.\<close>

definition updearningsCmdFunc :: "chainClient \<Rightarrow> flags \<Rightarrow> string list \<Rightarrow> shell \<Rightarrow> (shell, nat) outcome" where
  "updearningsCmdFunc C f args s =
     (if length args < 3 then Ret 1 s
      else if length args < 4 then Panic s
      else if cl_address (cc_conf C) (args ! 3) \<noteq> None then Ret 1 s
      else with_config (buildAuthenticationConfig (cc_conf C) f) (\<lambda>c. connect C c (named C
        (send C (UpdateBeneficiaryTx (args ! 3))))) s)"

definition updendpointCmdFunc :: "chainClient \<Rightarrow> flags \<Rightarrow> string list \<Rightarrow> shell \<Rightarrow> (shell, nat) outcome" where
  "updendpointCmdFunc C f args s =
     (if length args < 3 then Ret 1 s
      else if length args < 4 then Panic s
      else if args ! 3 = [] then Ret 1 s
      else with_config (buildAuthenticationConfig (cc_conf C) f) (\<lambda>c. connect C c (named C
        (send C (UpdateSminerEndpointTx (args ! 3))))) s)"

text \<open>For more space the whole configuration is made, from a file if there is one.\<close>

definition incspace_config :: "confLib \<Rightarrow> flags \<Rightarrow> console \<Rightarrow> (console, goerr option option) outcome" where
  "incspace_config L f s =
     (case parseArgs_config f (cn_fs s) of
        Inl e \<Rightarrow> buildConfigItems L f s
      | Inr file \<Rightarrow> andThen (parseConfigFile L file s) (\<lambda>err s'. Ret (Some err) s'))"

text \<open>Whether the collateral, or the balance of the staking account for what is missing, covers the space, computed in 64 bits;
  \<open>None\<close> if it cannot be told.\<close>

definition incspace_covered :: "chainClient \<Rightarrow> minerItems \<Rightarrow> int \<Rightarrow> bool" where
  "incspace_covered C m space =
     (let token = (word_of_int space :: i64) * cc_StakePerTiB C in
      case SetString10 (show_int (sint token) @ cc_Precision C) of
        None \<Rightarrow> False
      | Some token_cess \<Rightarrow>
          (if \<bar>mi_Collaterals m\<bar> < \<bar>token_cess\<bar>
           then (case cc_Free C (mi_StakingAccount m) of
                   Inl e \<Rightarrow> False
                 | Inr free \<Rightarrow> \<not> \<bar>free\<bar> < \<bar>token_cess - mi_Collaterals m\<bar>)
           else True))"

definition incspaceCmdFunc :: "chainClient \<Rightarrow> flags \<Rightarrow> string list \<Rightarrow> shell \<Rightarrow> (shell, nat) outcome" where
  "incspaceCmdFunc C f args s =
     (if length args < 4 then Ret 1 s
      else case Atoi (args ! 3) of
        None \<Rightarrow> Ret 1 s
      | Some space \<Rightarrow> with_config (incspace_config (cc_conf C) f) (\<lambda>c. connect C c (named C (\<lambda>s'.
          case cc_Miner C (cc_Pubkey C (ReadMnemonic c)) of
            Inl e \<Rightarrow> Ret 1 s'
          | Inr m \<Rightarrow> (if incspace_covered C m space then send C (IncreaseDeclarationSpaceTx (word_of_int space)) s' else Ret 1 s')))) s)"

datatype command = CmdExit | CmdWithdraw | CmdClaim | CmdIncStaking | CmdIncSpace | CmdEarnings | CmdEndpoint

fun run_command :: "chainClient \<Rightarrow> flags \<Rightarrow> string list \<Rightarrow> command \<Rightarrow> shell \<Rightarrow> (shell, nat) outcome" where
  "run_command C f args CmdExit = exitCmdFunc C f"
| "run_command C f args CmdWithdraw = withdrawCmdFunc C f"
| "run_command C f args CmdClaim = claimCmdFunc C f"
| "run_command C f args CmdIncStaking = incstakingCmdFunc C f args"
| "run_command C f args CmdIncSpace = incspaceCmdFunc C f args"
| "run_command C f args CmdEarnings = updearningsCmdFunc C f args"
| "run_command C f args CmdEndpoint = updendpointCmdFunc C f args"

subsection \<open>Tables\<close>

text \<open>\<^verbatim>\<open>float64\<close> of a natural number, the quotient of two such numbers (the first not the smaller), and its two decimals as \<^verbatim>\<open>%.2f\<close>
  prints them, all rounded to the nearest, ties to even: \<open>rne\<close> is the quotient so rounded; a number has 53 bits.\<close>

definition rne :: "nat \<Rightarrow> nat \<Rightarrow> nat" where
  "rne n d = (let q = n div d; r = n mod d in if d < 2 * r \<or> (2 * r = d \<and> odd q) then q + 1 else q)"

definition float64 :: "nat \<Rightarrow> nat" where
  "float64 n = (let k = floorlog 2 n - 53 in rne n (2 ^ k) * 2 ^ k)"

definition quot_hundredths :: "nat \<Rightarrow> nat \<Rightarrow> nat" where
  "quot_hundredths a b =
     (let l = floorlog 2 (a div b); m = rne (a * 2 ^ (53 - l)) (b * 2 ^ (l - 53)) in rne (m * 2 ^ (l - 53) * 100) (2 ^ (53 - l)))"

definition show_hundredths :: "nat \<Rightarrow> string" where
  "show_hundredths h = show_nat (h div 100) @ ''.'' @ [digit_char (h mod 100 div 10), digit_char (h mod 10)]"

definition in_unit :: "nat \<Rightarrow> nat \<Rightarrow> string \<Rightarrow> string" where
  "in_unit v u unit_name = show_hundredths (quot_hundredths (float64 v) (float64 u)) @ unit_name"

definition unitConversion :: "chainClient \<Rightarrow> nat \<Rightarrow> string" where
  "unitConversion C v =
     (if v < 2 ^ 64 then
        (if cc_GiB C * 1024 * 1024 * 1024 \<le> v then in_unit v (cc_GiB C * 1024 * 1024 * 1024) '' EiB''
         else if cc_GiB C * 1024 * 1024 \<le> v then in_unit v (cc_GiB C * 1024 * 1024) '' PiB''
         else if cc_GiB C * 1024 \<le> v then in_unit v (cc_GiB C * 1024) '' TiB''
         else if cc_GiB C \<le> v then in_unit v (cc_GiB C) '' GiB''
         else if cc_MiB C \<le> v then in_unit v (cc_MiB C) '' MiB''
         else if cc_KiB C \<le> v then in_unit v (cc_KiB C) '' KiB''
         else show_nat v @ '' Bytes'')
      else show_nat (v div (cc_GiB C * 1024 * 1024 * 1024)) @ '' EiB'')"

definition TokenTCESS :: nat where "TokenTCESS = 10 ^ 18"

definition stat_rows :: "chainClient \<Rightarrow> confile \<Rightarrow> minerStat \<Rightarrow> u32 \<Rightarrow> (string \<times> string) list" where
  "stat_rows C c m startBlock =
     [(''name'', ''storage miner''),
      (''endpoint'', ms_Endpoint m),
      (''state'', ms_State m),
      (''staking amount'', show_nat (ms_Collaterals m div TokenTCESS) @ '' '' @ cc_Symbol C),
      (''staking start'', show_nat (unat startBlock)),
      (''debt amount'', show_nat (ms_Debt m div TokenTCESS) @ '' '' @ cc_Symbol C),
      (''declaration space'', unitConversion C (ms_DeclarationSpace m)),
      (''validated space'', unitConversion C (ms_IdleSpace m)),
      (''used space'', unitConversion C (ms_ServiceSpace m)),
      (''locked space'', unitConversion C (ms_LockSpace m)),
      (''signature account'', cc_Account C (ReadMnemonic c)),
      (''staking account'', if ReadStakingAcc c = [] then cc_Account C (ReadMnemonic c) else ReadStakingAcc c),
      (''earnings account'', cc_Encode C (ms_Beneficiary m))]"

definition statCmdFunc :: "chainClient \<Rightarrow> flags \<Rightarrow> shell \<Rightarrow> (shell, nat) outcome" where
  "statCmdFunc C f = with_config (buildAuthenticationConfig (cc_conf C) f) (\<lambda>c. connect C c (\<lambda>s.
     case cc_Stat C (cc_Pubkey C (ReadMnemonic c)) of
       Inl e \<Rightarrow> Ret 1 s
     | Inr m \<Rightarrow>
         (case cc_StartBlock C (cc_Pubkey C (ReadMnemonic c)) of
            Inl e \<Rightarrow> (if err_msg e \<noteq> cc_ERR_Empty C then Ret 1 s else Ret 0 (s\<lparr>sh_rows := stat_rows C c m 0\<rparr>))
          | Inr startBlock \<Rightarrow> Ret 0 (s\<lparr>sh_rows := stat_rows C c m startBlock\<rparr>))))"

text \<open>Lines 97 to 124: an underscore after every third digit, from the end; the digits are counted in 8 bits.\<close>

fun sep_loop :: "string \<Rightarrow> u8 \<Rightarrow> string \<Rightarrow> string" where
  "sep_loop [] sep acc = acc"
| "sep_loop (c # cs) sep acc =
     (if (sep + 1) mod 3 = 0 then sep_loop cs (sep + 1) (CHR ''_'' # c # acc) else sep_loop cs (sep + 1) (c # acc))"

definition separated :: "string \<Rightarrow> string" where
  "separated digits = TrimPrefix (sep_loop (rev digits) 0 []) ''_''"

definition rewardCmdFunc :: "chainClient \<Rightarrow> flags \<Rightarrow> shell \<Rightarrow> (shell, nat) outcome" where
  "rewardCmdFunc C f = with_config (buildAuthenticationConfig (cc_conf C) f) (\<lambda>c. connect C c (\<lambda>s.
     case cc_Rewards C (cc_Pubkey C (ReadMnemonic c)) of
       Inl e \<Rightarrow> Ret 1 s
     | Inr (allotted, issued) \<Rightarrow>
         (case (SetString10 (show_nat allotted), SetString10 (show_nat issued)) of
            (Some t, Some i) \<Rightarrow>
              Ret 0 (s\<lparr>sh_rows := [(''total reward'', separated (show_nat allotted)), (''claimed reward'', separated (show_nat issued)),
                (''unclaimed reward'', separated (show_int (t - i)))]\<rparr>)
          | _ \<Rightarrow> Panic s)))"

subsection \<open>Digits in groups\<close>

text \<open>The same as a specification: groups of three from the end, joined by underscores.\<close>

fun grouped :: "string \<Rightarrow> string" where
  "grouped s = (if length s \<le> 3 then s else grouped (take (length s - 3) s) @ CHR ''_'' # drop (length s - 3) s)"

declare grouped.simps [simp del]

lemma grouped_short: "length s \<le> 3 \<Longrightarrow> grouped s = s"
  by (simp add: grouped.simps)

lemma grouped_snoc: "s \<noteq> [] \<Longrightarrow> grouped (s @ [c, b, a]) = grouped s @ [CHR ''_'', c, b, a]"
  by (cases s) (subst grouped.simps, simp)+

text \<open>The loop with a counter that cannot overflow.\<close>

fun sep_nat :: "string \<Rightarrow> nat \<Rightarrow> string \<Rightarrow> string" where
  "sep_nat [] n acc = acc"
| "sep_nat (c # cs) n acc = sep_nat cs (Suc n) (if Suc n mod 3 = 0 then CHR ''_'' # c # acc else c # acc)"

lemma unat_mod_3: "unat (x :: u8) mod 3 = 0 \<longleftrightarrow> x mod 3 = 0"
  using unat_mod [of x 3] by (simp only: unat_eq_0 [symmetric] unat_numeral) simp

lemma sep_loop_nat: "unat sep + length cs < 256 \<Longrightarrow> sep_loop cs sep acc = sep_nat cs (unat sep) acc"
proof (induction cs sep acc rule: sep_loop.induct)
  case (2 c cs sep acc)
  then have n: "unat (sep + 1) = Suc (unat sep)" by (simp add: unat_word_ariths)
  have "(sep + 1) mod 3 = 0 \<longleftrightarrow> Suc (unat sep) mod 3 = 0" using unat_mod_3 [of "sep + 1"] by (simp only: n)
  then show ?case using 2 n by (simp del: sep_nat.simps add: sep_nat.simps(2))
qed simp

lemma sep_nat_3: "sep_nat (a # b # c # r) (3 * k) acc = sep_nat r (3 * Suc k) (CHR ''_'' # c # b # a # acc)"
proof -
  have "Suc (3 * k) mod 3 \<noteq> 0" "Suc (Suc (3 * k)) mod 3 \<noteq> 0" "Suc (Suc (Suc (3 * k))) mod 3 = 0" by presburger+
  moreover have "Suc (Suc (Suc (3 * k))) = 3 * Suc k" by simp
  ultimately show ?thesis by (simp only: sep_nat.simps if_True if_False refl)
qed

lemma sep_nat_short:
  "sep_nat [a] (3 * k) acc = a # acc" "sep_nat [a, b] (3 * k) acc = b # a # acc"
proof -
  have "Suc (3 * k) mod 3 \<noteq> 0" "Suc (Suc (3 * k)) mod 3 \<noteq> 0" by presburger+
  then show "sep_nat [a] (3 * k) acc = a # acc" "sep_nat [a, b] (3 * k) acc = b # a # acc"
    by (simp_all only: sep_nat.simps if_False)
qed

lemma sep_nat_groups:
  "s \<noteq> [] \<Longrightarrow> sep_nat (rev s) (3 * k) acc = (if length s mod 3 = 0 then ''_'' else []) @ grouped s @ acc"
proof (induction "length s" arbitrary: s k acc rule: less_induct)
  case less
  consider a where "rev s = [a]" | a b where "rev s = [a, b]" | a b c where "rev s = [a, b, c]"
    | a b c d r where "rev s = a # b # c # d # r"
    by (metis (no_types) less.prems list.exhaust rev_is_Nil_conv)
  then show ?case
  proof cases
    case (4 a b c d r)
    let ?t = "rev (d # r)"
    from 4 have s: "s = ?t @ [c, b, a]" by (metis append_Cons append_Nil append_assoc rev.simps(2) rev_rev_ident)
    have "sep_nat (rev ?t) (3 * Suc k) (CHR ''_'' # c # b # a # acc) =
        (if length ?t mod 3 = 0 then ''_'' else []) @ grouped ?t @ CHR ''_'' # c # b # a # acc"
      using s by (intro less.hyps) auto
    moreover have "length s mod 3 = length ?t mod 3" using s by simp presburger
    moreover have "grouped s = grouped ?t @ [CHR ''_'', c, b, a]" unfolding s by (rule grouped_snoc) simp
    ultimately show ?thesis by (simp only: 4 sep_nat_3 rev_rev_ident append_assoc append_Cons append_Nil)
  next
    case (3 a b c)
    then have "s = [c, b, a]" by (simp add: rev_swap)
    then show ?thesis using sep_nat_3 [of a b c "[]" k acc] by (simp add: grouped_short del: sep_nat.simps(2))
  qed (auto simp: rev_swap sep_nat_short grouped_short simp del: sep_nat.simps(2))
qed

lemma grouped_hd: "s \<noteq> [] \<Longrightarrow> hd (grouped s) = hd s \<and> grouped s \<noteq> []"
proof (induction s rule: grouped.induct)
  case (1 s)
  show ?case
  proof (cases "length s \<le> 3")
    case False
    then have "grouped s = grouped (take (length s - 3) s) @ CHR ''_'' # drop (length s - 3) s" by (simp add: grouped.simps [of s])
    then show ?thesis using 1 False by (simp add: hd_append hd_take)
  qed (use 1 in \<open>simp add: grouped_short\<close>)
qed

text \<open>
  The amounts that \<^verbatim>\<open>reward\<close> prints are the digits in groups of three from the end, joined by underscores, for every number
  shorter than the 8-bit counter allows.
\<close>
theorem separated_groups:
  assumes "length s < 256" and "s = [] \<or> hd s \<noteq> CHR ''_''"
  shows "separated s = grouped s"
proof (cases "s = []")
  case False
  have "sep_loop (rev s) 0 [] = (if length s mod 3 = 0 then ''_'' else []) @ grouped s"
    using sep_loop_nat [of 0 "rev s" "[]"] sep_nat_groups [OF False, of 0 "[]"] assms(1) by simp
  then show ?thesis using grouped_hd [OF False] assms(2) False
    by (cases "grouped s") (auto simp: separated_def TrimPrefix_def HasPrefix_def)
qed (simp add: separated_def TrimPrefix_def HasPrefix_def grouped_short)

theorem separated_groups_witness: "separated ''1234567'' = ''1_234_567''"
proof -
  have "grouped ''1234567'' = ''1_234_567''" by code_simp
  then show ?thesis using separated_groups [of "''1234567''"] by simp
qed

subsection \<open>What a command sends\<close>

text \<open>A transaction is sent with a configuration that can sign, through a client that was made with it, and the exit status
  tells whether it got a block hash; without a transaction the status is 0 only if the user interrupted.\<close>

definition sent_ok :: "chainClient \<Rightarrow> shell \<Rightarrow> nat \<Rightarrow> shell \<Rightarrow> bool" where
  "sent_ok C s code s' \<longleftrightarrow>
     (\<exists>tx h err. sh_sent s' = sh_sent s @ [(tx, h, err)] \<and> cc_Send C tx = (h, err) \<and> (code = 0 \<longleftrightarrow> err = None \<or> h \<noteq> []))
     \<and> can_sign (cc_conf C) (cn_conf (sh_console s')) \<and> cc_Names C = None
     \<and> cc_New C (cf_Rpcs (cn_conf (sh_console s'))) (cf_Mnemonic (cn_conf (sh_console s'))) = None"

definition outcome_ok :: "chainClient \<Rightarrow> shell \<Rightarrow> nat \<Rightarrow> shell \<Rightarrow> bool" where
  "outcome_ok C s code s' \<longleftrightarrow> sh_sent s' = sh_sent s \<and> (code = 0 \<longrightarrow> interrupts (sh_console s)) \<or> sent_ok C s code s'"

lemma refused_ok: "outcome_ok C s (Suc 0) s"
  by (simp add: outcome_ok_def)

lemma send_ok:
  assumes "connect C c (named C k) s = Ret code s'" and "can_sign (cc_conf C) c" and "cn_conf (sh_console s) = c"
    and k: "k s = Ret 1 s \<or> (\<exists>tx. k s = send C tx s)"
  shows "sh_sent s' = sh_sent s \<and> code \<noteq> 0 \<or> sent_ok C s code s'"
proof (cases "cc_New C (cf_Rpcs c) (cf_Mnemonic c) = None \<and> cc_Names C = None")
  case True
  then have run: "k s = Ret code s'" using assms(1) by (auto simp: connect_def named_def ReadRpcEndpoints_def ReadMnemonic_def)
  show ?thesis using k
  proof
    assume "\<exists>tx. k s = send C tx s"
    then obtain tx where "send C tx s = Ret code s'" using run by auto
    then show ?thesis using True assms(2,3) by (cases "cc_Send C tx") (auto simp: send_def sent_ok_def split: if_splits)
  qed (use run in simp)
next
  case False
  then have "code = Suc 0 \<and> s' = s"
    using assms(1) by (auto simp: connect_def named_def ReadRpcEndpoints_def ReadMnemonic_def split: if_splits)
  then show ?thesis by simp
qed

lemma with_config_ok:
  assumes run: "with_config build (\<lambda>c. connect C c (named C (k c))) s = Ret code s'"
    and sign: "\<And>s s'. build s = Ret (Some None) s' \<Longrightarrow> can_sign (cc_conf C) (cn_conf s')"
    and stop: "\<And>s s'. build s = Ret None s' \<Longrightarrow> interrupts s"
    and k: "\<And>c s. k c s = Ret 1 s \<or> (\<exists>tx. k c s = send C tx s)"
  shows "outcome_ok C s code s'"
proof (cases "build (sh_console s)")
  case (Ret r c)
  show ?thesis
  proof (cases r)
    case None
    then show ?thesis using run Ret stop [of "sh_console s" c] by (auto simp: with_config_def outcome_ok_def)
  next
    case (Some e)
    show ?thesis
    proof (cases e)
      case None
      with run Ret Some have "connect C (cn_conf c) (named C (k (cn_conf c))) (s\<lparr>sh_console := c\<rparr>) = Ret code s'"
        by (simp add: with_config_def)
      from send_ok [OF this _ _ k] sign [of "sh_console s" c] Ret Some None show ?thesis
        by (auto simp: outcome_ok_def sent_ok_def)
    qed (use run Ret Some in \<open>auto simp: with_config_def outcome_ok_def\<close>)
  qed
qed (use run in \<open>auto simp: with_config_def\<close>)

lemmas auth_ok = with_config_ok [OF _ buildAuthenticationConfig_signs buildAuthenticationConfig_interrupt]

lemma incspace_config_signs: "incspace_config L f s = Ret (Some None) s' \<Longrightarrow> can_sign L (cn_conf s')"
  by (auto simp: incspace_config_def andThen_eq_Ret split: sum.splits dest: buildConfigItems_signs parseConfigFile_signs)

lemma incspace_config_interrupt: "incspace_config L f s = Ret None s' \<Longrightarrow> interrupts s"
  by (auto simp: incspace_config_def andThen_eq_Ret split: sum.splits dest: buildConfigItems_interrupt)

text \<open>
  C39. A command sends at most one transaction, signed by a mnemonic that has a key and through a client connected with the
  configured nodes; its exit status is 0 exactly if the transaction succeeded or has a block hash, and without a transaction
  only if the user interrupted.
\<close>
theorem command_outcome:
  assumes "run_command C f args cmd s = Ret code s'"
  shows "outcome_ok C s code s'"
proof (cases cmd)
  case CmdIncStaking
  then show ?thesis using assms
    by (auto simp: incstakingCmdFunc_def refused_ok split: if_splits option.splits elim!: auth_ok)
next
  case CmdIncSpace
  then show ?thesis using assms
    by (auto simp: incspaceCmdFunc_def refused_ok split: if_splits option.splits sum.split
      elim!: with_config_ok [OF _ incspace_config_signs incspace_config_interrupt]) blast
qed (use assms in \<open>auto simp: exitCmdFunc_def withdrawCmdFunc_def claimCmdFunc_def updearningsCmdFunc_def updendpointCmdFunc_def
  refused_ok split: if_splits elim!: auth_ok\<close>)

definition demo_client :: chainClient where
  "demo_client = \<lparr>cc_conf = demo_read, cc_New = \<lambda>_ _. None, cc_Names = None, cc_Pubkey = id, cc_Account = id,
     cc_Send = \<lambda>_. (''tx'', None),
     cc_Miner = \<lambda>_. Inr \<lparr>mi_State = ''positive'', mi_StakingAccount = [], mi_BeneficiaryAccount = [], mi_DeclarationSpace = 1,
       mi_IdleSpace = 0, mi_ServiceSpace = 0, mi_LockSpace = 0, mi_Collaterals = 40, mi_Endpoint = [], mi_SpaceProofInfo = None,
       mi_TeeSig = []\<rparr>,
     cc_Stat = \<lambda>_. Inl (mk_err ''empty''), cc_Free = \<lambda>_. Inr 0, cc_StartBlock = \<lambda>_. Inr 0, cc_Rewards = \<lambda>_. Inr (0, 0),
     cc_Encode = id, cc_Symbol = ''TCESS'', cc_Precision = ''0'', cc_StakePerTiB = 4, cc_ERR_Empty = ''empty'',
     cc_KiB = 2, cc_MiB = 4, cc_GiB = 8\<rparr>"

definition demo_shell :: shell where
  "demo_shell = \<lparr>sh_console = demo_console, sh_sent = [], sh_rows = []\<rparr>"

theorem command_outcome_witness:
  "\<exists>s'. run_command demo_client (demo_flags\<lparr>fl_config := ''/c.yaml''\<rparr>) [''m'', ''update'', ''endpoint'', ''e''] CmdEndpoint demo_shell = Ret 0 s'
     \<and> sent_ok demo_client demo_shell 0 s'"
proof -
  have r: "returned (run_command demo_client (demo_flags\<lparr>fl_config := ''/c.yaml''\<rparr>) [''m'', ''update'', ''endpoint'', ''e''] CmdEndpoint demo_shell)
      = Some 0" by code_simp
  have "\<not> interrupts (sh_console demo_shell)" by (simp add: interrupts_def demo_shell_def demo_console_def)
  with command_outcome [OF returned_Some [OF r]] returned_Some [OF r] show ?thesis by (auto simp: outcome_ok_def)
qed

text \<open>A negative number of TiB passes every check, as absolute values are compared, and is cut to 32 bits: 4294967295 TiB are
  declared for the collateral of one.\<close>

theorem incspace_wraps:
  "sh_sent (outcome_state (incspaceCmdFunc demo_client (demo_flags\<lparr>fl_config := ''/c.yaml''\<rparr>) [''m'', ''increase'', ''space'', ''-1''] demo_shell))
     = [(IncreaseDeclarationSpaceTx 4294967295, ''tx'', None)]"
  by code_simp

end
