(* ===== verification/Template.thy ===== *)
theory Template
  imports Confile
begin

text \<open>
  The command that writes a configuration to start from (\<^verbatim>\<open>src/cmd/console/config.go\<close> with the template of
  \<^verbatim>\<open>src/pkg/confile/confile.go\<close>), and the lines that the commands print (\<^verbatim>\<open>src/pkg/fout/out.go\<close>, \<^verbatim>\<open>src/cmd/console/version.go\<close>).
\<close>

subsection \<open>Lines on the terminal\<close>

datatype color = HiBlack | HiRed | HiGreen | HiYellow | HiBlue | HiPurple | HiCyan | HiWhite

definition color_code :: "color \<Rightarrow> nat" where
  "color_code c = 90 + (case c of HiBlack \<Rightarrow> 0 | HiRed \<Rightarrow> 1 | HiGreen \<Rightarrow> 2 | HiYellow \<Rightarrow> 3 | HiBlue \<Rightarrow> 4 | HiPurple \<Rightarrow> 5
     | HiCyan \<Rightarrow> 6 | HiWhite \<Rightarrow> 7)"

definition OkPrompt :: string where "OkPrompt = ''OK''"
definition WarnPrompt :: string where "WarnPrompt = ''!!''"
definition ErrPrompt :: string where "ErrPrompt = ''XX''"
definition InputPrompt :: string where "InputPrompt = ''>>''"
definition TipPrompt :: string where "TipPrompt = ''++''"

definition colored :: "color \<Rightarrow> string \<Rightarrow> string" where
  "colored c t = CHR 0x1B # ''[0;'' @ show_nat (color_code c) @ ''m'' @ t @ CHR 0x1B # ''[0m''"

definition textTip :: string where "textTip = colored HiGreen TipPrompt"
definition textInput :: string where "textInput = colored HiBlue InputPrompt"
definition textErr :: string where "textErr = colored HiRed ErrPrompt"
definition textOk :: string where "textOk = colored HiGreen OkPrompt"
definition textWarn :: string where "textWarn = colored HiYellow WarnPrompt"

text \<open>\<open>now\<close> is the time as \<^verbatim>\<open>time.Now().Format\<close> gives it.\<close>

definition out_Input :: "string \<Rightarrow> string" where "out_Input msg = textInput @ '' '' @ msg"
definition out_Tip :: "string \<Rightarrow> string \<Rightarrow> string" where "out_Tip now msg = textTip @ '' '' @ now @ '' '' @ msg"
definition out_Err :: "string \<Rightarrow> string \<Rightarrow> string" where "out_Err now msg = textErr @ '' '' @ now @ '' '' @ msg"
definition out_Warn :: "string \<Rightarrow> string \<Rightarrow> string" where "out_Warn now msg = textWarn @ '' '' @ now @ '' '' @ msg"
definition out_Ok :: "string \<Rightarrow> string \<Rightarrow> string" where "out_Ok now msg = textOk @ '' '' @ now @ '' '' @ msg"

text \<open>\<open>configs.Name\<close> and \<open>configs.Version\<close> are the arguments.\<close>

definition versionCmdFunc :: "string \<Rightarrow> string \<Rightarrow> string list \<times> int" where
  "versionCmdFunc name version = ([name @ '' '' @ version], 0)"

subsection \<open>The template\<close>

definition DefaultProfile :: string where "DefaultProfile = ''conf.yaml''"

definition template_lines :: "string list" where
  "template_lines =
     [''app:'',
      ''  # workspace'',
      ''  workspace: \"/\"'',
      ''  # communication port'',
      ''  port: 15001'',
      ''  # maximum space used, the unit is GiB'',
      ''  maxusespace: 2000'',
      ''  # number of cpus used, 0 means use all'',
      ''  cores: 0'',
      ''  # the server API endpoint'',
      ''  apiendpoint: \"\"'',
      [],
      ''chain:'',
      ''  # signature account mnemonic'',
      ''  mnemonic: \"\"'',
      ''  # staking account'',
      ''  # if you fill in the staking account, the staking will be paid by the staking account,'',
      ''  # otherwise the staking will be paid by the signature account.'',
      ''  stakingacc: \"\"'',
      ''  # earnings account'',
      ''  earningsacc: \"\"'',
      ''  # timeout for waiting for transaction packaging, default 12 seconds'',
      ''  timeout: 12'',
      ''  # rpc address list'',
      ''  rpcs:'',
      ''    - \"wss://testnet-rpc.cess.cloud/ws/\"'',
      ''  # hexadecimal encoded tee public keys'',
      ''  tees:'']"

definition TempleteProfile :: string where
  "TempleteProfile = join_with (CHR 0x0A) template_lines"

text \<open>The values that the template stands for.\<close>

definition template_config :: confile where
  "template_config = \<lparr>cf_Workspace = ''/'', cf_Port = 15001, cf_Maxusespace = 2000, cf_Cores = 0, cf_ApiEndpoint = [],
     cf_Mnemonic = [], cf_Stakingacc = [], cf_Earningsacc = [], cf_Timeout = 12, cf_Rpcs = [''wss://testnet-rpc.cess.cloud/ws/''],
     cf_Tees = []\<rparr>"

subsection \<open>The command\<close>

text \<open>\<open>cwd\<close> is the working directory, \<open>getwd\<close> the answer of \<^verbatim>\<open>os.Getwd\<close>. The result is the disk and the line that is printed.\<close>

definition configCmdFunc :: "string \<Rightarrow> string result \<Rightarrow> string \<Rightarrow> fs \<Rightarrow> fs \<times> string" where
  "configCmdFunc cwd getwd now fs =
     (let f = Join [cwd, DefaultProfile] in
      case os_OpenTrunc fs f of
        (fs1, Some e) \<Rightarrow> (fs1, out_Err now (err_msg e))
      | (fs1, None) \<Rightarrow>
          (if ffault fs1 OpWrite (resolve f) then (fs1, out_Err now (err_msg err_io))
           else
             (let fs2 = put_node fs1 (resolve f) (FileNode TempleteProfile) in
              if ffault fs2 OpSync (resolve f) then (fs2, out_Err now (err_msg err_io))
              else
                (case getwd of
                   Inl e \<Rightarrow> (fs2, out_Err now (err_msg e))
                 | Inr pwd \<Rightarrow> (fs2, out_Ok now (Join [pwd, DefaultProfile]))))))"

lemma prompts_differ: "out_Err now m \<noteq> out_Ok now' m'"
  by (simp add: out_Err_def out_Ok_def textErr_def textOk_def colored_def color_code_def show_nat.simps digit_char_def)

text \<open>
  When the command reports success, the file holds the template, and no other file was touched. What was in the file before
  is lost, also when the command reports an error after opening it.
\<close>

theorem configCmdFunc_writes:
  assumes "configCmdFunc cwd getwd now fs = (fs', line)"
  shows "(\<forall>q. q \<noteq> resolve (Join [cwd, DefaultProfile]) \<longrightarrow> file_at fs' q = file_at fs q)
    \<and> (line = out_Ok now m \<longrightarrow> file_at fs' (resolve (Join [cwd, DefaultProfile])) = Some TempleteProfile)
    \<and> (os_OpenTrunc fs (Join [cwd, DefaultProfile]) = (fs1, None) \<longrightarrow>
         file_at fs' (resolve (Join [cwd, DefaultProfile])) \<in> {Some [], Some TempleteProfile})"
proof (cases "os_OpenTrunc fs (Join [cwd, DefaultProfile])")
  case (Pair fs1' e)
  show ?thesis
  proof (cases e)
    case None
    with Pair os_OpenTrunc_ok have "fs1' = put_node fs (resolve (Join [cwd, DefaultProfile])) (FileNode [])" by blast
    then show ?thesis using assms Pair None prompts_differ [of now _ now m]
      by (auto simp: configCmdFunc_def Let_def fs_simps split: if_splits sum.splits)
  next
    case (Some x)
    with Pair os_OpenTrunc_fail have "fs1' = fs" by blast
    then show ?thesis using assms Pair Some prompts_differ [of now _ now m] by (auto simp: configCmdFunc_def)
  qed
qed

text \<open>
  The template has to be filled in: a parser that reads from it what it stands for makes \<^verbatim>\<open>Parse\<close> refuse it, for the endpoint, and
  the directory \<^verbatim>\<open>/\<close> is not touched.
\<close>

theorem template_refused:
  assumes "os_ReadFile fs p = Inr TempleteProfile" and "\<not> ffault fs OpStat (resolve p)" and "p \<noteq> []" and "Ext p = ''.yaml''"
    and "cl_read L fs p ''yaml'' = Inr (\<lambda>_. (template_config, None))"
  shows "Parse L p c fs = Ret (template_config, Some (mk_err ''apiendpoint can not be empty'')) fs"
proof -
  have "os_Stat fs p = Inr \<lparr>fi_size = length TempleteProfile, fi_isdir = False\<rparr>"
    using os_ReadFile_Inr [OF assms(1)] assms(2,3) by (simp add: os_Stat_def file_at_Some)
  then show ?thesis using assms(4,5) by (simp add: Parse_def conf_checks_def template_config_def)
qed

end
