(* ===== verification/Liveness.thy ===== *)
theory Liveness
  imports Scheduler
begin

text \<open>
  Infinite runs of the scheduler: the workers of the main loop are started again and again, if the loop goes on with a
  clock that advances and a worker that was started comes to its end. That the challenge handlers do end is shown where
  they are modelled.
\<close>

subsection \<open>Runs and fairness\<close>

definition run :: "(nat \<Rightarrow> sched) \<Rightarrow> bool" where
  "run \<sigma> \<longleftrightarrow> (\<exists>t rs. \<sigma> 0 = Start t rs) \<and> (\<forall>n. sched_step (\<sigma> n) (\<sigma> (Suc n)))"

text \<open>New rounds begin with ever later clock readings; the clock may jump back in between.\<close>

definition clock_advances :: "(nat \<Rightarrow> sched) \<Rightarrow> bool" where
  "clock_advances \<sigma> \<longleftrightarrow> (\<forall>n T. \<exists>m\<ge>n. sc_block (\<sigma> m) = 0 \<and> T \<le> sc_tNow (\<sigma> m))"

definition worker_ends :: "worker \<Rightarrow> (nat \<Rightarrow> sched) \<Rightarrow> bool" where
  "worker_ends w \<sigma> \<longleftrightarrow> (\<forall>n. \<exists>m\<ge>n. sc_run (\<sigma> m) w = 0)"

lemma run_reach: "run \<sigma> \<Longrightarrow> sched_reach (\<sigma> n)"
  by (induction n) (auto simp: run_def intro: sched_reach.intros)

lemma run_tokens: "run \<sigma> \<Longrightarrow> tokens (\<sigma> n)"
  by (rule tokens.reach [OF run_reach])

subsection \<open>What a step does to a worker of the main loop\<close>

text \<open>Either the worker is started, or its time stays and a token that is there stays there.\<close>

definition started_or_kept :: "worker \<Rightarrow> sched \<Rightarrow> sched \<Rightarrow> bool" where
  "started_or_kept w s s' \<longleftrightarrow> (\<exists>xs. start_times w (sc_log s') = start_times w (sc_log s) @ xs
     \<and> (xs = [] \<longrightarrow> sc_tOld s' w = sc_tOld s w \<and> (sc_ch s w > 0 \<longrightarrow> sc_ch s' w > 0)))"

lemma started_or_kept_same:
  "sc_log s' = sc_log s \<Longrightarrow> sc_tOld s' = sc_tOld s \<Longrightarrow> sc_ch s w \<le> sc_ch s' w \<Longrightarrow> started_or_kept w s s'"
  by (simp add: started_or_kept_def)

lemma started_or_kept_upd [simp]:
  "started_or_kept w s (s'\<lparr>sc_block := n\<rparr>) = started_or_kept w s s'" "started_or_kept w s (s'\<lparr>sc_mgr := m\<rparr>) = started_or_kept w s s'"
  "started_or_kept w s (s'\<lparr>sc_answers := a\<rparr>) = started_or_kept w s s'"
  by (simp_all add: started_or_kept_def)

lemma periodic_kept: "started_or_kept w s (periodic v p g s)"
  by (auto simp: started_or_kept_def periodic_def launch_def start_times_append)

lemma main_block_kept: "started_or_kept w s (main_block i s)"
  by (auto simp: main_block_def challenge_block_def periodic_kept intro: started_or_kept_same split: prod.split)

lemma mgr_step_kept:
  "mgr_step m s = Some (p, s') \<Longrightarrow> w \<notin> {SyncTeeW, IdleChallW, ServiceChallW} \<Longrightarrow> started_or_kept w s s'"
  by (cases "(m, s)" rule: mgr_step.cases) (auto simp: started_or_kept_def launch_def start_times_append split: if_splits)

lemma block_workers: "(w, p, g) \<in> set blocks \<Longrightarrow> w \<notin> {SyncTeeW, IdleChallW, ServiceChallW}"
  by (auto simp: blocks_def)

lemma step_kept:
  assumes "sched_step s s'" and "(w, p, g) \<in> set blocks"
  shows "started_or_kept w s s'"
  using assms(1)
proof cases
  case (Manager i p t)
  then show ?thesis using block_workers [OF assms(2)] by (simp add: mgr_step_kept)
next
  case (Finish v)
  then show ?thesis by (intro started_or_kept_same) (simp_all add: finish_def)
qed (simp_all add: started_or_kept_same main_block_kept)

text \<open>Between the beginning of a round and the beginning of a later one every block is run with the clock reading of the
  first.\<close>

lemma step_round:
  assumes "sched_step s s'" and "sc_tNow s' \<noteq> sc_tNow s \<or> sc_block s' > i" and "sc_block s \<le> i" and "i < 8"
  shows "sc_block s = i \<and> s' = (main_block i s)\<lparr>sc_block := Suc i\<rparr>"
  using assms(1)
proof cases
  case (Block j)
  have t: "sc_tNow (main_block j s) = sc_tNow s"
    by (simp add: main_block_def challenge_block_def periodic_def launch_def split: prod.split)
  have "j = i" using Block t assms(2-4) by auto
  then show ?thesis using Block by simp
next
  case (Manager j p t)
  then have "sc_tNow t = sc_tNow s" "sc_block t = sc_block s"
    by (cases "(sc_mgr s ! j, s)" rule: mgr_step.cases; auto simp: launch_def split: if_splits)+
  then show ?thesis using Manager assms(2,3) by auto
qed (use assms(2-4) in \<open>auto simp: finish_def\<close>)

lemma first_change:
  assumes "P m" and "\<not> P n" and "m \<le> n"
  shows "\<exists>k\<ge>m. P k \<and> \<not> P (Suc k)"
proof (rule ccontr)
  assume "\<not> ?thesis"
  then have "P (m + d)" for d using assms(1) by (induction d) auto
  from this [of "n - m"] show False using assms(2,3) by simp
qed

lemma round_block:
  assumes "run \<sigma>" and "clock_advances \<sigma>" and "i < 8"
  shows "\<exists>m\<ge>n. sc_block (\<sigma> m) = i \<and> T \<le> sc_tNow (\<sigma> m) \<and> \<sigma> (Suc m) = (main_block i (\<sigma> m))\<lparr>sc_block := Suc i\<rparr>"
proof -
  obtain m1 where m1: "n \<le> m1" "sc_block (\<sigma> m1) = 0" "T \<le> sc_tNow (\<sigma> m1)" using assms(2) by (auto simp: clock_advances_def)
  obtain m2 where m2: "m1 \<le> m2" "sc_tNow (\<sigma> m1) + 1 \<le> sc_tNow (\<sigma> m2)" using assms(2) by (auto simp: clock_advances_def)
  let ?P = "\<lambda>m. sc_tNow (\<sigma> m) = sc_tNow (\<sigma> m1) \<and> sc_block (\<sigma> m) \<le> i"
  obtain k where k: "m1 \<le> k" "?P k" "\<not> ?P (Suc k)" using first_change [of ?P m1 m2] m1(2) m2 by auto
  have "sched_step (\<sigma> k) (\<sigma> (Suc k))" using assms(1) by (simp add: run_def)
  from step_round [OF this _ _ assms(3)] k have "sc_block (\<sigma> k) = i \<and> \<sigma> (Suc k) = (main_block i (\<sigma> k))\<lparr>sc_block := Suc i\<rparr>"
    by auto
  then show ?thesis using k m1 by (intro exI [of _ k]) auto
qed

text \<open>While a worker is not started, its time stands still and its token, once there, waits.\<close>

lemma waiting:
  assumes "run \<sigma>" and "(w, p, g) \<in> set blocks"
    and none: "\<And>m. n \<le> m \<Longrightarrow> start_times w (sc_log (\<sigma> m)) = start_times w (sc_log (\<sigma> n))"
  shows "sc_tOld (\<sigma> (n + d)) w = sc_tOld (\<sigma> n) w \<and> (sc_ch (\<sigma> n) w > 0 \<longrightarrow> sc_ch (\<sigma> (n + d)) w > 0)"
proof (induction d)
  case (Suc d)
  have "sched_step (\<sigma> (n + d)) (\<sigma> (Suc (n + d)))" using assms(1) by (simp add: run_def)
  from step_kept [OF this assms(2)] Suc none [of "n + d"] none [of "Suc (n + d)"] show ?case
    by (auto simp: started_or_kept_def)
qed simp

lemma log_grows:
  assumes "run \<sigma>" and "(w, p, g) \<in> set blocks"
  shows "\<exists>xs. start_times w (sc_log (\<sigma> (n + d))) = start_times w (sc_log (\<sigma> n)) @ xs"
proof (induction d)
  case (Suc d)
  have "sched_step (\<sigma> (n + d)) (\<sigma> (Suc (n + d)))" using assms(1) by (simp add: run_def)
  from step_kept [OF this assms(2)] Suc show ?case by (auto simp: started_or_kept_def)
qed simp

lemma block_index: "b \<in> set blocks \<Longrightarrow> \<exists>i. 0 < i \<and> i < 8 \<and> blocks ! (i - 1) = b"
proof -
  assume "b \<in> set blocks"
  then obtain k where "k < length blocks" "blocks ! k = b" by (auto simp: in_set_conv_nth)
  then show ?thesis by (intro exI [of _ "Suc k"]) (simp add: blocks_def)
qed

lemma block_starts:
  assumes "0 < i" and "blocks ! (i - 1) = (w, p, g)" and "p \<le> sc_tNow s - sc_tOld s w" and "sc_ch s w > 0" and "g (sc_status s)"
  shows "start_times w (sc_log (main_block i s)) = start_times w (sc_log s) @ [sc_tNow s]"
  using assms by (simp add: main_block_def periodic_def launch_def start_times_append)

text \<open>
  C11. No worker of the main loop starves: in a run in which the loop goes on with an advancing clock, a worker that always comes to
  its end, and whose condition on the status holds from some point on, is started again after every point.
\<close>
theorem periodic_again:
  assumes "run \<sigma>" and "clock_advances \<sigma>" and "(w, p, g) \<in> set blocks" and "worker_ends w \<sigma>"
    and "\<exists>N. \<forall>n\<ge>N. g (sc_status (\<sigma> n))"
  shows "\<exists>m\<ge>n. \<exists>t ts. start_times w (sc_log (\<sigma> m)) = start_times w (sc_log (\<sigma> n)) @ t # ts"
proof (rule ccontr)
  assume not: "\<not> ?thesis"
  have same: "start_times w (sc_log (\<sigma> m)) = start_times w (sc_log (\<sigma> n))" if "n \<le> m" for m
    using log_grows [OF assms(1,3), of n "m - n"] that not by (auto simp: neq_Nil_conv) (metis append_Nil2 neq_Nil_conv)
  obtain N where N: "\<And>k. N \<le> k \<Longrightarrow> g (sc_status (\<sigma> k))" using assms(5) by blast
  obtain i where i: "0 < i" "i < 8" "blocks ! (i - 1) = (w, p, g)" using block_index [OF assms(3)] by blast
  obtain k where k: "max n N \<le> k" "sc_run (\<sigma> k) w = 0" using assms(4) unfolding worker_ends_def by blast
  have ch: "sc_ch (\<sigma> k) w > 0" using run_tokens [OF assms(1), of k] k(2) by (auto simp: tokens_def dest: spec [of _ w])
  obtain m where m: "k \<le> m" "sc_block (\<sigma> m) = i" "sc_tOld (\<sigma> k) w + p \<le> sc_tNow (\<sigma> m)"
      "\<sigma> (Suc m) = (main_block i (\<sigma> m))\<lparr>sc_block := Suc i\<rparr>"
    using round_block [OF assms(1,2) i(2)] by blast
  have none: "start_times w (sc_log (\<sigma> j)) = start_times w (sc_log (\<sigma> k))" if "k \<le> j" for j
    using same [OF le_trans [OF _ that]] same [of k] k(1) by (metis max.boundedE)
  have w: "sc_tOld (\<sigma> m) w = sc_tOld (\<sigma> k) w \<and> sc_ch (\<sigma> m) w > 0"
    using waiting [OF assms(1,3) none, of "m - k"] ch m(1) by auto
  have "start_times w (sc_log (main_block i (\<sigma> m))) = start_times w (sc_log (\<sigma> m)) @ [sc_tNow (\<sigma> m)]"
    by (rule block_starts [OF i(1,3)]) (use w m(3) N [of m] k(1) m(1) in auto)
  moreover have "sc_log (\<sigma> (Suc m)) = sc_log (main_block i (\<sigma> m))" by (simp only: m(4)) simp
  ultimately have "start_times w (sc_log (\<sigma> (Suc m))) = start_times w (sc_log (\<sigma> m)) @ [sc_tNow (\<sigma> m)]" by simp
  then show False using same [of m] same [of "Suc m"] k(1) m(1) by simp
qed

subsection \<open>A fair run\<close>

text \<open>Workers end at once, managers find no challenge, and rounds are an hour apart.\<close>

definition all_workers :: "worker list" where
  "all_workers = [SyncMinerW, SyncTeeW, ReportW, GenIdleW, CertIdleW, CalcTagW, IdleChallW, ServiceChallW, ReplaceIdleW, RestoreW]"

definition next_step :: "sched \<Rightarrow> sched" where
  "next_step s =
     (case List.find (\<lambda>w. sc_run s w > 0) all_workers of
        Some w \<Rightarrow> finish w s
      | None \<Rightarrow>
          (if sc_mgr s \<noteq> [] then s\<lparr>sc_mgr := put_mgr 0 (ChallengeMgt (Inr (False, demo_challenge)) (Inr 0)) (sc_mgr s),
             sc_answers := sc_answers s @ [(Inr (False, demo_challenge), Inr 0)]\<rparr>
           else if sc_block s < 8 then (main_block (sc_block s) s)\<lparr>sc_block := Suc (sc_block s)\<rparr>
           else s\<lparr>sc_tNow := sc_tNow s + 3600, sc_block := 0\<rparr>))"

definition calm :: "sched \<Rightarrow> bool" where
  "calm s \<longleftrightarrow> tokens s \<and> set (sc_mgr s) \<subseteq> {MQuery} \<and> sc_block s \<le> 8 \<and> sc_status s = NewRunstatus"

definition idle_state :: "sched \<Rightarrow> bool" where
  "idle_state s \<longleftrightarrow> calm s \<and> (\<forall>w. sc_run s w = 0) \<and> sc_mgr s = [] \<and> sc_block s = 8"

text \<open>What is left to do in a round.\<close>

definition to_do :: "sched \<Rightarrow> nat" where
  "to_do s = sum_list (map (sc_run s) all_workers) + length (sc_mgr s) + 2 * (8 - sc_block s)"

lemma all_workers: "w \<in> set all_workers" "distinct all_workers"
  by (cases w) (simp_all add: all_workers_def)

lemma next_step_cases:
  obtains (Finish) w where "sc_run s w > 0" "next_step s = finish w s"
  | (Query) "\<forall>w. sc_run s w = 0" "sc_mgr s \<noteq> []" "next_step s = s\<lparr>sc_mgr := tl (sc_mgr s),
      sc_answers := sc_answers s @ [(Inr (False, demo_challenge), Inr 0)]\<rparr>"
  | (Block) "\<forall>w. sc_run s w = 0" "sc_mgr s = []" "sc_block s < 8" "next_step s = (main_block (sc_block s) s)\<lparr>sc_block := Suc (sc_block s)\<rparr>"
  | (Round) "\<forall>w. sc_run s w = 0" "sc_mgr s = []" "8 \<le> sc_block s" "next_step s = s\<lparr>sc_tNow := sc_tNow s + 3600, sc_block := 0\<rparr>"
proof (cases "List.find (\<lambda>w. sc_run s w > 0) all_workers")
  case None
  then have "\<forall>w. sc_run s w = 0" using all_workers(1) by (auto simp: find_None_iff)
  moreover have "put_mgr 0 (ChallengeMgt (Inr (False, demo_challenge)) (Inr 0)) ms = tl ms" for ms
    by (simp add: ChallengeMgt_def put_mgr_def drop_Suc)
  then have "next_step s = (if sc_mgr s \<noteq> [] then s\<lparr>sc_mgr := tl (sc_mgr s),
        sc_answers := sc_answers s @ [(Inr (False, demo_challenge), Inr 0)]\<rparr>
      else if sc_block s < 8 then (main_block (sc_block s) s)\<lparr>sc_block := Suc (sc_block s)\<rparr>
      else s\<lparr>sc_tNow := sc_tNow s + 3600, sc_block := 0\<rparr>)"
    unfolding next_step_def None option.case by simp
  ultimately show ?thesis using that(2-4) by (metis not_less)
next
  case (Some w)
  then have "sc_run s w > 0" by (auto simp: find_Some_iff)
  then show ?thesis using Some that(1) [of w] by (simp add: next_step_def)
qed

lemma main_block_status [simp]: "sc_status (main_block i s) = sc_status s" "sc_tNow (main_block i s) = sc_tNow s"
    "sc_block (main_block i s) = sc_block s"
  by (simp_all add: main_block_def challenge_block_def periodic_def launch_def split: prod.split)

lemma finish_simps [simp]: "sc_status (finish w s) = sc_status s" "sc_tNow (finish w s) = sc_tNow s"
    "sc_block (finish w s) = sc_block s" "sc_run (finish w s) = (sc_run s)(w := sc_run s w - 1)"
  by (simp_all add: finish_def)

lemma next_step_step: "calm s \<Longrightarrow> sched_step s (next_step s)"
proof (cases rule: next_step_cases [of s])
  case (Finish w)
  assume "calm s"
  then have "sc_ch s w + sc_run s w = 1" by (simp add: calm_def tokens_def)
  with Finish show ?thesis by (auto intro: sched_step.Finish)
next
  case Query
  assume c: "calm s"
  have "sched_step s (s\<lparr>sc_mgr := put_mgr 0 (ChallengeMgt (Inr (False, demo_challenge)) (Inr 0)) (sc_mgr s),
      sc_answers := sc_answers s @ [(Inr (False, demo_challenge), Inr 0)]\<rparr>)"
    using c Query(2) by (intro sched_step.Query) (auto simp: calm_def neq_Nil_conv)
  then show ?thesis using Query by (simp add: ChallengeMgt_def put_mgr_def drop_Suc)
next
  case Block
  then show ?thesis by (simp add: sched_step.Block)
next
  case Round
  assume "calm s"
  with Round show ?thesis by (auto simp: calm_def intro: sched_step.Round)
qed

lemma next_step_calm: "calm s \<Longrightarrow> calm (next_step s)"
proof (cases rule: next_step_cases [of s])
  case (Finish w)
  assume "calm s"
  then show ?thesis using Finish by (simp add: calm_def finish_tokens)
next
  case Query
  assume "calm s"
  then show ?thesis using Query by (auto simp: calm_def dest: list.set_sel(2))
next
  case Block
  assume "calm s"
  then show ?thesis using Block main_block_mgr [of "sc_block s" s] by (auto simp: calm_def main_block_tokens)
next
  case Round
  assume "calm s"
  then show ?thesis using Round by (simp add: calm_def)
qed

lemma sum_run_upd: "sum_list (map (f(w := n :: nat)) all_workers) + f w = sum_list (map f all_workers) + n"
  by (cases w) (simp_all add: all_workers_def)

lemma launch_to_do: "sum_list (map (sc_run (launch w x s)) all_workers) = Suc (sum_list (map (sc_run s) all_workers))"
  using sum_run_upd [of "sc_run s" w "sc_run s w + 1"] by (simp add: launch_def)

lemma main_block_to_do: "sc_block s < 8 \<Longrightarrow> to_do ((main_block (sc_block s) s)\<lparr>sc_block := Suc (sc_block s)\<rparr>) < to_do s"
proof -
  assume b: "sc_block s < 8"
  have "sum_list (map (sc_run (main_block i s)) all_workers) + length (sc_mgr (main_block i s))
      \<le> Suc (sum_list (map (sc_run s) all_workers) + length (sc_mgr s))" for i
    using launch_to_do by (simp add: main_block_def challenge_block_def periodic_def split: prod.split) (simp add: launch_def)
  from this [of "sc_block s"] b show ?thesis by (simp add: to_do_def)
qed

lemma finish_to_do: "sc_run s w > 0 \<Longrightarrow> to_do (finish w s) < to_do s"
  using sum_run_upd [of "sc_run s" w "sc_run s w - 1"] by (simp add: to_do_def)

lemma reaches_idle:
  assumes "calm s"
  shows "\<exists>k. idle_state ((next_step ^^ k) s) \<and> sc_tNow ((next_step ^^ k) s) = sc_tNow s"
  using assms
proof (induction "to_do s" arbitrary: s rule: less_induct)
  case less
  have step: ?case if d: "to_do (next_step s) < to_do s" and n: "sc_tNow (next_step s) = sc_tNow s"
  proof -
    obtain k where "idle_state ((next_step ^^ k) (next_step s)) \<and> sc_tNow ((next_step ^^ k) (next_step s)) = sc_tNow s"
      using less.hyps [OF d next_step_calm [OF less.prems]] n by auto
    then show ?thesis by (intro exI [of _ "Suc k"]) (simp add: funpow_swap1)
  qed
  show ?case
  proof (cases rule: next_step_cases [of s])
    case (Finish w)
    then show ?thesis by (intro step) (simp_all add: finish_to_do)
  next
    case Query
    then show ?thesis by (intro step) (auto simp: to_do_def neq_Nil_conv)
  next
    case Block
    then show ?thesis by (intro step) (simp_all add: main_block_to_do)
  next
    case Round
    then have "idle_state s" using less.prems by (simp add: idle_state_def calm_def)
    then show ?thesis by (intro exI [of _ 0]) simp
  qed
qed

definition fair_run :: "nat \<Rightarrow> sched" where
  "fair_run n = (next_step ^^ n) (Start 0 NewRunstatus)"

lemma fair_run_calm: "calm (fair_run n)"
proof (induction n)
  case 0
  show ?case by (simp add: fair_run_def calm_def tokens_def Start_def)
qed (simp add: fair_run_def next_step_calm)

lemma fair_run_add: "fair_run (n + k) = (next_step ^^ k) (fair_run n)"
  by (simp add: fair_run_def funpow_add add.commute)

lemma fair_run_idle: "\<exists>m\<ge>n. idle_state (fair_run m) \<and> sc_tNow (fair_run m) = sc_tNow (fair_run n)"
  using reaches_idle [OF fair_run_calm [of n]] by (metis fair_run_add le_add1)

lemma fair_run_round: "\<exists>m\<ge>n. sc_block (fair_run m) = 0 \<and> sc_tNow (fair_run m) = sc_tNow (fair_run n) + 3600"
proof -
  obtain m where m: "n \<le> m" "idle_state (fair_run m)" "sc_tNow (fair_run m) = sc_tNow (fair_run n)" using fair_run_idle by blast
  have "find (\<lambda>w. sc_run (fair_run m) w > 0) all_workers = None" using m(2) by (simp add: idle_state_def find_None_iff)
  then have "next_step (fair_run m) = (fair_run m)\<lparr>sc_tNow := sc_tNow (fair_run m) + 3600, sc_block := 0\<rparr>"
    using m(2) by (simp add: next_step_def idle_state_def)
  moreover have "fair_run (Suc m) = next_step (fair_run m)" by (simp add: fair_run_def)
  ultimately show ?thesis using m by (intro exI [of _ "Suc m"]) simp
qed

lemma fair_run_fair: "run fair_run" "clock_advances fair_run" "worker_ends w fair_run"
proof -
  have "sched_step (fair_run n) (fair_run (Suc n))" for n
    using next_step_step [OF fair_run_calm [of n]] by (simp add: fair_run_def)
  then show "run fair_run" unfolding run_def by (auto simp: fair_run_def [of 0])
  have "\<exists>m\<ge>n. sc_block (fair_run m) = 0 \<and> sc_tNow (fair_run n) + 3600 * int k \<le> sc_tNow (fair_run m)" for n k
  proof (induction k)
    case 0
    show ?case using fair_run_round [of n] by fastforce
  next
    case (Suc k)
    then obtain m where "n \<le> m" "sc_tNow (fair_run n) + 3600 * int k \<le> sc_tNow (fair_run m)" by blast
    moreover obtain m' where "m \<le> m'" "sc_block (fair_run m') = 0" "sc_tNow (fair_run m') = sc_tNow (fair_run m) + 3600"
      using fair_run_round [of m] by blast
    ultimately show ?case by (intro exI [of _ m']) simp
  qed
  from this [of _ "nat (T - sc_tNow (fair_run n))" for T n] show "clock_advances fair_run"
    unfolding clock_advances_def by (smt (verit) int_nat_eq)
  show "worker_ends w fair_run" unfolding worker_ends_def using fair_run_idle by (auto simp: idle_state_def)
qed

theorem periodic_again_witness:
  "run fair_run \<and> (\<exists>m. \<exists>t ts. start_times GenIdleW (sc_log (fair_run m)) = t # ts)"
proof -
  have b: "(GenIdleW, 40, no_challenge) \<in> set blocks" by (simp add: blocks_def)
  have g: "\<exists>N. \<forall>n\<ge>N. no_challenge (sc_status (fair_run n))"
  proof -
    have "no_challenge NewRunstatus" by code_simp
    then show ?thesis using fair_run_calm by (auto simp: calm_def)
  qed
  from periodic_again [OF fair_run_fair(1,2) b fair_run_fair(3) g, of 0] show ?thesis
    using fair_run_fair(1) by (auto simp: fair_run_def Start_def)
qed

end
