(* ===== verification/Logger.thy ===== *)
theory Logger
  imports GoFiles
begin

text \<open>
  The log files (\<^verbatim>\<open>src/node/logger/logger.go\<close>): twelve loggers, each with a file of its own.

  A logger of the zap library is the path of the file it writes to, and \<open>None\<close> is a nil pointer, whose use panics. What
  is handed to the library is kept as a list of entries. Time, layout and rotation of the files are the library's.
\<close>

datatype level = InfoLevel | ErrorLevel

record entry =
  en_file :: string
  en_level :: level
  en_msg :: string

record logs =
  logpath :: "(string \<times> string) list"
  log_log :: "string option"
  log_pnc :: "string option"
  log_space :: "string option"
  log_report :: "string option"
  log_replace :: "string option"
  log_ichal :: "string option"
  log_schal :: "string option"
  log_stag :: "string option"
  log_restore :: "string option"
  log_del :: "string option"
  log_putf :: "string option"
  log_getf :: "string option"

definition LogFiles :: "string list" where
  "LogFiles = [''log'', ''panic'', ''space'', ''report'', ''replace'', ''ichal'', ''schal'', ''stag'', ''restore'', ''delete'',
     ''putf'', ''getf'']"

definition no_logs :: logs where
  "no_logs = \<lparr>logpath = [], log_log = None, log_pnc = None, log_space = None, log_report = None, log_replace = None,
     log_ichal = None, log_schal = None, log_stag = None, log_restore = None, log_del = None, log_putf = None, log_getf = None\<rparr>"

subsection \<open>Opening\<close>

text \<open>\<open>cwd\<close> is the working directory, which \<^verbatim>\<open>filepath.Abs\<close> puts in front of a relative path; \<open>None\<close> is the panic of
  a slice with a negative bound.\<close>

definition getFilePath :: "string \<Rightarrow> string \<Rightarrow> string option" where
  "getFilePath cwd fpath =
     (let p = (if rooted fpath then Clean fpath else Join [cwd, fpath]) in
      if CHR ''/'' \<in> set p then Some (rev (tl (dropWhile (\<lambda>c. c \<noteq> CHR ''/'') (rev p)))) else None)"

text \<open>The switch of \<^verbatim>\<open>NewLogger\<close>: whether the name is known, and the loggers then.\<close>

definition set_logger :: "string \<Rightarrow> string \<Rightarrow> logs \<Rightarrow> logs option" where
  "set_logger name f l =
     (if name = ''log'' then Some (l\<lparr>log_log := Some f\<rparr>)
      else if name = ''panic'' then Some (l\<lparr>log_pnc := Some f\<rparr>)
      else if name = ''space'' then Some (l\<lparr>log_space := Some f\<rparr>)
      else if name = ''report'' then Some (l\<lparr>log_report := Some f\<rparr>)
      else if name = ''replace'' then Some (l\<lparr>log_replace := Some f\<rparr>)
      else if name = ''ichal'' then Some (l\<lparr>log_ichal := Some f\<rparr>)
      else if name = ''schal'' then Some (l\<lparr>log_schal := Some f\<rparr>)
      else if name = ''stag'' then Some (l\<lparr>log_stag := Some f\<rparr>)
      else if name = ''restore'' then Some (l\<lparr>log_restore := Some f\<rparr>)
      else if name = ''delete'' then Some (l\<lparr>log_del := Some f\<rparr>)
      else if name = ''putf'' then Some (l\<lparr>log_putf := Some f\<rparr>)
      else if name = ''getf'' then Some (l\<lparr>log_getf := Some f\<rparr>)
      else None)"

definition log_dir :: "fs \<Rightarrow> string \<Rightarrow> fs \<times> goerr option" where
  "log_dir fs dir = (case os_Stat fs dir of Inr _ \<Rightarrow> (fs, None) | Inl _ \<Rightarrow> os_MkdirAll fs dir)"

text \<open>The map of names and paths is given in the order of the iteration.\<close>

fun open_loggers ::
  "string \<Rightarrow> (string \<times> string) list \<Rightarrow> logs \<Rightarrow> fs \<times> entry list \<Rightarrow> (fs \<times> entry list, logs result) outcome" where
  "open_loggers cwd [] l (fs, es) = Ret (Inr l) (fs, es)"
| "open_loggers cwd ((name, fpath) # rest) l (fs, es) =
     (case getFilePath cwd fpath of
        None \<Rightarrow> Panic (fs, es)
      | Some dir \<Rightarrow>
          (case log_dir fs dir of
             (fs1, Some e) \<Rightarrow> Ret (Inl (mk_err (dir @ '','' @ err_msg e))) (fs1, es)
           | (fs1, None) \<Rightarrow>
               (case set_logger name fpath l of
                  None \<Rightarrow> open_loggers cwd rest (l\<lparr>logpath := (name, fpath) # logpath l\<rparr>) (fs1, es)
                | Some l1 \<Rightarrow> open_loggers cwd rest (l1\<lparr>logpath := (name, fpath) # logpath l\<rparr>)
                    (fs1, es @ [\<lparr>en_file = fpath, en_level = InfoLevel, en_msg = fpath\<rparr>]))))"

definition NewLogger :: "string \<Rightarrow> (string \<times> string) list \<Rightarrow> fs \<times> entry list \<Rightarrow> (fs \<times> entry list, logs result) outcome" where
  "NewLogger cwd logfiles s = open_loggers cwd logfiles no_logs s"

subsection \<open>Writing\<close>

text \<open>\<open>at\<close> is what \<^verbatim>\<open>runtime.Caller\<close> says of the caller: file and line. Another level than \<^verbatim>\<open>info\<close> and \<^verbatim>\<open>err\<close> writes
  nothing.\<close>

definition located :: "string \<times> nat \<Rightarrow> string \<Rightarrow> string" where
  "located at msg = ''['' @ Base (fst at) @ '':'' @ show_nat (snd at) @ ''] '' @ msg"

definition write_entry :: "string option \<Rightarrow> level \<Rightarrow> string \<times> nat \<Rightarrow> string \<Rightarrow> entry list \<Rightarrow> (entry list, unit) outcome" where
  "write_entry lg lv at msg es =
     (case lg of
        None \<Rightarrow> Panic es
      | Some f \<Rightarrow> Ret () (es @ [\<lparr>en_file = f, en_level = lv, en_msg = located at msg\<rparr>]))"

definition at_level :: "string option \<Rightarrow> string \<times> nat \<Rightarrow> string \<Rightarrow> string \<Rightarrow> entry list \<Rightarrow> (entry list, unit) outcome" where
  "at_level lg at lv msg es =
     (if lv = ''info'' then write_entry lg InfoLevel at msg es
      else if lv = ''err'' then write_entry lg ErrorLevel at msg es
      else Ret () es)"

definition Log :: "logs \<Rightarrow> string \<times> nat \<Rightarrow> string \<Rightarrow> string \<Rightarrow> entry list \<Rightarrow> (entry list, unit) outcome" where
  "Log l = at_level (log_log l)"

definition Pnc :: "logs \<Rightarrow> string \<times> nat \<Rightarrow> string \<Rightarrow> entry list \<Rightarrow> (entry list, unit) outcome" where
  "Pnc l at msg es = write_entry (log_pnc l) ErrorLevel at msg es"

definition Space :: "logs \<Rightarrow> string \<times> nat \<Rightarrow> string \<Rightarrow> string \<Rightarrow> entry list \<Rightarrow> (entry list, unit) outcome" where
  "Space l = at_level (log_space l)"

definition Report_log :: "logs \<Rightarrow> string \<times> nat \<Rightarrow> string \<Rightarrow> string \<Rightarrow> entry list \<Rightarrow> (entry list, unit) outcome" where
  "Report_log l = at_level (log_report l)"

definition Replace :: "logs \<Rightarrow> string \<times> nat \<Rightarrow> string \<Rightarrow> string \<Rightarrow> entry list \<Rightarrow> (entry list, unit) outcome" where
  "Replace l = at_level (log_replace l)"

definition Ichal :: "logs \<Rightarrow> string \<times> nat \<Rightarrow> string \<Rightarrow> string \<Rightarrow> entry list \<Rightarrow> (entry list, unit) outcome" where
  "Ichal l = at_level (log_ichal l)"

definition Schal :: "logs \<Rightarrow> string \<times> nat \<Rightarrow> string \<Rightarrow> string \<Rightarrow> entry list \<Rightarrow> (entry list, unit) outcome" where
  "Schal l = at_level (log_schal l)"

definition Stag :: "logs \<Rightarrow> string \<times> nat \<Rightarrow> string \<Rightarrow> string \<Rightarrow> entry list \<Rightarrow> (entry list, unit) outcome" where
  "Stag l = at_level (log_stag l)"

definition Restore_log :: "logs \<Rightarrow> string \<times> nat \<Rightarrow> string \<Rightarrow> string \<Rightarrow> entry list \<Rightarrow> (entry list, unit) outcome" where
  "Restore_log l = at_level (log_restore l)"

definition Del :: "logs \<Rightarrow> string \<times> nat \<Rightarrow> string \<Rightarrow> string \<Rightarrow> entry list \<Rightarrow> (entry list, unit) outcome" where
  "Del l = at_level (log_del l)"

definition Putf :: "logs \<Rightarrow> string \<times> nat \<Rightarrow> string \<Rightarrow> string \<Rightarrow> entry list \<Rightarrow> (entry list, unit) outcome" where
  "Putf l = at_level (log_putf l)"

definition Getf :: "logs \<Rightarrow> string \<times> nat \<Rightarrow> string \<Rightarrow> string \<Rightarrow> entry list \<Rightarrow> (entry list, unit) outcome" where
  "Getf l = at_level (log_getf l)"

lemmas logger_methods = Log_def Pnc_def Space_def Report_log_def Replace_def Ichal_def Schal_def Stag_def Restore_log_def Del_def
  Putf_def Getf_def

subsection \<open>Every message goes to its own file\<close>

text \<open>The method that belongs to a name of \<^verbatim>\<open>LogFiles\<close>; the panic log has one level only.\<close>

definition method_of :: "string \<Rightarrow> logs \<Rightarrow> string \<times> nat \<Rightarrow> string \<Rightarrow> string \<Rightarrow> entry list \<Rightarrow> (entry list, unit) outcome" where
  "method_of name l at lv msg es =
     (if name = ''log'' then Log l at lv msg es
      else if name = ''panic'' then (if lv = ''err'' then Pnc l at msg es else Ret () es)
      else if name = ''space'' then Space l at lv msg es
      else if name = ''report'' then Report_log l at lv msg es
      else if name = ''replace'' then Replace l at lv msg es
      else if name = ''ichal'' then Ichal l at lv msg es
      else if name = ''schal'' then Schal l at lv msg es
      else if name = ''stag'' then Stag l at lv msg es
      else if name = ''restore'' then Restore_log l at lv msg es
      else if name = ''delete'' then Del l at lv msg es
      else if name = ''putf'' then Putf l at lv msg es
      else Getf l at lv msg es)"

text \<open>The loggers as a function of the name, and what opening does to it.\<close>

definition logger_of :: "string \<Rightarrow> logs \<Rightarrow> string option" where
  "logger_of name l =
     (if name = ''log'' then log_log l else if name = ''panic'' then log_pnc l else if name = ''space'' then log_space l
      else if name = ''report'' then log_report l else if name = ''replace'' then log_replace l
      else if name = ''ichal'' then log_ichal l else if name = ''schal'' then log_schal l else if name = ''stag'' then log_stag l
      else if name = ''restore'' then log_restore l else if name = ''delete'' then log_del l else if name = ''putf'' then log_putf l
      else log_getf l)"

lemma logger_of_path [simp]: "logger_of name (l\<lparr>logpath := p\<rparr>) = logger_of name l"
  by (simp add: logger_of_def)

lemma set_logger_known: "name \<in> set LogFiles \<Longrightarrow> set_logger name f l \<noteq> None"
  by (auto simp: LogFiles_def set_logger_def)

lemma set_logger_cases:
  assumes "set_logger name f l = Some l1"
  shows "name = ''log'' \<and> l1 = l\<lparr>log_log := Some f\<rparr> \<or> name = ''panic'' \<and> l1 = l\<lparr>log_pnc := Some f\<rparr>
    \<or> name = ''space'' \<and> l1 = l\<lparr>log_space := Some f\<rparr> \<or> name = ''report'' \<and> l1 = l\<lparr>log_report := Some f\<rparr>
    \<or> name = ''replace'' \<and> l1 = l\<lparr>log_replace := Some f\<rparr> \<or> name = ''ichal'' \<and> l1 = l\<lparr>log_ichal := Some f\<rparr>
    \<or> name = ''schal'' \<and> l1 = l\<lparr>log_schal := Some f\<rparr> \<or> name = ''stag'' \<and> l1 = l\<lparr>log_stag := Some f\<rparr>
    \<or> name = ''restore'' \<and> l1 = l\<lparr>log_restore := Some f\<rparr> \<or> name = ''delete'' \<and> l1 = l\<lparr>log_del := Some f\<rparr>
    \<or> name = ''putf'' \<and> l1 = l\<lparr>log_putf := Some f\<rparr> \<or> name = ''getf'' \<and> l1 = l\<lparr>log_getf := Some f\<rparr>"
  using assms by (auto simp: set_logger_def split: if_splits)

lemma set_logger_same: "set_logger name f l = Some l1 \<Longrightarrow> logger_of name l1 = Some f"
  by (drule set_logger_cases) (elim disjE; simp add: logger_of_def)

lemma set_logger_other: "set_logger name f l = Some l1 \<Longrightarrow> k \<noteq> name \<Longrightarrow> k \<in> set LogFiles \<Longrightarrow> logger_of k l1 = logger_of k l"
  by (drule set_logger_cases) (elim disjE; clarsimp simp: logger_of_def LogFiles_def)

lemma open_loggers_of:
  assumes "open_loggers cwd files l s = Ret (Inr l') s'" and "distinct (map fst files)" and "k \<in> set LogFiles"
  shows "logger_of k l' = (case map_of files k of Some f \<Rightarrow> Some f | None \<Rightarrow> logger_of k l)"
  using assms
proof (induction cwd files l s rule: open_loggers.induct)
  case (2 cwd name fpath rest l fs es)
  obtain dir where d: "getFilePath cwd fpath = Some dir" using 2(3) by (auto split: option.splits)
  obtain fs1 where f: "log_dir fs dir = (fs1, None)" using 2(3) d by (auto split: prod.splits option.splits)
  show ?case
  proof (cases "set_logger name fpath l")
    case None
    then have "k \<noteq> name" using set_logger_known 2(5) by blast
    then show ?thesis using 2(1) [OF d f [symmetric] refl None] 2(3-5) d f None by (simp split: option.split)
  next
    case (Some l1)
    from 2(4) have n: "map_of rest name = None" by (auto simp: map_of_eq_None_iff)
    have "logger_of k l' = (case map_of rest k of Some f \<Rightarrow> Some f | None \<Rightarrow> logger_of k l1)"
      using 2(2) [OF d f [symmetric] refl Some] 2(3-5) d f Some by (simp split: option.split)
    then show ?thesis using n set_logger_same [OF Some] set_logger_other [OF Some _ 2(5)]
      by (cases "k = name") (auto split: option.splits)
  qed
qed simp

lemma method_of_logger:
  assumes "logger_of name l = Some f" and "name \<in> set LogFiles"
  shows "method_of name l at lv msg es = Ret () (es @
    (if lv = ''err'' then [\<lparr>en_file = f, en_level = ErrorLevel, en_msg = located at msg\<rparr>]
     else if lv = ''info'' \<and> name \<noteq> ''panic'' then [\<lparr>en_file = f, en_level = InfoLevel, en_msg = located at msg\<rparr>] else []))"
proof -
  have m: "method_of name l at lv msg es =
      (if name = ''panic'' \<and> lv \<noteq> ''err'' then Ret () es else at_level (logger_of name l) at lv msg es)"
    by (simp add: method_of_def logger_of_def logger_methods at_level_def)
  show ?thesis by (simp add: m assms(1) at_level_def write_entry_def)
qed

text \<open>Opening loggers makes directories only.\<close>

lemma open_loggers_files:
  "file_at (fst (outcome_state (open_loggers cwd files l s))) q = file_at (fst s) q
    \<and> (is_dir (fst s) d \<longrightarrow> is_dir (fst (outcome_state (open_loggers cwd files l s))) d)"
proof (induction cwd files l s rule: open_loggers.induct)
  case (2 cwd name fpath rest l fs es)
  have keep: "file_at fs1 q = file_at fs q \<and> (is_dir fs d \<longrightarrow> is_dir fs1 d)" if "log_dir fs dir = (fs1, e)" for dir fs1 e
    using that by (auto simp: log_dir_def split: sum.splits dest: os_MkdirAll_file os_MkdirAll_dir)
  show ?case
  proof (cases "getFilePath cwd fpath")
    case (Some dir)
    obtain fs1 e where f: "log_dir fs dir = (fs1, e)" by fastforce
    show ?thesis
    proof (cases e)
      case None
      show ?thesis using 2(1) [OF Some f [symmetric] None] 2(2) [OF Some f [symmetric] None] keep [OF f]
        by (cases "set_logger name fpath l") (auto simp: Some f None)
    qed (use keep [OF f] in \<open>simp add: Some f\<close>)
  qed simp
qed simp

end
