(* ===== verification/Server.thy ===== *)
theory Server
  imports Web
begin

text \<open>
  The web server as a whole (\<^verbatim>\<open>src/node/web/handler.go\<close>, the routes of \<^verbatim>\<open>fragment.go\<close> and \<^verbatim>\<open>status.go\<close>, \<^verbatim>\<open>InitWebServer\<close> and
  \<^verbatim>\<open>InitMiddlewares\<close> of \<^verbatim>\<open>src/node/init.go\<close>, the header names of \<^verbatim>\<open>src/node/common/http.go\<close>): the table of routes, the
  middlewares in front of it, and what one request does to the node.

  The router and the cross-origin middleware are third-party code, the record \<open>webLib\<close>.
\<close>

subsection \<open>Requests\<close>

definition Header_Account :: string where "Header_Account = ''Account''"
definition Header_Message :: string where "Header_Message = ''Message''"
definition Header_Signature :: string where "Header_Signature = ''Signature''"
definition Header_Fid :: string where "Header_Fid = ''Fid''"
definition Header_Fragment :: string where "Header_Fragment = ''Fragment''"
definition Header_Range :: string where "Header_Range = ''Range''"
definition Header_ContentType :: string where "Header_ContentType = ''Content-Type''"
definition Header_X_Forwarded_For :: string where "Header_X_Forwarded_For = ''X-Forwarded-For''"

record request =
  rq_method :: string
  rq_path :: string
  rq_header :: "string \<Rightarrow> string"
  rq_query :: "string \<Rightarrow> string option"
  rq_form :: formfile

subsection \<open>Routes and middlewares\<close>

datatype handler = Putfragment | Getfragment | StatusPage | Getfile | Getfilelist

text \<open>\<open>rt_signed\<close>: the route belongs to the group whose requests pass the signature check first.\<close>

record route =
  rt_method :: string
  rt_path :: string
  rt_signed :: bool
  rt_handler :: handler

definition fragment_routes :: "route list" where
  "fragment_routes =
     [\<lparr>rt_method = ''PUT'', rt_path = ''/fragment'', rt_signed = True, rt_handler = Putfragment\<rparr>,
      \<lparr>rt_method = ''GET'', rt_path = ''/fragment'', rt_signed = True, rt_handler = Getfragment\<rparr>]"

definition status_routes :: "route list" where
  "status_routes =
     [\<lparr>rt_method = ''GET'', rt_path = ''/status'', rt_signed = False, rt_handler = StatusPage\<rparr>,
      \<lparr>rt_method = ''GET'', rt_path = ''/file/:name'', rt_signed = False, rt_handler = Getfile\<rparr>,
      \<lparr>rt_method = ''GET'', rt_path = ''/file/list'', rt_signed = False, rt_handler = Getfilelist\<rparr>]"

definition RegisterRoutes :: "route list \<Rightarrow> route list" where
  "RegisterRoutes rs = rs @ fragment_routes @ status_routes"

record corsConfig =
  AllowAllOrigins :: bool
  AllowHeaders :: "string list"
  AllowMethods :: "string list"

definition InitMiddlewares :: "corsConfig list" where
  "InitMiddlewares =
     [\<lparr>AllowAllOrigins = True,
       AllowHeaders = [Header_Account, Header_Message, Header_Signature, Header_Fid, Header_Fragment, Header_ContentType,
         Header_X_Forwarded_For],
       AllowMethods = [''PUT'', ''GET'', ''OPTION'']\<rparr>]"

record server =
  sv_mdls :: "corsConfig list"
  sv_routes :: "route list"
  sv_addr :: string

definition InitWebServer :: "corsConfig list \<Rightarrow> u16 \<Rightarrow> server" where
  "InitWebServer mdls port =
     \<lparr>sv_mdls = mdls, sv_routes = RegisterRoutes [], sv_addr = CHR '':'' # show_nat (unat port)\<rparr>"

subsection \<open>Serving a request\<close>

text \<open>\<open>x_cors\<close>: the status with which the cross-origin middleware answers a request itself, if it does. \<open>x_find\<close>: the route
  of the table that a method and a path select, with the value of the path's parameter.\<close>

record webLib =
  x_cors :: "corsConfig \<Rightarrow> request \<Rightarrow> int option"
  x_find :: "route list \<Rightarrow> string \<Rightarrow> string \<Rightarrow> (route \<times> string) option"
  x_sign :: signLib
  x_mtime :: "string \<Rightarrow> string"

datatype answer = Refused int | NoRoute | Reply resp | Status statusData | Listing "fileDetail list result"

fun pass :: "webLib \<Rightarrow> corsConfig list \<Rightarrow> request \<Rightarrow> int option" where
  "pass X [] rq = None"
| "pass X (m # ms) rq = (case x_cors X m rq of Some code \<Rightarrow> Some code | None \<Rightarrow> pass X ms rq)"

definition run_handler :: "env \<Rightarrow> webLib \<Rightarrow> nat \<Rightarrow> request \<Rightarrow> handler \<Rightarrow> string \<Rightarrow> world \<Rightarrow> (world, answer) outcome" where
  "run_handler E X fuel rq h name w =
     (case h of
        Putfragment \<Rightarrow>
          andThen (putfragment E fuel (rq_header rq Header_Fid) (rq_header rq Header_Fragment) (rq_form rq) w) (\<lambda>r. Ret (Reply r))
      | Getfragment \<Rightarrow>
          Ret (Reply (getfragment E (rq_header rq Header_Fid) (rq_header rq Header_Fragment) (rq_header rq Header_Range) w)) w
      | StatusPage \<Rightarrow> Ret (Status (getStatus (w_run w))) w
      | Getfile \<Rightarrow> Ret (Reply (getfile (w_fs w) (w_ws w) name (rq_query rq ''head'') (rq_query rq ''tail''))) w
      | Getfilelist \<Rightarrow> Ret (Listing (getfilelist (x_mtime X) (w_fs w) (w_ws w) (rq_query rq ''path''))) w)"

definition signature_ok :: "webLib \<Rightarrow> request \<Rightarrow> bool" where
  "signature_ok X rq \<longleftrightarrow>
     VerifySignature (x_sign X) (rq_header rq Header_Account) (rq_header rq Header_Message) (rq_header rq Header_Signature)
       = (True, None)"

definition serve :: "env \<Rightarrow> webLib \<Rightarrow> nat \<Rightarrow> server \<Rightarrow> request \<Rightarrow> world \<Rightarrow> (world, answer) outcome" where
  "serve E X fuel sv rq w =
     (case pass X (sv_mdls sv) rq of
        Some code \<Rightarrow> Ret (Refused code) w
      | None \<Rightarrow>
          (case x_find X (sv_routes sv) (rq_method rq) (rq_path rq) of
             None \<Rightarrow> Ret NoRoute w
           | Some (rt, name) \<Rightarrow>
               (if rt_signed rt \<and> \<not> signature_ok X rq then Ret (Reply (RespJson 403 ERR_InvalidSignature)) w
                else run_handler E X fuel rq (rt_handler rt) name w)))"

text \<open>The check in front of the group is the middleware \<open>guarded\<close>.\<close>

lemma serve_guarded:
  assumes "pass X (sv_mdls sv) rq = None" and "x_find X (sv_routes sv) (rq_method rq) (rq_path rq) = Some (rt, name)"
    and "rt_signed rt" and "rt_handler rt = Putfragment"
  shows "serve E X fuel sv rq w =
    andThen (guarded (x_sign X) (rq_header rq Header_Account) (rq_header rq Header_Message) (rq_header rq Header_Signature)
      (putfragment E fuel (rq_header rq Header_Fid) (rq_header rq Header_Fragment) (rq_form rq)) w) (\<lambda>r. Ret (Reply r))"
  using assms by (auto simp: serve_def guarded_def signature_ok_def run_handler_def split: prod.split)

subsection \<open>Uploads keep the files that are there\<close>

definition keeps_files :: "fs \<Rightarrow> fs \<Rightarrow> bool" where
  "keeps_files fs fs' \<longleftrightarrow> (\<forall>p d. file_at fs p = Some d \<longrightarrow> file_at fs' p = Some d)"

text \<open>A disk on which asking for a file does not fail by itself, and whose root is a directory.\<close>

definition readable :: "fs \<Rightarrow> bool" where
  "readable fs \<longleftrightarrow> (\<forall>p. \<not> ffault fs OpStat p) \<and> is_dir fs []"

lemma keeps_files_refl [simp]: "keeps_files fs fs"
  by (simp add: keeps_files_def)

lemma keeps_files_trans: "keeps_files f1 f2 \<Longrightarrow> keeps_files f2 f3 \<Longrightarrow> keeps_files f1 f3"
  by (simp add: keeps_files_def)

lemma keeps_files_put: "keeps_files fs fs1 \<Longrightarrow> file_at fs p = None \<Longrightarrow> keeps_files fs (put_node fs1 p (FileNode d))"
  by (auto simp: keeps_files_def fs_simps)

lemma missing_file: "os_Stat fs s = Inl e \<Longrightarrow> readable fs \<Longrightarrow> file_at fs (resolve s) = None"
  by (auto simp: os_Stat_def readable_def file_at_def is_dir_def resolve_def Let_def split: if_splits option.splits node.splits)

lemma mkdir_files:
  "os_MkdirAll fs s = (fs', e) \<Longrightarrow> readable fs \<Longrightarrow> readable fs' \<and> (\<forall>q. file_at fs' q = file_at fs q)"
  by (auto simp: readable_def os_MkdirAll_file os_MkdirAll_fault os_MkdirAll_dir)

lemma fresh_tmp_state: "w_fs (outcome_state (fresh_tmp E fuel fid w)) = w_fs w"
  by (induction fuel arbitrary: w) (auto simp: NewUuid_def Let_def frame_simps split: sum.splits)

lemma fresh_tmp_new: "fresh_tmp E fuel fid w = Ret p w' \<Longrightarrow> readable (w_fs w) \<Longrightarrow> file_at (w_fs w) (resolve p) = None"
proof (induction fuel arbitrary: w)
  case (Suc fuel)
  obtain r w1 where u: "NewUuid E w = (r, w1)" by fastforce
  then have fs: "w_fs w1 = w_fs w" by (auto simp: NewUuid_def Let_def frame_simps)
  show ?case
  proof (cases r)
    case (Inl e)
    then show ?thesis using Suc.IH [of w1] Suc.prems u fs by simp
  next
    case (Inr uid)
    then show ?thesis using Suc.IH [of w1] Suc.prems u fs
      by (cases "os_Stat (w_fs w1) (Join [GetTmpDir (w_ws w1), fid, uid])") (auto simp: Let_def dest: missing_file)
  qed
qed simp

lemma saveFormFile_keeps:
  assumes "readable (w_fs w)"
  shows "keeps_files (w_fs w) (w_fs (outcome_state (saveFormFile E fuel fid form w)))"
    and "saveFormFile E fuel fid form w = Ret (Inr (p, n)) w' \<Longrightarrow> file_at (w_fs w) (resolve p) = None"
proof -
  have "keeps_files (w_fs w) (w_fs (outcome_state (saveFormFile E fuel fid form w)))
    \<and> (saveFormFile E fuel fid form w = Ret (Inr (p, n)) w' \<longrightarrow> file_at (w_fs w) (resolve p) = None)"
  proof (cases "fresh_tmp E fuel fid w")
    case (Ret q w1)
    then have new: "file_at (w_fs w) (resolve q) = None" and fs: "w_fs w1 = w_fs w"
      using fresh_tmp_new [OF Ret assms] fresh_tmp_frame [OF Ret] by simp_all
    obtain fs2 e where o: "os_OpenTrunc (w_fs w1) q = (fs2, e)" by fastforce
    show ?thesis
    proof (cases e)
      case None
      then have "fs2 = put_node (w_fs w) (resolve q) (FileNode [])" using o fs os_OpenTrunc_ok by auto
      then show ?thesis using Ret o None new
        by (auto simp: saveFormFile_def on_fs_def Let_def intro!: keeps_files_put split: sum.splits if_splits)
    next
      case (Some x)
      then have "fs2 = w_fs w" using o fs os_OpenTrunc_fail by auto
      then show ?thesis using Ret o Some by (simp add: saveFormFile_def on_fs_def)
    qed
  qed (use fresh_tmp_state [of E fuel fid w] in \<open>simp_all add: saveFormFile_def\<close>)
  then show "keeps_files (w_fs w) (w_fs (outcome_state (saveFormFile E fuel fid form w)))"
    and "saveFormFile E fuel fid form w = Ret (Inr (p, n)) w' \<Longrightarrow> file_at (w_fs w) (resolve p) = None" by blast+
qed


lemma move_keeps:
  assumes "os_Rename fs s t = (fs', e)" and "keeps_files fs0 fs"
    and "file_at fs0 (resolve s) = None" and "file_at fs (resolve s) = Some d"
    and "is_dir fs (resolve t) \<or> file_at fs0 (resolve t) = None"
  shows "keeps_files fs0 fs'"
proof (cases "is_dir fs (resolve t)")
  case True
  then have "fs' = fs" using assms(1,4) by (auto simp: os_Rename_def is_dir_def file_at_def Let_def split: if_splits)
  then show ?thesis using assms(2) by simp
next
  case False
  have nd: "\<not> is_dir fs (resolve s)" using assms(4) by (auto simp: is_dir_def file_at_Some)
  have "file_at fs' q = Some x" if "file_at fs0 q = Some x" for q x
  proof -
    have "q \<noteq> resolve s" and "q \<noteq> resolve t" using that assms(3,5) False by auto
    then have "file_at fs' q = file_at fs q" using os_Rename_file_other [OF assms(1) nd] by (simp add: file_at_def)
    then show ?thesis using that assms(2) by (simp add: keeps_files_def)
  qed
  then show ?thesis by (simp add: keeps_files_def)
qed

lemma checkFragment_frame: "checkFragment E fid fragment w = (r, w1) \<Longrightarrow> w_fs w1 = w_fs w \<and> w_ws w1 = w_ws w"
  by (auto simp: checkFragment_def QueryDealMap_def Let_def frame_simps split: sum.splits if_splits)

text \<open>\<open>fs0\<close> is the disk before the request; the file at \<open>p\<close> is the upload.\<close>

lemma accept_upload_keeps:
  assumes k: "keeps_files fs0 (w_fs w)" and p: "file_at fs0 (resolve p) = None" "file_at (w_fs w) (resolve p) = Some d"
    and root: "rooted (GetReportDir (w_ws w))"
    and t: "fragment \<noteq> [] \<Longrightarrow> file_at fs0 (resolve (Join [GetReportDir (w_ws w), fid, fragment])) = None"
  shows "keeps_files fs0 (w_fs (snd (accept_upload E fid fragment p n w)))"
proof -
  obtain r w1 where c: "checkFragment E fid fragment w = (r, w1)" by fastforce
  note c1 = checkFragment_frame [OF c]
  obtain fs2 e2 where m: "os_MkdirAll (w_fs w1) (Join [GetReportDir (w_ws w1), fid]) = (fs2, e2)" by fastforce
  have f2: "file_at fs2 q = file_at (w_fs w) q" for q using os_MkdirAll_file [OF m] c1 by simp
  have k2: "keeps_files fs0 fs2" using k f2 by (simp add: keeps_files_def)
  obtain fs3 e3 where r: "os_Rename fs2 p (Join [GetReportDir (w_ws w1), fid, fragment]) = (fs3, e3)" by fastforce
  have "keeps_files fs0 fs3" if "e2 = None"
  proof (rule move_keeps [OF r k2 p(1)])
    show "file_at fs2 (resolve p) = Some d" using p(2) f2 by simp
    have "is_dir fs2 (resolve (Join [GetReportDir (w_ws w1), fid]))" using os_MkdirAll_ok m that by simp
    then show "is_dir fs2 (resolve (Join [GetReportDir (w_ws w1), fid, fragment]))
        \<or> file_at fs0 (resolve (Join [GetReportDir (w_ws w1), fid, fragment])) = None"
      using t c1 root by (cases "fragment = []") (simp_all add: resolve_Join2 resolve_Join3 clean_comps_append)
  qed
  then show ?thesis using k k2 c c1 m r
    by (auto simp: accept_upload_def on_fs_def split: sum.split bool.split option.split)
qed

lemma put_zero_keeps:
  assumes k: "keeps_files fs0 (w_fs w)" and wb: "write_buf (WriteBufToFile (e_sdk E))"
    and t: "file_at fs0 (resolve (Join [GetReportDir (w_ws w), fid, fragment])) = None"
  shows "keeps_files fs0 (w_fs (snd (put_zero E fid fragment w)))"
proof -
  obtain fs1 e1 where m: "os_MkdirAll (w_fs w) (Join [GetReportDir (w_ws w), fid]) = (fs1, e1)" by fastforce
  have k1: "keeps_files fs0 fs1" using k os_MkdirAll_file [OF m] by (simp add: keeps_files_def)
  obtain fs2 e2 where z: "WriteBufToFile (e_sdk E) fs1 (replicate (FragmentSize (e_sdk E)) (char_of (0 :: nat)))
      (Join [GetReportDir (w_ws w), fid, fragment]) = (fs2, e2)" by fastforce
  have "keeps_files fs0 fs2" unfolding keeps_files_def
  proof (intro allI impI)
    fix q d assume q: "file_at fs0 q = Some d"
    then have "q \<noteq> resolve (Join [GetReportDir (w_ws w), fid, fragment])" using t by auto
    from write_buf.wb_file_other [OF wb z this] show "file_at fs2 q = Some d" using k1 q by (simp add: keeps_files_def)
  qed
  then show ?thesis using k1 m z by (auto simp: put_zero_def on_fs_def split: option.split)
qed

lemma putfragment_keeps:
  assumes "readable (w_fs w)" and root: "rooted (GetReportDir (w_ws w))" and wb: "write_buf (WriteBufToFile (e_sdk E))"
    and zero: "ZeroFileHash_8M (e_sdk E) \<noteq> []"
  shows "keeps_files (w_fs w) (w_fs (outcome_state (putfragment E fuel fid fragment form w)))"
proof (cases "fragment \<noteq> [] \<and> (case findUnreportedFragment (w_fs w) (w_ws w) fid fragment of Inr _ \<Rightarrow> True | Inl _ \<Rightarrow> False)")
  case False
  obtain fs1 e where m: "os_MkdirAll (w_fs w) (Join [GetTmpDir (w_ws w), fid]) = (fs1, e)" by fastforce
  let ?w = "w\<lparr>w_fs := fs1\<rparr>"
  have r1: "readable fs1" and f1: "file_at fs1 q = file_at (w_fs w) q" for q using mkdir_files [OF m assms(1)] by simp_all
  have k1: "keeps_files (w_fs w) (w_fs ?w)" using f1 by (simp add: keeps_files_def)
  have t: "file_at (w_fs w) (resolve (Join [GetReportDir (w_ws w), fid, fragment])) = None" if "fragment \<noteq> []"
    using False that assms(1)
    by (auto simp: findUnreportedFragment_def Let_def dest: missing_file split: sum.splits)
  show ?thesis
  proof (cases e)
    case None
    show ?thesis
    proof (cases "fragment = ZeroFileHash_8M (e_sdk E)")
      case True
      then show ?thesis using False m None put_zero_keeps [OF k1 wb] t zero by (auto simp: putfragment_def on_fs_def)
    next
      case nz: False
      have ks: "keeps_files (w_fs w) (w_fs (outcome_state (saveFormFile E fuel fid form ?w)))"
        by (rule keeps_files_trans [OF k1 saveFormFile_keeps(1)]) (simp add: r1)
      have "keeps_files (w_fs w) (w_fs (snd (accept_upload E fid fragment p n w2)))"
        if sv: "saveFormFile E fuel fid form ?w = Ret (Inr (p, n)) w2" for p n w2
      proof -
        obtain d where d: "file_at (w_fs w2) (resolve p) = Some d" "w_ws w2 = w_ws w" using saveFormFile_saved [OF sv] by auto
        have "file_at (w_fs w) (resolve p) = None" using saveFormFile_keeps(2) [OF _ sv] r1 f1 by simp
        moreover have "keeps_files (w_fs w) (w_fs w2)" using ks sv by simp
        ultimately show ?thesis using d t root by (intro accept_upload_keeps) simp_all
      qed
      then show ?thesis using False m None nz ks
        by (cases "saveFormFile E fuel fid form ?w") (auto simp: putfragment_def on_fs_def split: sum.split)
    qed
  next
    case (Some x)
    then show ?thesis using False m k1 by (auto simp: putfragment_def on_fs_def)
  qed
qed (simp add: putfragment_def)


subsection \<open>What a request can do\<close>

lemma outcome_state_then_Ret: "outcome_state (andThen m (\<lambda>r. Ret (g r))) = outcome_state m"
  by (cases m) simp_all

text \<open>
  C18. No request destroys a file: whatever the server is asked, by whomever, every file that was on the disk is there afterwards with
  its content; and only an upload whose signature is good changes anything at all.
\<close>

theorem serve_keeps_files:
  assumes find: "\<And>rs m p rt a. x_find X rs m p = Some (rt, a) \<Longrightarrow> rt \<in> set rs \<and> rt_method rt = m"
    and disk: "readable (w_fs w)" and root: "rooted (GetReportDir (w_ws w))"
    and wb: "write_buf (WriteBufToFile (e_sdk E))" and zero: "ZeroFileHash_8M (e_sdk E) \<noteq> []"
  shows "(let w' = outcome_state (serve E X fuel (InitWebServer InitMiddlewares port) rq w) in
     keeps_files (w_fs w) (w_fs w') \<and> (w' = w \<or> rq_method rq = ''PUT'' \<and> signature_ok X rq))"
proof (cases "pass X InitMiddlewares rq")
  case None
  let ?sv = "InitWebServer InitMiddlewares port"
  show ?thesis
  proof (cases "x_find X (RegisterRoutes []) (rq_method rq) (rq_path rq)")
    case (Some f)
    obtain rt name where f: "f = (rt, name)" by fastforce
    have rt: "rt \<in> set (RegisterRoutes [])" "rt_method rt = rq_method rq" using find Some f by blast+
    show ?thesis
    proof (cases "rt_handler rt = Putfragment")
      case True
      with rt have "rt_signed rt" "rq_method rq = ''PUT''" by (auto simp: RegisterRoutes_def fragment_routes_def status_routes_def)
      then show ?thesis using None Some f True putfragment_keeps [OF disk root wb zero]
        by (auto simp: serve_def InitWebServer_def run_handler_def Let_def outcome_state_then_Ret)
    next
      case False
      then show ?thesis using None Some f
        by (cases "rt_handler rt") (simp_all add: serve_def InitWebServer_def run_handler_def Let_def)
    qed
  qed (simp add: None serve_def InitWebServer_def)
qed (simp add: serve_def InitWebServer_def)


definition simple_lib :: webLib where
  "simple_lib = \<lparr>x_cors = \<lambda>_ _. None,
     x_find = \<lambda>rs m p. map_option (\<lambda>r. (r, [])) (find (\<lambda>r. rt_method r = m \<and> rt_path r = p) rs),
     x_sign = \<lparr>VerifySR25519WithPublickey = \<lambda>_ _ _. (True, None), VerifyPolkadotJsHexSign = \<lambda>_ _ _. (False, None)\<rparr>,
     x_mtime = \<lambda>_. []\<rparr>"

definition upload_request :: request where
  "upload_request = \<lparr>rq_method = ''PUT'', rq_path = ''/fragment'',
     rq_header = \<lambda>h. if h = Header_Fid then ''f1'' else if h = Header_Fragment then ''abcd'' else [],
     rq_query = \<lambda>_. None, rq_form = Inr (''abcd'', False)\<rparr>"

definition stored_world :: world where
  "stored_world = demo_world\<lparr>w_fs := put_node (put_node (w_fs demo_world) [''w'', ''file''] DirNode) [''w'', ''file'', ''k'']
     (FileNode ''old'')\<rparr>"

definition upload_served :: "(world, answer) outcome" where
  "upload_served = serve deal_env simple_lib 1 (InitWebServer InitMiddlewares 80) upload_request stored_world"

theorem serve_keeps_files_witness:
  "returned upload_served = Some (Reply (RespJson 200 OK))
   \<and> file_at (w_fs (outcome_state upload_served)) [''w'', ''file'', ''k''] = Some ''old''"
proof -
  have r: "returned upload_served = Some (Reply (RespJson 200 OK))" by code_simp
  have find: "x_find simple_lib rs m p = Some (rt, a) \<Longrightarrow> rt \<in> set rs \<and> rt_method rt = m" for rs m p rt a
    by (auto simp: simple_lib_def find_Some_iff)
  have disk: "readable (w_fs stored_world)"
    by (simp add: readable_def stored_world_def demo_world_def bare_fs_def is_dir_def node_at_def put_node_def)
  have root: "rooted (GetReportDir (w_ws stored_world))" by code_simp
  have wb: "write_buf (WriteBufToFile (e_sdk deal_env))"
    using os_write.write_buf_axioms by (simp add: deal_env_def demo_env_def demo_sdk_def)
  have zero: "ZeroFileHash_8M (e_sdk deal_env) \<noteq> []" by (simp add: deal_env_def demo_env_def demo_sdk_def)
  have "file_at (w_fs stored_world) [''w'', ''file'', ''k''] = Some ''old''" by code_simp
  then show ?thesis using r serve_keeps_files [where fuel = 1 and port = 80 and rq = upload_request, OF find disk root wb zero]
    by (simp add: upload_served_def Let_def keeps_files_def)
qed

subsection \<open>Where a request can reach\<close>

text \<open>
  The directory that is listed comes from the query: with \<^verbatim>\<open>..\<close> in it any directory of the machine is listed, for anybody, since
  these routes are not behind the signature check.
\<close>

definition list_request :: request where
  "list_request = \<lparr>rq_method = ''GET'', rq_path = ''/file/list'', rq_header = \<lambda>_. [], rq_query = \<lambda>_. Some ''../etc'',
     rq_form = Inl (mk_err ''none'')\<rparr>"

theorem filelist_escapes:
  "case serve deal_env simple_lib 0 (InitWebServer InitMiddlewares 80) list_request
       (stored_world\<lparr>w_fs := put_node (put_node (w_fs stored_world) [''etc''] DirNode) [''etc'', ''p''] (FileNode ''s'')\<rparr>) of
     Ret (Listing (Inr [x])) w \<Rightarrow> fd_Path x = ''/etc/p'' \<and> \<not> prefix (resolve (GetRootDir (w_ws w))) (resolve (fd_Path x))
   | _ \<Rightarrow> False"
  by code_simp

text \<open>
  The directory of an upload comes from the header \<^verbatim>\<open>Fid\<close>, before the chain is asked for the file: with \<^verbatim>\<open>..\<close> in it, whoever can sign
  with an account of his own leaves a file of any content anywhere. The upload is refused only afterwards.
\<close>

theorem upload_escapes:
  "case serve (demo_env\<lparr>x_NewUuid := \<lambda>_. Inr ''u''\<rparr>) simple_lib 1 (InitWebServer InitMiddlewares 80)
       (upload_request\<lparr>rq_header := \<lambda>h. if h = Header_Fid then ''../../etc'' else []\<rparr>) stored_world of
     Ret (Reply (RespJson code msg)) w \<Rightarrow> code \<noteq> 200 \<and> file_at (w_fs stored_world) [''etc'', ''u''] = None
       \<and> file_at (w_fs w) [''etc'', ''u''] = Some ''abcd''
   | _ \<Rightarrow> False"
  by code_simp

end
