(* ===== verification/Node.thy ===== *)
theory Node
  imports Init Logger Server
begin

text \<open>
  The node as \<^verbatim>\<open>InitNode\<close> leaves it (\<^verbatim>\<open>src/node/init.go\<close>): the client of the chain with registration and workspace, the
  loggers, the cache and the web server, in this order. The web server listens in a goroutine of its own from then on; what it
  does with a request is the subject of \<open>Server\<close>. That listening fails, which ends the process, is not modelled.
\<close>

text \<open>What the machine does while the node starts: the process, the time, the dialling of its own ports, which of the calls that set up the client
  fail, the working directory, the order in which a map is run through, and LevelDB's functions to open a database.\<close>

record machine =
  mc_pid :: int
  mc_time :: string
  mc_dialLocal :: "string \<Rightarrow> goerr option"
  mc_newClient :: "goerr option"
  mc_extrinsics :: "goerr option"
  mc_expenders :: "goerr option"
  mc_cwd :: string
  mc_order :: "(string \<times> string) list \<Rightarrow> (string \<times> string) list"
  mc_open :: "string \<Rightarrow> cacheOptions \<Rightarrow> open_result"
  mc_recover :: "string \<Rightarrow> goerr option"

record node =
  nd_world :: world
  nd_entries :: "entry list"
  nd_logs :: "logs option"
  nd_cache :: "string option"
  nd_server :: "server option"

text \<open>\<open>None\<close> is \<^verbatim>\<open>os.Exit\<close>.\<close>

definition client_step :: "env \<Rightarrow> machine \<Rightarrow> nat \<Rightarrow> node \<Rightarrow> (node, unit option) outcome" where
  "client_step E M fuel nd =
     (case InitChainClient E fuel (mc_pid M) (mc_time M) (mc_dialLocal M) (mc_newClient M) (mc_extrinsics M) (mc_expenders M)
             (nd_world nd) of
        Ret r w \<Rightarrow> Ret r (nd\<lparr>nd_world := w\<rparr>)
      | Panic w \<Rightarrow> Panic (nd\<lparr>nd_world := w\<rparr>)
      | Spin w \<Rightarrow> Spin (nd\<lparr>nd_world := w\<rparr>))"

definition logs_info :: "world \<Rightarrow> (string \<times> string) list" where
  "logs_info w = map (\<lambda>v. (v, Join [GetLogDir (w_ws w), v @ ''.log''])) LogFiles"

definition InitLogs :: "machine \<Rightarrow> node \<Rightarrow> (node, unit option) outcome" where
  "InitLogs M nd =
     (case NewLogger (mc_cwd M) (mc_order M (logs_info (nd_world nd))) (w_fs (nd_world nd), nd_entries nd) of
        Ret r (fs, es) \<Rightarrow>
          (let nd1 = nd\<lparr>nd_world := (nd_world nd)\<lparr>w_fs := fs\<rparr>, nd_entries := es\<rparr> in
           case r of Inl e \<Rightarrow> Ret None nd1 | Inr l \<Rightarrow> Ret (Some ()) (nd1\<lparr>nd_logs := Some l\<rparr>))
      | Panic (fs, es) \<Rightarrow> Panic (nd\<lparr>nd_world := (nd_world nd)\<lparr>w_fs := fs\<rparr>, nd_entries := es\<rparr>)
      | Spin (fs, es) \<Rightarrow> Spin (nd\<lparr>nd_world := (nd_world nd)\<lparr>w_fs := fs\<rparr>, nd_entries := es\<rparr>))"

definition InitCache :: "machine \<Rightarrow> node \<Rightarrow> (node, unit option) outcome" where
  "InitCache M nd =
     (case NewCache (mc_open M) (mc_recover M) (w_fs (nd_world nd)) (GetDbDir (w_ws (nd_world nd))) 0 0 of
        (fs, r) \<Rightarrow>
          (let nd1 = nd\<lparr>nd_world := (nd_world nd)\<lparr>w_fs := fs\<rparr>\<rparr> in
           case r of Inl e \<Rightarrow> Ret None nd1 | Inr db \<Rightarrow> Ret (Some ()) (nd1\<lparr>nd_cache := Some db\<rparr>)))"

definition or_exit :: "(node, unit option) outcome \<Rightarrow> (node \<Rightarrow> (node, unit option) outcome) \<Rightarrow> (node, unit option) outcome" where
  "or_exit m f = andThen m (\<lambda>r nd. case r of None \<Rightarrow> Ret None nd | Some _ \<Rightarrow> f nd)"

definition start_server :: "env \<Rightarrow> node \<Rightarrow> node" where
  "start_server E nd = nd\<lparr>nd_server := Some (InitWebServer InitMiddlewares (ReadServicePort (e_conf E)))\<rparr>"

definition InitNode :: "env \<Rightarrow> machine \<Rightarrow> nat \<Rightarrow> node \<Rightarrow> (node, unit option) outcome" where
  "InitNode E M fuel nd = or_exit (client_step E M fuel nd) (\<lambda>nd1. or_exit (InitLogs M nd1) (\<lambda>nd2.
     or_exit (InitCache M nd2) (\<lambda>nd3. Ret (Some ()) (start_server E nd3))))"

subsection \<open>The workspace is built\<close>

definition built :: "world \<Rightarrow> world \<Rightarrow> bool" where
  "built w w' \<longleftrightarrow> (\<exists>f. f \<in> {Build, RemoveAndBuild} \<and> f (w_fs w) (w_ws w) = (w_fs w', w_ws w', None))"

lemma built_by: "built w w1 \<Longrightarrow> bystander w1 w2 \<Longrightarrow> built w w2"
  by (auto simp: built_def bystander_def)

lemma built_from: "bystander w w1 \<Longrightarrow> built w1 w2 \<Longrightarrow> built w w2"
  by (auto simp: built_def bystander_def)

lemma on_ws_built:
  assumes "on_ws f w = (None, w1)" and "f \<in> {Build, RemoveAndBuild}"
  shows "built w w1"
proof -
  obtain fs ws e where f: "f (w_fs w) (w_ws w) = (fs, ws, e)" by (metis prod.collapse)
  then have "e = None" "w_fs w1 = fs" "w_ws w1 = ws" using assms(1) by (auto simp: on_ws_def)
  with f assms(2) show ?thesis unfolding built_def by (intro exI [of _ f]) simp
qed

lemma built_tree:
  assumes "built w w'" and "wf_fs (w_fs w)" and "rooted (rootDir (w_ws w))" and "podr2_rsa_pub (w_ws w) = []"
  shows "w_ws w' = set_paths (w_ws w) \<and> (\<forall>nm \<in> set ws_dirs. is_dir (w_fs w') (resolve (rootDir (w_ws w)) @ [nm]))"
proof -
  from assms(1) consider "Build (w_fs w) (w_ws w) = (w_fs w', w_ws w', None)"
    | "RemoveAndBuild (w_fs w) (w_ws w) = (w_fs w', w_ws w', None)" by (auto simp: built_def)
  then show ?thesis
  proof cases
    case 1
    show ?thesis using Build_tree [OF 1 assms(2,3)] by blast
  next
    case 2
    show ?thesis using RemoveAndBuild_wipes [OF 2 assms(2-4)] by blast
  qed
qed

lemma start_unregistered_built:
  assumes "start_unregistered E fuel ep d w = Ret (Some (k, i, r, None)) w'"
  shows "built w w'"
proof -
  obtain h err w1 where r: "registerMiner E (ReadStakingAcc (e_conf E)) (ReadEarningsAcc (e_conf E)) ep d w = ((h, err), w1)"
    by (metis prod.collapse)
  have w1: "w_fs w1 = w_fs w" "w_ws w1 = w_ws w"
    using r by (auto simp: registerMiner_def ext_defs Let_def frame_simps split: if_splits)
  obtain be w2 where b: "on_ws RemoveAndBuild w1 = (be, w2)" by fastforce
  have e: "err = None" "be = None" using assms by (cases err; cases be; simp add: start_unregistered_def r b)+
  have "built w1 w2" using b on_ws_built [of RemoveAndBuild w1 w2] by (simp add: e)
  then have "built w w2" by (simp add: built_def w1)
  obtain k1 i1 er w3 where g: "register_key_retry E fuel 3 (None, zero_pois, None) w2 = Ret (k1, i1, er) w3"
    using assms by (auto simp: start_unregistered_def r b e andThen_eq_Ret)
  have w3: "bystander w2 w3" using register_key_retry_by [of w2 E fuel 3 "(None, zero_pois, None)"] by (simp add: g)
  obtain pe w4 where pr: "NewPoisProver E (ReadUseSpace (e_conf E) * 1024) w3 = (pe, w4)" by fastforce
  have "w' = w4" using assms by (cases er) (auto simp: start_unregistered_def r b e g start_prover_def pr)
  then have "bystander w3 w'" using by_pair [OF pr, of w3 w3] by simp
  with \<open>built w w2\<close> w3 show ?thesis by (blast intro: built_by)
qed

lemma checkMiner_built:
  assumes "checkMiner E fuel ep w = Ret (Some (st, k, i, r, None)) w'"
  shows "built w w'"
proof -
  obtain reg d old err w1 where c: "checkRegistrationInfo E w = Ret (reg, d, old, err) w1"
    using assms by (cases "checkRegistrationInfo E w") (auto simp: checkMiner_def)
  have w1: "bystander w w1" using checkRegistrationInfo_by [of w E] by (simp add: c)
  have err: "err = None" using assms by (cases err) (auto simp: checkMiner_def c)
  show ?thesis
  proof (cases old)
    case None
    then have "start_unregistered E fuel ep d w1 = Ret (Some (k, i, r, None)) w'"
      using assms by (auto simp: checkMiner_def c err andThen_eq_Ret)
    from built_from [OF w1 start_unregistered_built [OF this]] show ?thesis .
  next
    case (Some m)
    obtain be w2 where b: "on_ws Build w1 = (be, w2)" by fastforce
    have s: "start_unkeyed E fuel ep m w1 = Ret (Some (k, i, r, None)) w' \<or> start_registered E ep m w1 = Ret (Some (k, i, r, None)) w'"
      using assms by (auto simp: checkMiner_def c err Some andThen_eq_Ret split: if_splits)
    then have "be = None" using start_unkeyed_build(2) [OF b] start_registered_build(2) [OF b] by blast
    with b have "built w1 w2" by (simp add: on_ws_built)
    moreover have "bystander w2 w'"
      using s start_unkeyed_build(1) [OF b, of E fuel ep m] start_registered_build(1) [OF b, of E ep m] by auto
    ultimately show ?thesis using built_from [OF w1] built_by by blast
  qed
qed

lemma sync_by: "bystander w (outcome_state (checkRpcSynchronization E n w))"
proof (induction n arbitrary: w)
  case (Suc n)
  obtain q w1 where q: "reg_SystemSyncState E w = (q, w1)" by fastforce
  have "bystander w w1" using q by (auto simp: ext_defs Let_def registers_def intro!: by_event)
  then show ?case using by_trans [OF _ Suc.IH] by (auto simp: q split: sum.split)
qed simp

lemma tees_one_by: "bystander w (outcome_state (checkConfiguredTees_one E t rec w))"
proof -
  have p: "bystander w (snd (QueryWorkers E pk w))" for pk w by (auto simp: ext_defs Let_def registers_def intro!: by_event)
  show ?thesis
  proof (cases "hex_DecodeString (TrimPrefix t ''0x'')")
    case (Some pk)
    obtain q w1 where q: "QueryWorkers E (take (WorkerPublicKeyLen (e_sdk E)) pk) w = (q, w1)" by fastforce
    have w1: "bystander w w1" using by_pair [OF q p] by simp
    have "bystander w w2" if "QueryEndpoints E k w1 = (ep, w2)" for k ep w2 using by_pair [OF that, of w1 w] w1 by simp
    with w1 show ?thesis by (auto simp: checkConfiguredTees_one_def Some q split: sum.split prod.split)
  qed (simp add: checkConfiguredTees_one_def)
qed

lemma tees_by: "bystander w (outcome_state (checkConfiguredTees E w))"
proof -
  have "bystander w (outcome_state (checkConfiguredTees_loop E ts rec w))" for ts rec
  proof (induction ts arbitrary: rec w)
    case (Cons t ts)
    show ?case unfolding checkConfiguredTees_loop.simps
      by (rule by_bind [OF tees_one_by]) (rule by_trans [OF _ Cons.IH])
  qed simp
  then show ?thesis by (auto simp: checkConfiguredTees_def Let_def intro!: by_bind)
qed

subsection \<open>A node that is ready\<close>

text \<open>The status right after the start: the accounts of the configuration, no challenge under way.\<close>

definition fresh_status :: "env \<Rightarrow> runstatus \<Rightarrow> bool" where
  "fresh_status E rt \<longleftrightarrow> GetSignAcc rt = e_signacc E
     \<and> GetStakingAcc rt = (if ReadStakingAcc (e_conf E) = [] then e_signacc E else ReadStakingAcc (e_conf E))
     \<and> GetEarningsAcc rt = ReadEarningsAcc (e_conf E) \<and> GetComAddr rt = ReadApiEndpoint (e_conf E)
     \<and> \<not> GetIdleChallenging rt \<and> \<not> GetServiceChallenging rt \<and> \<not> GetCertifyingIdle rt \<and> \<not> GetGeneratingIdle rt
     \<and> \<not> GetRpcConnecting rt"

lemma InitRunStatus_fresh:
  "fresh_status E (w_run (InitRunStatus E pid' st (ReadApiEndpoint (e_conf E)) t reg w))"
  by (simp add: InitRunStatus_def Let_def fresh_status_def setter_defs getter_defs NewRunstatus_def NewRpcSt_def NewProcessSt_def
    NewChallengeSt_def NewMinerSt_def NewIdleSt_def split: prod.split)

lemma InitRunStatus_frame [simp]:
  "w_fs (InitRunStatus E pid' st ep t reg w) = w_fs w" "w_ws (InitRunStatus E pid' st ep t reg w) = w_ws w"
  by (simp_all add: InitRunStatus_def ext_defs Let_def frame_simps)

text \<open>Where the miner keeps its data.\<close>

definition node_root :: "env \<Rightarrow> string" where
  "node_root E = Join [ReadWorkspace (e_conf E), e_signacc E, Name]"

lemma InitChainClient_steps:
  assumes "InitChainClient E fuel pid' t pf nc ex qe w = Ret (Some ()) w'"
  obtains w2 st k i reg w3 where "bystander (w\<lparr>w_ws := NewWorkspace (node_root E)\<rparr>) w2"
    and "checkMiner E fuel (ReadApiEndpoint (e_conf E)) w2 = Ret (Some (st, k, i, reg, None)) w3"
    and "w' = InitRunStatus E pid' st (ReadApiEndpoint (e_conf E)) t reg (w3\<lparr>w_pois := i\<rparr>)"
proof -
  let ?w0 = "w\<lparr>w_ws := NewWorkspace (node_root E)\<rparr>"
  obtain err w1 where s: "checkRpcSynchronization E fuel ?w0 = Ret err w1"
    using assms by (auto simp: InitChainClient_def Let_def node_root_def andThen_eq_Ret split: if_splits)
  have w1: "bystander ?w0 w1" using sync_by [of ?w0 E fuel] by (simp add: s)
  obtain tees w2 where c: "checkConfiguredTees E w1 = Ret (Some tees) w2"
    using assms s by (auto simp: InitChainClient_def Let_def node_root_def andThen_eq_Ret split: if_splits option.splits)
  have "bystander w1 w2" using tees_by [of w1 E] by (simp add: c)
  then have w2: "bystander ?w0 (w2\<lparr>w_tee := tees\<rparr>)" by (intro by_tee by_trans [OF w1])
  obtain x w3 where m: "checkMiner E fuel (ReadApiEndpoint (e_conf E)) (w2\<lparr>w_tee := tees\<rparr>) = Ret x w3"
    using assms s c by (auto simp: InitChainClient_def Let_def node_root_def andThen_eq_Ret split: if_splits)
  obtain st k i reg e where x: "x = Some (st, k, i, reg, e)"
    using assms s c m by (cases x) (auto simp: InitChainClient_def Let_def node_root_def split: if_splits)
  then have e: "e = None" and w': "w' = InitRunStatus E pid' st (ReadApiEndpoint (e_conf E)) t reg (w3\<lparr>w_pois := i\<rparr>)"
    using assms s c m by (auto simp: InitChainClient_def Let_def node_root_def split: if_splits)
  from that [OF w2 m [unfolded x e] w'] show ?thesis .
qed

lemma InitChainClient_built:
  assumes "InitChainClient E fuel pid' t pf nc ex qe w = Ret (Some ()) w'"
  shows "built (w\<lparr>w_ws := NewWorkspace (node_root E)\<rparr>) w' \<and> fresh_status E (w_run w')"
proof -
  obtain w2 st k i reg w3 where s: "bystander (w\<lparr>w_ws := NewWorkspace (node_root E)\<rparr>) w2"
    "checkMiner E fuel (ReadApiEndpoint (e_conf E)) w2 = Ret (Some (st, k, i, reg, None)) w3"
    "w' = InitRunStatus E pid' st (ReadApiEndpoint (e_conf E)) t reg (w3\<lparr>w_pois := i\<rparr>)"
    by (rule InitChainClient_steps [OF assms])
  have "built (w\<lparr>w_ws := NewWorkspace (node_root E)\<rparr>) w3" by (rule built_from [OF s(1) checkMiner_built [OF s(2)]])
  then show ?thesis using InitRunStatus_fresh by (simp add: s(3) built_def)
qed

text \<open>The chain has an entry for the miner whenever it is asked.\<close>

definition known_miner :: "env \<Rightarrow> bool" where
  "known_miner E \<longleftrightarrow> (\<forall>h. \<exists>m. x_QueryMinerItems E h = Inr m)"

lemma InitChainClient_files:
  assumes run: "InitChainClient E fuel pid' t pf nc ex qe w = Ret (Some ()) w'" and known: "known_miner E"
    and wf: "wf_fs (w_fs w)" and root: "rooted (node_root E)" and nm: "nm = ''file'' \<or> nm = ''space''"
  shows "file_at (w_fs w') (resolve (node_root E) @ nm # q) = file_at (w_fs w) (resolve (node_root E) @ nm # q)"
proof -
  obtain w2 st k i reg w3 where s: "bystander (w\<lparr>w_ws := NewWorkspace (node_root E)\<rparr>) w2"
    "checkMiner E fuel (ReadApiEndpoint (e_conf E)) w2 = Ret (Some (st, k, i, reg, None)) w3"
    "w' = InitRunStatus E pid' st (ReadApiEndpoint (e_conf E)) t reg (w3\<lparr>w_pois := i\<rparr>)"
    by (rule InitChainClient_steps [OF run])
  have w2: "w_fs w2 = w_fs w" "w_ws w2 = NewWorkspace (node_root E)" using s(1) by (simp_all add: bystander_def)
  obtain m where "fst (QueryMinerItems E w2) = Inr m" using known by (auto simp: known_miner_def QueryMinerItems_def Let_def)
  from checkMiner_known_files [OF this _ _ s(2) nm, of q] wf root show ?thesis by (simp add: w2 s(3) NewWorkspace_def)
qed

lemma logs_info_keys: "map fst (logs_info w) = LogFiles" "distinct LogFiles"
  by (simp_all add: logs_info_def LogFiles_def)

lemma map_of_logs_info:
  assumes "mset xs = mset (logs_info w)" and "name \<in> set LogFiles"
  shows "distinct (map fst xs) \<and> map_of xs name = Some (Join [GetLogDir (w_ws w), name @ ''.log''])"
proof -
  have "mset (map fst xs) = mset LogFiles" using assms(1) logs_info_keys(1) [of w] by (metis mset_map)
  then have d: "distinct (map fst xs)" using logs_info_keys(2) mset_eq_imp_distinct_iff by blast
  moreover have "(name, Join [GetLogDir (w_ws w), name @ ''.log'']) \<in> set xs"
    using assms by (auto simp: mset_eq_setD [OF assms(1)] logs_info_def)
  ultimately show ?thesis by (simp add: map_of_is_SomeI)
qed

lemma InitLogs_opens:
  assumes run: "InitLogs M nd = Ret (Some ()) nd'" and order: "\<And>xs. mset (mc_order M xs) = mset xs"
  shows "\<exists>l fs es. nd' = nd\<lparr>nd_world := (nd_world nd)\<lparr>w_fs := fs\<rparr>, nd_entries := es, nd_logs := Some l\<rparr>
    \<and> (\<forall>q. (is_dir (w_fs (nd_world nd)) q \<longrightarrow> is_dir fs q) \<and> file_at fs q = file_at (w_fs (nd_world nd)) q)
    \<and> (\<forall>name \<in> set LogFiles. logger_of name l = Some (Join [GetLogDir (w_ws (nd_world nd)), name @ ''.log'']))"
proof -
  let ?files = "mc_order M (logs_info (nd_world nd))" and ?s = "(w_fs (nd_world nd), nd_entries nd)"
  obtain l fs es where o: "open_loggers (mc_cwd M) ?files no_logs ?s = Ret (Inr l) (fs, es)"
      and nd': "nd' = nd\<lparr>nd_world := (nd_world nd)\<lparr>w_fs := fs\<rparr>, nd_entries := es, nd_logs := Some l\<rparr>"
    using run by (auto simp: InitLogs_def NewLogger_def Let_def split: outcome.splits sum.splits prod.splits)
  have "logger_of name l = Some (Join [GetLogDir (w_ws (nd_world nd)), name @ ''.log''])" if "name \<in> set LogFiles" for name
    using map_of_logs_info [OF order that] open_loggers_of [OF o _ that] by simp
  moreover have "(is_dir (w_fs (nd_world nd)) q \<longrightarrow> is_dir fs q) \<and> file_at fs q = file_at (w_fs (nd_world nd)) q" for q
    using open_loggers_files [of "mc_cwd M" ?files no_logs ?s q q] by (simp add: o)
  ultimately show ?thesis using nd' by blast
qed

lemma InitCache_opens:
  assumes "InitCache M nd = Ret (Some ()) nd'"
  shows "\<exists>fs. nd' = nd\<lparr>nd_world := (nd_world nd)\<lparr>w_fs := fs\<rparr>, nd_cache := Some (GetDbDir (w_ws (nd_world nd)))\<rparr>
    \<and> (\<forall>q. (is_dir (w_fs (nd_world nd)) q \<longrightarrow> is_dir fs q) \<and> file_at fs q = file_at (w_fs (nd_world nd)) q)"
proof -
  obtain fs r where n: "NewCache (mc_open M) (mc_recover M) (w_fs (nd_world nd)) (GetDbDir (w_ws (nd_world nd))) 0 0 = (fs, r)"
    by fastforce
  then obtain db where r: "r = Inr db" using assms by (cases r) (auto simp: InitCache_def)
  have "db = GetDbDir (w_ws (nd_world nd))" "\<forall>q. (is_dir (w_fs (nd_world nd)) q \<longrightarrow> is_dir fs q) \<and> file_at fs q = file_at (w_fs (nd_world nd)) q"
    using n by (auto simp: r NewCache_def newLevelDB_def dest: os_MkdirAll_dir os_MkdirAll_file
      split: prod.splits sum.splits option.splits open_result.splits)
  then show ?thesis using assms by (auto simp: InitCache_def n r Let_def)
qed

lemma InitNode_steps:
  assumes "InitNode E M fuel nd = Ret (Some ()) nd'"
  obtains nd1 nd2 nd3 where "InitChainClient E fuel (mc_pid M) (mc_time M) (mc_dialLocal M) (mc_newClient M) (mc_extrinsics M) (mc_expenders M)
      (nd_world nd) = Ret (Some ()) (nd_world nd1)"
    and "InitLogs M nd1 = Ret (Some ()) nd2" and "InitCache M nd2 = Ret (Some ()) nd3" and "nd' = start_server E nd3"
proof -
  obtain nd1 where c: "client_step E M fuel nd = Ret (Some ()) nd1"
      and r1: "or_exit (InitLogs M nd1) (\<lambda>nd2. or_exit (InitCache M nd2) (\<lambda>nd3. Ret (Some ()) (start_server E nd3))) = Ret (Some ()) nd'"
    using assms by (auto simp: InitNode_def or_exit_def [of "client_step E M fuel nd"] andThen_eq_Ret split: option.splits)
  obtain nd2 where l: "InitLogs M nd1 = Ret (Some ()) nd2"
      and r2: "or_exit (InitCache M nd2) (\<lambda>nd3. Ret (Some ()) (start_server E nd3)) = Ret (Some ()) nd'"
    using r1 by (auto simp: or_exit_def [of "InitLogs M nd1"] andThen_eq_Ret split: option.splits)
  obtain nd3 where d: "InitCache M nd2 = Ret (Some ()) nd3" "nd' = start_server E nd3"
    using r2 by (auto simp: or_exit_def andThen_eq_Ret split: option.splits)
  have cl: "InitChainClient E fuel (mc_pid M) (mc_time M) (mc_dialLocal M) (mc_newClient M) (mc_extrinsics M) (mc_expenders M)
      (nd_world nd) = Ret (Some ()) (nd_world nd1)"
    using c by (auto simp: client_step_def split: outcome.splits)
  from that [OF cl l d] show ?thesis .
qed

lemma InitNode_leaves:
  assumes run: "InitNode E M fuel nd = Ret (Some ()) nd'" and wf: "wf_fs (w_fs (nd_world nd))"
    and root: "rooted (ReadWorkspace (e_conf E))" and order: "\<And>xs. mset (mc_order M xs) = mset xs"
  shows "w_ws (nd_world nd') = set_paths (NewWorkspace (node_root E))
    \<and> (\<forall>nm \<in> set ws_dirs. is_dir (w_fs (nd_world nd')) (resolve (node_root E) @ [nm]))
    \<and> (\<exists>l. nd_logs nd' = Some l \<and> (\<forall>name \<in> set LogFiles. \<forall>at lv msg es. \<exists>xs. method_of name l at lv msg es = Ret () (es @ xs)
         \<and> (\<forall>x \<in> set xs. en_file x = Join [Join [node_root E, ''log''], name @ ''.log'']) \<and> (lv = ''err'' \<longrightarrow> xs \<noteq> [])))
    \<and> nd_cache nd' = Some (Join [node_root E, ''db''])
    \<and> nd_server nd' = Some (InitWebServer InitMiddlewares (ReadServicePort (e_conf E)))
    \<and> fresh_status E (w_run (nd_world nd'))"
proof -
  obtain nd1 nd2 nd3 where cl: "InitChainClient E fuel (mc_pid M) (mc_time M) (mc_dialLocal M) (mc_newClient M) (mc_extrinsics M) (mc_expenders M)
      (nd_world nd) = Ret (Some ()) (nd_world nd1)"
    and l: "InitLogs M nd1 = Ret (Some ()) nd2" and d: "InitCache M nd2 = Ret (Some ()) nd3" and nd': "nd' = start_server E nd3"
    by (rule InitNode_steps [OF run])
  note b = InitChainClient_built [OF cl]
  have ro: "rooted (node_root E)" using root by (simp add: node_root_def rooted_Join)
  have t: "w_ws (nd_world nd1) = set_paths (NewWorkspace (node_root E))"
      "\<forall>nm \<in> set ws_dirs. is_dir (w_fs (nd_world nd1)) (resolve (node_root E) @ [nm])"
    using built_tree [OF conjunct1 [OF b]] wf ro by (simp_all add: NewWorkspace_def)
  obtain lg fs es where L: "nd2 = nd1\<lparr>nd_world := (nd_world nd1)\<lparr>w_fs := fs\<rparr>, nd_entries := es, nd_logs := Some lg\<rparr>"
      "\<forall>q. (is_dir (w_fs (nd_world nd1)) q \<longrightarrow> is_dir fs q) \<and> file_at fs q = file_at (w_fs (nd_world nd1)) q"
      "\<forall>name \<in> set LogFiles. logger_of name lg = Some (Join [GetLogDir (w_ws (nd_world nd1)), name @ ''.log''])"
    using InitLogs_opens [OF l order] by blast
  obtain fs' where D: "nd3 = nd2\<lparr>nd_world := (nd_world nd2)\<lparr>w_fs := fs'\<rparr>, nd_cache := Some (GetDbDir (w_ws (nd_world nd2)))\<rparr>"
      "\<forall>q. (is_dir (w_fs (nd_world nd2)) q \<longrightarrow> is_dir fs' q) \<and> file_at fs' q = file_at (w_fs (nd_world nd2)) q"
    using InitCache_opens [OF d] by blast
  have dirs: "GetLogDir (w_ws (nd_world nd1)) = Join [node_root E, ''log'']" "GetDbDir (w_ws (nd_world nd1)) = Join [node_root E, ''db'']"
    by (simp_all add: t(1) ws_getters set_paths_def NewWorkspace_def)
  have "\<exists>xs. method_of name lg at lv msg es = Ret () (es @ xs)
      \<and> (\<forall>x \<in> set xs. en_file x = Join [Join [node_root E, ''log''], name @ ''.log'']) \<and> (lv = ''err'' \<longrightarrow> xs \<noteq> [])"
    if "name \<in> set LogFiles" for name at lv msg es
    using method_of_logger [OF _ that, of lg] L(3) that by (auto simp: dirs)
  then show ?thesis using t L D b dirs by (auto simp: nd' start_server_def)
qed

lemma InitNode_files:
  assumes run: "InitNode E M fuel nd = Ret (Some ()) nd'" and known: "known_miner E" and wf: "wf_fs (w_fs (nd_world nd))"
    and root: "rooted (ReadWorkspace (e_conf E))" and order: "\<And>xs. mset (mc_order M xs) = mset xs"
    and nm: "nm = ''file'' \<or> nm = ''space''"
  shows "file_at (w_fs (nd_world nd')) (resolve (node_root E) @ nm # q) = file_at (w_fs (nd_world nd)) (resolve (node_root E) @ nm # q)"
proof -
  obtain nd1 nd2 nd3 where cl: "InitChainClient E fuel (mc_pid M) (mc_time M) (mc_dialLocal M) (mc_newClient M) (mc_extrinsics M) (mc_expenders M)
      (nd_world nd) = Ret (Some ()) (nd_world nd1)"
    and l: "InitLogs M nd1 = Ret (Some ()) nd2" and d: "InitCache M nd2 = Ret (Some ()) nd3" and nd': "nd' = start_server E nd3"
    by (rule InitNode_steps [OF run])
  have "rooted (node_root E)" using root by (simp add: node_root_def rooted_Join)
  from InitChainClient_files [OF cl known wf this nm, of q] InitLogs_opens [OF l order] InitCache_opens [OF d]
  show ?thesis by (auto simp: nd' start_server_def)
qed

text \<open>
  C21. A node that \<^verbatim>\<open>InitNode\<close> hands to \<^verbatim>\<open>Start\<close> is ready, whatever the chain, the workers and the file system answered on the way: the
  directories of the workspace of its account are there, its paths point to them, each of the twelve loggers writes to its own
  file in the log directory and none of them panics, the cache is open in its directory, the web server has its routes and the configured port, and the status has the accounts of the
  configuration and nothing under way.
\<close>
theorem InitNode_ready:
  assumes run: "InitNode E M fuel nd = Ret (Some ()) nd'" and wf: "wf_fs (w_fs (nd_world nd))"
    and root: "rooted (ReadWorkspace (e_conf E))" and order: "\<And>xs. mset (mc_order M xs) = mset xs"
  shows "w_ws (nd_world nd') = set_paths (NewWorkspace (node_root E))
    \<and> (\<forall>nm \<in> set ws_dirs. is_dir (w_fs (nd_world nd')) (resolve (node_root E) @ [nm]))
    \<and> (\<exists>l. nd_logs nd' = Some l \<and> (\<forall>name \<in> set LogFiles. \<forall>at lv msg es. \<exists>xs. method_of name l at lv msg es = Ret () (es @ xs)
         \<and> (\<forall>x \<in> set xs. en_file x = Join [Join [node_root E, ''log''], name @ ''.log'']) \<and> (lv = ''err'' \<longrightarrow> xs \<noteq> [])))
    \<and> nd_cache nd' = Some (Join [node_root E, ''db''])
    \<and> nd_server nd' = Some (InitWebServer InitMiddlewares (ReadServicePort (e_conf E)))
    \<and> fresh_status E (w_run (nd_world nd'))"
  using assms by (rule InitNode_leaves)

definition ready_env :: env where
  "ready_env = start_env\<lparr>e_conf := NewConfigFile\<lparr>cf_Workspace := ''/w''\<rparr>,
     e_reg := demo_reg\<lparr>x_reg_GetPodr2Pubkey := \<lambda>_ _ _ _. Inr ''k'', x_reg_SystemSyncState := \<lambda>_. Inr (5, 5)\<rparr>,
     x_QueryAllWorkers := \<lambda>_. Inr [\<lparr>wi_Pubkey = ''ab'', wi_Role = 1\<rparr>], x_QueryEndpoints := \<lambda>_ _. Inr ''h''\<rparr>"

definition ready_machine :: machine where
  "ready_machine = \<lparr>mc_pid = 1, mc_time = [], mc_dialLocal = \<lambda>_. Some (mk_err ''refused''), mc_newClient = None, mc_extrinsics = None, mc_expenders = None,
     mc_cwd = ''/'', mc_order = rev, mc_open = \<lambda>_ _. Opened, mc_recover = \<lambda>_. None\<rparr>"

definition ready_node :: node where
  "ready_node = \<lparr>nd_world = start_world, nd_entries = [], nd_logs = None, nd_cache = None, nd_server = None\<rparr>"

lemma ready_run: "returned (InitNode ready_env ready_machine 1 ready_node) = Some (Some ())"
  by code_simp

theorem InitNode_ready_witness:
  "\<exists>nd'. InitNode ready_env ready_machine 1 ready_node = Ret (Some ()) nd'
     \<and> is_dir (w_fs (nd_world nd')) [''w'', ''acc'', ''miner'', ''report'']
     \<and> nd_cache nd' = Some ''/w/acc/miner/db'' \<and> fresh_status ready_env (w_run (nd_world nd'))"
proof -
  note run = returned_Some [OF ready_run]
  have wf: "wf_fs (w_fs (nd_world ready_node))"
    by (simp add: ready_node_def start_world_def wf_fs_def is_dir_def node_at_def)
  have ro: "rooted (ReadWorkspace (e_conf ready_env))" by code_simp
  have order: "mset (mc_order ready_machine xs) = mset xs" for xs by (simp add: ready_machine_def)
  have p: "resolve (node_root ready_env) = [''w'', ''acc'', ''miner'']" "Join [node_root ready_env, ''db''] = ''/w/acc/miner/db''"
    by code_simp+
  have "''report'' \<in> set ws_dirs" by (simp add: ws_dirs_def)
  with InitNode_ready [OF run wf ro order] run p show ?thesis by auto
qed

end
