(* ===== verification/Workers.thy ===== *)
theory Workers
  imports ServiceLaws IdleLaws IdleGen IdleRepl Restore ChainSync Server
begin

text \<open>
  What the workers of a running node keep, whatever they are started for. The two challenge handlers have their laws in
  \<open>ServiceLaws\<close> and \<open>IdleLaws\<close>; here are the interfaces under which the other workers and the requests of the web server
  keep a relation between states, and those under which a challenge handler keeps a relation that is not about its own challenge.
\<close>

subsection \<open>Relations kept by the other workers\<close>

text \<open>The calls that submit proofs and results for challenges are left to the challenge handlers.\<close>

fun side_event :: "event \<Rightarrow> bool" where
  "side_event (TxEvent t) = (case t of
      SubmitServiceProof_ev _ _ \<Rightarrow> False | SubmitVerifyServiceResult_ev _ _ _ _ _ \<Rightarrow> False
    | SubmitIdleProof_ev _ _ \<Rightarrow> False | SubmitVerifyIdleResult_ev _ _ _ _ _ _ _ _ \<Rightarrow> False | _ \<Rightarrow> True)"
| "side_event _ = True"

lemma verifying_side: "verifying_event e \<Longrightarrow> side_event e"
  by (cases e rule: side_event.cases) (auto split: tx_event.splits)

lemma idle_side: "idle_event e \<Longrightarrow> side_event e"
  by (cases e rule: side_event.cases) auto

text \<open>A relation that is about the calls, the cache, the paths and the record of workers, and that allows the notes on tags and
  the changes of the record.\<close>

locale side_work = run_rel R side_event for R :: "world \<Rightarrow> world \<Rightarrow> bool" +
  fixes E :: env
  assumes R_rest: "w_hist w' = w_hist w \<Longrightarrow> w_db w' = w_db w \<Longrightarrow> w_ws w' = w_ws w \<Longrightarrow> w_tee w' = w_tee w \<Longrightarrow> R w w'"
    and R_tag: "R w (snd (db_Put E (Cach_prefix_Tag @ k) v w))"
    and R_save: "R w (w\<lparr>w_tee := fst (SaveTee (e_sdk E) (w_tee w) k e ty)\<rparr>)"
    and R_drop: "R w (w\<lparr>w_tee := DeleteTee (w_tee w) k\<rparr>)"

sublocale side_work \<subseteq> tagging: verifying_run R
  by unfold_locales (auto intro: R_event verifying_side proving_is_verifying R_fs R_run R_refl R_trans)

context side_work
begin

lemma keeps_rest: "R w0 w \<Longrightarrow> R w0 (w\<lparr>w_pois := x\<rparr>)" "R w0 w \<Longrightarrow> R w0 (w\<lparr>w_failed := y\<rparr>)"
  by (rule R_trans, assumption, rule R_rest, simp_all)+

lemma keeps_queries:
  assumes "R w0 w"
  shows "R w0 (snd (GetBlockLatest E w))" "R w0 (snd (QueryBlockNumber E a w))" "R w0 (snd (QueryFile E a i w))"
    "R w0 (snd (QueryDealMap E a w))" "R w0 (snd (QueryChallengeSnapShot E w))" "R w0 (snd (QueryMinerItems E w))"
    "R w0 (snd (QueryEndpoints E a w))" "R w0 (snd (QueryWorkers E a w))" "R w0 (snd (QueryAllWorkers E w))"
    "R w0 (snd (QueryAllRestoralOrder E w))" "R w0 (snd (QueryRestoralOrder E a w))" "R w0 (snd (NewUuid E w))"
    "R w0 (snd (GetCurrentRpcAddr E w))" "R w0 (snd (Sign E a w))" "R w0 (snd (SetChallengeState E a f r w))"
  by (simp_all add: GetBlockLatest_def QueryBlockNumber_def QueryFile_def QueryDealMap_def QueryChallengeSnapShot_def
    QueryMinerItems_def QueryEndpoints_def QueryWorkers_def QueryAllWorkers_def QueryAllRestoralOrder_def QueryRestoralOrder_def
    NewUuid_def GetCurrentRpcAddr_def Sign_def SetChallengeState_def Let_def keeps_event [OF assms])

lemma keeps_txs:
  assumes "R w0 w"
  shows "R w0 (snd (GenerateRestoralOrder E a b w))" "R w0 (snd (ClaimRestoralOrder E a w))" "R w0 (snd (RestoralOrderComplete E a w))"
    "R w0 (snd (TransferReport E i a w))" "R w0 (snd (CalculateReport E s ti w))" "R w0 (snd (ReconnectRpc E w))"
    "R w0 (snd (cert_CertIdleSpace E info s1 s2 s3 w))" "R w0 (snd (cert_ReplaceIdleSpace E info s1 s2 s3 w))"
    "R w0 (snd (cert_QueryPendingReplacements E w))" "R w0 (snd (cert_GetHeaderLatest E w))" "R w0 (snd (disk_Usage E a w))"
  by (simp_all add: GenerateRestoralOrder_def ClaimRestoralOrder_def RestoralOrderComplete_def TransferReport_def CalculateReport_def
    ReconnectRpc_def cert_CertIdleSpace_def cert_ReplaceIdleSpace_def cert_QueryPendingReplacements_def cert_GetHeaderLatest_def
    disk_Usage_def Let_def keeps_event [OF assms])

lemma keeps_prover:
  assumes "R w0 w"
  shows "R w0 (snd (prover_CommitDataIsReady E w))" "R w0 (snd (prover_GetFront E w))" "R w0 (snd (prover_GetRear E w))"
    "R w0 (snd (prover_SyncChainPoisStatus E f r w))" "R w0 (snd (prover_GetIdleFileSetCommits E w))"
    "R w0 (snd (prover_CommitRollback E w))" "R w0 (snd (prover_AccRollback E b w))" "R w0 (snd (prover_ProveCommitAndAcc E rows w))"
    "R w0 (snd (prover_ProveDeletion E f w))" "R w0 (snd (prover_UpdateStatus E f b w))" "R w0 (snd (prover_DeleteFiles E w))"
    "R w0 (snd (prover_GenerateIdleFileSet E w))" "R w0 (snd (prover_Init E w))" "R w0 (snd (prover_Recovery E f r w))"
    "R w0 (snd (prover_CheckAndRestoreIdleData E f r n w))"
  by (simp_all add: prover_CommitDataIsReady_def prover_GetFront_def prover_GetRear_def prover_SyncChainPoisStatus_def
    prover_GetIdleFileSetCommits_def prover_CommitRollback_def prover_AccRollback_def prover_ProveCommitAndAcc_def
    prover_ProveDeletion_def prover_UpdateStatus_def prover_DeleteFiles_def prover_GenerateIdleFileSet_def prover_Init_def
    prover_Recovery_def prover_CheckAndRestoreIdleData_def Let_def keeps_event [OF assms])

lemma keeps_tees:
  assumes "R w0 w"
  shows "R w0 (snd (GetIdentityPubkey E ep t m w))" "R w0 (snd (RequestMinerCommitGenChall E ep t rq1 w))"
    "R w0 (snd (RequestVerifyCommitProof E ep t rq2 w))" "R w0 (snd (RequestVerifyDeletionProof E ep t rq3 w))"
  using assms by (simp_all add: com_defs rpc_GetIdentityPubkey_def cert_MinerCommitGenChall_def cert_VerifyCommitProof_def
    cert_VerifyDeletionProof_def Let_def keeps_event [OF assms] split: option.split)

lemmas keeps_all = keeps_bind keeps_fs keeps_fs_upd keeps_run keeps_rest keeps_queries keeps_txs keeps_prover keeps_tees

lemma keeps_save: "R w0 w \<Longrightarrow> R w0 (snd (on_tee (\<lambda>t. SaveTee (e_sdk E) t k e ty) w))"
  using R_trans [OF _ R_save [of w k e ty]] by (auto simp: on_tee_def split: prod.split)

lemma keeps_drop: "R w0 w \<Longrightarrow> R w0 (w\<lparr>w_tee := DeleteTee (w_tee w) k\<rparr>)"
  using R_trans [OF _ R_drop] by blast

lemma keeps_SyncTeeInfo: "R w (SyncTeeInfo E w)"
proof -
  have one: "R w0 (sync_tee_one E v w)" if "R w0 w" for w0 v w
    using that by (auto simp: sync_tee_one_def Let_def case_prod_beta intro!: keeps_all keeps_save keeps_drop split: sum.split)
  have tees: "R w0 (sync_tees E vs w)" if "R w0 w" for w0 vs w
    using that by (induction vs arbitrary: w) (auto intro: one)
  have pone: "R w0 (sync_priority_one E k w)" if "R w0 w" for w0 k w
    using that by (auto simp: sync_priority_one_def case_prod_beta intro!: keeps_all keeps_save split: sum.split option.split)
  have ptees: "R w0 (fold (sync_priority_one E) ks w)" if "R w0 w" for w0 ks w
    using that by (induction ks arbitrary: w) (auto intro: pone)
  show ?thesis
    by (auto simp: SyncTeeInfo_def Let_def case_prod_beta R_refl intro!: tees ptees keeps_all split: sum.split)
qed

lemma keeps_syncMinerStatus: "R w (syncMinerStatus E w)"
  by (auto simp: syncMinerStatus_def Let_def case_prod_beta R_refl intro!: keeps_all split: sum.split)

lemma keeps_Reconnectrpc: "R w (Reconnectrpc E w)"
proof -
  have run: "R w0 (w\<lparr>w_run := x\<rparr>)" if "R w0 w" for w0 w x
    using that R_run R_trans by blast
  show ?thesis
    by (auto simp: Reconnectrpc_def Let_def case_prod_beta R_refl intro!: keeps_all run split: option.split bool.split)
qed

lemma keeps_CheckPois: "R w (outcome_state (CheckPois E cpus w))"
proof -
  have dn: "R w0 (outcome_state (check_done m))" if "R w0 (outcome_state m)" for w0 m
    using that by (cases m) (auto simp: check_done_def Let_def intro: keeps_run)
  show ?thesis
    by (auto simp: CheckPois_def Let_def case_prod_beta R_refl intro!: dn keeps_all split: option.split)
qed

lemma keeps_GenIdle: "R w (GenIdle E w)"
proof -
  have logs: "R w0 (removeZipLogs w)" if "R w0 w" for w0 w
    using that by (auto simp: removeZipLogs_def intro!: keeps_all split: sum.split)
  have randoms: "R w0 (removeRandoms E w)" if "R w0 w" for w0 w
    using that by (auto simp: removeRandoms_def Let_def case_prod_beta intro!: keeps_all split: sum.split)
  show ?thesis
    by (auto simp: GenIdle_def Let_def case_prod_beta R_refl intro!: keeps_all logs randoms split: option.split)
qed

lemma keeps_ReportFiles: "R w (ReportFiles E w)"
proof -
  have move: "R w0 (snd (move_fragments fid fs w))" if "R w0 w" for w0 fid fs w
    using that by (induction fs arbitrary: w) (auto simp: case_prod_beta intro!: keeps_all split: sum.split option.split)
  have rm: "R w0 (remove_report fid w)" if "R w0 w" for w0 fid w
    using that by (auto simp: remove_report_def intro!: keeps_all)
  have keep: "R w0 (snd (keep_fragments fid sv w))" if "R w0 w" for w0 fid sv w
    using that by (auto simp: keep_fragments_def case_prod_beta intro!: move rm keeps_all split: sum.split option.split)
  have check: "R w0 (snd (checkfile E fid w))" if "R w0 w" for w0 fid w
    using that by (auto simp: checkfile_def Let_def case_prod_beta intro!: keep rm keeps_all split: sum.split)
  have tr: "R w0 (transfer_loop E fid vs w)" if "R w0 w" for w0 fid vs w
    using that by (induction vs arbitrary: w) (auto simp: case_prod_beta intro!: keeps_all split: option.split)
  have rp: "R w0 (outcome_state (reportfile E fid w))" if "R w0 w" for w0 fid w
    using that by (auto simp: reportfile_def case_prod_beta intro!: tr keeps_all split: sum.split option.split)
  have loop: "R w0 (outcome_state (report_loop E files w))" if "R w0 w" for w0 files w
    using that
  proof (induction files arbitrary: w)
    case (Cons f fs)
    obtain rep e w1 where c: "checkfile E (Base f) w = ((rep, e), w1)" by (metis prod.collapse)
    have w1: "R w0 w1" using check [OF Cons.prems, of "Base f"] c by simp
    have "R w0 (outcome_state (if rep then reportfile E (Base f) w1 else Ret None w1))" using w1 by (simp add: rp)
    then show ?case unfolding report_loop.simps Let_def c prod.case by (rule keeps_bind) (simp add: Cons.IH)
  qed simp
  show ?thesis by (auto simp: ReportFiles_def R_refl intro!: loop split: sum.split)
qed

lemma keeps_RestoreFiles: "R w (RestoreFiles E rnd w)"
proof -
  have search: "R w0 (snd (restore_search fid h vs w))" if "R w0 w" for w0 fid h vs w
    using that by (induction vs arbitrary: w) (auto intro!: keeps_all split: sum.split)
  have frag: "R w0 (snd (restoreFragment E fid h w))" if "R w0 w" for w0 fid h w
    using that by (auto simp: restoreFragment_def case_prod_beta intro!: search keeps_all split: sum.split option.split)
  have miss: "R w0 (restore_missing E fid vs w)" if "R w0 w" for w0 fid vs w
    using that
  proof (induction vs arbitrary: w)
    case (Cons v vs)
    then show ?case by (auto simp: case_prod_beta intro!: Cons.IH frag keeps_all split: option.split)
  qed simp
  have one: "R w0 (snd (restoreFile E fid w))" if "R w0 w" for w0 fid w
    using that by (auto simp: restoreFile_def case_prod_beta intro!: miss keeps_all split: sum.split)
  have fls: "R w0 (restore_files E vs w)" if "R w0 w" for w0 vs w
    using that by (induction vs arbitrary: w) (auto intro: one)
  have loc: "R w0 (snd (RestoreLocalFiles E w))" if "R w0 w" for w0 w
    using that by (auto simp: RestoreLocalFiles_def intro!: fls split: sum.split)
  have ords: "R w0 (snd (restore_orders E vs w))" if "R w0 w" for w0 vs w
    using that
  proof (induction vs arbitrary: w)
    case (Cons v vs)
    then show ?case by (auto simp: case_prod_beta intro!: Cons.IH frag keeps_all split: sum.split option.split)
  qed simp
  have oth: "R w0 (snd (RestoreOtherFiles E rnd w))" if "R w0 w" for w0 w
    using that by (auto simp: RestoreOtherFiles_def case_prod_beta intro!: ords keeps_all split: sum.split)
  show ?thesis by (auto simp: RestoreFiles_def R_refl intro!: loc oth)
qed

lemma keeps_CalcTag: "R w (CalcTag E w)"
proof -
  have put: "R w0 (snd (put_tags E fid b ts e w))" if "R w0 w" for w0 fid b ts e w
    using that
  proof (induction ts arbitrary: e w)
    case (Cons t ts)
    have "R w0 (snd (db_Put E (Cach_prefix_Tag @ fid @ ''.'' @ tag_fragment t) (show_nat (unat b)) w))"
      by (rule R_trans [OF Cons.prems R_tag])
    then show ?case by (simp add: case_prod_beta Cons.IH)
  qed simp
  have rm: "R w0 (remove_files vs w)" if "R w0 w" for w0 vs w
    using that by (auto simp: remove_files_def intro!: keeps_all)
  have att: "R w0 (snd (report_attempts E fid tags s i k w))" if "R w0 w" for w0 fid tags s i k w
    using that
  proof (induction k arbitrary: w)
    case (Suc k)
    then show ?case by (auto simp: case_prod_beta intro!: Suc.IH put rm keeps_all split: sum.split option.split)
  qed simp
  have rd: "R w0 (outcome_state (report_read_loop E n vs st w))" if "R w0 w" for w0 n vs st w
    using that by (induction vs arbitrary: st) (auto intro!: keeps_all split: sum.split prod.split option.split)
  have rep: "R w0 (outcome_state (reportFileTag E fid tags w))" if "R w0 w" for w0 fid tags w
    using that by (auto simp: reportFileTag_def intro!: keeps_bind rd att split: sum.split option.split)
  have dig: "R w0 (outcome_state (digest_loop E f vs st w))" if "R w0 w" for w0 f vs st w
    using that by (induction vs arbitrary: st) (auto simp: Let_def intro!: keeps_all split: sum.split prod.split option.split)
  have req: "R w0 (outcome_state (calcRequestDigest E f tags w))" if "R w0 w" for w0 f tags w
    using that by (auto simp: calcRequestDigest_def intro!: dig)
  have the_tag: "R w0 (outcome_state (calcTheFragmentTag E fid f m s d w))" if "R w0 w" for w0 fid f m s d w
    using that by (auto simp: calcTheFragmentTag_def case_prod_beta intro!: tagging.keeps_requestTeeTag keeps_bind keeps_fs
      split: sum.split option.split)
  have frag: "R w0 (outcome_state (calctag_fragment E fid dr f b w))" if "R w0 w" for w0 fid dr f b w
    using that by (auto simp: calctag_fragment_def Let_def case_prod_beta intro!: the_tag req keeps_bind keeps_fs
      split: sum.split option.split)
  have loop: "R w0 (outcome_state (calctag_loop E fid dr fs b w))" if "R w0 w" for w0 fid dr fs b w
    using that
  proof (induction fs arbitrary: b w)
    case (Cons f fs)
    then show ?case by (auto intro!: keeps_bind frag Cons.IH split: option.split)
  qed simp
  have crep: "R w0 (outcome_state (calctag_report E fid dr fs w))" if "R w0 w" for w0 fid dr fs w
    using that by (auto simp: calctag_report_def case_prod_beta intro!: rep rm keeps_bind split: sum.split option.split)
  have one: "R w0 (outcome_state (calctag E dr w))" if "R w0 w" for w0 dr w
    using that by (auto simp: calctag_def Let_def case_prod_beta intro!: crep loop keeps_bind keeps_all
      split: sum.split option.split bool.split)
  have all: "R w0 (outcome_state (calctag_all E ds w))" if "R w0 w" for w0 ds w
    using that
  proof (induction ds arbitrary: w)
    case (Cons d ds)
    then show ?case by (auto intro!: keeps_bind one Cons.IH)
  qed simp
  show ?thesis by (auto simp: CalcTag_def getAllFileDirs_def R_refl intro!: all split: sum.split)
qed

lemma keeps_part:
  assumes "R w0 (outcome_state m)" and "\<And>a w'. m = Ret (Inr a) w' \<Longrightarrow> R w0 w' \<Longrightarrow> R w0 (outcome_state (f a w'))"
  shows "R w0 (outcome_state (and_part m f))"
  unfolding and_part_def using assms by (intro keeps_bind) (auto split: sum.split)

lemma keeps_roll: "R w0 w \<Longrightarrow> R w0 (outcome_state (roll_acc E e w))" "R w0 w \<Longrightarrow> R w0 (outcome_state (roll_commit E e w))"
  "R w0 w \<Longrightarrow> R w0 (outcome_state (roll_del E w))" "R w0 w \<Longrightarrow> R w0 (outcome_state (leave w))"
  by (simp_all add: roll_acc_def roll_commit_def roll_del_def leave_def keeps_prover)

lemma keeps_set_pois: "R w0 w \<Longrightarrow> R w0 (set_pois s sig w)"
  by (simp add: set_pois_def keeps_rest)

lemma keeps_CertIdle: "R w (outcome_state (CertIdle E fuel w))"
proof -
  have gt: "R w0 (snd (gen_chall_try E t rq n w))" if "R w0 w" for w0 t rq n w
    using that
  proof (induction n arbitrary: w)
    case (Suc n)
    then show ?case by (auto simp: case_prod_beta intro!: Suc.IH keeps_tees split: sum.split)
  qed simp
  have gl: "R w0 (snd (gen_chall_loop E rq ts st w))" if "R w0 w" for w0 rq ts st w
    using that
  proof (induction ts arbitrary: st w)
    case (Cons t ts)
    then show ?case by (cases st) (auto simp: case_prod_beta intro!: Cons.IH gt split: sum.split option.split)
  qed simp
  have vl: "R w0 (snd (verify_commit_loop E ep rq n err w))" if "R w0 w" for w0 ep rq n err w
    using that
  proof (induction n arbitrary: err w)
    case (Suc n)
    then show ?case by (auto simp: case_prod_beta intro!: Suc.IH keeps_tees keeps_prover split: sum.split)
  qed (auto intro: keeps_prover)
  have sync: "R w0 (snd (sync_rear E m w))" if "R w0 w" for w0 m w
    using that by (auto simp: sync_rear_def case_prod_beta intro!: keeps_prover split: option.split)
  have commit: "R w0 (outcome_state (cert_commit E c w))" if "R w0 w" for w0 c w
    using that by (auto simp: cert_commit_def Let_def case_prod_beta intro!: keeps_roll gl keeps_queries split: sum.split option.split)
  have prove: "R w0 (outcome_state (cert_prove E m rows w))" if "R w0 w" for w0 m rows w
    using that by (auto simp: cert_prove_def Let_def case_prod_beta intro!: keeps_roll keeps_set_pois keeps_queries keeps_prover
      split: sum.split option.split)
  have verify: "R w0 (outcome_state (cert_verify E ep ps w))" if "R w0 w" for w0 ep ps w
    using that by (auto simp: cert_verify_def Let_def case_prod_beta intro!: keeps_roll vl keeps_queries split: sum.split option.split)
  have info: "R w0 (outcome_state (cert_info E k resp w))" if "R w0 w" for w0 k resp w
    using that by (auto simp: cert_info_def intro!: keeps_roll split: option.split prod.split)
  have submit: "R w0 (outcome_state (cert_submit E i s1 s2 k w))" if "R w0 w" for w0 i s1 s2 k w
    using that by (auto simp: cert_submit_def case_prod_beta intro!: keeps_roll keeps_queries keeps_prover keeps_txs split: sum.split option.split)
  have update: "R w0 (outcome_state (cert_update E resp ps w))" if "R w0 w" for w0 resp ps w
    using that by (auto simp: cert_update_def case_prod_beta intro!: keeps_prover keeps_rest split: option.split)
  have tr: "R w0 (outcome_state (cert_transaction E m c w))" if "R w0 w" for w0 m c w
    using that by (auto simp: cert_transaction_def case_prod_beta intro!: keeps_part commit prove verify info submit update)
  have round: "R w0 (outcome_state (cert_round E w))" if "R w0 w" for w0 w
    using that by (auto simp: cert_round_def case_prod_beta intro!: tr sync keeps_queries keeps_prover split: sum.split option.split)
  have wait: "R w0 (outcome_state (wait_commit E n w))" if "R w0 w" for w0 n w
    using that
  proof (induction n arbitrary: w)
    case (Suc n)
    then show ?case by (auto simp: case_prod_beta intro!: Suc.IH keeps_prover split: bool.split)
  qed simp
  have att: "R w0 (outcome_state (attestationidle E fuel n w))" if "R w0 w" for w0 n w
    using that
  proof (induction n arbitrary: w)
    case (Suc n)
    have inner: "R w0 (outcome_state (andThen (cert_round E (on_run f w1)) (\<lambda>r w2. case r of Inl e \<Rightarrow> Ret e w2
        | Inr _ \<Rightarrow> attestationidle E fuel n w2)))" if "R w0 w1" for f w1
      by (rule keeps_bind [OF round [OF keeps_run [OF that]]]) (simp add: Suc.IH split: sum.split)
    show ?case unfolding attestationidle.simps by (rule keeps_bind [OF wait [OF Suc.prems]]) (rule inner)
  qed simp
  show ?thesis by (auto simp: CertIdle_def R_refl intro!: keeps_bind att keeps_run)
qed

lemma keeps_ReplaceIdle: "R w (outcome_state (ReplaceIdle E w))"
proof -
  have num: "R w0 (outcome_state (repl_number E w))" if "R w0 w" for w0 w
    using that by (auto simp: repl_number_def Let_def case_prod_beta intro!: keeps_roll keeps_prover keeps_txs split: sum.split)
  have pf: "R w0 (outcome_state (repl_proof E n w))" if "R w0 w" for w0 n w
    using that by (auto simp: repl_proof_def case_prod_beta intro!: keeps_roll keeps_prover split: sum.split option.split)
  have sync: "R w0 (outcome_state (repl_sync E w))" if "R w0 w" for w0 w
    using that by (auto simp: repl_sync_def case_prod_beta intro!: keeps_roll keeps_set_pois keeps_queries keeps_prover
      split: sum.split option.split)
  have vt: "R w0 (snd (verify_del_try E t rq n w))" if "R w0 w" for w0 t rq n w
    using that
  proof (induction n arbitrary: w)
    case (Suc n)
    then show ?case by (auto simp: case_prod_beta intro!: Suc.IH keeps_tees split: sum.split)
  qed simp
  have vl: "R w0 (snd (verify_del_loop E rq ts st w))" if "R w0 w" for w0 rq ts st w
    using that
  proof (induction ts arbitrary: st w)
    case (Cons t ts)
    then show ?case by (cases st) (auto simp: case_prod_beta intro!: Cons.IH vt split: sum.split option.split)
  qed simp
  have verify: "R w0 (outcome_state (repl_verify E p w))" if "R w0 w" for w0 p w
    using that by (auto simp: repl_verify_def Let_def case_prod_beta intro!: keeps_roll vl keeps_queries split: sum.split option.split)
  have info: "R w0 (outcome_state (repl_info E resp k w))" if "R w0 w" for w0 resp k w
    using that by (auto simp: repl_info_def intro!: keeps_roll split: option.split prod.split)
  have submit: "R w0 (outcome_state (repl_submit E c w))" if "R w0 w" for w0 c w
    using that by (auto simp: repl_submit_def case_prod_beta intro!: keeps_roll keeps_prover keeps_txs split: option.split)
  have fin: "R w0 (outcome_state (repl_finish E n w))" if "R w0 w" for w0 n w
    using that by (auto simp: repl_finish_def case_prod_beta intro!: keeps_roll keeps_queries keeps_prover split: sum.split option.split)
  show ?thesis
    by (auto simp: ReplaceIdle_def case_prod_beta R_refl intro!: keeps_bind keeps_part num pf sync verify info submit fin)
qed

lemma keeps_putfragment: "R w (outcome_state (putfragment E fuel fid h form w))"
proof -
  have tmp: "R w0 (outcome_state (fresh_tmp E n fid w))" if "R w0 w" for w0 n w
    using that
  proof (induction n arbitrary: w)
    case (Suc n)
    then show ?case by (auto simp: Let_def case_prod_beta intro!: Suc.IH keeps_queries split: sum.split)
  qed simp
  have sv: "R w0 (outcome_state (saveFormFile E n fid form w))" if "R w0 w" for w0 n w
    using that by (auto simp: saveFormFile_def Let_def case_prod_beta intro!: keeps_bind tmp keeps_fs keeps_fs_upd
      split: sum.split option.split)
  have ck: "R w0 (snd (checkFragment E fid g w))" if "R w0 w" for w0 g w
    using that by (auto simp: checkFragment_def case_prod_beta intro!: keeps_queries split: sum.split)
  have ac: "R w0 (snd (accept_upload E fid g p n w))" if "R w0 w" for w0 g p n w
  proof -
    obtain r w1 where c: "checkFragment E fid g w = (r, w1)" by fastforce
    have w1: "R w0 w1" using ck [OF that, of g] c by simp
    obtain e2 w2 where m: "on_fs (\<lambda>fs. os_MkdirAll fs (Join [GetReportDir (w_ws w1), fid])) w1 = (e2, w2)" by fastforce
    have w2: "R w0 w2" using keeps_fs [OF w1] m by (metis snd_conv)
    have fin: "R w0 (snd (case on_fs f w2 of (None, w3) \<Rightarrow> (RespJson 200 OK, w3) | (Some e, w3) \<Rightarrow> (RespJson 500 ERR_SystemErr, w3)))" for f
      using keeps_fs [OF w2, of f] by (auto split: prod.split option.split)
    show ?thesis using that w1 w2 fin by (simp add: accept_upload_def c m split: sum.split option.split bool.split)
  qed
  have pz: "R w0 (snd (put_zero E fid g w))" if "R w0 w" for w0 g w
    using that by (auto simp: put_zero_def case_prod_beta intro!: keeps_fs split: option.split)
  show ?thesis
    by (auto simp: putfragment_def case_prod_beta R_refl intro!: keeps_bind sv ac pz keeps_fs split: sum.split option.split)
qed

lemma keeps_serve: "R w (outcome_state (serve E X fuel sv rq w))"
  by (auto simp: serve_def run_handler_def outcome_state_then_Ret R_refl keeps_putfragment split: option.split handler.split)

end

subsection \<open>Relations that are not about the challenge handled\<close>

text \<open>A relation that allows the calls of a handler and its notes in the cache, for every challenge.\<close>

locale service_free = run_rel R Q for R :: "world \<Rightarrow> world \<Rightarrow> bool" and Q :: "event \<Rightarrow> bool" +
  fixes E :: env
  assumes Q_service: "verifying_event e \<Longrightarrow> Q e" "Q (EvSubmitServiceProof p r)" "Q (EvSubmitVerifyServiceResult a b d t r)"
    and R_look: "R w (snd (db_Get E k w))"
    and R_note: "R w (snd (db_Put E (service_proof_key s) v w))" "R w (snd (db_Put E (service_result_key s) v w))"
    and R_unnote: "R w (snd (db_Delete E (service_proof_key s) w))" "R w (snd (db_Delete E (service_result_key s) w))"
begin

lemma keeps_service_db:
  assumes "R w0 w"
  shows "R w0 (snd (db_Get E k w))" "R w0 (snd (db_Put E (service_proof_key s) v w))" "R w0 (snd (db_Put E (service_result_key s) v w))"
  by (rule R_trans [OF assms], rule R_look R_note)+

lemma keeps_block: "R w0 w \<Longrightarrow> R w0 (snd (GetBlockLatest E w))"
  using keeps_event [of w0 w] Q_service(1) by (simp add: GetBlockLatest_def Let_def)

lemma keeps_proof_loop: "R w0 w \<Longrightarrow> R w0 (snd (submit_proof_loop E p n w))"
proof (induction n arbitrary: w)
  case (Suc n)
  have "R w0 (snd (SubmitServiceProof E p w))"
    using keeps_event [OF Suc.prems Q_service(2)] by (simp add: SubmitServiceProof_def Let_def)
  then show ?case by (auto simp: case_prod_beta intro: Suc.IH)
qed simp

lemma keeps_result_loop: "R w0 w \<Longrightarrow> R w0 (snd (submit_result_loop E a b d t n e w))"
proof (induction n arbitrary: e w)
  case (Suc n)
  have "R w0 (snd (SubmitVerifyServiceResult E a b d t w))"
    using keeps_event [OF Suc.prems Q_service(3)] by (simp add: SubmitVerifyServiceResult_def Let_def)
  then show ?case by (auto simp: case_prod_beta intro: Suc.IH)
qed simp

lemma keeps_proof_submission: "R w (snd (service_submit_proof E p s slip rec w))"
  by (auto simp: service_submit_proof_def submitServiceProof_def Let_def case_prod_beta R_refl
    intro!: keeps_service_db keeps_block keeps_proof_loop keeps_fs split: sum.split)

lemma keeps_result_submission: "R w (service_submit_result E a b d t s vslip rec w)"
  by (auto simp: service_submit_result_def submitServiceResult_def Let_def case_prod_beta R_refl
    intro!: keeps_service_db keeps_block keeps_result_loop keeps_fs split: sum.split)

end

sublocale service_free \<subseteq> any: handler_run R E c for c
  by unfold_locales (auto intro: R_event Q_service(1) proving_is_verifying R_fs R_run R_refl R_trans R_look R_unnote
    keeps_proof_submission keeps_result_submission)

locale idle_free = run_rel R Q for R :: "world \<Rightarrow> world \<Rightarrow> bool" and Q :: "event \<Rightarrow> bool" +
  fixes E :: env
  assumes Q_idle: "idle_event e \<Longrightarrow> Q e" "Q (EvSubmitIdleProof p r)" "Q (EvSubmitVerifyIdleResult a b d f g h t r)"
    and R_look: "R w (snd (db_Get E k w))"
    and R_note: "R w (snd (db_Put E (idle_proof_key s) v w))" "R w (snd (db_Put E (idle_result_key s) v w))"
    and R_unnote: "R w (snd (db_Delete E (idle_proof_key s) w))" "R w (snd (db_Delete E (idle_result_key s) w))"
begin

lemma keeps_idle_db:
  assumes "R w0 w"
  shows "R w0 (snd (db_Get E k w))" "R w0 (snd (db_Put E (idle_proof_key s) v w))" "R w0 (snd (db_Put E (idle_result_key s) v w))"
  by (rule R_trans [OF assms], rule R_look R_note)+

lemma keeps_block: "R w0 w \<Longrightarrow> R w0 (snd (GetBlockLatest E w))"
  using keeps_event [of w0 w] Q_idle(1) by (simp add: GetBlockLatest_def Let_def)

lemma keeps_proof_loop: "R w0 w \<Longrightarrow> R w0 (snd (idle_proof_loop E p n w))"
proof (induction n arbitrary: w)
  case (Suc n)
  have "R w0 (snd (SubmitIdleProof E p w))"
    using keeps_event [OF Suc.prems Q_idle(2)] by (simp add: SubmitIdleProof_def Let_def)
  then show ?case by (auto simp: case_prod_beta intro: Suc.IH)
qed simp

lemma keeps_result_loop: "R w0 w \<Longrightarrow> R w0 (snd (idle_result_loop E r n w))"
proof (induction n arbitrary: w)
  case (Suc n)
  have "R w0 (snd (send_idle_result E r w))"
    using keeps_event [OF Suc.prems Q_idle(3)] by (simp add: send_idle_result_def SubmitVerifyIdleResult_def Let_def)
  then show ?case by (auto simp: case_prod_beta intro: Suc.IH)
qed simp

lemmas keeps_idle_all = keeps_idle_db keeps_block keeps_proof_loop keeps_result_loop keeps_fs

lemma keeps_idle_submissions:
  "R w (snd (idle_submit_proof E p s slip f rec w))" "R w (idle_submit_result E r s vslip rec w)" "R w (idle_empty E s slip rec w)"
  by (auto simp: idle_submit_proof_def idle_submit_result_def idle_empty_def submitIdleProof_def submitIdleResult_def Let_def
    case_prod_beta R_refl intro!: keeps_idle_all split: sum.split)

end

sublocale idle_free \<subseteq> any: idle_handler R E c for c
  by unfold_locales (auto intro: R_event Q_idle(1) R_fs R_run R_refl R_trans R_look R_unnote keeps_idle_submissions)

end
