(* ===== verification/System.thy ===== *)
theory System
  imports Workers Scheduler
begin

text \<open>
  The running node: the workers that the main loop and the challenge manager start (\<^verbatim>\<open>Start\<close> in \<^verbatim>\<open>src/node/node.go\<close> and
  \<^verbatim>\<open>src/node/challenge.go\<close>), the check of the prover at the start, the reconnection and the requests of the web server, in any
  order and any number. What the scheduler logs as started is run here on the state of the node, one worker after the other,
  whether it returns, panics or is cut off while it waits.
\<close>

subsection \<open>Running what was started\<close>

fun run_started :: "env \<Rightarrow> nat \<Rightarrow> (nat \<Rightarrow> nat) \<Rightarrow> started \<Rightarrow> world \<Rightarrow> world" where
  "run_started E fuel rnd (Periodic k t rs) w =
     (case k of
        SyncMinerW \<Rightarrow> syncMinerStatus E w
      | ReportW \<Rightarrow> ReportFiles E w
      | GenIdleW \<Rightarrow> GenIdle E w
      | CertIdleW \<Rightarrow> outcome_state (CertIdle E fuel w)
      | CalcTagW \<Rightarrow> CalcTag E w
      | ReplaceIdleW \<Rightarrow> outcome_state (ReplaceIdle E w)
      | RestoreW \<Rightarrow> RestoreFiles E rnd w
      | _ \<Rightarrow> w)"
| "run_started E fuel rnd TeeStarted w = SyncTeeInfo E w"
| "run_started E fuel rnd (IdleStarted ch b) w =
     outcome_state (idleChallenge E fuel (cs_Start ch) (cs_IdleSlip ch) (cs_VerifySlip ch) (cs_Front ch) (cs_Rear ch)
       (cs_SpaceParam ch) (cs_Accumulator ch) (cs_TeeSig ch) w)"
| "run_started E fuel rnd (ServiceStarted ch b) w =
     outcome_state (serviceChallenge E fuel (cs_ServiceIndex ch) (cs_ServiceValue ch) (cs_Start ch) (cs_ServiceSlip ch)
       (cs_VerifySlip ch) w)"

text \<open>A piece of work, with the rounds its waiting loops are given and, for the restoring of fragments, the random numbers.\<close>

datatype work =
    Worker nat "nat \<Rightarrow> nat" started
  | ProverCheck int
  | Reconnect
  | WebRequest nat request

fun do_work :: "env \<Rightarrow> webLib \<Rightarrow> server \<Rightarrow> work \<Rightarrow> world \<Rightarrow> world" where
  "do_work E X sv (Worker fuel rnd x) w = run_started E fuel rnd x w"
| "do_work E X sv (ProverCheck cpus) w = outcome_state (CheckPois E cpus w)"
| "do_work E X sv Reconnect w = Reconnectrpc E w"
| "do_work E X sv (WebRequest fuel rq) w = outcome_state (serve E X fuel sv rq w)"

definition run_node :: "env \<Rightarrow> webLib \<Rightarrow> server \<Rightarrow> work list \<Rightarrow> world \<Rightarrow> world" where
  "run_node E X sv = fold (do_work E X sv)"

text \<open>The challenge handlers among the work are for challenges that satisfy \<open>ok\<close>.\<close>

fun for_challenge :: "(u32 \<Rightarrow> bool) \<Rightarrow> work \<Rightarrow> bool" where
  "for_challenge ok (Worker fuel rnd (IdleStarted ch b)) = ok (cs_Start ch)"
| "for_challenge ok (Worker fuel rnd (ServiceStarted ch b)) = ok (cs_Start ch)"
| "for_challenge ok _ = True"

subsection \<open>Relations kept by the whole node\<close>

locale node_rel = side_work R E for R :: "world \<Rightarrow> world \<Rightarrow> bool" and E :: env +
  fixes ok :: "u32 \<Rightarrow> bool"
  assumes R_service: "ok c \<Longrightarrow> R w (outcome_state (serviceChallenge E fuel idx rnd c slip vslip w))"
    and R_idle: "ok c \<Longrightarrow> R w (outcome_state (idleChallenge E fuel c slip vslip f r cr a ts w))"
begin

lemma keeps_started: "for_challenge ok (Worker fuel rnd x) \<Longrightarrow> R w (run_started E fuel rnd x w)"
  by (cases x) (auto simp: R_refl keeps_syncMinerStatus keeps_ReportFiles keeps_GenIdle keeps_CertIdle keeps_CalcTag
    keeps_ReplaceIdle keeps_RestoreFiles keeps_SyncTeeInfo R_service R_idle split: worker.split)

lemma keeps_work: "for_challenge ok x \<Longrightarrow> R w (do_work E X sv x w)"
  by (cases x) (simp_all add: keeps_started keeps_CheckPois keeps_Reconnectrpc keeps_serve)

lemma keeps_node: "list_all (for_challenge ok) xs \<Longrightarrow> R w (run_node E X sv xs w)"
  unfolding run_node_def by (induction xs arbitrary: w) (auto simp: R_refl intro: R_trans keeps_work)

end

lemma any_challenge [simp]: "list_all (for_challenge (\<lambda>_. True)) xs"
proof -
  have "for_challenge (\<lambda>_. True) x" for x by (cases "(\<lambda>_ :: u32. True, x)" rule: for_challenge.cases) simp_all
  then show ?thesis by (simp add: list_all_iff)
qed

subsection \<open>Keys of the cache\<close>

lemma key_kinds [simp]:
  "service_proof_key s \<noteq> idle_proof_key c" "service_result_key s \<noteq> idle_proof_key c"
  "idle_proof_key s \<noteq> service_proof_key c" "idle_result_key s \<noteq> service_proof_key c"
  "Cach_prefix_Tag @ k \<noteq> service_proof_key c" "Cach_prefix_Tag @ k \<noteq> idle_proof_key c"
  by (simp_all add: service_proof_key_def service_result_key_def idle_proof_key_def idle_result_key_def Cach_prefix_Tag_def
    Prefix_service_chall_proof_def Prefix_service_chall_result_def Prefix_idle_chall_proof_def Prefix_idle_chall_result_def)

subsection \<open>The paths and the record of workers\<close>

definition settled :: "env \<Rightarrow> world \<Rightarrow> world \<Rightarrow> bool" where
  "settled E w w' \<longleftrightarrow> w_ws w' = w_ws w \<and> (typed_tees (e_sdk E) (w_tee w) \<longrightarrow> typed_tees (e_sdk E) (w_tee w'))"

interpretation settled_service: service_free "settled E" "\<lambda>_. True" E for E
  by unfold_locales (auto simp: settled_def frame_simps db_Get_state db_Put_state db_Delete_state)

interpretation settled_idle: idle_free "settled E" "\<lambda>_. True" E for E
  by unfold_locales (auto simp: settled_def frame_simps db_Get_state db_Put_state db_Delete_state)

interpretation settled_side: side_work "settled E" E for E
  by unfold_locales (auto simp: settled_def frame_simps db_Put_state typed_SaveTee typed_DeleteTee)

interpretation settled: node_rel "settled E" E "\<lambda>_. True" for E
  by unfold_locales (rule settled_service.any.keeps_serviceChallenge settled_idle.any.keeps_idleChallenge)+

subsection \<open>Marks in the cache\<close>

text \<open>Every mark of any challenge is backed by a submission of its kind that came back with a block hash; what is stored under
  other keys is free.\<close>

definition of_kind :: "string \<Rightarrow> bytes \<Rightarrow> bool" where
  "of_kind p k \<longleftrightarrow> take (length p) k = p"

fun mark_backed :: "event list \<Rightarrow> dbop \<Rightarrow> bool" where
  "mark_backed h (DbPut k v r) \<longleftrightarrow>
     (of_kind Prefix_service_chall_proof k \<longrightarrow> (\<exists>e \<in> set h. hash_of_proof e \<noteq> []))
     \<and> (of_kind Prefix_service_chall_result k \<longrightarrow> (\<exists>e \<in> set h. hash_of_result e \<noteq> []))
     \<and> (of_kind Prefix_idle_chall_proof k \<longrightarrow> (\<exists>e \<in> set h. idle_hash_of_proof e \<noteq> []))
     \<and> (of_kind Prefix_idle_chall_result k \<longrightarrow> (\<exists>e \<in> set h. idle_hash_of_result e \<noteq> [] \<or> empty_idle_accepted e))"
| "mark_backed h _ \<longleftrightarrow> True"

definition all_backed :: "event list \<Rightarrow> dbop list \<Rightarrow> bool" where
  "all_backed h d \<longleftrightarrow> list_all (mark_backed h) d"

lemma backed_more: "mark_backed h x \<Longrightarrow> mark_backed (g @ h) x \<and> mark_backed (h @ g) x"
  by (cases x) auto

lemmas key_defs = service_proof_key_def service_result_key_def idle_proof_key_def idle_result_key_def Cach_prefix_Tag_def
  Prefix_service_chall_proof_def Prefix_service_chall_result_def Prefix_idle_chall_proof_def Prefix_idle_chall_result_def

lemma service_backed: "justified c h x \<Longrightarrow> mark_backed h x"
  by (cases x) (auto simp: of_kind_def key_defs)

lemma idle_backed: "idle_justified c h x \<Longrightarrow> mark_backed h x"
  by (cases x) (auto simp: of_kind_def key_defs)

lemma tag_kind [simp]:
  "\<not> of_kind Prefix_service_chall_proof (Cach_prefix_Tag @ k)" "\<not> of_kind Prefix_service_chall_result (Cach_prefix_Tag @ k)"
  "\<not> of_kind Prefix_idle_chall_proof (Cach_prefix_Tag @ k)" "\<not> of_kind Prefix_idle_chall_result (Cach_prefix_Tag @ k)"
  by (simp_all add: of_kind_def key_defs)

interpretation backed_trace: quiet_trace all_backed "\<lambda>_. True"
  by unfold_locales (auto simp: all_backed_def list_all_iff backed_more)

interpretation backed_side: side_work "adds all_backed" E for E
proof unfold_locales
  show "adds all_backed w (snd (db_Put E (Cach_prefix_Tag @ k) v w))" for k v w
    unfolding db_Put_state by (rule backed_trace.adds_db) (simp add: all_backed_def)
qed (auto intro: backed_trace.R_event backed_trace.R_fs backed_trace.R_run backed_trace.R_refl backed_trace.R_trans
  backed_trace.adds_same)

interpretation marked: node_rel "adds all_backed" E "\<lambda>_. True" for E
proof unfold_locales
  show "adds all_backed w (outcome_state (serviceChallenge E fuel idx rnd c slip vslip w))" for w fuel idx rnd c slip vslip
    by (rule adds_mono [OF marks.keeps_serviceChallenge])
      (auto simp: all_justified_def all_backed_def list_all_iff intro: service_backed)
  show "adds all_backed w (outcome_state (idleChallenge E fuel c slip vslip f r cr a ts w))" for w fuel c slip vslip f r cr a ts
    by (rule adds_mono [OF idle_marks.keeps_idleChallenge])
      (auto simp: idle_all_justified_def all_backed_def list_all_iff intro: idle_backed)
qed

definition node_env :: env where
  "node_env = sync_env\<lparr>x_GetBlockLatest := \<lambda>_. Inr 3, x_SubmitIdleProof := \<lambda>_ _. (''0x1'', None),
     x_SubmitServiceProof := \<lambda>_ _. (''0x2'', None),
     x_rpc_RequestBatchVerify := \<lambda>_ _ _ _. Inr \<lparr>rv_TeeAccountId = ''aa'', rv_Signature = ''ss'',
       rv_ServiceBloomFilter = [], rv_BatchVerifyResult = True\<rparr>\<rparr>"

definition node_work :: "work list" where
  "node_work = (let go = Worker 1 (\<lambda>_. 0) in
     [go TeeStarted, go (IdleStarted demo_challenge 1), go (ServiceStarted demo_challenge 1), WebRequest 1 upload_request,
      go (IdleStarted demo_challenge 2), go (ServiceStarted demo_challenge 2), go (Periodic CalcTagW 60 NewRunstatus)])"

definition node_after :: world where
  "node_after = run_node node_env simple_lib (InitWebServer InitMiddlewares 80) node_work sync_world"

definition outline :: "world \<Rightarrow> nat \<times> nat \<times> bool \<times> bool \<times> (string \<times> teeInfo) list" where
  "outline w = (accepted proof_accepted w, accepted idle_proof_accepted w, noted (service_proof_key 1) w,
     noted (idle_result_key 1) w, teeList (w_tee w))"

lemma node_after_outline:
  "outline node_after = (1, 1, True, True, [(''6162'', \<lparr>EndPoint = ''ab:80'', Type = 1\<rparr>)])"
  by code_simp

lemma node_after_facts:
  "accepted proof_accepted node_after = 1" "accepted idle_proof_accepted node_after = 1" "noted (service_proof_key 1) node_after"
  "noted (idle_result_key 1) node_after" "teeList (w_tee node_after) = [(''6162'', \<lparr>EndPoint = ''ab:80'', Type = 1\<rparr>)]"
  using node_after_outline unfolding outline_def prod.inject by blast+

text \<open>
  C8. Whatever is started in whatever order, for whatever challenges, and whatever the chain, the workers and the clients
  of the web server do: the paths of the workspace never change, the record of TEE workers stays well-typed, and every mark of a
  submission that the cache has gained is backed by a submission of that kind that the chain has accepted since.
\<close>

theorem run_node_keeps:
  assumes "typed_tees (e_sdk E) (w_tee w)"
  shows "(let w' = run_node E X sv xs w in
     w_ws w' = w_ws w \<and> typed_tees (e_sdk E) (w_tee w')
     \<and> (\<exists>h d. w_hist w' = w_hist w @ h \<and> w_db w' = w_db w @ d \<and> all_backed h d))"
  using assms settled.keeps_node [OF any_challenge, of E w X sv xs] marked.keeps_node [OF any_challenge, of w E X sv xs]
  by (simp add: Let_def settled_def adds_def)

theorem run_node_keeps_witness:
  "teeList (w_tee node_after) = [(''6162'', \<lparr>EndPoint = ''ab:80'', Type = 1\<rparr>)] \<and> typed_tees (e_sdk node_env) (w_tee node_after)
   \<and> w_ws node_after = w_ws sync_world \<and> noted (idle_result_key 1) node_after \<and> noted (service_proof_key 1) node_after
   \<and> (\<exists>h d. w_hist node_after = w_hist sync_world @ h \<and> w_db node_after = w_db sync_world @ d \<and> all_backed h d)"
proof -
  have t: "typed_tees (e_sdk node_env) (w_tee sync_world)"
    by (simp add: typed_tees_def tees_ok_def sync_world_def NewTeeRecord_def)
  have k: "w_ws node_after = w_ws sync_world \<and> typed_tees (e_sdk node_env) (w_tee node_after)
     \<and> (\<exists>h d. w_hist node_after = w_hist sync_world @ h \<and> w_db node_after = w_db sync_world @ d \<and> all_backed h d)"
    using run_node_keeps [OF t, of simple_lib "InitWebServer InitMiddlewares 80" node_work]
    unfolding Let_def node_after_def [symmetric] .
  show ?thesis
    by (intro conjI) (rule node_after_facts conjunct1 [OF conjunct2 [OF k]] conjunct1 [OF k] conjunct2 [OF conjunct2 [OF k]])+
qed

subsection \<open>At most one accepted proof of each kind\<close>

lemma side_not_accepted: "side_event e \<Longrightarrow> \<not> proof_accepted e" "side_event e \<Longrightarrow> \<not> idle_proof_accepted e"
  by (cases e rule: side_event.cases;
      auto simp: proof_accepted_def idle_proof_accepted_def hash_of_proof_def idle_hash_of_proof_def split: tx_event.splits)+

lemma within_other: "j \<noteq> k \<Longrightarrow> within A k w (snd (db_Put E j v w))" "j \<noteq> k \<Longrightarrow> within A k w (snd (db_Delete E j w))"
  by (simp_all add: within_def budget_Put_other budget_Delete_other)

lemma other_kind [simp]:
  "verifying_event e \<Longrightarrow> \<not> idle_proof_accepted e" "idle_event e \<Longrightarrow> \<not> proof_accepted e"
  "\<not> idle_proof_accepted (EvSubmitServiceProof p r)" "\<not> idle_proof_accepted (EvSubmitVerifyServiceResult a b d t r)"
  "\<not> proof_accepted (EvSubmitIdleProof p r)" "\<not> proof_accepted (EvSubmitVerifyIdleResult y1 y2 y3 y4 y5 y6 y7 r)"
  by (simp_all add: side_not_accepted verifying_side idle_side)
    (simp_all add: proof_accepted_def idle_proof_accepted_def hash_of_proof_def idle_hash_of_proof_def)

lemmas within_intros = within_refl within_trans within_same within_Get within_other

interpretation idle_budget: service_free "within idle_proof_accepted (idle_proof_key c)" "\<lambda>e. \<not> idle_proof_accepted e" E for c E
  by unfold_locales (auto intro: within_intros simp: within_event)

interpretation service_budget: idle_free "within proof_accepted (service_proof_key c)" "\<lambda>e. \<not> proof_accepted e" E for c E
  by unfold_locales (auto intro: within_intros simp: within_event)

interpretation service_side: side_work "within proof_accepted (service_proof_key c)" E for c E
  by unfold_locales (auto intro: within_intros simp: within_event side_not_accepted)

interpretation idle_side: side_work "within idle_proof_accepted (idle_proof_key c)" E for c E
  by unfold_locales (auto intro: within_intros simp: within_event side_not_accepted)

lemma service_node:
  assumes "reliable (e_db E)"
  shows "node_rel (within proof_accepted (service_proof_key c)) E (\<lambda>s. s = c)"
proof unfold_locales
  show "within proof_accepted (service_proof_key c) w (outcome_state (serviceChallenge E fuel idx rnd s slip vslip w))"
    if "s = c" for s w fuel idx rnd slip vslip
    unfolding that by (rule handler_run.keeps_serviceChallenge [OF handler_within [OF assms]])
qed (rule service_budget.any.keeps_idleChallenge)

lemma idle_node:
  assumes "reliable (e_db E)"
  shows "node_rel (within idle_proof_accepted (idle_proof_key c)) E (\<lambda>s. s = c)"
proof unfold_locales
  show "within idle_proof_accepted (idle_proof_key c) w (outcome_state (idleChallenge E fuel s slip vslip f r cr a ts w))"
    if "s = c" for s w fuel slip vslip f r cr a ts
    unfolding that by (rule idle_handler.keeps_idleChallenge [OF idle_handler_within [OF assms]])
qed (rule idle_budget.any.keeps_serviceChallenge)

lemma within_accepted: "within A k w w' \<Longrightarrow> accepted A w' \<le> accepted A w + (if noted k w then 0 else 1)"
  using budget_bounds(1) by (fastforce simp: within_def budget_def intro: order_trans)

text \<open>
  C3. Over a cache without input/output errors, everything the node does while challenge \<open>c\<close> is open, however often it starts the
  handlers again and whatever it does in between, gets at most one service proof and one idle proof accepted by the chain, and
  none of a kind whose submission the cache notes already.
\<close>

theorem run_node_accepts_once:
  assumes "reliable (e_db E)" and "list_all (for_challenge (\<lambda>s. s = c)) xs"
  shows "accepted proof_accepted (run_node E X sv xs w)
      \<le> accepted proof_accepted w + (if noted (service_proof_key c) w then 0 else 1)
    \<and> accepted idle_proof_accepted (run_node E X sv xs w)
      \<le> accepted idle_proof_accepted w + (if noted (idle_proof_key c) w then 0 else 1)"
  by (intro conjI within_accepted node_rel.keeps_node [OF service_node [OF assms(1)] assms(2)]
    node_rel.keeps_node [OF idle_node [OF assms(1)] assms(2)])

theorem run_node_accepts_once_witness:
  "accepted proof_accepted node_after = 1 \<and> accepted idle_proof_accepted node_after = 1
   \<and> accepted proof_accepted (run_node node_env simple_lib (InitWebServer InitMiddlewares 80) node_work node_after) \<le> 1"
proof (intro conjI)
  show "accepted proof_accepted node_after = 1" "accepted idle_proof_accepted node_after = 1" by (rule node_after_facts)+
  have rel: "reliable (e_db node_env)" by (simp add: node_env_def sync_env_def demo_env_def mem_reliable)
  have ok: "list_all (for_challenge (\<lambda>s. s = 1)) node_work" by code_simp
  show "accepted proof_accepted (run_node node_env simple_lib (InitWebServer InitMiddlewares 80) node_work node_after) \<le> 1"
    using conjunct1 [OF run_node_accepts_once [OF rel ok, of simple_lib "InitWebServer InitMiddlewares 80" node_after]]
    by (simp only: node_after_facts(1,3) if_True add_0_right)
qed

end
