(* ===== verification/Clients.thy ===== *)
theory Clients
  imports NodeWorld
begin

text \<open>
  The functions of \<^verbatim>\<open>src/pkg/com\<close> that nothing in the miner calls: clients over a connection, and two requests. Connecting, the client
  that generated code makes of a connection, and the call are arguments; the others are in \<open>NodeWorld\<close>, with the environment of
  the node.
\<close>

text \<open>\<^verbatim>\<open>grpc.NewClient\<close> or \<^verbatim>\<open>grpc.Dial\<close>, and the constructor of the generated code; an error of the first is returned.\<close>

definition new_client :: "(string \<Rightarrow> 'o \<Rightarrow> 'c result) \<Rightarrow> ('c \<Rightarrow> 'k) \<Rightarrow> string \<Rightarrow> 'o \<Rightarrow> 'k result" where
  "new_client dial client target opts = (case dial target opts of Inl err \<Rightarrow> Inl err | Inr conn \<Rightarrow> Inr (client conn))"

definition NewPodr2ApiClient :: "(string \<Rightarrow> 'o \<Rightarrow> 'c result) \<Rightarrow> ('c \<Rightarrow> 'k) \<Rightarrow> string \<Rightarrow> 'o \<Rightarrow> 'k result" where
  "NewPodr2ApiClient NewClient podr2 = new_client NewClient podr2"

definition NewPodr2VerifierApiClient :: "(string \<Rightarrow> 'o \<Rightarrow> 'c result) \<Rightarrow> ('c \<Rightarrow> 'k) \<Rightarrow> string \<Rightarrow> 'o \<Rightarrow> 'k result" where
  "NewPodr2VerifierApiClient NewClient verifier = new_client NewClient verifier"

definition NewPubkeyApiClient :: "(string \<Rightarrow> 'o \<Rightarrow> 'c result) \<Rightarrow> ('c \<Rightarrow> 'k) \<Rightarrow> string \<Rightarrow> 'o \<Rightarrow> 'k result" where
  "NewPubkeyApiClient Dial pubkeys = new_client Dial pubkeys"

definition NewPoisCertifierApiClient :: "(string \<Rightarrow> 'o \<Rightarrow> 'c result) \<Rightarrow> ('c \<Rightarrow> 'k) \<Rightarrow> string \<Rightarrow> 'o \<Rightarrow> 'k result" where
  "NewPoisCertifierApiClient Dial certifier = new_client Dial certifier"

definition NewPoisVerifierApiClient :: "(string \<Rightarrow> 'o \<Rightarrow> 'c result) \<Rightarrow> ('c \<Rightarrow> 'k) \<Rightarrow> string \<Rightarrow> 'o \<Rightarrow> 'k result" where
  "NewPoisVerifierApiClient Dial verifier = new_client Dial verifier"

text \<open>A request over a connection of its own. The answer of the call has both halves, which are returned as they are.\<close>

definition RequestEcho ::
  "(string \<Rightarrow> 'o \<Rightarrow> 'c result) \<Rightarrow> ('c \<Rightarrow> 'k) \<Rightarrow> ('k \<Rightarrow> 'm \<Rightarrow> 'a option \<times> goerr option) \<Rightarrow> string \<Rightarrow> 'm \<Rightarrow> 'o
     \<Rightarrow> 'a option \<times> goerr option" where
  "RequestEcho NewClient podr2 Echo target echoMessage dialOpts =
     (case NewPodr2ApiClient NewClient podr2 target dialOpts of
        Inl err \<Rightarrow> (None, Some err)
      | Inr c \<Rightarrow> Echo c echoMessage)"

definition GetMasterPubkey ::
  "(string \<Rightarrow> 'o \<Rightarrow> 'c result) \<Rightarrow> ('c \<Rightarrow> 'k) \<Rightarrow> ('k \<Rightarrow> 'm \<Rightarrow> 'a option \<times> goerr option) \<Rightarrow> string \<Rightarrow> 'm \<Rightarrow> 'o
     \<Rightarrow> 'a option \<times> goerr option" where
  "GetMasterPubkey Dial pubkeys call target request dialOpts =
     (case NewPubkeyApiClient Dial pubkeys target dialOpts of
        Inl err \<Rightarrow> (None, Some err)
      | Inr c \<Rightarrow> call c request)"

definition RequestGenTag :: "('k \<Rightarrow> 's option \<times> goerr option) \<Rightarrow> 'k \<Rightarrow> 's option \<times> goerr option" where
  "RequestGenTag call c = call c"

text \<open>No request is sent without a connection.\<close>

lemma no_connection_no_request:
  "dial target opts = Inl err \<Longrightarrow> RequestEcho dial client call target m opts = (None, Some err)"
  "dial target opts = Inl err \<Longrightarrow> GetMasterPubkey dial client call target m opts = (None, Some err)"
  by (simp_all add: RequestEcho_def GetMasterPubkey_def NewPodr2ApiClient_def NewPubkeyApiClient_def new_client_def)

end
