(* ===== verification/CommandTree.thy ===== *)
theory CommandTree
  imports Commands Configs
begin

text \<open>
  The tree of commands (\<^verbatim>\<open>rootCmd\<close> and the \<^verbatim>\<open>cobra.Command\<close> values of \<^verbatim>\<open>src/cmd/console\<close>, with the \<^verbatim>\<open>init\<close> functions that put
  them together), the flags every command has, and \<^verbatim>\<open>Execute\<close>. Finding the command of an argument list and parsing its flags is the
  command-line library's; what its functions do is in \<open>Commands\<close>, \<open>Template\<close> and \<open>Spec2Isabelle\<close>.
\<close>

text \<open>The function a command runs.\<close>

datatype handler =
    RunUsage | RunStart | RunRun | RunConfig | RunVersion | RunStat | RunReward | RunClaim | RunExit | RunWithdraw
  | RunIncStaking | RunIncSpace | RunUpdEarnings | RunUpdEndpoint

datatype command = Command (cm_Use: string) (cm_Short: string) (cm_Run: "handler option") (cm_Commands: "command list")

definition startCmd :: command where
  "startCmd = Command ''start'' ''Running without a configuration file'' (Some RunStart) []"

definition runCmd :: command where
  "runCmd = Command ''run'' ''Running through a configuration file'' (Some RunRun) []"

definition configCmd :: command where
  "configCmd = Command ''config'' ''Generate configuration file'' (Some RunConfig) []"

definition versionCmd :: command where
  "versionCmd = Command ''version'' ''Show version'' (Some RunVersion) []"

definition statCmd :: command where
  "statCmd = Command ''stat'' ''Query storage miner information'' (Some RunStat) []"

definition rewardCmd :: command where
  "rewardCmd = Command ''reward'' ''Query reward information'' (Some RunReward) []"

definition claimCmd :: command where
  "claimCmd = Command ''claim'' ''Claim reward'' (Some RunClaim) []"

definition exitCmd :: command where
  "exitCmd = Command ''exit'' ''Unregister the storage miner role'' (Some RunExit) []"

definition withdrawCmd :: command where
  "withdrawCmd = Command ''withdraw'' ''Withdraw staking'' (Some RunWithdraw) []"

definition increaseStakingCmd :: command where
  "increaseStakingCmd = Command ''staking'' ''Increase staking, the unit is TCESS'' (Some RunIncStaking) []"

definition increaseSpaceCmd :: command where
  "increaseSpaceCmd = Command ''space'' ''Increase space, the unit is TiB'' (Some RunIncSpace) []"

definition increaseCmd :: command where
  "increaseCmd = Command ''increase'' ''Increase [staking | space]'' None [increaseStakingCmd, increaseSpaceCmd]"

definition updateEarningsCmd :: command where
  "updateEarningsCmd = Command ''earnings'' ''Update earnings account'' (Some RunUpdEarnings) []"

definition updateEndpointCmd :: command where
  "updateEndpointCmd = Command ''endpoint'' ''Update endpoint'' (Some RunUpdEndpoint) []"

definition updateCmd :: command where
  "updateCmd = Command ''update'' ''Update inforation [earnings | endpoint]'' None [updateEarningsCmd, updateEndpointCmd]"

definition Description :: string where
  "Description = ''Storage miner implementation in CESS networks''"

text \<open>The commands in the order of their files, in which their \<^verbatim>\<open>init\<close> functions run.\<close>

definition rootCmd :: command where
  "rootCmd = Command Name Description (Some RunUsage)
     [claimCmd, configCmd, exitCmd, increaseCmd, rewardCmd, runCmd, startCmd, statCmd, updateCmd, versionCmd, withdrawCmd]"

lemmas command_defs = rootCmd_def claimCmd_def configCmd_def exitCmd_def increaseCmd_def rewardCmd_def runCmd_def startCmd_def
  statCmd_def updateCmd_def versionCmd_def withdrawCmd_def increaseStakingCmd_def increaseSpaceCmd_def updateEarningsCmd_def
  updateEndpointCmd_def

text \<open>The flags of every command: name, short form, and kind.\<close>

datatype flagKind = FString | FStrings | FUint16 | FInt | FUint64

definition persistentFlags :: "(string \<times> string \<times> flagKind) list" where
  "persistentFlags =
     [(''config'', ''c'', FString), (''rpcs'', [], FStrings), (''workspace'', [], FString), (''staking'', [], FString),
      (''earnings'', [], FString), (''port'', [], FUint16), (''cpu'', [], FInt), (''space'', [], FUint64),
      (''mnemonic'', [], FString), (''tees'', [], FStrings), (''endpoint'', [], FString)]"

text \<open>\<^verbatim>\<open>rootCmd.Execute\<close> runs a function of the tree or fails; then the process ends with status 1.\<close>

definition Execute :: "(command \<Rightarrow> string list \<Rightarrow> handler option result) \<Rightarrow> string list \<Rightarrow> handler option \<times> nat" where
  "Execute cobra args = (case cobra rootCmd args of Inl err \<Rightarrow> (None, 1) | Inr h \<Rightarrow> (h, 0))"

definition main :: "(command \<Rightarrow> string list \<Rightarrow> handler option result) \<Rightarrow> string list \<Rightarrow> handler option \<times> nat" where
  "main cobra args = Execute cobra args"

text \<open>Names decide which command is meant, and every function is run by one command.\<close>

fun handlers :: "command \<Rightarrow> handler list" where
  "handlers (Command u s r cs) = (case r of None \<Rightarrow> [] | Some h \<Rightarrow> [h]) @ concat (map handlers cs)"

fun names_distinct :: "command \<Rightarrow> bool" where
  "names_distinct (Command u s r cs) \<longleftrightarrow> distinct (map cm_Use cs) \<and> list_all names_distinct cs"

lemma rootCmd_names: "names_distinct rootCmd"
  by (simp add: command_defs)

lemma rootCmd_handlers: "distinct (handlers rootCmd) \<and> set (handlers rootCmd) = UNIV"
proof
  show "distinct (handlers rootCmd)" by (simp add: command_defs)
  show "set (handlers rootCmd) = UNIV"
  proof (intro equalityI subset_UNIV subsetI)
    fix h :: handler
    show "h \<in> set (handlers rootCmd)" by (cases h) (simp_all add: command_defs)
  qed
qed

lemma flag_names: "distinct (map fst persistentFlags)"
  by (simp add: persistentFlags_def)

end
