(* ===== verification/Spec2Isabelle.thy ===== *)
theory Spec2Isabelle
  imports BatchLaws IdleLaws Restore Workspace Podr2 Cache RunStatus TeeRecord CalcTag Scheduler Init Web IdleGen IdleRepl Commands Template Liveness Node System
    Clients CommandTree
begin

text \<open>
  A model of the CESS storage miner (Go sources under \<^verbatim>\<open>src/\<close>) with the theorems that make it correct.

  \<^bold>\<open>The program.\<close> The miner is a daemon. It registers with a chain, keeps service files (fragments that users store)
  and idle files (space it proves to hold), and answers the chain's challenges for both with the help of TEE
  workers, which compute tags and verify proofs. \<^verbatim>\<open>node/init.go\<close> starts it, \<^verbatim>\<open>node/node.go\<close> runs a loop that starts workers
  periodically, each of them a Go routine with a channel of one token; the workers share the run status, the
  record of TEE workers, the workspace on disk and a LevelDB cache, and talk to the chain through the SDK and to the
  TEE workers through gRPC. A web interface takes uploads and gives out fragments and the status.

  \<^bold>\<open>How it is modelled.\<close> \<open>Prelude\<close> has the vocabulary: bytes, Go errors, results, and outcomes (return, panic, or a waiting
  loop out of rounds, each with the state reached). \<open>GoStrings\<close> and \<open>GoFiles\<close> model what the sources use of Go's strings,
  numbers, hexadecimal, paths and file system; every file operation may fail (\<open>ffault\<close>). \<open>Literals\<close>, \<open>Json\<close> and \<open>Codec\<close> model
  what is used of \<^verbatim>\<open>encoding/json\<close> and \<^verbatim>\<open>encoding/base64\<close>: UTF-8, string literals, printing and parsing (a printed value is read
  back; the length of a text bounds the parser), and decoding into Go values with its errors; \<open>json_codec\<close> is the interface of an encoder and a
  decoder that fit together. \<open>Stored\<close> has the JSON of the tag files, the service record and the random numbers. \<open>NodeTypes\<close> has the
  records for the chain, the TEE messages and the stored data; \<open>Configs\<close> constants. \<open>NodeWorld\<close> has the state of the node
  (\<open>world\<close>: disk, cache, run status, workers, paths, space-proof state, and the history of external calls) and its
  environment (\<open>env\<close>): the chain, the TEE workers, the space prover, signatures and HTTP are parameters, functions of the
  history that may answer anything, so a theorem holds for every behaviour of them unless it names a hypothesis. Every
  external call is logged in the history with its arguments and its answer, so that theorems can speak of what was sent,
  in which order, and after which answer. The requests of \<^verbatim>\<open>pkg/com\<close> stand there too; \<open>Clients\<close> has those that nothing calls.

  \<^bold>\<open>Components.\<close>
  \<^item> \<open>Utils\<close> and \<open>Host\<close> (\<^verbatim>\<open>pkg/utils/util.go\<close>: directories and files; disk, memory, ports and addresses), \<open>Cache\<close> (\<^verbatim>\<open>pkg/cache\<close>), \<open>RunStatus\<close> (\<^verbatim>\<open>node/runstatus\<close>), \<open>TeeRecord\<close> (\<^verbatim>\<open>node/record/tee.go\<close>),
    \<open>Workspace\<close> (\<^verbatim>\<open>node/workspace\<close>), \<open>Confile\<close> (\<^verbatim>\<open>pkg/confile\<close>): the data the node keeps. Lookups after updates (as locales, with
    the Go code as their instances), round trips of stored records, what building and wiping the workspace does, the lock on
    the connection, and configurations that stay valid under the setters, as far as the setters check.
  \<^item> \<open>Podr2\<close> (\<^verbatim>\<open>node/podr2.go\<close>, \<^verbatim>\<open>calcQSlice\<close>): proofs of possession. Their algebraic value, aggregation in two ways
    agreeing, the split of a file into blocks.
  \<^item> \<open>ServiceChal\<close>, \<open>ServiceLaws\<close>, \<open>BatchLaws\<close> (\<^verbatim>\<open>node/chlgservice.go\<close>) and \<open>IdleChal\<close>, \<open>IdleLaws\<close> (\<^verbatim>\<open>node/chlgidle.go\<close>): the two
    challenge handlers. Marks in the cache are backed by accepted submissions, at most one proof is accepted per
    challenge, the accepted batches hold the proofs of all fragments in order, with their aggregates, the segments of an idle proof are
    asked for with the hash of the segment before, and the handlers return when the chain's height passes the deadlines. \<open>Runs\<close> has the common part: relations that every step keeps, the end of
    waiting loops, and the budget of submissions.
  \<^item> \<open>CalcTag\<close> (\<^verbatim>\<open>node/calctag.go\<close>), \<open>Report\<close> (\<^verbatim>\<open>node/report.go\<close>), \<open>Restore\<close> (\<^verbatim>\<open>node/restore.go\<close>): the life of a service file. The
    numbering of tags, a stored tag is read back through its JSON, no report without confirmation, the bytes of a fragment are never lost while it is moved, exactly the complete
    columns are tried to be reported, what restoring leaves on disk, orders are completed only after they were claimed.
  \<^item> \<open>IdleGen\<close>, \<open>IdleCert\<close>, \<open>IdleRepl\<close> (\<^verbatim>\<open>node/idlegen.go\<close>, \<^verbatim>\<open>idlecert.go\<close>, \<^verbatim>\<open>idlerepl.go\<close>): the life of idle files. Generation stays
    within the declared, configured and free space; certificates carry what a worker verified; transactions of the prover
    are ended; replacement refines an automaton of its protocol, in which a prover that fails to follow is a state of its own, and its number of files is exact at machine width.
  \<^item> \<open>ChainSync\<close> (\<^verbatim>\<open>node/chainsync.go\<close>, parts of \<^verbatim>\<open>node/node.go\<close>), \<open>Init\<close> (\<^verbatim>\<open>node/init.go\<close>), \<open>Scheduler\<close> (\<^verbatim>\<open>node/node.go\<close>,
    \<^verbatim>\<open>node/challenge.go\<close>): running the node. Recorded workers are vouched for by the chain and, where none are configured, by themselves; a known miner keeps its files
    when it starts and is not registered again; the interleaving of the main loop, the challenge managers and the
    workers is a step relation, with invariants for one instance of each worker, the spacing of starts, and
    challenges started only when the chain reported them and while they are open. \<open>Liveness\<close> has its infinite runs: a worker of the main loop whose
    instances end is started again and again. \<open>Workers\<close> has the interfaces under which each worker and each web request keeps a
    relation between states, and \<open>System\<close> runs what the scheduler starts, one worker after the other, on the state of the node:
    at most one accepted proof of each kind per challenge and marks that are backed, whatever else is done in between.
  \<^item> \<open>Web\<close> (\<^verbatim>\<open>node/web\<close>) and \<open>Server\<close> (its routes, the signature check and the middlewares in front of it): the handlers.
    Accepted uploads are checked against the chain (all but the fragment of zeros), ranges give exactly their bytes, no request destroys a file or changes anything
    without a signature.
  \<^item> \<open>Console\<close>, \<open>Commands\<close>, \<open>CommandTree\<close>, \<open>Template\<close> (\<^verbatim>\<open>cmd/console\<close>, \<^verbatim>\<open>configs/system.go\<close>, \<^verbatim>\<open>pkg/fout\<close>): the configuration from flags, typed
    answers or a file, which passes the same checks on each way, the commands, which send at most one transaction or print a
    table, and the configuration file to start from. The terminal is a list of reads; a prompt without an answer that is taken
    is \<open>Spin\<close>.
  \<^item> \<open>Logger\<close> (\<^verbatim>\<open>node/logger\<close>) and \<open>Node\<close> (\<^verbatim>\<open>InitNode\<close>): the loggers with their files, and the node as it is put together from
    chain client, loggers, cache and web server. The end of this theory composes the command line, \<open>Node\<close> and \<open>Scheduler\<close>: what holds
    when the main loop is entered.

  \<^bold>\<open>Bounds.\<close> A loop that waits for an outside event takes a number of rounds (\<open>fuel\<close>) and is \<open>Spin\<close> when they are used up; the
  theorems on termination (\<open>serviceChallenge_returns\<close>, \<open>idleChallenge_returns\<close>) show that rounds enough for the chain to
  pass its deadlines are enough. All other loops are structural. Block heights, space and ports are words of the width the
  code has.

  \<^bold>\<open>Not modelled.\<close> Time-outs of calls and pauses (an outside call answers or fails), the log messages of the
  handlers (\<open>Logger\<close> has where a message goes, not who writes it), goroutine interleaving inside a
  worker (each worker is sequential; the interleaving of their starts and ends is in \<open>Scheduler\<close>, and \<open>System\<close> runs them
  whole, in any order), the SDK, LevelDB, the space prover, gRPC, HTTP and cryptography (parameters), the JSON of the idle record
  (a parameter: the records here leave out the nil pointers of the messages in it) and of types of other modules (their codecs),
  generated protocol code beyond its messages, the certificates, and how an argument list is matched against the tree of commands
  (the command-line library does).
\<close>

subsection \<open>From the command line to the running node\<close>

text \<open>
  \<^verbatim>\<open>startCmdFunc\<close> and \<^verbatim>\<open>runCmdFunc\<close>: a configuration, the node it makes, and the main loop that is entered. \<open>None\<close>: the process
  ends or waits before. The disk is the one that making the configuration leaves.
\<close>

definition boot :: "env \<Rightarrow> machine \<Rightarrow> nat \<Rightarrow> int \<Rightarrow> node \<Rightarrow> (console, unit option) outcome \<Rightarrow> (confile \<times> node \<times> sched) option" where
  "boot E M fuel tNow nd r =
     (case r of
        Ret (Some _) c \<Rightarrow>
          (case InitNode (E\<lparr>e_conf := cn_conf c\<rparr>) M fuel (nd\<lparr>nd_world := (nd_world nd)\<lparr>w_fs := cn_fs c\<rparr>\<rparr>) of
             Ret (Some _) nd' \<Rightarrow> Some (cn_conf c, nd', Start tNow (w_run (nd_world nd')))
           | _ \<Rightarrow> None)
      | _ \<Rightarrow> None)"

definition startCmdFunc :: "env \<Rightarrow> machine \<Rightarrow> nat \<Rightarrow> int \<Rightarrow> node \<Rightarrow> bool \<Rightarrow> int \<Rightarrow> flags \<Rightarrow> console \<Rightarrow> (confile \<times> node \<times> sched) option" where
  "startCmdFunc E M fuel tNow nd sane cpus f c = boot E M fuel tNow nd (buildConfigs (e_conflib E) sane cpus f c)"

definition runCmdFunc :: "env \<Rightarrow> machine \<Rightarrow> nat \<Rightarrow> int \<Rightarrow> node \<Rightarrow> bool \<Rightarrow> int \<Rightarrow> flags \<Rightarrow> console \<Rightarrow> (confile \<times> node \<times> sched) option" where
  "runCmdFunc E M fuel tNow nd sane cpus f c = boot E M fuel tNow nd (InitConfigFile (e_conflib E) sane cpus f c)"

lemma boot_Some:
  assumes "boot E M fuel tNow nd r = Some (cfg, nd', s)"
  obtains c where "r = Ret (Some ()) c" and "cfg = cn_conf c"
    and "InitNode (E\<lparr>e_conf := cn_conf c\<rparr>) M fuel (nd\<lparr>nd_world := (nd_world nd)\<lparr>w_fs := cn_fs c\<rparr>\<rparr>) = Ret (Some ()) nd'"
    and "s = Start tNow (w_run (nd_world nd'))"
proof -
  obtain c where r: "r = Ret (Some ()) c" using assms by (cases r) (auto simp: boot_def split: option.splits)
  let ?m = "InitNode (E\<lparr>e_conf := cn_conf c\<rparr>) M fuel (nd\<lparr>nd_world := (nd_world nd)\<lparr>w_fs := cn_fs c\<rparr>\<rparr>)"
  obtain x nd1 where m: "?m = Ret x nd1" using assms by (cases ?m) (simp_all add: boot_def r)
  then have x: "x = Some ()" using assms by (cases x) (simp_all add: boot_def r)
  then have "boot E M fuel tNow nd r = Some (cn_conf c, nd1, Start tNow (w_run (nd_world nd1)))" using m by (simp add: boot_def r)
  with assms have "cfg = cn_conf c" "nd' = nd1" "s = Start tNow (w_run (nd_world nd1))" by auto
  then show ?thesis by (intro that [OF r]) (simp_all add: m x)
qed

text \<open>
  C9. A miner the chain knows, started on either way, enters its main loop with a sound configuration, with its workspace in place,
  with a status in which nothing is under way, and with every service file and space file that was on the disk when the command was
  entered.
\<close>
theorem started_node:
  assumes run: "startCmdFunc E M fuel tNow nd sane cpus f c = Some (cfg, nd', s)
      \<or> runCmdFunc E M fuel tNow nd sane cpus f c = Some (cfg, nd', s)"
    and known: "known_miner E" and wf: "wf_fs (cn_fs c)" and root: "rooted (cf_Workspace cfg)"
    and order: "\<And>xs. mset (mc_order M xs) = mset xs" and nm: "nm = ''file'' \<or> nm = ''space''"
  shows "can_sign (e_conflib E) cfg \<and> 1024 \<le> cf_Port cfg
    \<and> (\<forall>d \<in> set ws_dirs. is_dir (w_fs (nd_world nd')) (resolve (Join [cf_Workspace cfg, e_signacc E, Name]) @ [d]))
    \<and> (let p = resolve (Join [cf_Workspace cfg, e_signacc E, Name]) @ nm # q in file_at (w_fs (nd_world nd')) p = file_at (cn_fs c) p)
    \<and> sched_reach s \<and> no_challenge (sc_status s)"
proof -
  obtain c1 where c1: "configured (e_conflib E) c c1" and cfg: "cfg = cn_conf c1" and s: "s = Start tNow (w_run (nd_world nd'))"
    and I: "InitNode (E\<lparr>e_conf := cn_conf c1\<rparr>) M fuel (nd\<lparr>nd_world := (nd_world nd)\<lparr>w_fs := cn_fs c1\<rparr>\<rparr>) = Ret (Some ()) nd'"
    using run unfolding startCmdFunc_def runCmdFunc_def
    by (auto elim!: boot_Some dest!: buildConfigs_configured InitConfigFile_configured)
  let ?E = "E\<lparr>e_conf := cn_conf c1\<rparr>"
  have wf1: "wf_fs (w_fs (nd_world (nd\<lparr>nd_world := (nd_world nd)\<lparr>w_fs := cn_fs c1\<rparr>\<rparr>)))" using c1 wf by (simp add: configured_def)
  have root1: "rooted (ReadWorkspace (e_conf ?E))" using root by (simp add: ReadWorkspace_def cfg)
  have n: "node_root ?E = Join [cf_Workspace cfg, e_signacc E, Name]" by (simp add: node_root_def ReadWorkspace_def cfg)
  have "known_miner ?E" using known by (simp add: known_miner_def)
  note f = InitNode_files [OF I this wf1 root1 order nm, of q]
  note l = InitNode_leaves [OF I wf1 root1 order]
  have "no_challenge (sc_status s)" using l by (simp add: s Start_def no_challenge_def fresh_status_def)
  moreover have "sched_reach s" by (simp add: s sched_reach.Init)
  ultimately show ?thesis using c1 l f by (simp add: n cfg configured_def Let_def)
qed

definition boot_console :: console where
  "boot_console = \<lparr>cn_conf = NewConfigFile, cn_fs = \<lparr>fnodes = [([], DirNode), ([''w''], DirNode), ([''w'', ''acc''], DirNode),
     ([''w'', ''acc'', ''miner''], DirNode), ([''w'', ''acc'', ''miner'', ''file''], DirNode),
     ([''w'', ''acc'', ''miner'', ''file'', ''f''], FileNode ''x'')], ffault = \<lambda>_ _. False\<rparr>,
     cn_lines = [Inr ''r'', Inr ''w'', Inr ''/w'', Inr ''a'', Inr ''4001'', Inr [], Inr []], cn_pwds = [Inr ''m'']\<rparr>"

definition boot_env :: env where
  "boot_env = ready_env\<lparr>e_conflib := demo_read,
     e_reg := (e_reg ready_env)\<lparr>ParsingPublickey := \<lambda>_. Inr []\<rparr>\<rparr>"

theorem started_node_witness:
  "\<exists>cfg nd' s. startCmdFunc boot_env ready_machine 1 5 ready_node True 4 demo_flags boot_console = Some (cfg, nd', s)
     \<and> can_sign demo_read cfg \<and> file_at (w_fs (nd_world nd')) [''w'', ''acc'', ''miner'', ''file'', ''f''] = Some ''x'' \<and> sched_reach s"
proof -
  have c: "(case startCmdFunc boot_env ready_machine 1 5 ready_node True 4 demo_flags boot_console of
      Some (cfg, _) \<Rightarrow> cf_Workspace cfg = ''/w'' | None \<Rightarrow> False)" by code_simp
  then obtain cfg nd' s where run: "startCmdFunc boot_env ready_machine 1 5 ready_node True 4 demo_flags boot_console = Some (cfg, nd', s)"
      and ws: "cf_Workspace cfg = ''/w''" by (auto split: option.splits)
  have known: "known_miner boot_env" by (simp add: known_miner_def boot_env_def ready_env_def start_env_def)
  have wf: "wf_fs (cn_fs boot_console)" by (simp add: boot_console_def wf_fs_def is_dir_def node_at_def)
  have root: "rooted (cf_Workspace cfg)" by (simp add: ws rooted_def)
  have order: "mset (mc_order ready_machine xs) = mset xs" for xs by (simp add: ready_machine_def)
  have p: "resolve (Join [''/w'', e_signacc boot_env, Name]) @ [''file'', ''f''] = [''w'', ''acc'', ''miner'', ''file'', ''f'']"
      "file_at (cn_fs boot_console) [''w'', ''acc'', ''miner'', ''file'', ''f''] = Some ''x''" "e_conflib boot_env = demo_read"
    by (code_simp, code_simp, simp add: boot_env_def)
  from started_node [OF disjI1 [OF run] known wf root order disjI1 [OF refl], of "[''f'']"] run p show ?thesis
    by (auto simp: ws Let_def)
qed

end
